(* ===== verification/GoStrings.thy ===== *)
theory GoStrings
  imports Main "HOL-Library.Char_ord" "HOL-Library.List_Lexorder" "HOL-Library.Code_Target_Nat"
begin

text \<open>
  The part of Go's \<^verbatim>\<open>strings\<close>, \<^verbatim>\<open>bytes\<close> and \<^verbatim>\<open>strconv\<close> packages that the program
  uses, on byte strings. A Go string is a sequence of bytes, so it is modelled by
  \<^typ>\<open>string\<close>, a list of 8-bit characters. Case mapping and white space are those of
  the ASCII range: bytes from 128 on are left as they are by \<open>to_lower\<close> and
  \<open>to_upper\<close> and are no white space for \<open>trim_space\<close> and \<open>str_fields\<close>. The
  definitions agree with Go on every ASCII string, and on every other string whose
  multi-byte characters have no case and are no white space.

  The theory also declares the theorem collection \<open>line_safe\<close> of the development: the
  facts that a string carries no line break.
\<close>

named_theorems line_safe

type_synonym bytes = "char list"

abbreviation CR :: char where "CR \<equiv> CHR 0x0D"
abbreviation LF :: char where "LF \<equiv> CHR 0x0A"
abbreviation TAB :: char where "TAB \<equiv> CHR 0x09"
abbreviation SP :: char where "SP \<equiv> CHR 0x20"
abbreviation NUL :: char where "NUL \<equiv> CHR 0x00"
abbreviation DQ :: char where "DQ \<equiv> CHR 0x22"
abbreviation CRLF :: string where "CRLF \<equiv> [CR, LF]"

section \<open>Characters\<close>

definition char_code :: "char \<Rightarrow> nat" where
  "char_code c = of_char c"

definition is_upper :: "char \<Rightarrow> bool" where
  "is_upper c \<longleftrightarrow> 65 \<le> char_code c \<and> char_code c \<le> 90"

definition is_lower :: "char \<Rightarrow> bool" where
  "is_lower c \<longleftrightarrow> 97 \<le> char_code c \<and> char_code c \<le> 122"

definition is_digit :: "char \<Rightarrow> bool" where
  "is_digit c \<longleftrightarrow> 48 \<le> char_code c \<and> char_code c \<le> 57"

definition is_space :: "char \<Rightarrow> bool" where
  "is_space c \<longleftrightarrow> c = SP \<or> c = TAB \<or> c = LF \<or> c = CR \<or> c = CHR 0x0B \<or> c = CHR 0x0C"

definition lower_char :: "char \<Rightarrow> char" where
  "lower_char c = (if is_upper c then char_of (char_code c + 32) else c)"

definition upper_char :: "char \<Rightarrow> char" where
  "upper_char c = (if is_lower c then char_of (char_code c - 32) else c)"

definition to_lower :: "string \<Rightarrow> string" where
  "to_lower s = map lower_char s"

definition to_upper :: "string \<Rightarrow> string" where
  "to_upper s = map upper_char s"

definition equal_fold :: "string \<Rightarrow> string \<Rightarrow> bool" where
  "equal_fold s t \<longleftrightarrow> to_lower s = to_lower t"

lemma lower_char_idem [simp]: "lower_char (lower_char c) = lower_char c"
  by (simp add: lower_char_def is_upper_def char_code_def)

lemma to_lower_idem [simp]: "to_lower (to_lower s) = to_lower s"
  by (simp add: to_lower_def)

lemma to_lower_Nil [simp]: "to_lower [] = []"
  by (simp add: to_lower_def)

lemma to_lower_append: "to_lower (s @ t) = to_lower s @ to_lower t"
  by (simp add: to_lower_def)

lemma length_to_lower [simp]: "length (to_lower s) = length s"
  by (simp add: to_lower_def)

lemma to_lower_eq_Nil [simp]: "to_lower s = [] \<longleftrightarrow> s = []"
  by (simp add: to_lower_def)

lemma equal_fold_refl [simp]: "equal_fold s s"
  by (simp add: equal_fold_def)

lemma equal_fold_sym: "equal_fold s t \<Longrightarrow> equal_fold t s"
  by (simp add: equal_fold_def)

lemma equal_fold_trans: "equal_fold s t \<Longrightarrow> equal_fold t u \<Longrightarrow> equal_fold s u"
  by (simp add: equal_fold_def)

lemma lower_char_eq_nonletter:
  assumes "\<not> is_lower d" and "\<not> is_upper d"
  shows "lower_char c = d \<longleftrightarrow> c = d"
proof (cases "is_upper c")
  case True
  then have "is_lower (lower_char c)"
    by (simp add: lower_char_def is_upper_def is_lower_def char_code_def)
  then show ?thesis using assms True by auto
next
  case False
  then show ?thesis by (simp add: lower_char_def)
qed

section \<open>Prefixes, suffixes and searching\<close>

definition has_prefix :: "string \<Rightarrow> string \<Rightarrow> bool" where
  "has_prefix s p \<longleftrightarrow> take (length p) s = p"

definition has_suffix :: "string \<Rightarrow> string \<Rightarrow> bool" where
  "has_suffix s p \<longleftrightarrow> length p \<le> length s \<and> drop (length s - length p) s = p"

definition trim_prefix :: "string \<Rightarrow> string \<Rightarrow> string" where
  "trim_prefix s p = (if has_prefix s p then drop (length p) s else s)"

definition trim_suffix :: "string \<Rightarrow> string \<Rightarrow> string" where
  "trim_suffix s p = (if has_suffix s p then take (length s - length p) s else s)"

fun index_byte :: "char \<Rightarrow> string \<Rightarrow> nat option" where
  "index_byte c [] = None"
| "index_byte c (x # xs) = (if x = c then Some 0 else map_option Suc (index_byte c xs))"

fun last_index :: "char \<Rightarrow> string \<Rightarrow> nat option" where
  "last_index c [] = None"
| "last_index c (x # xs) =
     (case last_index c xs of Some i \<Rightarrow> Some (Suc i) | None \<Rightarrow> if x = c then Some 0 else None)"

fun index_str :: "string \<Rightarrow> string \<Rightarrow> nat option" where
  "index_str p [] = (if p = [] then Some 0 else None)"
| "index_str p (x # xs) =
     (if has_prefix (x # xs) p then Some 0 else map_option Suc (index_str p xs))"

definition contains :: "string \<Rightarrow> string \<Rightarrow> bool" where
  "contains s p \<longleftrightarrow> index_str p s \<noteq> None"

definition contains_any :: "string \<Rightarrow> string \<Rightarrow> bool" where
  "contains_any s cs \<longleftrightarrow> list_ex (\<lambda>c. c \<in> set cs) s"

lemma has_prefix_iff: "has_prefix s p \<longleftrightarrow> (\<exists>t. s = p @ t)"
  by (metis append_eq_conv_conj append_take_drop_id has_prefix_def)

lemma has_prefix_append [simp]: "has_prefix (p @ t) p"
  by (simp add: has_prefix_def)

lemma has_suffix_iff: "has_suffix s p \<longleftrightarrow> (\<exists>t. s = t @ p)"
  by (metis append_take_drop_id append_eq_append_conv2 has_suffix_def length_append
      le_add2 add_diff_cancel_right' append_eq_conv_conj)

lemma has_suffix_append [simp]: "has_suffix (t @ p) p"
  by (simp add: has_suffix_def)

lemma trim_suffix_append [simp]: "trim_suffix (t @ p) p = t"
  by (simp add: trim_suffix_def)

lemma has_suffix_CRLF [simp]: "has_suffix (s @ [CR, LF]) [CR, LF]"
  by simp

lemma set_trim_suffix: "set (trim_suffix s p) \<subseteq> set s"
  by (auto simp: trim_suffix_def dest: in_set_takeD)

lemma length_trim_suffix: "length (trim_suffix s p) \<le> length s"
  by (simp add: trim_suffix_def)

lemma index_byte_Some:
  "index_byte c s = Some i \<Longrightarrow>
     i < length s \<and> s ! i = c \<and> c \<notin> set (take i s) \<and> s = take i s @ c # drop (Suc i) s"
  by (induction s arbitrary: i) (auto split: if_splits)

lemma index_byte_None: "index_byte c s = None \<longleftrightarrow> c \<notin> set s"
  by (induction s) auto

lemma index_byte_append:
  "c \<notin> set s \<Longrightarrow> index_byte c (s @ c # t) = Some (length s)"
  by (induction s) auto

lemma last_index_None: "last_index c s = None \<longleftrightarrow> c \<notin> set s"
  by (induction s) (auto split: option.splits)

lemma last_index_Some:
  "last_index c s = Some i \<Longrightarrow>
     i < length s \<and> s ! i = c \<and> c \<notin> set (drop (Suc i) s) \<and> s = take i s @ c # drop (Suc i) s"
proof (induction s arbitrary: i)
  case Nil
  then show ?case by simp
next
  case (Cons x xs)
  show ?case
  proof (cases "last_index c xs")
    case None
    then have "x = c" "i = 0" "c \<notin> set xs"
      using Cons.prems last_index_None [of c xs] by (auto split: if_splits)
    then show ?thesis by simp
  next
    case (Some j)
    then show ?thesis using Cons by auto
  qed
qed

lemma last_index_append:
  "c \<notin> set t \<Longrightarrow> last_index c (s @ c # t) = Some (length s)"
proof (induction s)
  case Nil
  then show ?case by (simp add: last_index_None [THEN iffD2])
next
  case (Cons x s)
  then show ?case by simp
qed

lemma contains_any_iff: "contains_any s cs \<longleftrightarrow> set s \<inter> set cs \<noteq> {}"
  by (auto simp: contains_any_def list_ex_iff)

section \<open>Trimming\<close>

definition trim_left_set :: "string \<Rightarrow> string \<Rightarrow> string" where
  "trim_left_set s cs = dropWhile (\<lambda>c. c \<in> set cs) s"

definition trim_right_set :: "string \<Rightarrow> string \<Rightarrow> string" where
  "trim_right_set s cs = rev (dropWhile (\<lambda>c. c \<in> set cs) (rev s))"

definition trim_set :: "string \<Rightarrow> string \<Rightarrow> string" where
  "trim_set s cs = trim_right_set (trim_left_set s cs) cs"

definition trim_space :: "string \<Rightarrow> string" where
  "trim_space s = rev (dropWhile is_space (rev (dropWhile is_space s)))"

lemma trim_space_Nil [simp]: "trim_space [] = []"
  by (simp add: trim_space_def)

lemma set_trim_space: "set (trim_space s) \<subseteq> set s"
proof
  fix c assume "c \<in> set (trim_space s)"
  then have "c \<in> set (dropWhile is_space (rev (dropWhile is_space s)))"
    by (simp add: trim_space_def)
  then have "c \<in> set (dropWhile is_space s)" by (metis set_dropWhileD set_rev)
  then show "c \<in> set s" by (rule set_dropWhileD)
qed

lemma set_trim_left_set: "set (trim_left_set s cs) \<subseteq> set s"
  by (auto simp: trim_left_set_def dest!: set_dropWhileD)

lemma set_trim_right_set: "set (trim_right_set s cs) \<subseteq> set s"
  by (auto simp: trim_right_set_def dest: set_dropWhileD)

lemma set_trim_set: "set (trim_set s cs) \<subseteq> set s"
  using set_trim_left_set set_trim_right_set unfolding trim_set_def by blast

lemma trim_space_id:
  assumes "s = [] \<or> (\<not> is_space (hd s) \<and> \<not> is_space (last s))"
  shows "trim_space s = s"
proof (cases "s = []")
  case False
  then obtain x xs where s: "s = x # xs" by (cases s) auto
  have "rev s = last s # rev (butlast s)"
    using False by (metis append_butlast_last_id rev.simps(2) rev_rev_ident)
  with assms s False show ?thesis by (simp add: trim_space_def)
qed simp

lemma hd_dropWhile_not: "dropWhile P xs \<noteq> [] \<Longrightarrow> \<not> P (hd (dropWhile P xs))"
  by (rule hd_dropWhile)

lemma rev_dropWhile_prefix: "\<exists>q. xs = rev (dropWhile P (rev xs)) @ q"
  by (metis rev_append rev_rev_ident takeWhile_dropWhile_id)

lemma trim_space_hd:
  assumes "trim_space s \<noteq> []"
  shows "\<not> is_space (hd (trim_space s)) \<and> \<not> is_space (last (trim_space s))"
proof
  let ?u = "dropWhile is_space s"
  let ?v = "dropWhile is_space (rev ?u)"
  have v: "?v \<noteq> []" using assms by (simp add: trim_space_def)
  then have "\<not> is_space (hd ?v)" by (rule hd_dropWhile_not)
  then show "\<not> is_space (last (trim_space s))"
    using v by (simp add: trim_space_def last_rev)
  have u: "?u \<noteq> []" using v by force
  obtain q where "?u = rev ?v @ q" using rev_dropWhile_prefix by blast
  then have "hd ?u = hd (rev ?v)" using v by (metis hd_append2 rev_is_Nil_conv)
  moreover have "\<not> is_space (hd ?u)" using u by (rule hd_dropWhile_not)
  ultimately show "\<not> is_space (hd (trim_space s))" by (simp add: trim_space_def)
qed

lemma trim_space_idem [simp]: "trim_space (trim_space s) = trim_space s"
  using trim_space_hd trim_space_id by blast

section \<open>Splitting and joining\<close>

fun split_where :: "(char \<Rightarrow> bool) \<Rightarrow> string \<Rightarrow> string list" where
  "split_where p [] = [[]]"
| "split_where p (x # xs) =
     (if p x then [] # split_where p xs
      else (case split_where p xs of [] \<Rightarrow> [[x]] | w # ws \<Rightarrow> (x # w) # ws))"

definition split_on :: "char \<Rightarrow> string \<Rightarrow> string list" where
  "split_on c s = split_where (\<lambda>x. x = c) s"

definition fields_where :: "(char \<Rightarrow> bool) \<Rightarrow> string \<Rightarrow> string list" where
  "fields_where p s = filter (\<lambda>w. w \<noteq> []) (split_where p s)"

definition str_fields :: "string \<Rightarrow> string list" where
  "str_fields s = fields_where is_space s"

text \<open>\<^verbatim>\<open>strings.SplitN(s, c, 2)\<close> and \<^verbatim>\<open>strings.SplitN(s, c, 3)\<close>.\<close>

definition split2 :: "char \<Rightarrow> string \<Rightarrow> string list" where
  "split2 c s = (case index_byte c s of None \<Rightarrow> [s] | Some i \<Rightarrow> [take i s, drop (Suc i) s])"

definition split3 :: "char \<Rightarrow> string \<Rightarrow> string list" where
  "split3 c s = (case index_byte c s of None \<Rightarrow> [s]
     | Some i \<Rightarrow> take i s # split2 c (drop (Suc i) s))"

fun join :: "string \<Rightarrow> string list \<Rightarrow> string" where
  "join sep [] = []"
| "join sep [x] = x"
| "join sep (x # y # ys) = x @ sep @ join sep (y # ys)"

text \<open>\<^verbatim>\<open>strings.ReplaceAll(s, "\r\n", t)\<close> and the single-character form.\<close>

fun replace_crlf :: "string \<Rightarrow> string \<Rightarrow> string" where
  "replace_crlf t (x # y # s) =
     (if x = CR \<and> y = LF then t @ replace_crlf t s else x # replace_crlf t (y # s))"
| "replace_crlf t s = s"

definition replace_char :: "char \<Rightarrow> string \<Rightarrow> string \<Rightarrow> string" where
  "replace_char c t s = concat (map (\<lambda>x. if x = c then t else [x]) s)"

text \<open>\<^verbatim>\<open>strings.SplitAfter(s, "\n")\<close>.\<close>

fun split_after_lf :: "string \<Rightarrow> string list" where
  "split_after_lf [] = [[]]"
| "split_after_lf (x # xs) =
     (if x = LF then [x] # split_after_lf xs
      else (case split_after_lf xs of [] \<Rightarrow> [[x]] | w # ws \<Rightarrow> (x # w) # ws))"

lemma split_where_ne [simp]: "split_where p s \<noteq> []"
  by (cases s) (auto split: list.splits)

lemma split_where_parts: "w \<in> set (split_where p s) \<Longrightarrow> \<forall>c \<in> set w. c \<in> set s \<and> \<not> p c"
  by (induction s arbitrary: w) (fastforce split: if_splits list.splits)+

lemma split_where_no: "\<forall>c \<in> set s. \<not> p c \<Longrightarrow> split_where p s = [s]"
  by (induction s) auto

lemma split_where_append:
  "\<forall>c \<in> set s. \<not> p c \<Longrightarrow> p x \<Longrightarrow> split_where p (s @ x # t) = s # split_where p t"
  by (induction s) auto

lemma fields_where_parts: "w \<in> set (fields_where p s) \<Longrightarrow> w \<noteq> [] \<and> (\<forall>c \<in> set w. c \<in> set s \<and> \<not> p c)"
  using split_where_parts by (auto simp: fields_where_def)

lemma fields_parts: "w \<in> set (str_fields s) \<Longrightarrow> w \<noteq> [] \<and> (\<forall>c \<in> set w. c \<in> set s \<and> \<not> is_space c)"
  unfolding str_fields_def by (rule fields_where_parts)

lemma fields_Nil [simp]: "str_fields [] = []"
  by (simp add: str_fields_def fields_where_def)

lemma fields_single:
  assumes "s \<noteq> []" and "\<forall>c \<in> set s. \<not> is_space c"
  shows "str_fields s = [s]"
  using assms by (simp add: str_fields_def fields_where_def split_where_no)

lemma fields_cons:
  assumes "w \<noteq> []" and "\<forall>c \<in> set w. \<not> is_space c" and "is_space x"
  shows "str_fields (w @ x # t) = w # str_fields t"
  using assms by (simp add: str_fields_def fields_where_def split_where_append)

lemma set_join: "set (join sep ws) \<subseteq> set sep \<union> \<Union> (set ` set ws)"
  by (induction sep ws rule: join.induct) auto

lemma join_split_on: "join [c] (split_on c s) = s"
proof (induction s)
  case Nil
  then show ?case by (simp add: split_on_def)
next
  case (Cons x s)
  obtain w ws where ws: "split_where (\<lambda>x. x = c) s = w # ws"
    by (cases "split_where (\<lambda>x. x = c) s") auto
  from Cons ws show ?case by (cases ws) (auto simp: split_on_def)
qed

lemma split_on_parts: "w \<in> set (split_on c s) \<Longrightarrow> c \<notin> set w"
  using split_where_parts by (fastforce simp: split_on_def)

lemma concat_split_after_lf: "concat (split_after_lf s) = s"
proof (induction s)
  case (Cons x s)
  then show ?case by (cases "split_after_lf s") auto
qed simp

lemma fields_join_sp:
  assumes "\<forall>w \<in> set ws. w \<noteq> [] \<and> (\<forall>c \<in> set w. \<not> is_space c)"
  shows "str_fields (join [SP] ws) = ws"
  using assms
proof (induction "[SP]" ws rule: join.induct)
  case 1
  then show ?case by simp
next
  case (2 w)
  then show ?case by (simp add: fields_single)
next
  case (3 w v ws)
  have "str_fields (w @ SP # join [SP] (v # ws)) = w # str_fields (join [SP] (v # ws))"
    using 3 by (intro fields_cons) (auto simp: is_space_def)
  then show ?case using 3 by simp
qed

section \<open>Numbers\<close>

text \<open>
  \<^verbatim>\<open>strconv.Atoi\<close> and \<^verbatim>\<open>strconv.ParseInt(s, 10, 64)\<close>: an optional sign, then digits,
  and a value that fits a signed 64-bit integer; \<^const>\<open>None\<close> is the error return.
  \<open>show_nat\<close> and \<open>show_int\<close> are the decimal rendering of \<^verbatim>\<open>%d\<close>.
\<close>

definition digit_val :: "char \<Rightarrow> nat" where
  "digit_val c = char_code c - 48"

definition digit_char :: "nat \<Rightarrow> char" where
  "digit_char n = char_of (n + 48)"

fun digits_acc :: "nat \<Rightarrow> string \<Rightarrow> nat option" where
  "digits_acc acc [] = Some acc"
| "digits_acc acc (c # cs) = (if is_digit c then digits_acc (10 * acc + digit_val c) cs else None)"

definition parse_digits :: "string \<Rightarrow> nat option" where
  "parse_digits s = (if s = [] then None else digits_acc 0 s)"

definition parse_uint64 :: "string \<Rightarrow> nat option" where
  "parse_uint64 s = (case parse_digits s of None \<Rightarrow> None
     | Some n \<Rightarrow> if n < 2 ^ 64 then Some n else None)"

definition int64_ok :: "int \<Rightarrow> bool" where
  "int64_ok n \<longleftrightarrow> - (2 ^ 63) \<le> n \<and> n < 2 ^ 63"

definition atoi :: "string \<Rightarrow> int option" where
  "atoi s = (case s of [] \<Rightarrow> None
     | c # cs \<Rightarrow>
       let neg = (c = CHR ''-''); body = (if c = CHR ''-'' \<or> c = CHR ''+'' then cs else s)
       in (case parse_digits body of None \<Rightarrow> None
           | Some n \<Rightarrow> let v = (if neg then - int n else int n)
                        in if int64_ok v then Some v else None))"

fun show_nat :: "nat \<Rightarrow> string" where
  "show_nat n = (if n < 10 then [digit_char n] else show_nat (n div 10) @ [digit_char (n mod 10)])"

declare show_nat.simps [simp del]

definition show_int :: "int \<Rightarrow> string" where
  "show_int n = (if n < 0 then CHR ''-'' # show_nat (nat (- n)) else show_nat (nat n))"

text \<open>
  \<^verbatim>\<open>%q\<close> of \<^verbatim>\<open>fmt\<close>: the text in double quotes, escaped. Bytes from 0x7F on are written as for
  text that is not UTF-8.
\<close>

definition hex_digit :: "nat \<Rightarrow> char" where
  "hex_digit n = (if n < 10 then digit_char n else char_of (n + 87))"

definition quote_char :: "char \<Rightarrow> string" where
  "quote_char c =
     (if c = DQ \<or> c = CHR 0x5C then [CHR 0x5C, c]
      else if c = CHR 0x07 then [CHR 0x5C, CHR ''a''] else if c = CHR 0x08 then [CHR 0x5C, CHR ''b'']
      else if c = CHR 0x0C then [CHR 0x5C, CHR ''f''] else if c = LF then [CHR 0x5C, CHR ''n'']
      else if c = CR then [CHR 0x5C, CHR ''r''] else if c = TAB then [CHR 0x5C, CHR ''t'']
      else if c = CHR 0x0B then [CHR 0x5C, CHR ''v'']
      else if char_code c < 32 \<or> char_code c \<ge> 127
      then [CHR 0x5C, CHR ''x'', hex_digit (char_code c div 16), hex_digit (char_code c mod 16)]
      else [c])"

definition go_quote :: "string \<Rightarrow> string" where
  "go_quote s = DQ # concat (map quote_char s) @ [DQ]"

lemma char_code_digit_char: "n < 10 \<Longrightarrow> char_code (digit_char n) = n + 48"
  by (simp add: char_code_def digit_char_def)

lemma is_digit_digit_char [simp]: "n < 10 \<Longrightarrow> is_digit (digit_char n)"
  by (simp add: is_digit_def char_code_digit_char)

lemma digit_val_digit_char [simp]: "n < 10 \<Longrightarrow> digit_val (digit_char n) = n"
  by (simp add: digit_val_def char_code_digit_char)

lemma digits_acc_snoc:
  "digits_acc a (s @ [c]) =
     (case digits_acc a s of None \<Rightarrow> None
      | Some n \<Rightarrow> if is_digit c then Some (10 * n + digit_val c) else None)"
  by (induction s arbitrary: a) auto

lemma show_nat_ne [simp]: "show_nat n \<noteq> []"
  by (subst show_nat.simps) simp

lemma digits_acc_show_nat: "digits_acc 0 (show_nat n) = Some n"
proof (induction n rule: show_nat.induct)
  case (1 n)
  show ?case
  proof (cases "n < 10")
    case True
    then show ?thesis by (subst show_nat.simps) simp
  next
    case False
    with 1 show ?thesis
      by (subst show_nat.simps) (simp add: digits_acc_snoc)
  qed
qed

lemma show_nat_digits: "c \<in> set (show_nat n) \<Longrightarrow> is_digit c"
proof (induction n rule: show_nat.induct)
  case (1 n)
  show ?case
  proof (cases "n < 10")
    case True
    with "1.prems" show ?thesis by (subst (asm) show_nat.simps) simp
  next
    case False
    with "1.prems" "1.IH" show ?thesis by (subst (asm) show_nat.simps) auto
  qed
qed

lemma parse_digits_show_nat [simp]: "parse_digits (show_nat n) = Some n"
  by (simp add: parse_digits_def digits_acc_show_nat)

lemma atoi_show_nat: "int n < 2 ^ 63 \<Longrightarrow> atoi (show_nat n) = Some (int n)"
proof -
  assume n: "int n < 2 ^ 63"
  obtain c cs where s: "show_nat n = c # cs" by (cases "show_nat n") auto
  have "is_digit c" using s show_nat_digits [of c n] by simp
  then have "c \<noteq> CHR ''-''" "c \<noteq> CHR ''+''"
    by (auto simp: is_digit_def char_code_def)
  moreover have "parse_digits (c # cs) = Some n" using s by (metis parse_digits_show_nat)
  ultimately show ?thesis using n s by (simp add: atoi_def int64_ok_def)
qed

lemma atoi_show_int:
  assumes "int64_ok n"
  shows "atoi (show_int n) = Some n"
proof (cases "n < 0")
  case True
  have "parse_digits (show_nat (nat (- n))) = Some (nat (- n))" by simp
  with True assms show ?thesis by (simp add: show_int_def atoi_def int64_ok_def)
next
  case False
  with assms have "int (nat n) < 2 ^ 63" by (simp add: int64_ok_def)
  then have "atoi (show_nat (nat n)) = Some (int (nat n))" by (rule atoi_show_nat)
  with False show ?thesis by (simp add: show_int_def)
qed

lemma atoi_bound: "atoi s = Some n \<Longrightarrow> int64_ok n"
  by (auto simp: atoi_def Let_def split: list.splits option.splits if_splits)

section \<open>Line safety\<close>

text \<open>
  The SMTP code writes strings into a line protocol. A string is line safe when it holds
  neither CR nor LF, so that writing it followed by CRLF writes exactly one line.
\<close>

definition line_ok :: "string \<Rightarrow> bool" where
  "line_ok s \<longleftrightarrow> CR \<notin> set s \<and> LF \<notin> set s"

lemma line_ok_Nil [line_safe, simp]: "line_ok []"
  by (simp add: line_ok_def)

lemma line_ok_Cons [simp]: "line_ok (c # s) \<longleftrightarrow> c \<noteq> CR \<and> c \<noteq> LF \<and> line_ok s"
  by (auto simp: line_ok_def)

lemma line_ok_append [simp]: "line_ok (s @ t) \<longleftrightarrow> line_ok s \<and> line_ok t"
  by (auto simp: line_ok_def)

lemma line_ok_subset: "line_ok s \<Longrightarrow> set t \<subseteq> set s \<Longrightarrow> line_ok t"
  by (auto simp: line_ok_def)

lemma line_ok_fields_join [line_safe, simp]: "line_ok (join [SP] (str_fields s))"
proof -
  have "c \<noteq> CR \<and> c \<noteq> LF" if "c \<in> set (join [SP] (str_fields s))" for c
  proof -
    from that set_join have "c = SP \<or> (\<exists>w \<in> set (str_fields s). c \<in> set w)" by fastforce
    then show ?thesis using fields_parts by (fastforce simp: is_space_def)
  qed
  then show ?thesis by (auto simp: line_ok_def)
qed

lemma line_ok_show_nat [line_safe, simp]: "line_ok (show_nat n)"
proof -
  have "\<not> is_digit CR" "\<not> is_digit LF" by (simp_all add: is_digit_def char_code_def)
  then show ?thesis unfolding line_ok_def using show_nat_digits by blast
qed

lemma line_ok_show_int [line_safe, simp]: "line_ok (show_int n)"
  by (simp add: show_int_def)

text \<open>A decimal number before a space can be read back.\<close>

lemma show_int_chars: "c \<in> set (show_int n) \<Longrightarrow> c \<noteq> SP"
proof -
  assume c: "c \<in> set (show_int n)"
  have "\<not> is_digit SP" by (simp add: is_digit_def char_code_def)
  then show "c \<noteq> SP" using c show_nat_digits by (auto simp: show_int_def split: if_splits)
qed

lemma show_int_prefix:
  assumes "show_int n @ SP # s = show_int m @ SP # t" and "int64_ok n" and "int64_ok m"
  shows "n = m"
proof -
  have "takeWhile (\<lambda>c. c \<noteq> SP) (show_int k @ SP # u) = show_int k" for k u
    using show_int_chars [of _ k] takeWhile_append2 [of "show_int k" "\<lambda>c. c \<noteq> SP" "SP # u"] by simp
  from this [of n s] this [of m t] have "show_int n = show_int m" unfolding assms(1) by (rule trans [OF sym])
  then have "Some n = Some m"
    by (rule trans [OF trans [OF atoi_show_int [OF assms(2), symmetric] arg_cong [of _ _ atoi]]
          atoi_show_int [OF assms(3)]])
  then show ?thesis by (rule option.inject [THEN iffD1])
qed

end
