(* ===== verification/Delivery.thy ===== *)
theory Delivery
  imports GoStrings
begin

text \<open>
  \<^verbatim>\<open>cmd/mailscript/delivery.go\<close>: what the actions a policy recorded mean for a message
  (\<open>policy_disposition\<close>, \<open>unsupported_delivery_action\<close>), and the strict checks on
  everything that is written into an SMTP dialogue: reply texts, envelope addresses, MAIL
  and RCPT arguments and message bytes.
\<close>

text \<open>
  Go's \<^verbatim>\<open>error\<close> values: an error with its text, or the \<^verbatim>\<open>upstreamError\<close> of
  \<^verbatim>\<open>proxy.go\<close>, which the callers take apart with a type assertion.
\<close>

datatype go_error =
    PlainError string
  | UpstreamError (ue_code: int) (ue_stage: string) (ue_text: string)

record delivery_disposition =
  dd_code :: int
  dd_reason :: string
  dd_quarantine :: bool

definition smtp_reply_text :: "string \<Rightarrow> string" where
  "smtp_reply_text s = join '' '' (str_fields (replace_char NUL [] s))"

section \<open>Policy actions\<close>

definition smtp_error_disposition :: "string \<Rightarrow> delivery_disposition" where
  "smtp_error_disposition action =
     (let parts = split3 CHR '':'' action in
      case atoi (parts ! 1) of
        None \<Rightarrow> \<lparr>dd_code = 451, dd_reason = ''Invalid policy SMTP response'', dd_quarantine = False\<rparr>
      | Some code \<Rightarrow>
          if code < 400 \<or> code > 599
          then \<lparr>dd_code = 451, dd_reason = ''Invalid policy SMTP response'', dd_quarantine = False\<rparr>
          else \<lparr>dd_code = code,
                 dd_reason = (if length parts = 3 then smtp_reply_text (parts ! 2)
                              else ''Message blocked by policy''),
                 dd_quarantine = False\<rparr>)"

definition rejects :: "string \<Rightarrow> bool" where
  "rejects action \<longleftrightarrow>
     action = ''reject'' \<or> action = ''bounce'' \<or> action = ''drop'' \<or> action = ''discard''"

definition quarantines :: "string \<Rightarrow> bool" where
  "quarantines action \<longleftrightarrow> action = ''quarantine'' \<or> action = ''fileinto:Spam''"

definition rejection_reason :: "string \<Rightarrow> string" where
  "rejection_reason action =
     (if action = ''drop'' then ''Message dropped''
      else ''Message rejected by '' @ action @ '' action'')"

fun policy_loop :: "delivery_disposition \<Rightarrow> string list \<Rightarrow> bool \<Rightarrow> delivery_disposition" where
  "policy_loop result [] fq = result"
| "policy_loop result (action # rest) fq =
     (if rejects action then
        \<lparr>dd_code = 550, dd_reason = rejection_reason action, dd_quarantine = False\<rparr>
      else if action = ''defer'' then
        \<lparr>dd_code = 451, dd_reason = ''Message deferred by policy'', dd_quarantine = False\<rparr>
      else if has_prefix action ''smtp_error:'' then smtp_error_disposition action
      else if quarantines action then
        (if \<not> fq
         then \<lparr>dd_code = 550, dd_reason = ''Message quarantined by policy'', dd_quarantine = False\<rparr>
         else policy_loop (result\<lparr>dd_quarantine := True\<rparr>) rest fq)
      else policy_loop result rest fq)"

definition policy_disposition :: "string list \<Rightarrow> bool \<Rightarrow> delivery_disposition" where
  "policy_disposition actions forward_quarantine =
     policy_loop \<lparr>dd_code = 250, dd_reason = ''Message accepted'', dd_quarantine = False\<rparr>
       actions forward_quarantine"

definition unsupported_prefixes :: "string list" where
  "unsupported_prefixes =
     [''fileinto:'', ''auto_reply:'', ''force_second_pass:'', ''reply_with_smtp_dsn:'',
      ''set_dlp:'', ''skip_dlp:'', ''skip_malware_check:'', ''skip_spam_check:'',
      ''skip_whitelist_check:'', ''set_filter_rules:'']"

fun unsupported_prefix_of :: "string list \<Rightarrow> string \<Rightarrow> string option" where
  "unsupported_prefix_of [] action = None"
| "unsupported_prefix_of (p # ps) action =
     (if has_prefix action p \<and> action \<noteq> ''fileinto:Spam'' then Some (trim_suffix p '':'')
      else unsupported_prefix_of ps action)"

fun unsupported_delivery_action :: "string list \<Rightarrow> string" where
  "unsupported_delivery_action [] = []"
| "unsupported_delivery_action (action # rest) =
     (case unsupported_prefix_of unsupported_prefixes action of
        Some name \<Rightarrow> name
      | None \<Rightarrow> if action = ''add_to_digest'' then action else unsupported_delivery_action rest)"

section \<open>Envelope addresses and SMTP arguments\<close>

definition valid_envelope_address :: "string \<Rightarrow> bool \<Rightarrow> bool" where
  "valid_envelope_address address allow_empty =
     (if address = [] then allow_empty
      else if contains_any address [CHR ''<'', CHR ''>'', CR, LF, NUL] then False
      else list_all (\<lambda>r. \<not> (char_code r < 32 \<or> char_code r = 127)) address)"

definition validate_envelope :: "string \<Rightarrow> string list \<Rightarrow> go_error option" where
  "validate_envelope from to =
     (if \<not> valid_envelope_address from True then Some (PlainError ''invalid envelope sender'')
      else if to = [] then Some (PlainError ''at least one envelope recipient is required'')
      else if \<not> list_all (\<lambda>rcpt. valid_envelope_address rcpt False) to
        then Some (PlainError ''invalid envelope recipient'')
      else None)"

definition max_message :: nat where
  "max_message = 50 * 1024 * 1024"

definition parameter_ok :: "string \<Rightarrow> string \<Rightarrow> bool" where
  "parameter_ok prefix parameter =
     (let p = to_upper parameter in
      (prefix = ''MAIL FROM:'' \<and> has_prefix p ''SIZE='' \<and>
        (case parse_uint64 (drop 5 p) of None \<Rightarrow> False | Some n \<Rightarrow> n \<le> max_message)) \<or>
      (prefix = ''MAIL FROM:'' \<and> (p = ''BODY=8BITMIME'' \<or> p = ''BODY=7BIT'')))"

definition parse_smtp_path :: "string \<Rightarrow> string \<Rightarrow> bool \<Rightarrow> go_error + string" where
  "parse_smtp_path line prefix allow_empty =
     (if \<not> has_prefix (to_upper line) prefix then Inl (PlainError ''invalid command'')
      else
        let path = trim_space (drop (length prefix) line) in
        if \<not> has_prefix path ''<'' then Inl (PlainError ''missing path'')
        else case index_byte CHR ''>'' path of
               None \<Rightarrow> Inl (PlainError ''unterminated path'')
             | Some e \<Rightarrow>
                 if e < 1 then Inl (PlainError ''unterminated path'')
                 else
                   let address = take (e - 1) (drop 1 path) in
                   if \<not> valid_envelope_address address allow_empty
                   then Inl (PlainError ''invalid address'')
                   else if list_all (parameter_ok prefix) (str_fields (drop (Suc e) path))
                   then Inr address
                   else Inl (PlainError ''unsupported parameter''))"

section \<open>Message bytes\<close>

fun wire_scan :: "char option \<Rightarrow> string \<Rightarrow> go_error option" where
  "wire_scan prev [] = None"
| "wire_scan prev (b # rest) =
     (if b = LF \<and> prev \<noteq> Some CR then Some (PlainError ''DATA requires CRLF line endings'')
      else if b = CR \<and> (case rest of [] \<Rightarrow> True | c # _ \<Rightarrow> c \<noteq> LF)
        then Some (PlainError ''DATA contains a bare carriage return'')
      else wire_scan (Some b) rest)"

definition validate_wire_data :: "string \<Rightarrow> go_error option" where
  "validate_wire_data raw =
     (if length raw > max_message then Some (PlainError ''message exceeds 50 MiB'')
      else wire_scan None raw)"

section \<open>What the disposition means\<close>

lemma line_ok_smtp_reply_text [line_safe, simp]: "line_ok (smtp_reply_text s)"
  by (simp add: smtp_reply_text_def)

text \<open>
  The specification of the loop: the actions that decide a message's fate, and what the
  first of them decides. \<open>decides fq a\<close> is \<^const>\<open>None\<close> for an action the loop passes over.
\<close>

definition decides :: "bool \<Rightarrow> string \<Rightarrow> delivery_disposition option" where
  "decides fq action =
     (if rejects action then
        Some \<lparr>dd_code = 550, dd_reason = rejection_reason action, dd_quarantine = False\<rparr>
      else if action = ''defer'' then
        Some \<lparr>dd_code = 451, dd_reason = ''Message deferred by policy'', dd_quarantine = False\<rparr>
      else if has_prefix action ''smtp_error:'' then Some (smtp_error_disposition action)
      else if quarantines action \<and> \<not> fq then
        Some \<lparr>dd_code = 550, dd_reason = ''Message quarantined by policy'', dd_quarantine = False\<rparr>
      else None)"

lemma policy_loop_step:
  "policy_loop r (a # as) fq =
     (case decides fq a of Some d \<Rightarrow> d
      | None \<Rightarrow> policy_loop (if quarantines a then r\<lparr>dd_quarantine := True\<rparr> else r) as fq)"
  by (cases "rejects a"; cases "a = ''defer''"; cases "has_prefix a ''smtp_error:''";
      cases "quarantines a"; cases fq) (simp_all only: policy_loop.simps decides_def if_True if_False
        option.case simp_thms)

lemma policy_loop_decides:
  "policy_loop r as fq =
     (case List.map_filter (decides fq) as of
        d # _ \<Rightarrow> d
      | [] \<Rightarrow> r\<lparr>dd_quarantine := dd_quarantine r \<or> list_ex quarantines as\<rparr>)"
proof (induction as arbitrary: r)
  case Nil
  then show ?case by (simp add: map_filter_simps)
next
  case (Cons a as)
  show ?case
  proof (cases "decides fq a")
    case None
    then show ?thesis
      by (simp only: policy_loop_step Cons.IH option.case) (simp add: map_filter_simps split: list.splits)
  next
    case (Some d)
    then show ?thesis
      by (simp only: policy_loop_step option.case) (simp add: map_filter_simps)
  qed
qed

lemma smtp_error_code:
  "400 \<le> dd_code (smtp_error_disposition a) \<and> dd_code (smtp_error_disposition a) \<le> 599"
  unfolding smtp_error_disposition_def Let_def by (simp split: option.split)

lemma decides_code: "decides fq a = Some d \<Longrightarrow> 400 \<le> dd_code d \<and> dd_code d \<le> 599"
  using smtp_error_code [of a] by (auto simp: decides_def split: if_splits)

lemma line_ok_smtp_error_reason [line_safe]: "line_ok (dd_reason (smtp_error_disposition a))"
  unfolding smtp_error_disposition_def Let_def by (simp split: option.split)

lemma line_ok_rejection_reason [line_safe]: "rejects a \<Longrightarrow> line_ok (rejection_reason a)"
  by (auto simp: rejects_def rejection_reason_def)

lemma decides_reason [line_safe]: "decides fq a = Some d \<Longrightarrow> line_ok (dd_reason d)"
  using line_ok_smtp_error_reason line_ok_rejection_reason
  by (auto simp: decides_def split: if_splits)

lemma map_filter_head: "List.map_filter f xs = d # ds \<Longrightarrow> \<exists>a \<in> set xs. f a = Some d"
  by (induction xs) (auto simp: map_filter_simps split: option.splits)

lemma map_filter_None: "List.map_filter f xs = [] \<longleftrightarrow> (\<forall>a \<in> set xs. f a = None)"
  by (induction xs) (auto simp: map_filter_simps split: option.splits)

section \<open>What the checks mean\<close>

lemma valid_envelope_line_ok: "valid_envelope_address a e \<Longrightarrow> line_ok a"
  by (auto simp: valid_envelope_address_def contains_any_iff line_ok_def split: if_splits)

lemma valid_envelope_no_angle:
  "valid_envelope_address a e \<Longrightarrow> CHR ''<'' \<notin> set a \<and> CHR ''>'' \<notin> set a"
  by (auto simp: valid_envelope_address_def contains_any_iff split: if_splits)

lemma valid_envelope_weaken: "valid_envelope_address a False \<Longrightarrow> valid_envelope_address a e"
  by (auto simp: valid_envelope_address_def split: if_splits)

lemma validate_envelope_None:
  "validate_envelope from to = None \<longleftrightarrow>
     valid_envelope_address from True \<and> to \<noteq> [] \<and>
     (\<forall>r \<in> set to. valid_envelope_address r False)"
  by (auto simp: validate_envelope_def list_all_iff)

lemma parse_smtp_path_valid:
  "parse_smtp_path line prefix e = Inr a \<Longrightarrow> valid_envelope_address a e"
  by (auto simp: parse_smtp_path_def Let_def split: if_splits option.splits)

text \<open>A byte string is wire clean when it is a sequence of line-safe lines joined by CRLF.\<close>

definition wire_clean :: "string \<Rightarrow> bool" where
  "wire_clean raw \<longleftrightarrow> (\<exists>ls. ls \<noteq> [] \<and> (\<forall>l \<in> set ls. line_ok l) \<and> raw = join CRLF ls)"

lemma wire_scan_line: "line_ok l \<Longrightarrow> wire_scan p l = None"
  by (induction l arbitrary: p) auto

lemma wire_scan_line_append:
  "line_ok l \<Longrightarrow> wire_scan p (l @ CR # LF # s) = wire_scan (Some LF) s"
  by (induction l arbitrary: p) auto

lemma wire_scan_LF: "wire_scan (Some LF) s = wire_scan None s"
  by (cases s) auto

lemma wire_scan_join:
  "ls \<noteq> [] \<Longrightarrow> \<forall>l \<in> set ls. line_ok l \<Longrightarrow> wire_scan None (join CRLF ls) = None"
  by (induction CRLF ls rule: join.induct)
    (auto simp: wire_scan_line wire_scan_line_append wire_scan_LF)

lemma join_cons_ne: "ls \<noteq> [] \<Longrightarrow> join sep (l # ls) = l @ sep @ join sep ls"
  by (cases ls) auto

lemma wire_scan_clean_aux:
  assumes "wire_scan p s = None"
  shows "(p \<noteq> Some CR \<longrightarrow> wire_clean s) \<and> (p = Some CR \<longrightarrow> (\<forall>t. s = LF # t \<longrightarrow> wire_clean t))"
  using assms
proof (induction s arbitrary: p)
  case Nil
  have "wire_clean []" unfolding wire_clean_def by (rule exI [of _ "[[]]"]) simp
  then show ?case by simp
next
  case (Cons b s)
  show ?case
  proof (cases "b = CR")
    case True
    with Cons.prems obtain t where t: "s = LF # t" and rest: "wire_scan (Some CR) s = None"
      by (auto split: list.splits if_splits)
    from Cons.IH [OF rest] t have "wire_clean t" by blast
    then obtain ls where "ls \<noteq> []" "\<forall>l \<in> set ls. line_ok l" "t = join CRLF ls"
      by (auto simp: wire_clean_def)
    then have "wire_clean (b # s)" unfolding wire_clean_def
      using True t by (intro exI [of _ "[] # ls"]) (simp add: join_cons_ne)
    with True show ?thesis by simp
  next
    case False
    have rest: "wire_scan (Some b) s = None"
      using Cons.prems False by (auto split: if_splits)
    with Cons.IH False have "wire_clean s" by blast
    then obtain l ls where ls: "\<forall>x \<in> set (l # ls). line_ok x" "s = join CRLF (l # ls)"
      unfolding wire_clean_def by (metis list.exhaust)
    have "wire_clean (b # s)" if "b \<noteq> LF"
      unfolding wire_clean_def using ls that False
      by (intro exI [of _ "(b # l) # ls"]) (cases ls; auto)
    moreover have "p = Some CR" if "b = LF" using Cons.prems that by (auto split: if_splits)
    ultimately show ?thesis using \<open>wire_clean s\<close> by auto
  qed
qed

lemma wire_scan_clean: "wire_scan None s = None \<longleftrightarrow> wire_clean s"
  using wire_scan_clean_aux [of None s] wire_scan_join by (auto simp: wire_clean_def)

lemma validate_wire_data_None:
  "validate_wire_data raw = None \<longleftrightarrow> length raw \<le> max_message \<and> wire_clean raw"
  by (auto simp: validate_wire_data_def wire_scan_clean)

section \<open>Properties\<close>

text \<open>
  C9: The first decisive action of a policy settles a message's fate (reject, bounce, drop,
  discard, defer, smtp_error, or quarantine where marked mail is not forwarded); without one
  the message is accepted, marked as quarantined iff the policy asked for it. A message that
  is not accepted is answered with a code from 400 to 599.
\<close>

theorem policy_first_decides:
  "policy_disposition acts fq =
     (case List.map_filter (decides fq) acts of
        d # _ \<Rightarrow> d
      | [] \<Rightarrow> \<lparr>dd_code = 250, dd_reason = ''Message accepted'', dd_quarantine = list_ex quarantines acts\<rparr>) \<and>
   (dd_code (policy_disposition acts fq) \<noteq> 250 \<longleftrightarrow> List.map_filter (decides fq) acts \<noteq> []) \<and>
   dd_code (policy_disposition acts fq) \<in> {250} \<union> {400..599}"
proof (cases "List.map_filter (decides fq) acts")
  case Nil
  then show ?thesis by (simp add: policy_disposition_def policy_loop_decides)
next
  case (Cons d ds)
  obtain a where "decides fq a = Some d" using map_filter_head [OF Cons] by blast
  then have "400 \<le> dd_code d \<and> dd_code d \<le> 599" by (rule decides_code)
  with Cons show ?thesis by (simp add: policy_disposition_def policy_loop_decides)
qed

lemma index_byte_split: "index_byte c s = Some i \<Longrightarrow> s = take i s @ c # drop (Suc i) s \<and> i < length s"
  using index_byte_Some [of c s i] id_take_nth_drop [of i s] by auto

text \<open>
  What MAIL and RCPT accept as an address is the text between the first pair of angle
  brackets behind the command, it holds no bracket, line break or control character, and all
  parameters behind it are supported ones.
\<close>

theorem smtp_path_sound:
  assumes "parse_smtp_path line prefix allow_empty = Inr a"
  shows "valid_envelope_address a allow_empty \<and> line_ok a \<and> CHR ''<'' \<notin> set a \<and> CHR ''>'' \<notin> set a \<and>
     has_prefix (to_upper line) prefix \<and>
     (\<exists>post. trim_space (drop (length prefix) line) = ''<'' @ a @ ''>'' @ post \<and>
        list_all (parameter_ok prefix) (str_fields post))"
proof -
  define path where "path = trim_space (drop (length prefix) line)"
  have pre: "has_prefix (to_upper line) prefix" "has_prefix path ''<''"
    using assms by (auto simp: parse_smtp_path_def Let_def path_def split: if_splits)
  then obtain e where e: "index_byte CHR ''>'' path = Some e" "e \<ge> 1"
    using assms by (auto simp: parse_smtp_path_def Let_def path_def split: if_splits option.splits)
  have a: "a = take (e - 1) (drop 1 path)" "valid_envelope_address a allow_empty"
    "list_all (parameter_ok prefix) (str_fields (drop (Suc e) path))"
    using assms pre e by (auto simp: parse_smtp_path_def Let_def path_def split: if_splits)
  obtain rest where rest: "path = CHR ''<'' # rest" using pre(2) by (cases path) (auto simp: has_prefix_def)
  obtain k where k: "e = Suc k" using e(2) by (cases e) auto
  have "path = take e path @ CHR ''>'' # drop (Suc e) path" using index_byte_split [OF e(1)] by simp
  then have "path = ''<'' @ a @ ''>'' @ drop (Suc e) path" using rest k a(1) by simp
  then show ?thesis
    using a(2,3) pre(1) valid_envelope_line_ok valid_envelope_no_angle unfolding path_def by blast
qed

theorem smtp_path_sound_witness:
  "\<exists>post. trim_space (drop (length ''MAIL FROM:'') ''MAIL FROM:<a@b> SIZE=10'') = ''<'' @ ''a@b'' @ ''>'' @ post \<and>
     list_all (parameter_ok ''MAIL FROM:'') (str_fields post)"
proof -
  have "parse_smtp_path ''MAIL FROM:<a@b> SIZE=10'' ''MAIL FROM:'' True = Inr ''a@b''" by code_simp
  from smtp_path_sound [OF this] show ?thesis by blast
qed

text \<open>
  Message bytes pass the check before forwarding exactly when they are at most 50 MiB
  and are lines without stray CR or LF, joined by CRLF.
\<close>

theorem wire_data_check:
  "validate_wire_data raw = None \<longleftrightarrow>
     length raw \<le> 50 * 1024 * 1024 \<and> (\<exists>ls. ls \<noteq> [] \<and> list_all line_ok ls \<and> raw = join CRLF ls)"
  by (simp add: validate_wire_data_None wire_clean_def max_message_def list_all_iff)

end
