(* ===== verification/Wire.thy ===== *)
theory Wire
  imports Delivery
begin

text \<open>
  Byte-level SMTP of \<^verbatim>\<open>cmd/mailscript/proxy.go\<close> and \<^verbatim>\<open>delivery.go\<close>: the buffered line reader
  (\<open>read_wire_line\<close> over Go's \<^verbatim>\<open>bufio.Reader\<close> with its 4096-byte buffer), the DATA loop with
  its dot unstuffing (\<open>data_loop\<close>) and dot stuffing (\<open>dot_stuff\<close>).

  A network stream is the list of byte chunks its \<^verbatim>\<open>Read\<close> calls would return; an empty list
  is end of file, a timeout or a closed connection. The refinement lemma
  \<open>read_wire_line_spec\<close> states that the chunking and the buffer size do not matter: the
  result is a function of the bytes alone.
\<close>

section \<open>The buffered line reader\<close>

record reader =
  rd_buf :: string
  rd_net :: "string list"

definition new_reader :: "string list \<Rightarrow> reader" where
  "new_reader net = \<lparr>rd_buf = [], rd_net = net\<rparr>"

definition bufio_size :: nat where
  "bufio_size = 4096"

datatype slice = SliceLine string | SliceFull string | SliceEof string

fun slice_bytes :: "slice \<Rightarrow> string" where
  "slice_bytes (SliceLine p) = p"
| "slice_bytes (SliceFull p) = p"
| "slice_bytes (SliceEof p) = p"

definition net_size :: "reader \<Rightarrow> nat" where
  "net_size rd = length (concat (rd_net rd)) + length (rd_net rd)"

text \<open>One \<^verbatim>\<open>Read\<close> into the free space of the buffer.\<close>

definition fill :: "string \<Rightarrow> string list \<Rightarrow> reader \<Rightarrow> reader" where
  "fill chunk chunks rd =
     (let k = bufio_size - length (rd_buf rd) in
      \<lparr>rd_buf = rd_buf rd @ take k chunk,
       rd_net = (if drop k chunk = [] then chunks else drop k chunk # chunks)\<rparr>)"

lemma fill_smaller:
  assumes "rd_net rd = chunk # chunks" and "length (rd_buf rd) < bufio_size"
  shows "net_size (fill chunk chunks rd) < net_size rd"
  using assms by (cases chunk) (auto simp: fill_def net_size_def Let_def)

text \<open>\<^verbatim>\<open>bufio.Reader.ReadSlice('\n')\<close>.\<close>

function read_slice :: "reader \<Rightarrow> slice \<times> reader" where
  "read_slice rd =
     (case index_byte LF (rd_buf rd) of
        Some i \<Rightarrow> (SliceLine (take (Suc i) (rd_buf rd)), rd\<lparr>rd_buf := drop (Suc i) (rd_buf rd)\<rparr>)
      | None \<Rightarrow>
          if bufio_size \<le> length (rd_buf rd) then (SliceFull (rd_buf rd), rd\<lparr>rd_buf := []\<rparr>)
          else (case rd_net rd of
                  [] \<Rightarrow> (SliceEof (rd_buf rd), rd\<lparr>rd_buf := []\<rparr>)
                | chunk # chunks \<Rightarrow> read_slice (fill chunk chunks rd)))"
  by pat_completeness auto
termination
  by (relation "measure net_size") (auto simp: fill_smaller)

declare read_slice.simps [simp del]

definition rd_bytes :: "reader \<Rightarrow> string" where
  "rd_bytes rd = rd_buf rd @ concat (rd_net rd)"

lemma rd_bytes_new [simp]: "rd_bytes (new_reader net) = concat net"
  by (simp add: rd_bytes_def new_reader_def)

lemma rd_bytes_fill:
  "rd_net rd = chunk # chunks \<Longrightarrow> rd_bytes (fill chunk chunks rd) = rd_bytes rd"
  by (cases "drop (bufio_size - length (rd_buf rd)) chunk = []")
     (simp_all add: rd_bytes_def fill_def Let_def)

lemma read_slice_bytes: "read_slice rd = (sl, rd') \<Longrightarrow> slice_bytes sl @ rd_bytes rd' = rd_bytes rd"
proof (induction rd rule: read_slice.induct)
  case (1 rd)
  show ?case
  proof (cases "index_byte LF (rd_buf rd)")
    case (Some i)
    with "1.prems" show ?thesis
      by (subst (asm) read_slice.simps) (auto simp: rd_bytes_def simp flip: append_assoc)
  next
    case None
    show ?thesis
    proof (cases "bufio_size \<le> length (rd_buf rd)")
      case True
      with None "1.prems" show ?thesis
        by (subst (asm) read_slice.simps) (auto simp: rd_bytes_def)
    next
      case False
      note short = this
      show ?thesis
      proof (cases "rd_net rd")
        case Nil
        with None short "1.prems" show ?thesis
          by (subst (asm) read_slice.simps) (auto simp: rd_bytes_def)
      next
        case (Cons chunk chunks)
        with None short "1.prems" have "read_slice (fill chunk chunks rd) = (sl, rd')"
          by (subst (asm) read_slice.simps) simp
        with "1.IH" [OF None short Cons] Cons show ?thesis by (simp add: rd_bytes_fill)
      qed
    qed
  qed
qed


text \<open>What each kind of slice says about the bytes read.\<close>

lemma read_slice_props:
  "read_slice rd = (sl, rd') \<Longrightarrow>
     (case sl of
        SliceLine p \<Rightarrow> (\<exists>q. p = q @ [LF] \<and> LF \<notin> set q)
      | SliceFull p \<Rightarrow> LF \<notin> set p \<and> p \<noteq> []
      | SliceEof p \<Rightarrow> LF \<notin> set p \<and> rd_bytes rd' = [])"
proof (induction rd rule: read_slice.induct)
  case (1 rd)
  show ?case
  proof (cases "index_byte LF (rd_buf rd)")
    case (Some i)
    then have "take (Suc i) (rd_buf rd) = take i (rd_buf rd) @ [LF]" "LF \<notin> set (take i (rd_buf rd))"
      using index_byte_Some [OF Some] by (auto simp: take_Suc_conv_app_nth)
    with Some "1.prems" show ?thesis
      by (subst (asm) read_slice.simps) auto
  next
    case None
    note no_lf = this
    show ?thesis
    proof (cases "bufio_size \<le> length (rd_buf rd)")
      case True
      then have "rd_buf rd \<noteq> []" by (auto simp: bufio_size_def)
      moreover have "LF \<notin> set (rd_buf rd)" using None by (simp add: index_byte_None)
      moreover have "sl = SliceFull (rd_buf rd)"
        using True None "1.prems" by (subst (asm) read_slice.simps) simp
      ultimately show ?thesis by simp
    next
      case False
      note short = this
      show ?thesis
      proof (cases "rd_net rd")
        case Nil
        with None short "1.prems" have "sl = SliceEof (rd_buf rd)" "rd' = rd\<lparr>rd_buf := []\<rparr>"
          by (subst (asm) read_slice.simps, simp)+
        moreover have "LF \<notin> set (rd_buf rd)" using None by (simp add: index_byte_None)
        ultimately show ?thesis using Nil by (simp add: rd_bytes_def)
      next
        case (Cons chunk chunks)
        with None short "1.prems" have "read_slice (fill chunk chunks rd) = (sl, rd')"
          by (subst (asm) read_slice.simps) simp
        with "1.IH" [OF None short Cons] show ?thesis by simp
      qed
    qed
  qed
qed

lemma read_slice_full_smaller:
  assumes "read_slice rd = (SliceFull p, rd')"
  shows "length (rd_bytes rd') < length (rd_bytes rd)"
proof -
  have "p \<noteq> []" using read_slice_props [OF assms] by simp
  moreover have "length p + length (rd_bytes rd') = length (rd_bytes rd)"
    using read_slice_bytes [OF assms] by (metis length_append slice_bytes.simps(2))
  ultimately show ?thesis by (cases p) auto
qed

text \<open>\<^verbatim>\<open>readWireLine\<close>: slices are collected until a line end, within a limit.\<close>

function read_line_acc :: "nat \<Rightarrow> string \<Rightarrow> reader \<Rightarrow> (go_error + string) \<times> reader" where
  "read_line_acc limit line rd =
     (case read_slice rd of (sl, rd') \<Rightarrow>
        if length line + length (slice_bytes sl) > limit
        then (Inl (PlainError ''SMTP line too long''), rd')
        else (case sl of
                SliceFull p \<Rightarrow> read_line_acc limit (line @ p) rd'
              | SliceLine p \<Rightarrow> (Inr (line @ p), rd')
              | SliceEof p \<Rightarrow> (Inl (PlainError ''EOF''), rd')))"
  by pat_completeness auto
termination
  by (relation "measure (\<lambda>(limit, line, rd). length (rd_bytes rd))")
     (auto dest: read_slice_full_smaller [OF sym])

declare read_line_acc.simps [simp del]

definition read_wire_line :: "nat \<Rightarrow> reader \<Rightarrow> (go_error + string) \<times> reader" where
  "read_wire_line limit rd = read_line_acc limit [] rd"

text \<open>
  The specification on bytes: the first line of a stream with its LF, and what follows it.
\<close>

definition stream_line :: "string \<Rightarrow> (string \<times> string) option" where
  "stream_line s =
     (case index_byte LF s of None \<Rightarrow> None | Some i \<Rightarrow> Some (take (Suc i) s, drop (Suc i) s))"

lemma stream_line_append:
  "LF \<notin> set q \<Longrightarrow> stream_line (q @ LF # s) = Some (q @ [LF], s)"
  by (simp add: stream_line_def index_byte_append)

lemma stream_line_no: "LF \<notin> set q \<Longrightarrow> stream_line q = None"
  by (simp add: stream_line_def index_byte_None [THEN iffD2])

lemma stream_line_Some:
  "stream_line s = Some (l, t) \<Longrightarrow> s = l @ t \<and> (\<exists>q. l = q @ [LF] \<and> LF \<notin> set q)"
  using index_byte_Some by (fastforce simp: stream_line_def take_Suc_conv_app_nth split: option.splits)

lemma prefix_before_char:
  assumes "u @ v = q @ c # t" and "c \<notin> set u"
  shows "length u \<le> length q"
proof (rule ccontr)
  assume "\<not> length u \<le> length q"
  then have "u ! length q = (u @ v) ! length q" "length q < length u" by (auto simp: nth_append)
  with assms show False by (metis nth_append_length nth_mem)
qed

lemma read_line_acc_spec:
  assumes "LF \<notin> set line"
  shows "case stream_line (line @ rd_bytes rd) of
           Some (l, rest) \<Rightarrow>
             if length l \<le> limit
             then \<exists>rd'. read_line_acc limit line rd = (Inr l, rd') \<and> rd_bytes rd' = rest
             else \<exists>e rd'. read_line_acc limit line rd = (Inl e, rd')
         | None \<Rightarrow> \<exists>e rd'. read_line_acc limit line rd = (Inl e, rd')"
  using assms
proof (induction limit line rd rule: read_line_acc.induct)
  case (1 limit line rd)
  obtain sl rd' where sl: "read_slice rd = (sl, rd')" by (cases "read_slice rd") auto
  note bytes = read_slice_bytes [OF sl] and props = read_slice_props [OF sl]
  show ?case
  proof (cases sl)
    case (SliceLine p)
    with props obtain q where q: "p = q @ [LF]" "LF \<notin> set q" by auto
    with bytes SliceLine have "line @ rd_bytes rd = (line @ q) @ LF # rd_bytes rd'"
      by (metis append.assoc append_Cons append_Nil slice_bytes.simps(1))
    then have "stream_line (line @ rd_bytes rd) = Some ((line @ q) @ [LF], rd_bytes rd')"
      using "1.prems" q stream_line_append [of "line @ q"] by simp
    with sl SliceLine q show ?thesis by (simp add: read_line_acc.simps [of limit line rd])
  next
    case (SliceFull p)
    have eq: "line @ rd_bytes rd = (line @ p) @ rd_bytes rd'"
      using bytes SliceFull by (metis append.assoc slice_bytes.simps(2))
    show ?thesis
    proof (cases "length line + length p > limit")
      case True
      have "LF \<notin> set (line @ p)" using props SliceFull "1.prems" by auto
      then have "length l > limit" if "stream_line ((line @ p) @ rd_bytes rd') = Some (l, t)" for l t
      proof -
        from that obtain q where q: "(line @ p) @ rd_bytes rd' = q @ LF # t" "l = q @ [LF]" "LF \<notin> set q"
          using stream_line_Some by fastforce
        have "length (line @ p) \<le> length q"
          using q(1) \<open>LF \<notin> set (line @ p)\<close> by (rule prefix_before_char)
        with q True show ?thesis by simp
      qed
      with True sl SliceFull eq show ?thesis
        by (auto simp: read_line_acc.simps [of limit line rd] split: option.splits)
    next
      case False
      have "LF \<notin> set (line @ p)" using props SliceFull "1.prems" by auto
      have small: "\<not> length line + length (slice_bytes sl) > limit" using False SliceFull by simp
      have step: "read_line_acc limit line rd = read_line_acc limit (line @ p) rd'"
        using False SliceFull sl by (simp add: read_line_acc.simps [of limit line rd])
      show ?thesis
        unfolding step eq by (rule "1.IH" [OF sl [symmetric] small SliceFull]) fact
    qed
  next
    case (SliceEof p)
    then have "rd_bytes rd = p" "LF \<notin> set p" using props bytes by auto
    then have "LF \<notin> set (rd_bytes rd)" by simp
    with "1.prems" have "stream_line (line @ rd_bytes rd) = None" by (simp add: stream_line_no)
    with sl SliceEof show ?thesis by (simp add: read_line_acc.simps [of limit line rd])
  qed
qed

lemma read_wire_line_spec:
  "case stream_line (rd_bytes rd) of
     Some (l, rest) \<Rightarrow>
       if length l \<le> limit then \<exists>rd'. read_wire_line limit rd = (Inr l, rd') \<and> rd_bytes rd' = rest
       else \<exists>e rd'. read_wire_line limit rd = (Inl e, rd')
   | None \<Rightarrow> \<exists>e rd'. read_wire_line limit rd = (Inl e, rd')"
proof -
  have no: "LF \<notin> set []" by simp
  show ?thesis
    using read_line_acc_spec [OF no, where rd = rd and limit = limit]
    by (simp only: append_Nil read_wire_line_def)
qed

lemma read_wire_line_Inr:
  assumes "read_wire_line limit rd = (Inr l, rd')"
  shows "stream_line (rd_bytes rd) = Some (l, rd_bytes rd')" and "length l \<le> limit"
  using read_wire_line_spec [where rd = rd and limit = limit] assms
  by (auto split: option.splits if_splits)

lemma read_wire_line_smaller:
  assumes "read_wire_line limit rd = (Inr l, rd')"
  shows "length (rd_bytes rd') < length (rd_bytes rd)"
  using stream_line_Some [OF read_wire_line_Inr(1) [OF assms]] by auto

lemma read_line_acc_bytes:
  "read_line_acc limit line rd = (r, rd') \<Longrightarrow> length (rd_bytes rd') \<le> length (rd_bytes rd)"
proof (induction limit line rd rule: read_line_acc.induct)
  case (1 limit line rd)
  obtain sl rd1 where sl: "read_slice rd = (sl, rd1)" by (cases "read_slice rd")
  have le: "length (rd_bytes rd1) \<le> length (rd_bytes rd)"
    using read_slice_bytes [OF sl] by (metis le_add2 length_append)
  show ?case
  proof (cases "\<exists>p. sl = SliceFull p \<and> \<not> length line + length p > limit")
    case True
    then obtain p where p: "sl = SliceFull p" "\<not> length line + length p > limit" by blast
    with "1.prems" sl have "read_line_acc limit (line @ p) rd1 = (r, rd')"
      by (simp add: read_line_acc.simps [of limit line rd])
    with "1.IH" [OF sl [symmetric] _ p(1)] p le show ?thesis by fastforce
  next
    case False
    with "1.prems" sl have "rd' = rd1"
      by (auto simp: read_line_acc.simps [of limit line rd] split: slice.splits if_splits)
    with le show ?thesis by simp
  qed
qed

section \<open>Dot stuffing and the DATA loop\<close>

fun dot_stuff_from :: "bool \<Rightarrow> string \<Rightarrow> string" where
  "dot_stuff_from at_line_start [] = []"
| "dot_stuff_from at_line_start (b # raw) =
     (if at_line_start \<and> b = CHR ''.'' then ''.'' else []) @ b # dot_stuff_from (b = LF) raw"

definition dot_stuff :: "string \<Rightarrow> string" where
  "dot_stuff raw = dot_stuff_from True raw"

datatype data_result =
    DataDone string     \<comment> \<open>the terminating dot was read\<close>
  | DataReadError       \<comment> \<open>the connection is closed without a reply\<close>
  | DataBadLine         \<comment> \<open>550, and the connection is closed\<close>
  | DataTooLarge        \<comment> \<open>552, and the connection is closed\<close>

definition data_line_limit :: nat where
  "data_line_limit = 64 * 1024"

function data_loop :: "string \<Rightarrow> reader \<Rightarrow> data_result \<times> reader" where
  "data_loop data rd =
     (case read_wire_line data_line_limit rd of
        (Inl e, rd') \<Rightarrow> (DataReadError, rd')
      | (Inr line, rd') \<Rightarrow>
          if \<not> has_suffix line CRLF \<or> CR \<in> set (trim_suffix line CRLF) then (DataBadLine, rd')
          else if line = ''.'' @ CRLF then (DataDone data, rd')
          else
            let line' = (if has_prefix line ''.'' then drop 1 line else line) in
            if length data + length line' > max_message then (DataTooLarge, rd')
            else data_loop (data @ line') rd')"
  by pat_completeness auto
termination
  by (relation "measure (\<lambda>(data, rd). length (rd_bytes rd))")
     (auto dest: read_wire_line_smaller [OF sym])

declare data_loop.simps [simp del]

text \<open>A message as lines, each ended by CRLF, and the stuffed form of a line.\<close>

definition crlf_lines :: "string list \<Rightarrow> string" where
  "crlf_lines ls = concat (map (\<lambda>l. l @ CRLF) ls)"

definition stuff_line :: "string \<Rightarrow> string" where
  "stuff_line l = (if has_prefix l ''.'' then ''.'' @ l else l)"

lemma crlf_lines_simps [simp]:
  "crlf_lines [] = []"
  "crlf_lines (l # ls) = l @ CR # LF # crlf_lines ls"
  by (simp_all add: crlf_lines_def)

lemma crlf_lines_append: "crlf_lines (ls @ ms) = crlf_lines ls @ crlf_lines ms"
  by (induction ls) auto

lemma dot_stuff_from_line:
  "line_ok l \<Longrightarrow> dot_stuff_from False (l @ CR # LF # s) = l @ CR # LF # dot_stuff_from True s"
  by (induction l) auto

lemma dot_stuff_line:
  assumes "line_ok l"
  shows "dot_stuff_from True (l @ CR # LF # s) = stuff_line l @ CR # LF # dot_stuff_from True s"
  using assms
  by (cases l) (auto simp: stuff_line_def has_prefix_def dot_stuff_from_line)

lemma dot_stuff_lines:
  "\<forall>l \<in> set ls. line_ok l \<Longrightarrow> dot_stuff (crlf_lines ls) = crlf_lines (map stuff_line ls)"
  unfolding dot_stuff_def by (induction ls) (auto simp: dot_stuff_line)

text \<open>Reading one clean line off a stream.\<close>

lemma read_clean_line:
  assumes "rd_bytes rd = l @ CR # LF # s" and "line_ok l" and "length l + 2 \<le> limit"
  shows "\<exists>rd'. read_wire_line limit rd = (Inr (l @ CRLF), rd') \<and> rd_bytes rd' = s"
proof -
  have "stream_line ((l @ [CR]) @ LF # s) = Some ((l @ [CR]) @ [LF], s)"
    using assms(2) by (intro stream_line_append) (auto simp: line_ok_def)
  then have "stream_line (rd_bytes rd) = Some (l @ CRLF, s)" using assms(1) by simp
  with assms(3) read_wire_line_spec [where rd = rd and limit = limit] show ?thesis by simp
qed

lemma data_loop_line:
  assumes "rd_bytes rd = stuff_line l @ CR # LF # s" and "line_ok l"
    and "length l + 3 \<le> data_line_limit" and "length data + length l + 2 \<le> max_message"
  shows "\<exists>rd'. data_loop data rd = data_loop (data @ l @ CRLF) rd' \<and> rd_bytes rd' = s"
proof -
  have "line_ok (stuff_line l)" "length (stuff_line l) + 2 \<le> data_line_limit"
    using assms by (auto simp: stuff_line_def)
  with assms(1) obtain rd' where
    rd': "read_wire_line data_line_limit rd = (Inr (stuff_line l @ CRLF), rd')" "rd_bytes rd' = s"
    using read_clean_line by blast
  have ne: "stuff_line l @ CRLF \<noteq> ''.'' @ CRLF"
    by (auto simp: stuff_line_def has_prefix_def)
  have un: "(if has_prefix (stuff_line l @ CRLF) ''.'' then drop 1 (stuff_line l @ CRLF)
       else stuff_line l @ CRLF) = l @ CRLF"
    by (cases l) (auto simp: stuff_line_def has_prefix_def)
  have cr: "CR \<notin> set (trim_suffix (stuff_line l @ CRLF) CRLF)"
    using \<open>line_ok (stuff_line l)\<close> unfolding trim_suffix_append by (simp add: line_ok_def)
  have "data_loop data rd = data_loop (data @ l @ CRLF) rd'"
    by (subst data_loop.simps, simp only: rd'(1) prod.case sum.case un Let_def)
       (use ne cr assms(4) in simp)
  with rd'(2) show ?thesis by blast
qed

lemma data_loop_end:
  assumes "rd_bytes rd = ''.'' @ CR # LF # s"
  shows "\<exists>rd'. data_loop data rd = (DataDone data, rd') \<and> rd_bytes rd' = s"
proof -
  have "line_ok ''.''" "length ''.'' + 2 \<le> data_line_limit" by (simp_all add: data_line_limit_def)
  with assms obtain rd' where
    "read_wire_line data_line_limit rd = (Inr (''.'' @ CRLF), rd')" "rd_bytes rd' = s"
    using read_clean_line by blast
  moreover have "CR \<notin> set (trim_suffix (''.'' @ CRLF) CRLF)" unfolding trim_suffix_append by simp
  moreover have "has_suffix (''.'' @ CRLF) CRLF" by (simp only: has_suffix_append)
  ultimately show ?thesis by (subst data_loop.simps) simp
qed

lemma data_loop_lines:
  assumes "rd_bytes rd = crlf_lines (map stuff_line ls) @ ''.'' @ CR # LF # rest"
    and "\<forall>l \<in> set ls. line_ok l \<and> length l + 3 \<le> data_line_limit"
    and "length data + length (crlf_lines ls) \<le> max_message"
  shows "\<exists>rd'. data_loop data rd = (DataDone (data @ crlf_lines ls), rd') \<and> rd_bytes rd' = rest"
  using assms
proof (induction ls arbitrary: data rd)
  case Nil
  then show ?case using data_loop_end by simp
next
  case (Cons l ls)
  have "rd_bytes rd = stuff_line l @ CR # LF # crlf_lines (map stuff_line ls) @ ''.'' @ CR # LF # rest"
    using Cons.prems(1) by simp
  moreover have "line_ok l" "length l + 3 \<le> data_line_limit" "length data + length l + 2 \<le> max_message"
    using Cons.prems by simp_all
  ultimately obtain rd1 where
    rd1: "data_loop data rd = data_loop (data @ l @ CRLF) rd1"
         "rd_bytes rd1 = crlf_lines (map stuff_line ls) @ ''.'' @ CR # LF # rest"
    using data_loop_line by blast
  obtain rd2 where
    "data_loop (data @ l @ CRLF) rd1 = (DataDone ((data @ l @ CRLF) @ crlf_lines ls), rd2)"
    "rd_bytes rd2 = rest"
    using Cons.IH [OF rd1(2), of "data @ l @ CRLF"] Cons.prems by auto
  with rd1(1) show ?case by simp
qed

text \<open>What the DATA loop accepts.\<close>

lemma data_loop_Done:
  "data_loop data rd = (DataDone d, rd') \<Longrightarrow>
     \<exists>ls. d = data @ crlf_lines ls \<and> (\<forall>l \<in> set ls. line_ok l)"
proof (induction data rd rule: data_loop.induct)
  case (1 data rd)
  obtain r rd1 where r: "read_wire_line data_line_limit rd = (r, rd1)"
    by (cases "read_wire_line data_line_limit rd") auto
  from "1.prems" r obtain line where line: "r = Inr line"
    by (cases r) (auto simp: data_loop.simps [of data rd])
  obtain q where q: "line = q @ [LF]" "LF \<notin> set q"
    using stream_line_Some [OF read_wire_line_Inr(1)] r line by blast
  from "1.prems" r line have good: "has_suffix line CRLF" "CR \<notin> set (trim_suffix line CRLF)"
    by (auto simp: data_loop.simps [of data rd] split: if_splits)
  then obtain l where l: "line = l @ CRLF" by (auto simp: has_suffix_iff)
  then have "trim_suffix line CRLF = l" by (simp only: trim_suffix_append)
  with good(2) have "CR \<notin> set l" by simp
  moreover have "q = l @ [CR]" using q l by simp
  ultimately have ok: "line_ok l" using q(2) by (simp add: line_ok_def)
  show ?case
  proof (cases "line = ''.'' @ CRLF")
    case True
    with "1.prems" r line good have "d = data" by (simp add: data_loop.simps [of data rd])
    then show ?thesis by (intro exI [of _ "[]"]) simp
  next
    case False
    define line' where "line' = (if has_prefix line ''.'' then drop 1 line else line)"
    have step: "\<not> length data + length line' > max_message \<and>
        data_loop (data @ line') rd1 = (DataDone d, rd')"
      using "1.prems" r line good False
      by (simp add: data_loop.simps [of data rd] line'_def Let_def split: if_splits)
    obtain ls where ls: "d = (data @ line') @ crlf_lines ls" "\<forall>l \<in> set ls. line_ok l"
      using "1.IH" [OF r [symmetric] line _ False line'_def] good step by blast
    obtain l' where l': "line' = l' @ CRLF" "line_ok l'"
    proof (cases "has_prefix line ''.''")
      case True
      then obtain m where m: "l = CHR ''.'' # m" using l by (cases l) (auto simp: has_prefix_def)
      show thesis
      proof (rule that)
        show "line' = m @ CRLF" using True l m by (simp add: line'_def)
        show "line_ok m" using ok m by simp
      qed
    next
      case False
      then show thesis using that l ok by (simp add: line'_def)
    qed
    show ?thesis using ls l' by (intro exI [of _ "l' # ls"]) simp
  qed
qed

lemma crlf_lines_clean: "\<forall>l \<in> set ls. line_ok l \<Longrightarrow> wire_clean (crlf_lines ls)"
proof -
  assume ls: "\<forall>l \<in> set ls. line_ok l"
  have "crlf_lines ls = join CRLF (ls @ [[]])"
    by (induction ls) (auto simp: join_cons_ne)
  with ls show ?thesis unfolding wire_clean_def by (intro exI [of _ "ls @ [[]]"]) auto
qed

lemma data_loop_shorter:
  "data_loop data rd = (r, rd') \<Longrightarrow> length (rd_bytes rd') \<le> length (rd_bytes rd)"
proof (induction data rd rule: data_loop.induct)
  case (1 data rd)
  obtain x rd1 where x: "read_wire_line data_line_limit rd = (x, rd1)"
    by (cases "read_wire_line data_line_limit rd")
  have le: "length (rd_bytes rd1) \<le> length (rd_bytes rd)"
    using x read_line_acc_bytes by (auto simp: read_wire_line_def)
  show ?case
  proof (cases x)
    case (Inl e)
    with "1.prems" x le show ?thesis by (simp add: data_loop.simps [of data rd])
  next
    case (Inr line)
    define line' where "line' = (if has_prefix line ''.'' then drop 1 line else line)"
    show ?thesis
    proof (cases "\<not> (\<not> has_suffix line CRLF \<or> CR \<in> set (trim_suffix line CRLF)) \<and> line \<noteq> ''.'' @ CRLF
        \<and> \<not> length data + length line' > max_message")
      case True
      with "1.prems" x Inr have "data_loop (data @ line') rd1 = (r, rd')"
        by (simp add: data_loop.simps [of data rd] line'_def Let_def)
      with "1.IH" [OF x [symmetric] Inr _ _ line'_def] True le show ?thesis by fastforce
    next
      case False
      with "1.prems" x Inr have "rd' = rd1"
        by (auto simp: data_loop.simps [of data rd] line'_def Let_def split: if_splits)
      with le show ?thesis by simp
    qed
  qed
qed

section \<open>Properties\<close>

text \<open>
  C7: How the network cuts a stream into packets does not matter: two readers with the same
  bytes left give the same line, or both fail, and the same bytes are left after it.
\<close>

theorem chunking_irrelevant:
  assumes "rd_bytes rd1 = rd_bytes rd2"
    and "read_wire_line limit rd1 = (r1, rd1')" and "read_wire_line limit rd2 = (r2, rd2')"
  shows "case r1 of Inr l \<Rightarrow> r2 = Inr l \<and> rd_bytes rd1' = rd_bytes rd2' \<and> length l \<le> limit |
     Inl e \<Rightarrow> (\<exists>e'. r2 = Inl e')"
  using read_wire_line_spec [where rd = rd1 and limit = limit]
    read_wire_line_spec [where rd = rd2 and limit = limit] assms
  by (auto split: option.splits if_splits)

theorem chunking_irrelevant_witness:
  "\<exists>rd. read_wire_line 10 (new_reader [''ab'', ''c'' @ [LF] @ ''d'']) = (Inr (''abc'' @ [LF]), rd) \<and> rd_bytes rd = ''d''"
proof -
  have a: "rd_bytes (new_reader [''ab'', ''c'' @ [LF] @ ''d'']) = rd_bytes (new_reader [''abc'' @ [LF] @ ''d''])"
    by simp
  obtain r rd where r: "read_wire_line 10 (new_reader [''ab'', ''c'' @ [LF] @ ''d'']) = (r, rd)"
    by (cases "read_wire_line 10 (new_reader [''ab'', ''c'' @ [LF] @ ''d''])")
  have b: "read_wire_line 10 (new_reader [''abc'' @ [LF] @ ''d'']) = (Inr (''abc'' @ [LF]), \<lparr>rd_buf = ''d'', rd_net = []\<rparr>)"
    by code_simp
  from chunking_irrelevant [OF a r b] r show ?thesis by (auto simp: rd_bytes_def split: sum.splits)
qed

text \<open>
  C8: Dot stuffing is undone by the DATA loop, and the final dot is found where it was put:
  a message of lines without CR and LF, stuffed and ended by a lone dot, is read back exactly,
  and what the client pipelined behind the dot is left in the reader.
\<close>

theorem data_roundtrip:
  assumes "list_all (\<lambda>l. line_ok l \<and> length l + 3 \<le> 64 * 1024) ls"
    and "length (crlf_lines ls) \<le> 50 * 1024 * 1024"
    and "rd_bytes rd = dot_stuff (crlf_lines ls) @ ''.'' @ CRLF @ rest"
  shows "\<exists>rd'. data_loop [] rd = (DataDone (crlf_lines ls), rd') \<and> rd_bytes rd' = rest"
proof -
  have ok: "\<forall>l \<in> set ls. line_ok l" using assms(1) by (simp add: list_all_iff)
  have "rd_bytes rd = crlf_lines (map stuff_line ls) @ ''.'' @ CR # LF # rest"
    using assms(3) dot_stuff_lines [OF ok] by simp
  then show ?thesis
    using data_loop_lines [of rd ls rest "[]"] assms(1,2)
    by (simp add: list_all_iff data_line_limit_def max_message_def)
qed

theorem data_roundtrip_witness:
  "\<exists>rd'. data_loop [] (new_reader [dot_stuff (crlf_lines [''.hi'', ''.'']) @ ''.'' @ CRLF @ ''QUIT'']) =
     (DataDone (crlf_lines [''.hi'', ''.'']), rd') \<and> rd_bytes rd' = ''QUIT''"
  by (rule data_roundtrip) simp_all

end
