(* ===== verification/HeaderEdit.thy ===== *)
theory HeaderEdit
  imports Wire "HOL-Library.Multiset" "HOL-Library.Sublist"
begin

text \<open>
  The header rewriting of \<^verbatim>\<open>cmd/mailscript/proxy.go\<close>: \<open>strip_header\<close> removes every occurrence
  of a field with its continuation lines, \<open>prepend_header\<close> puts a field in front,
  \<open>apply_header_changes\<close> carries out what a policy asked for. The header map of the code
  is an association list here; \<open>apply_modified_perm\<close> shows that its order, which Go
  randomises, does not matter.
\<close>

definition blank_line :: "string \<Rightarrow> bool" where
  "blank_line line \<longleftrightarrow> trim_right_set line CRLF = []"

definition continuation_line :: "string \<Rightarrow> bool" where
  "continuation_line line \<longleftrightarrow> has_prefix line [SP] \<or> has_prefix line [TAB]"

definition names_field :: "string \<Rightarrow> string \<Rightarrow> bool" where
  "names_field name line \<longleftrightarrow>
     (let parts = split2 CHR '':'' (trim_right_set line CRLF)
      in length parts = 2 \<and> equal_fold (trim_space (parts ! 0)) name)"

fun strip_lines :: "string \<Rightarrow> bool \<Rightarrow> bool \<Rightarrow> string list \<Rightarrow> string list" where
  "strip_lines name in_headers skipping [] = []"
| "strip_lines name in_headers skipping (line # lines) =
     (if in_headers \<and> blank_line line then line # strip_lines name False False lines
      else if \<not> in_headers then line # strip_lines name in_headers skipping lines
      else if continuation_line line then
        (if skipping then strip_lines name in_headers skipping lines
         else line # strip_lines name in_headers skipping lines)
      else if names_field name line then strip_lines name in_headers True lines
      else line # strip_lines name in_headers False lines)"

definition strip_header :: "string \<Rightarrow> string \<Rightarrow> string" where
  "strip_header raw name = concat (strip_lines name True False (split_after_lf raw))"

definition prepend_header :: "string \<Rightarrow> string \<Rightarrow> string \<Rightarrow> string" where
  "prepend_header raw name value = name @ '': '' @ value @ CRLF @ raw"

definition apply_modified_headers :: "string \<Rightarrow> (string \<times> string) list \<Rightarrow> string" where
  "apply_modified_headers raw headers =
     fold (\<lambda>name raw. prepend_header raw name (the (map_of headers name)))
       (sort (map fst headers)) raw"

definition apply_header_changes :: "string \<Rightarrow> string list \<Rightarrow> (string \<times> string) list \<Rightarrow> string" where
  "apply_header_changes raw removed added =
     apply_modified_headers (fold (\<lambda>name raw. strip_header raw name) removed raw) added"

section \<open>Lines of a byte string\<close>

text \<open>
  \<open>lf_lines\<close> describes the lists that splitting after LF produces: every line but the last
  ends in its only LF. Concatenating such lines and splitting again gives them back, up to
  an empty last line.
\<close>

fun lf_lines :: "string list \<Rightarrow> bool" where
  "lf_lines [] = True"
| "lf_lines (l # ls) =
     ((\<exists>q. l = q @ [LF] \<and> LF \<notin> set q) \<and> lf_lines ls \<or> LF \<notin> set l \<and> ls = [])"

lemma split_after_lf_line: "LF \<notin> set q \<Longrightarrow> split_after_lf (q @ LF # s) = (q @ [LF]) # split_after_lf s"
  by (induction q) auto

lemma split_after_lf_last: "LF \<notin> set q \<Longrightarrow> split_after_lf q = [q]"
  by (induction q) auto

lemma lf_lines_split: "lf_lines (split_after_lf s)"
proof (induction s rule: measure_induct_rule [of length])
  case (less s)
  show ?case
  proof (cases "index_byte LF s")
    case None
    then show ?thesis by (simp add: index_byte_None split_after_lf_last)
  next
    case (Some i)
    define q t where "q = take i s" and "t = drop (Suc i) s"
    have s: "s = q @ LF # t" "LF \<notin> set q"
      using index_byte_Some [OF Some] by (auto simp: q_def t_def)
    have "lf_lines (split_after_lf t)" using less s by simp
    then show ?thesis using s by (auto simp: split_after_lf_line)
  qed
qed

lemma split_concat_lf_lines:
  "lf_lines ls \<Longrightarrow> split_after_lf (concat ls) = ls \<or> split_after_lf (concat ls) = ls @ [[]]"
proof (induction ls)
  case Nil
  then show ?case by simp
next
  case (Cons l ls)
  show ?case
  proof (cases "\<exists>q. l = q @ [LF] \<and> LF \<notin> set q")
    case True
    then obtain q where q: "l = q @ [LF]" "LF \<notin> set q" by blast
    then have "lf_lines ls" using Cons.prems by auto
    with Cons.IH q show ?thesis by (auto simp: split_after_lf_line)
  next
    case False
    with Cons.prems have "LF \<notin> set l" "ls = []" by auto
    then show ?thesis by (simp add: split_after_lf_last)
  qed
qed

lemma lf_lines_subseq: "subseq ms ls \<Longrightarrow> lf_lines ls \<Longrightarrow> lf_lines ms"
proof (induction rule: list_emb.induct)
  case (list_emb_Nil ys)
  then show ?case by simp
next
  case (list_emb_Cons xs ys y)
  then show ?case by (auto elim: list_emb.cases)
next
  case (list_emb_Cons2 x y xs ys)
  then show ?case by auto
qed

lemma subseq_strip_lines: "subseq (strip_lines name h k ls) ls"
  by (induction name h k ls rule: strip_lines.induct) auto

lemma blank_line_Nil [simp]: "blank_line []"
  by (simp add: blank_line_def trim_right_set_def)

section \<open>What stripping leaves\<close>

text \<open>The lines of the header section: those before the first blank line.\<close>

definition header_lines :: "string \<Rightarrow> string list" where
  "header_lines raw = takeWhile (\<lambda>l. \<not> blank_line l) (split_after_lf raw)"

definition carries_field :: "string \<Rightarrow> string \<Rightarrow> bool" where
  "carries_field name raw \<longleftrightarrow>
     list_ex (\<lambda>l. \<not> continuation_line l \<and> names_field name l) (header_lines raw)"

lemma takeWhile_snoc_blank: "takeWhile (\<lambda>l. \<not> blank_line l) (ls @ [[]]) = takeWhile (\<lambda>l. \<not> blank_line l) ls"
  by (induction ls) auto

lemma header_lines_strip:
  "header_lines (strip_header raw name) =
     takeWhile (\<lambda>l. \<not> blank_line l) (strip_lines name True False (split_after_lf raw))"
proof -
  have "lf_lines (strip_lines name True False (split_after_lf raw))"
    using subseq_strip_lines lf_lines_split by (rule lf_lines_subseq)
  from split_concat_lf_lines [OF this] show ?thesis
    by (auto simp: header_lines_def strip_header_def takeWhile_snoc_blank)
qed

lemma strip_lines_no_field:
  "l \<in> set (takeWhile (\<lambda>l. \<not> blank_line l) (strip_lines name True k ls)) \<Longrightarrow>
     continuation_line l \<or> \<not> names_field name l"
  by (induction ls arbitrary: k) (auto split: if_splits)

lemma strip_header_removes: "\<not> carries_field name (strip_header raw name)"
  using strip_lines_no_field by (auto simp: carries_field_def header_lines_strip list_ex_iff)

lemma strip_lines_id:
  "\<forall>l \<in> set (takeWhile (\<lambda>l. \<not> blank_line l) ls). continuation_line l \<or> \<not> names_field name l \<Longrightarrow>
     strip_lines name True False ls = ls"
proof (induction ls)
  case (Cons l ls)
  have body: "strip_lines name False False ms = ms" for ms by (induction ms) auto
  from Cons show ?case by (auto simp: body split: if_splits)
qed simp

lemma strip_header_absent: "\<not> carries_field name raw \<Longrightarrow> strip_header raw name = raw"
proof -
  assume "\<not> carries_field name raw"
  then have "strip_lines name True False (split_after_lf raw) = split_after_lf raw"
    by (intro strip_lines_id) (auto simp: carries_field_def header_lines_def list_ex_iff)
  then show ?thesis by (simp add: strip_header_def concat_split_after_lf)
qed

lemma strip_header_idem: "strip_header (strip_header raw name) name = strip_header raw name"
  by (rule strip_header_absent) (rule strip_header_removes)

text \<open>Removing one field never brings back another.\<close>

lemma strip_lines_subset_header:
  "l \<in> set (takeWhile (\<lambda>l. \<not> blank_line l) (strip_lines name True k ls)) \<Longrightarrow>
     l \<in> set (takeWhile (\<lambda>l. \<not> blank_line l) ls)"
  by (induction ls arbitrary: k) (auto split: if_splits)

lemma strip_header_mono: "carries_field n (strip_header raw name) \<Longrightarrow> carries_field n raw"
  unfolding carries_field_def list_ex_iff header_lines_strip unfolding header_lines_def
  using strip_lines_subset_header by blast

lemma strip_headers_removes:
  "name \<in> set removed \<Longrightarrow> \<not> carries_field name (fold (\<lambda>n raw. strip_header raw n) removed raw)"
proof (induction removed arbitrary: raw)
  case (Cons n ns)
  have keep: "carries_field name (fold (\<lambda>n raw. strip_header raw n) ms r) \<Longrightarrow> carries_field name r" for ms r
    by (induction ms arbitrary: r) (auto dest: strip_header_mono)
  from Cons show ?case
    using keep [of ns "strip_header raw n"] strip_header_removes [of n raw] by (cases "name = n") auto
qed simp

text \<open>The body, everything after the first blank line, is kept byte for byte.\<close>

lemma strip_lines_body: "strip_lines name False k ls = ls"
  by (induction ls) auto

lemma strip_lines_split_at_blank:
  "ls = hs @ b # ms \<Longrightarrow> \<forall>h \<in> set hs. \<not> blank_line h \<Longrightarrow> blank_line b \<Longrightarrow>
     strip_lines name True k ls = strip_lines name True k hs @ b # ms"
  by (induction hs arbitrary: k ls) (auto simp: strip_lines_body)

section \<open>Prepending\<close>

lemma apply_modified_headers_keys:
  assumes "distinct (map fst m)"
  shows "apply_modified_headers raw m =
    fold (\<lambda>(n, v) raw. prepend_header raw n v)
      (map (\<lambda>n. (n, the (map_of m n))) (sort (map fst m))) raw"
  by (simp add: apply_modified_headers_def fold_map comp_def)

lemma apply_modified_perm:
  assumes "distinct (map fst m)" and "mset m = mset m'"
  shows "apply_modified_headers raw m = apply_modified_headers raw m'"
proof -
  have keys: "mset (map fst m) = mset (map fst m')" using assms(2) by simp
  then have "sort (map fst m) = sort (map fst m')"
    using sorted_sort properties_for_sort mset_sort by metis
  moreover have "distinct (map fst m')" using assms(1) keys by (metis mset_eq_imp_distinct_iff)
  then have "map_of m = map_of m'"
    using assms by (intro map_of_inject_set [THEN iffD2]) (auto dest: mset_eq_setD)
  ultimately show ?thesis by (simp add: apply_modified_headers_def)
qed

lemma split_after_lf_prepend:
  assumes "LF \<notin> set name" and "LF \<notin> set value"
  shows "split_after_lf (prepend_header raw name value) =
    (name @ '': '' @ value @ CRLF) # split_after_lf raw"
proof -
  have eq: "prepend_header raw name value = (name @ '': '' @ value @ [CR]) @ LF # raw"
    by (simp add: prepend_header_def)
  have "LF \<notin> set (name @ '': '' @ value @ [CR])" using assms by simp
  from split_after_lf_line [OF this, of raw] show ?thesis unfolding eq by simp
qed

lemma wire_clean_prepend:
  assumes "line_ok name" and "line_ok value" and "wire_clean raw"
  shows "wire_clean (prepend_header raw name value)"
proof -
  obtain ls where ls: "ls \<noteq> []" "\<forall>l \<in> set ls. line_ok l" "raw = join CRLF ls"
    using assms(3) by (auto simp: wire_clean_def)
  have "prepend_header raw name value = join CRLF ((name @ '': '' @ value) # ls)"
    using ls by (simp add: prepend_header_def join_cons_ne)
  then show ?thesis unfolding wire_clean_def using ls assms
    by (intro exI [of _ "(name @ '': '' @ value) # ls"]) auto
qed

lemma carries_prepend:
  assumes "LF \<notin> set n" and "LF \<notin> set v" and "\<not> names_field name (n @ '': '' @ v @ CRLF)"
    and "carries_field name (prepend_header raw n v)"
  shows "carries_field name raw"
  using assms(3,4)
  by (auto simp: carries_field_def header_lines_def split_after_lf_prepend [OF assms(1,2)] split: if_splits)

lemma carries_apply_modified:
  assumes "\<forall>n \<in> fst ` set m. LF \<notin> set n \<and> LF \<notin> set (the (map_of m n)) \<and>
      \<not> names_field name (n @ '': '' @ the (map_of m n) @ CRLF)"
    and "carries_field name (apply_modified_headers raw m)"
  shows "carries_field name raw"
proof -
  have "carries_field name (fold (\<lambda>n raw. prepend_header raw n (the (map_of m n))) ns r) \<Longrightarrow>
      set ns \<subseteq> fst ` set m \<Longrightarrow> carries_field name r" for ns r
  proof (induction ns arbitrary: r)
    case (Cons n ns)
    then have "carries_field name (prepend_header r n (the (map_of m n)))" by simp
    moreover have "n \<in> fst ` set m" using Cons.prems(2) by simp
    ultimately show ?case using assms(1) carries_prepend by blast
  qed simp
  from this [of "sort (map fst m)" raw] assms(2) show ?thesis by (simp add: apply_modified_headers_def)
qed

section \<open>Header block and body\<close>

text \<open>The bytes from the first blank line on, and the line a field is written on.\<close>

definition body_bytes :: "string \<Rightarrow> string" where
  "body_bytes raw = concat (dropWhile (\<lambda>l. \<not> blank_line l) (split_after_lf raw))"

definition field_text :: "string \<times> string \<Rightarrow> string" where
  "field_text f = fst f @ '': '' @ snd f @ CRLF"

lemma header_body: "concat (header_lines raw) @ body_bytes raw = raw"
  by (simp add: header_lines_def body_bytes_def concat_split_after_lf flip: concat_append)

lemma strip_lines_parts:
  "subseq (takeWhile (\<lambda>l. \<not> blank_line l) (strip_lines name True k ls)) (takeWhile (\<lambda>l. \<not> blank_line l) ls)"
  "dropWhile (\<lambda>l. \<not> blank_line l) (strip_lines name True k ls) = dropWhile (\<lambda>l. \<not> blank_line l) ls"
  by (induction ls arbitrary: k) (auto simp: strip_lines_body)

lemma concat_dropWhile_snoc:
  "concat (dropWhile (\<lambda>l. \<not> blank_line l) (ls @ [[]])) = concat (dropWhile (\<lambda>l. \<not> blank_line l) ls)"
  by (induction ls) auto

lemma strip_header_parts:
  "subseq (header_lines (strip_header raw name)) (header_lines raw)" "body_bytes (strip_header raw name) = body_bytes raw"
proof -
  show "subseq (header_lines (strip_header raw name)) (header_lines raw)"
    unfolding header_lines_strip by (simp add: header_lines_def strip_lines_parts)
  have "lf_lines (strip_lines name True False (split_after_lf raw))"
    using subseq_strip_lines lf_lines_split by (rule lf_lines_subseq)
  from split_concat_lf_lines [OF this] show "body_bytes (strip_header raw name) = body_bytes raw"
    by (auto simp: body_bytes_def strip_header_def strip_lines_parts concat_dropWhile_snoc)
qed

lemma strip_headers_parts:
  "subseq (header_lines (fold (\<lambda>n raw. strip_header raw n) names raw)) (header_lines raw) \<and>
     body_bytes (fold (\<lambda>n raw. strip_header raw n) names raw) = body_bytes raw"
proof (induction names arbitrary: raw)
  case (Cons n names)
  from Cons [of "strip_header raw n"] strip_header_parts [of raw n] show ?case
    using subseq_order.trans by auto
qed simp

lemma strip_headers_absent:
  "\<forall>n \<in> set names. \<not> carries_field n raw \<Longrightarrow> fold (\<lambda>n raw. strip_header raw n) names raw = raw"
  by (induction names) (simp_all add: strip_header_absent)

lemma prepend_parts:
  assumes "LF \<notin> set n" and "LF \<notin> set v"
  shows "header_lines (prepend_header raw n v) = field_text (n, v) # header_lines raw"
    "body_bytes (prepend_header raw n v) = body_bytes raw"
proof -
  have "trim_right_set (n @ '': '' @ v @ CRLF) CRLF \<noteq> []"
    by (auto simp: trim_right_set_def dropWhile_eq_Nil_conv)
  then have "\<not> blank_line (n @ '': '' @ v @ CRLF)" by (simp add: blank_line_def)
  then show "header_lines (prepend_header raw n v) = field_text (n, v) # header_lines raw"
    "body_bytes (prepend_header raw n v) = body_bytes raw"
    by (simp_all add: header_lines_def body_bytes_def split_after_lf_prepend [OF assms] field_text_def)
qed

text \<open>The added fields in the order in which they are written.\<close>

definition written_fields :: "(string \<times> string) list \<Rightarrow> (string \<times> string) list" where
  "written_fields m = rev (map (\<lambda>n. (n, the (map_of m n))) (sort (map fst m)))"

lemma mset_written: "distinct (map fst m) \<Longrightarrow> mset (written_fields m) = mset m"
proof -
  assume d: "distinct (map fst m)"
  have "map (\<lambda>n. (n, the (map_of m n))) (map fst m) = m"
    using d by (auto simp: comp_def intro!: map_idI)
  then show ?thesis unfolding written_fields_def by (metis mset_map mset_rev mset_sort)
qed

lemma apply_modified_parts:
  assumes "\<forall>f \<in> set (written_fields m). LF \<notin> set (fst f) \<and> LF \<notin> set (snd f)"
  shows "header_lines (apply_modified_headers raw m) = map field_text (written_fields m) @ header_lines raw \<and>
    body_bytes (apply_modified_headers raw m) = body_bytes raw"
proof -
  have "header_lines (fold (\<lambda>n raw. prepend_header raw n (the (map_of m n))) ns r) =
        map field_text (rev (map (\<lambda>n. (n, the (map_of m n))) ns)) @ header_lines r \<and>
      body_bytes (fold (\<lambda>n raw. prepend_header raw n (the (map_of m n))) ns r) = body_bytes r"
    if "\<forall>n \<in> set ns. LF \<notin> set n \<and> LF \<notin> set (the (map_of m n))" for ns r
    using that by (induction ns arbitrary: r) (simp_all add: prepend_parts)
  from this [of "sort (map fst m)" raw] assms show ?thesis
    by (simp add: apply_modified_headers_def written_fields_def)
qed

section \<open>Properties\<close>

text \<open>
  The header changes of a policy take effect: a removed field does not occur in the
  header section afterwards, unless the policy added it again, in whatever order Go iterates
  over the added fields.
\<close>

theorem removed_headers_gone:
  assumes "name \<in> set removed" and "mset added = mset added'" and "distinct (map fst added)"
    and "\<forall>n \<in> fst ` set added. LF \<notin> set n \<and> LF \<notin> set (the (map_of added n)) \<and>
      \<not> names_field name (n @ '': '' @ the (map_of added n) @ CRLF)"
  shows "\<not> carries_field name (apply_header_changes raw removed added')"
  unfolding apply_header_changes_def apply_modified_perm [OF assms(3,2), symmetric]
  using carries_apply_modified [OF assms(4)] strip_headers_removes [OF assms(1)] by blast

theorem removed_headers_gone_witness:
  "\<not> carries_field ''B'' (apply_header_changes (''A: 1'' @ CRLF @ ''b: 2'' @ CRLF @ '' 3'' @ CRLF @ CRLF)
     [''B''] [(''C'', ''4'')])"
proof (rule removed_headers_gone [where added = "[(''C'', ''4'')]"])
  show "\<forall>n \<in> fst ` set [(''C'', ''4'')]. LF \<notin> set n \<and> LF \<notin> set (the (map_of [(''C'', ''4'')] n)) \<and>
      \<not> names_field ''B'' (n @ '': '' @ the (map_of [(''C'', ''4'')] n) @ CRLF)"
    by code_simp
qed simp_all

text \<open>
  Removing a field leaves the rest alone: the lines from the first blank line on are
  kept byte for byte, and a message without the field is not changed at all.
\<close>

theorem strip_keeps_rest:
  assumes "split_after_lf raw = hs @ b # body" and "list_all (\<lambda>h. \<not> blank_line h) hs" and "blank_line b"
  shows "\<exists>hs'. subseq hs' hs \<and> strip_header raw name = concat hs' @ b @ concat body \<and>
     (carries_field name raw \<or> hs' = hs)"
proof -
  have nb: "\<forall>h \<in> set hs. \<not> blank_line h" using assms(2) by (simp add: list_all_iff)
  have eq: "strip_lines name True False (split_after_lf raw) = strip_lines name True False hs @ b # body"
    by (rule strip_lines_split_at_blank [OF assms(1) nb assms(3)])
  have tw: "takeWhile (\<lambda>l. \<not> blank_line l) (hs @ b # body) = hs" "takeWhile (\<lambda>l. \<not> blank_line l) hs = hs"
    using nb assms(3) by (simp_all add: takeWhile_append2 takeWhile_eq_all_conv)
  have "strip_lines name True False hs = hs" if "\<not> carries_field name raw"
    by (rule strip_lines_id, unfold tw(2))
       (use that in \<open>auto simp: carries_field_def header_lines_def list_ex_iff assms(1) tw(1)\<close>)
  then show ?thesis
    using eq subseq_strip_lines [of name True False hs]
    by (intro exI [of _ "strip_lines name True False hs"]) (auto simp: strip_header_def)
qed

theorem strip_keeps_rest_witness:
  "\<exists>hs'. subseq hs' [''X: 1'' @ [LF]] \<and> strip_header (''X: 1'' @ [LF, LF] @ ''X: 2'') ''x'' =
     concat hs' @ [LF] @ concat [''X: 2''] \<and> (carries_field ''x'' (''X: 1'' @ [LF, LF] @ ''X: 2'') \<or> hs' = [''X: 1'' @ [LF]])"
  by (rule strip_keeps_rest) (code_simp+)

end
