(* ===== verification/Base64.thy ===== *)
theory Base64
  imports GoStrings
begin

text \<open>
  Go's \<^verbatim>\<open>base64.StdEncoding\<close>, which the AUTH PLAIN exchange, DKIM and ARC use: the padded
  standard alphabet; the decoder skips CR and LF, ignores the unused low bits of a final
  group, and rejects everything else.
\<close>

definition b64_alphabet :: string where
  "b64_alphabet = ''ABCDEFGHIJKLMNOPQRSTUVWXYZabcdefghijklmnopqrstuvwxyz0123456789+/''"

definition b64_char :: "nat \<Rightarrow> char" where
  "b64_char n = b64_alphabet ! n"

definition b64_val :: "char \<Rightarrow> nat option" where
  "b64_val c = index_byte c b64_alphabet"

definition byte_of :: "nat \<Rightarrow> char" where
  "byte_of n = char_of n"

fun b64_encode :: "string \<Rightarrow> string" where
  "b64_encode [] = []"
| "b64_encode [a] =
     [b64_char (char_code a div 4), b64_char ((char_code a mod 4) * 16), CHR ''='', CHR ''='']"
| "b64_encode [a, b] =
     [b64_char (char_code a div 4), b64_char ((char_code a mod 4) * 16 + char_code b div 16),
      b64_char ((char_code b mod 16) * 4), CHR ''='']"
| "b64_encode (a # b # c # rest) =
     b64_char (char_code a div 4) # b64_char ((char_code a mod 4) * 16 + char_code b div 16) #
     b64_char ((char_code b mod 16) * 4 + char_code c div 64) # b64_char (char_code c mod 64) #
     b64_encode rest"

fun b64_groups :: "string \<Rightarrow> string option" where
  "b64_groups [] = Some []"
| "b64_groups (a # b # c # d # rest) =
     (case (b64_val a, b64_val b) of
        (Some va, Some vb) \<Rightarrow>
          if c = CHR ''='' then
            (if d = CHR ''='' \<and> rest = [] then Some [byte_of (va * 4 + vb div 16)] else None)
          else (case b64_val c of
              None \<Rightarrow> None
            | Some vc \<Rightarrow>
                if d = CHR ''='' then
                  (if rest = []
                   then Some [byte_of (va * 4 + vb div 16), byte_of ((vb mod 16) * 16 + vc div 4)]
                   else None)
                else (case b64_val d of
                    None \<Rightarrow> None
                  | Some vd \<Rightarrow> map_option (\<lambda>bs. byte_of (va * 4 + vb div 16) #
                        byte_of ((vb mod 16) * 16 + vc div 4) # byte_of ((vc mod 4) * 64 + vd) # bs)
                      (b64_groups rest)))
      | _ \<Rightarrow> None)"
| "b64_groups _ = None"

definition b64_decode :: "string \<Rightarrow> string option" where
  "b64_decode s = b64_groups (filter (\<lambda>c. c \<noteq> CR \<and> c \<noteq> LF) s)"

lemma b64_alphabet_index:
  "list_all (\<lambda>n. b64_val (b64_char n) = Some n \<and> b64_char n \<noteq> CHR ''='' \<and> b64_char n \<noteq> CR
      \<and> b64_char n \<noteq> LF) [0..<64]"
  by code_simp

lemma b64_val_char [simp]: "n < 64 \<Longrightarrow> b64_val (b64_char n) = Some n"
  and b64_char_neq [simp]: "n < 64 \<Longrightarrow> b64_char n \<noteq> CHR ''=''"
  and b64_char_line: "n < 64 \<Longrightarrow> b64_char n \<noteq> CR \<and> b64_char n \<noteq> LF"
  using b64_alphabet_index by (simp_all add: list_all_iff)

lemma char_code_less [simp]: "char_code c < 256"
  by (simp add: char_code_def)

lemma byte_of_char_code: "byte_of (char_code c) = c"
  by (simp add: byte_of_def char_code_def)

lemma b64_limbs [simp]:
  "char_code a div 4 < 64" "char_code c mod 64 < 64" "(char_code a mod 4) * 16 < 64"
  "(char_code a mod 4) * 16 + char_code b div 16 < 64" "(char_code b mod 16) * 4 < 64"
  "(char_code b mod 16) * 4 + char_code c div 64 < 64"
  using char_code_less [of a] char_code_less [of b] char_code_less [of c] by linarith+

lemma char_code_limbs [simp]:
  "char_code b div 16 div 16 = 0" "char_code b div 16 mod 16 = char_code b div 16"
  "char_code b div 64 div 4 = 0" "char_code b div 64 mod 4 = char_code b div 64"
proof -
  have "char_code b div 16 < 16" "char_code b div 64 < 4"
    using char_code_less [of b] by linarith+
  then show "char_code b div 16 div 16 = 0" "char_code b div 16 mod 16 = char_code b div 16"
    "char_code b div 64 div 4 = 0" "char_code b div 64 mod 4 = char_code b div 64"
    by simp_all
qed

lemma b64_groups_encode: "b64_groups (b64_encode s) = Some s"
  by (induction s rule: b64_encode.induct) (simp_all add: byte_of_char_code)

lemma b64_encode_line: "c \<in> set (b64_encode s) \<Longrightarrow> c \<noteq> CR \<and> c \<noteq> LF"
  by (induction s rule: b64_encode.induct) (auto simp: b64_char_line)

lemma b64_decode_encode: "b64_decode (b64_encode s) = Some s"
proof -
  have "filter (\<lambda>c. c \<noteq> CR \<and> c \<noteq> LF) (b64_encode s) = b64_encode s"
    using b64_encode_line by (simp add: filter_id_conv)
  then show ?thesis by (simp add: b64_decode_def b64_groups_encode)
qed

lemma line_ok_b64_encode [line_safe, simp]: "line_ok (b64_encode s)"
  using b64_encode_line by (auto simp: line_ok_def)

end
