(* ===== verification/Upstream.thy ===== *)
theory Upstream
  imports HeaderEdit Base64
begin

text \<open>
  The client side of the proxy, \<^verbatim>\<open>cmd/mailscript/upstream.go\<close>, with the reply parser and the
  \<^verbatim>\<open>upstreamError\<close> methods of \<^verbatim>\<open>proxy.go\<close>: one SMTP connection to the backend from the dial
  to a usable transaction (\<open>connect_upstream\<close>).

  The backend is outside: the record \<^verbatim>\<open>net_env\<close> holds what it does. \<open>ne_peer n es\<close> is what the
  server behind the \<open>n\<close>-th connection sends once the events \<open>es\<close> have happened on it, as the
  chunks that \<^verbatim>\<open>Read\<close> returns; \<^const>\<open>None\<close> is a failed write or handshake. Nothing is assumed
  about it, so every theorem holds against a hostile backend. A connection carries the list
  of its events, the record of everything written to it.
\<close>

section \<open>Upstream errors and replies\<close>

text \<open>\<^verbatim>\<open>(*upstreamError).message\<close>, \<^verbatim>\<open>Error\<close> and \<^verbatim>\<open>clientReply\<close>.\<close>

definition ue_message :: "string \<Rightarrow> string" where
  "ue_message text =
     (let last0 = trim_space text;
          last1 = (case last_index LF last0 of Some i \<Rightarrow> trim_space (drop (Suc i) last0) | None \<Rightarrow> last0);
          last2 = (if length last1 \<ge> 3 \<and> atoi (take 3 last1) \<noteq> None
                   then trim_space (trim_left_set (drop 3 last1) ''- '') else last1)
      in if last2 = [] then ''rejected by upstream'' else last2)"

fun go_error_text :: "go_error \<Rightarrow> string" where
  "go_error_text (PlainError msg) = msg"
| "go_error_text (UpstreamError code stage text) =
     ''upstream rejected at '' @ stage @ '': '' @ show_int code @ '' '' @ smtp_reply_text (ue_message text)"

definition client_reply :: "int \<Rightarrow> string \<Rightarrow> string" where
  "client_reply code text = show_int code @ '' '' @ smtp_reply_text (ue_message text)"

definition malformed_reply :: go_error where
  "malformed_reply = PlainError ''malformed SMTP reply''"

definition reply_char_ok :: "string \<Rightarrow> bool" where
  "reply_char_ok trimmed \<longleftrightarrow>
     \<not> (length trimmed > 3 \<and> trimmed ! 3 \<noteq> CHR '' '' \<and> trimmed ! 3 \<noteq> CHR ''-'')"

function read_reply_loop :: "string \<Rightarrow> int \<Rightarrow> reader \<Rightarrow> (go_error + int \<times> string) \<times> reader" where
  "read_reply_loop full expected rd =
     (case read_wire_line 4096 rd of
        (Inl e, rd') \<Rightarrow> (Inl e, rd')
      | (Inr line, rd') \<Rightarrow>
          if length full + length line > 64 * 1024 then (Inl (PlainError ''SMTP reply too large''), rd')
          else
            let trimmed = trim_right_set line CRLF in
            if length trimmed < 3 then (Inl malformed_reply, rd')
            else (case atoi (take 3 trimmed) of
                None \<Rightarrow> (Inl malformed_reply, rd')
              | Some code \<Rightarrow>
                  if code < 200 \<or> code > 599 \<or> \<not> reply_char_ok trimmed then (Inl malformed_reply, rd')
                  else if expected \<noteq> 0 \<and> code \<noteq> expected
                    then (Inl (PlainError ''inconsistent SMTP reply codes''), rd')
                  else if length line < 4 \<or> line ! 3 \<noteq> CHR ''-''
                    then (Inr ((case atoi (take 3 line) of Some c \<Rightarrow> c | None \<Rightarrow> 0), full @ line), rd')
                  else read_reply_loop (full @ line) code rd'))"
  by pat_completeness auto
termination
  by (relation "measure (\<lambda>(full, expected, rd). length (rd_bytes rd))")
     (auto dest: read_wire_line_smaller [OF sym])

declare read_reply_loop.simps [simp del]

definition read_smtp_reply :: "reader \<Rightarrow> (go_error + int \<times> string) \<times> reader" where
  "read_smtp_reply rd = read_reply_loop [] 0 rd"

section \<open>The connection\<close>

datatype up_event = Wrote string | TlsHandshake string | GotReply int

record upstream =
  u_id :: nat
  u_events :: "up_event list"
  u_reader :: reader
  u_ext :: "string \<rightharpoonup> string"

record net_env =
  ne_dial :: "nat \<Rightarrow> bool"
  ne_peer :: "nat \<Rightarrow> up_event list \<Rightarrow> string list option"

record upstream_config =
  uc_mode :: string
  uc_server_name :: string
  uc_username :: string
  uc_password :: string

type_synonym up_result = "go_error option \<times> upstream"

definition then_up :: "up_result \<Rightarrow> (upstream \<Rightarrow> up_result) \<Rightarrow> up_result" where
  "then_up r f = (case r of (None, u) \<Rightarrow> f u | (Some e, u) \<Rightarrow> (Some e, u))"

definition add_event :: "up_event \<Rightarrow> upstream \<Rightarrow> upstream" where
  "add_event ev u = u\<lparr>u_events := u_events u @ [ev]\<rparr>"

definition receive :: "string list \<Rightarrow> upstream \<Rightarrow> upstream" where
  "receive chunks u = u\<lparr>u_reader := (u_reader u)\<lparr>rd_net := rd_net (u_reader u) @ chunks\<rparr>\<rparr>"

definition up_write :: "net_env \<Rightarrow> string \<Rightarrow> upstream \<Rightarrow> up_result" where
  "up_write env b u =
     (let u' = add_event (Wrote b) u in
      case ne_peer env (u_id u) (u_events u') of
        None \<Rightarrow> (Some (PlainError ''write failed''), u')
      | Some chunks \<Rightarrow> (None, receive chunks u'))"

text \<open>\<^verbatim>\<open>command\<close>: the result is the reply code with its text, or an error.\<close>

definition command_stage :: "string \<Rightarrow> string" where
  "command_stage command = split2 CHR '' '' command ! 0"

definition up_read_reply :: "upstream \<Rightarrow> (go_error + int \<times> string) \<times> upstream" where
  "up_read_reply u =
     (case read_smtp_reply (u_reader u) of
        (Inl e, rd) \<Rightarrow> (Inl e, u\<lparr>u_reader := rd\<rparr>)
      | (Inr (code, text), rd) \<Rightarrow> (Inr (code, text), add_event (GotReply code) (u\<lparr>u_reader := rd\<rparr>)))"

definition up_command ::
  "net_env \<Rightarrow> string \<Rightarrow> int \<Rightarrow> upstream \<Rightarrow> (go_error + int \<times> string) \<times> upstream" where
  "up_command env command want u =
     (case (if command = [] then (None, u) else up_write env (command @ CRLF) u) of
        (Some e, u1) \<Rightarrow> (Inl e, u1)
      | (None, u1) \<Rightarrow>
          (case up_read_reply u1 of
             (Inl e, u2) \<Rightarrow> (Inl e, u2)
           | (Inr (code, text), u2) \<Rightarrow>
               if want > 0 \<and> code \<noteq> want
               then (Inl (UpstreamError code (command_stage command) text), u2)
               else (Inr (code, text), u2)))"

definition up_expect :: "net_env \<Rightarrow> string \<Rightarrow> int \<Rightarrow> upstream \<Rightarrow> up_result" where
  "up_expect env command want u =
     (case up_command env command want u of
        (Inl e, u') \<Rightarrow> (Some e, u') | (Inr _, u') \<Rightarrow> (None, u'))"

definition parse_extension :: "(string \<rightharpoonup> string) \<Rightarrow> string \<Rightarrow> (string \<rightharpoonup> string)" where
  "parse_extension m line =
     (if length line < 4 then m
      else (case str_fields (drop 4 line) of
          [] \<Rightarrow> m
        | f # fs \<Rightarrow> m(to_upper f \<mapsto> join '' '' fs)))"

definition parse_extensions :: "string \<Rightarrow> (string \<rightharpoonup> string)" where
  "parse_extensions text = fold (\<lambda>line m. parse_extension m line) (split_on LF (trim_space text)) Map.empty"

definition up_hello :: "net_env \<Rightarrow> upstream \<Rightarrow> up_result" where
  "up_hello env u =
     (case up_command env ''EHLO mailscript-proxy'' 0 u of
        (Inl e, u1) \<Rightarrow> (Some e, u1)
      | (Inr (code, text), u1) \<Rightarrow>
          let u2 = u1\<lparr>u_ext := Map.empty\<rparr> in
          if code = 500 \<or> code = 502 \<or> code = 504
          then up_expect env ''HELO mailscript-proxy'' 250 u2
          else if code \<noteq> 250 then (Some (UpstreamError code ''EHLO'' text), u2)
          else (None, u2\<lparr>u_ext := parse_extensions text\<rparr>))"

text \<open>A TLS handshake and the new reader over the encrypted stream.\<close>

definition up_handshake :: "net_env \<Rightarrow> string \<Rightarrow> upstream \<Rightarrow> up_result" where
  "up_handshake env name u =
     (let u' = add_event (TlsHandshake name) u in
      case ne_peer env (u_id u) (u_events u') of
        None \<Rightarrow> (Some (PlainError ''TLS handshake failed''), u')
      | Some chunks \<Rightarrow> (None, u'\<lparr>u_reader := new_reader chunks\<rparr>))"

text \<open>\<^verbatim>\<open>net.SplitHostPort\<close>, as far as it is used: the host, or an error.\<close>

definition split_host_port :: "string \<Rightarrow> string option" where
  "split_host_port hp =
     (case last_index CHR '':'' hp of
        None \<Rightarrow> None
      | Some i \<Rightarrow>
          if has_prefix hp ''['' then
            (case index_byte CHR '']'' hp of
               None \<Rightarrow> None
             | Some e \<Rightarrow>
                 if Suc e \<noteq> i then None
                 else if CHR ''['' \<in> set (drop 1 hp) \<or> CHR '']'' \<in> set (drop (Suc e) hp) then None
                 else Some (take (e - 1) (drop 1 hp)))
          else if CHR '':'' \<in> set (take i hp) then None
          else if CHR ''['' \<in> set hp \<or> CHR '']'' \<in> set hp then None
          else Some (take i hp))"

definition starttls_phase :: "net_env \<Rightarrow> upstream_config \<Rightarrow> string \<Rightarrow> upstream \<Rightarrow> up_result" where
  "starttls_phase env cfg host u =
     (if uc_mode cfg \<noteq> ''starttls'' then (None, u)
      else if u_ext u ''STARTTLS'' = None
        then (Some (PlainError ''upstream does not advertise required STARTTLS''), u)
      else then_up (up_expect env ''STARTTLS'' 220 u) (\<lambda>u1.
             then_up (up_handshake env host u1) (up_hello env)))"

definition auth_payload :: "string \<Rightarrow> string \<Rightarrow> string" where
  "auth_payload user password = b64_encode ([NUL] @ user @ [NUL] @ password)"

definition auth_phase :: "net_env \<Rightarrow> upstream_config \<Rightarrow> string \<Rightarrow> string \<Rightarrow> upstream \<Rightarrow> up_result" where
  "auth_phase env cfg user password u =
     (if user = [] then (None, u)
      else if uc_mode cfg \<noteq> ''tls'' \<and> uc_mode cfg \<noteq> ''starttls''
        then (Some (PlainError ''refusing plaintext upstream authentication''), u)
      else if \<not> list_ex (\<lambda>mech. equal_fold mech ''PLAIN'')
             (str_fields (case u_ext u ''AUTH'' of Some v \<Rightarrow> v | None \<Rightarrow> []))
        then (Some (PlainError ''upstream does not support AUTH PLAIN''), u)
      else up_expect env (''AUTH PLAIN '' @ auth_payload user password) 235 u)"

text \<open>
  \<^verbatim>\<open>connectUpstream\<close>. \<open>session_auth\<close> is the user and password of an authenticated session,
  \<open>n\<close> the number of the connection. The result is the error, if any, and the connection, if
  one was opened; with an error the caller closes it, as the deferred \<^verbatim>\<open>conn.Close\<close> does.
\<close>

definition connect_upstream ::
  "net_env \<Rightarrow> upstream_config \<Rightarrow> string \<Rightarrow> (string \<times> string) option \<Rightarrow> nat \<Rightarrow>
     go_error option \<times> upstream option" where
  "connect_upstream env cfg server session_auth n =
     (case split_host_port server of
        None \<Rightarrow> (Some (PlainError ''invalid upstream address''), None)
      | Some h \<Rightarrow>
          let host = (if uc_server_name cfg \<noteq> [] then uc_server_name cfg else h) in
          if \<not> ne_dial env n then (Some (PlainError ''dial failed''), None)
          else
            let u0 = \<lparr>u_id = n, u_events = [],
                      u_reader = new_reader (case ne_peer env n [] of Some c \<Rightarrow> c | None \<Rightarrow> []),
                      u_ext = Map.empty\<rparr>;
                (user, password) = (case session_auth of
                    Some up \<Rightarrow> up | None \<Rightarrow> (uc_username cfg, uc_password cfg));
                r = then_up (if uc_mode cfg = ''tls'' then up_handshake env host u0 else (None, u0)) (\<lambda>u1.
                    then_up (up_expect env [] 220 u1) (\<lambda>u2.
                    then_up (up_hello env u2) (\<lambda>u3.
                    then_up (starttls_phase env cfg host u3) (\<lambda>u4.
                    auth_phase env cfg user password u4))))
            in (fst r, Some (snd r)))"

section \<open>Replies\<close>

lemma line_ok_client_reply [line_safe, simp]: "line_ok (client_reply code text)"
  by (simp add: client_reply_def)

text \<open>
  What a reply is: lines that all carry its code, every one but the last with a hyphen
  behind it.
\<close>

definition reply_line :: "int \<Rightarrow> string \<Rightarrow> bool" where
  "reply_line code l \<longleftrightarrow> atoi (take 3 l) = Some code \<and> 200 \<le> code \<and> code \<le> 599 \<and>
     (\<exists>q. l = q @ [LF] \<and> LF \<notin> set q)"

lemma take_trim_right_set: "n \<le> length (trim_right_set l cs) \<Longrightarrow> take n (trim_right_set l cs) = take n l"
proof -
  assume n: "n \<le> length (trim_right_set l cs)"
  obtain q where "l = trim_right_set l cs @ q"
    using rev_dropWhile_prefix unfolding trim_right_set_def by blast
  then show ?thesis using n by (metis take_append diff_is_0_eq append.right_neutral take_0)
qed

lemma read_reply_loop_lines:
  "read_reply_loop full expected rd = (Inr (code, text), rd') \<Longrightarrow>
     \<exists>ls l. text = full @ concat ls @ l \<and> reply_line code l \<and>
       (\<forall>k \<in> set ls. reply_line code k \<and> k ! 3 = CHR ''-'') \<and> (expected \<noteq> 0 \<longrightarrow> code = expected)"
proof (induction full expected rd rule: read_reply_loop.induct)
  case (1 full expected rd)
  obtain r rd1 where r: "read_wire_line 4096 rd = (r, rd1)"
    by (cases "read_wire_line 4096 rd") auto
  from "1.prems" r obtain line where line: "r = Inr line"
    by (cases r) (auto simp: read_reply_loop.simps [of full expected rd])
  have lf: "\<exists>q. line = q @ [LF] \<and> LF \<notin> set q"
    using stream_line_Some [OF read_wire_line_Inr(1)] r line by blast
  define trimmed where "trimmed = trim_right_set line CRLF"
  have ok: "\<not> length full + length line > 64 * 1024" "\<not> length trimmed < 3"
    using "1.prems" r line
    by (auto simp: read_reply_loop.simps [of full expected rd] trimmed_def Let_def split: if_splits)
  then obtain c where c: "atoi (take 3 trimmed) = Some c"
    using "1.prems" r line
    by (auto simp: read_reply_loop.simps [of full expected rd] trimmed_def Let_def split: option.splits)
  have take3: "take 3 line = take 3 trimmed"
    using ok(2) by (simp add: trimmed_def take_trim_right_set)
  have ok2: "\<not> (c < 200 \<or> c > 599 \<or> \<not> reply_char_ok trimmed)" "\<not> (expected \<noteq> 0 \<and> c \<noteq> expected)"
    using "1.prems" r line ok c
    by (auto simp: read_reply_loop.simps [of full expected rd] trimmed_def Let_def split: if_splits)
  have here: "reply_line c line"
    using lf c take3 ok2 by (auto simp: reply_line_def)
  show ?case
  proof (cases "length line < 4 \<or> line ! 3 \<noteq> CHR ''-''")
    case True
    with "1.prems" r line ok c ok2 take3 have "code = c" "text = full @ line"
      by (auto simp: read_reply_loop.simps [of full expected rd] trimmed_def Let_def)
    with here ok2 show ?thesis by (intro exI [of _ "[]"] exI [of _ line]) auto
  next
    case False
    with "1.prems" r line ok c ok2
    have "read_reply_loop (full @ line) c rd1 = (Inr (code, text), rd')"
      by (simp add: read_reply_loop.simps [of full expected rd] trimmed_def [symmetric])
    from "1.IH" [OF r [symmetric] line ok(1) trimmed_def ok(2) c ok2 False this]
    obtain ls l where ls: "text = (full @ line) @ concat ls @ l" "reply_line code l"
        "\<forall>k \<in> set ls. reply_line code k \<and> k ! 3 = CHR ''-''" "c \<noteq> 0 \<longrightarrow> code = c"
      by blast
    have "code = c" using ls(4) ok2(1) by auto
    with ls here False ok2 show ?thesis
      by (intro exI [of _ "line # ls"] exI [of _ l]) auto
  qed
qed

lemma read_smtp_reply_code:
  assumes "read_smtp_reply rd = (Inr (code, text), rd')"
  shows "200 \<le> code \<and> code \<le> 599"
proof -
  obtain l where "reply_line code l"
    using read_reply_loop_lines assms unfolding read_smtp_reply_def by blast
  then show ?thesis by (simp add: reply_line_def)
qed

section \<open>What is written to the backend\<close>

text \<open>
  Every operation on a connection appends events. \<open>grows A u u'\<close>: it appended events that
  satisfy \<open>A\<close>.
\<close>

definition grows :: "(up_event \<Rightarrow> bool) \<Rightarrow> upstream \<Rightarrow> upstream \<Rightarrow> bool" where
  "grows A u u' \<longleftrightarrow> u_id u' = u_id u \<and> (\<exists>es. u_events u' = u_events u @ es \<and> (\<forall>e \<in> set es. A e))"

text \<open>Contracts of events: whole lines only, and no credentials.\<close>

fun line_event :: "up_event \<Rightarrow> bool" where
  "line_event (Wrote b) \<longleftrightarrow> (\<exists>c. b = c @ CRLF \<and> line_ok c)"
| "line_event _ \<longleftrightarrow> True"

fun no_auth_event :: "up_event \<Rightarrow> bool" where
  "no_auth_event (Wrote b) \<longleftrightarrow> \<not> has_prefix b ''AUTH''"
| "no_auth_event _ \<longleftrightarrow> True"

lemma grows_refl [simp]: "grows A u u"
  by (simp add: grows_def)

lemma grows_trans: "grows A u v \<Longrightarrow> grows A v w \<Longrightarrow> grows A u w"
  by (fastforce simp: grows_def)

lemma grows_add_event: "A e \<Longrightarrow> grows A u (add_event e u)"
  by (simp add: grows_def add_event_def)

lemma grows_reader [simp]: "grows A u (v\<lparr>u_reader := r\<rparr>) \<longleftrightarrow> grows A u v"
  by (simp add: grows_def)

lemma grows_ext [simp]: "grows A u (v\<lparr>u_ext := r\<rparr>) \<longleftrightarrow> grows A u v"
  by (simp add: grows_def)

lemma grows_receive [simp]: "grows A u (receive c v) \<longleftrightarrow> grows A u v"
  by (simp add: receive_def)

lemma grows_up_write: "A (Wrote b) \<Longrightarrow> grows A u (snd (up_write env b u))"
  by (simp add: up_write_def Let_def grows_add_event split: option.split)

lemma grows_up_read_reply: "\<forall>c. A (GotReply c) \<Longrightarrow> grows A u (snd (up_read_reply u))"
  by (auto simp: up_read_reply_def grows_def add_event_def split: prod.split sum.split)

text \<open>A contract that replies and a given command satisfy.\<close>

definition allows :: "(up_event \<Rightarrow> bool) \<Rightarrow> string \<Rightarrow> bool" where
  "allows A command \<longleftrightarrow> (\<forall>c. A (GotReply c)) \<and> (command \<noteq> [] \<longrightarrow> A (Wrote (command @ CRLF)))"

lemma grows_up_command:
  assumes "allows A command"
  shows "grows A u (snd (up_command env command want u))"
proof -
  define w where "w = (if command = [] then (None, u) else up_write env (command @ CRLF) u)"
  have w: "grows A u (snd w)"
    using assms by (simp add: w_def grows_up_write allows_def)
  show ?thesis
  proof (cases "fst w")
    case None
    have "grows A (snd w) (snd (up_read_reply (snd w)))"
      using assms by (intro grows_up_read_reply) (simp add: allows_def)
    with w have "grows A u (snd (up_read_reply (snd w)))" by (rule grows_trans)
    with None show ?thesis
      unfolding up_command_def w_def [symmetric]
      by (cases w) (auto split: prod.split sum.split)
  next
    case (Some e)
    with w show ?thesis
      unfolding up_command_def w_def [symmetric] by (cases w) auto
  qed
qed

lemma grows_up_expect: "allows A command \<Longrightarrow> grows A u (snd (up_expect env command want u))"
  using grows_up_command [of A command u env want]
  by (auto simp: up_expect_def split: prod.split sum.split)

lemma grows_then_up:
  "grows A u (snd r) \<Longrightarrow> (\<And>v. grows A v (snd (f v))) \<Longrightarrow> grows A u (snd (then_up r f))"
  by (cases r) (auto simp: then_up_def intro: grows_trans split: option.split)

lemma grows_up_hello:
  assumes "allows A ''EHLO mailscript-proxy''" and "allows A ''HELO mailscript-proxy''"
  shows "grows A u (snd (up_hello env u))"
proof -
  have "grows A u (snd (up_command env ''EHLO mailscript-proxy'' 0 u))"
    using assms(1) by (rule grows_up_command)
  then show ?thesis
    unfolding up_hello_def
    by (auto simp: Let_def split: prod.split sum.split
        intro: grows_trans [OF _ grows_up_expect [OF assms(2)]])
qed

lemma grows_up_handshake: "(\<And>h. A (TlsHandshake h)) \<Longrightarrow> grows A u (snd (up_handshake env name u))"
  by (simp add: up_handshake_def Let_def grows_add_event split: option.split)

lemma grows_starttls_phase:
  assumes "allows A ''EHLO mailscript-proxy''" and "allows A ''HELO mailscript-proxy''"
    and "allows A ''STARTTLS''" and "\<And>h. A (TlsHandshake h)"
  shows "grows A u (snd (starttls_phase env cfg host u))"
  unfolding starttls_phase_def
  by (auto intro!: grows_then_up grows_up_expect grows_up_handshake grows_up_hello assms)

lemma grows_auth_phase:
  assumes "\<And>x. allows A (''AUTH PLAIN '' @ b64_encode x)"
  shows "grows A u (snd (auth_phase env cfg user password u))"
  unfolding auth_phase_def auth_payload_def by (auto intro!: grows_up_expect assms [simplified])

lemma allows_line_event: "line_ok command \<Longrightarrow> allows line_event command"
  by (auto simp: allows_def)

lemmas allows_line_events [simp] =
  allows_line_event [of "''EHLO mailscript-proxy''", simplified]
  allows_line_event [of "''HELO mailscript-proxy''", simplified]
  allows_line_event [of "''STARTTLS''", simplified]

lemma allows_no_auth [simp]:
  "allows no_auth_event ''EHLO mailscript-proxy''" "allows no_auth_event ''HELO mailscript-proxy''"
  "allows no_auth_event ''STARTTLS''" "allows no_auth_event []"
  by (simp_all add: allows_def has_prefix_def)

section \<open>Opening a connection\<close>

text \<open>Everything before the authentication, as one operation.\<close>

definition connect_start :: "net_env \<Rightarrow> nat \<Rightarrow> upstream" where
  "connect_start env n =
     \<lparr>u_id = n, u_events = [],
      u_reader = new_reader (case ne_peer env n [] of Some c \<Rightarrow> c | None \<Rightarrow> []), u_ext = Map.empty\<rparr>"

definition connect_setup :: "net_env \<Rightarrow> upstream_config \<Rightarrow> string \<Rightarrow> nat \<Rightarrow> up_result" where
  "connect_setup env cfg host n =
     then_up (then_up (then_up
       (if uc_mode cfg = ''tls'' then up_handshake env host (connect_start env n)
        else (None, connect_start env n))
       (up_expect env [] 220)) (up_hello env)) (starttls_phase env cfg host)"

lemma then_up_assoc: "then_up (then_up r f) g = then_up r (\<lambda>u. then_up (f u) g)"
  by (cases r) (simp add: then_up_def split: option.split)

definition connect_credentials :: "upstream_config \<Rightarrow> (string \<times> string) option \<Rightarrow> string \<times> string" where
  "connect_credentials cfg auth =
     (case auth of Some up \<Rightarrow> up | None \<Rightarrow> (uc_username cfg, uc_password cfg))"

lemma connect_upstream_auth:
  assumes "connect_upstream env cfg server auth n = (err, Some u)"
  shows "\<exists>host. (err, u) = then_up (connect_setup env cfg host n)
     (auth_phase env cfg (fst (connect_credentials cfg auth)) (snd (connect_credentials cfg auth)))"
proof -
  obtain h where h: "split_host_port server = Some h"
    using assms by (cases "split_host_port server") (auto simp: connect_upstream_def)
  have "ne_dial env n" using assms h by (auto simp: connect_upstream_def Let_def split: if_splits)
  with assms h show ?thesis
    unfolding connect_upstream_def connect_setup_def connect_start_def [symmetric] then_up_assoc
      connect_credentials_def [symmetric]
    by (fastforce simp: Let_def split: prod.splits)
qed

lemma connect_upstream_cases:
  assumes "connect_upstream env cfg server auth n = (err, Some u)"
  shows "\<exists>host user password. (err, u) = then_up (connect_setup env cfg host n) (auth_phase env cfg user password)"
  using connect_upstream_auth [OF assms] by blast

lemma grows_connect_setup:
  assumes "allows A ''EHLO mailscript-proxy''" and "allows A ''HELO mailscript-proxy''"
    and "allows A ''STARTTLS''" and "\<And>h. A (TlsHandshake h)" and "allows A []"
  shows "grows A (connect_start env n) (snd (connect_setup env cfg host n))"
  unfolding connect_setup_def
  by (auto intro!: grows_then_up grows_up_expect grows_up_handshake grows_up_hello
      grows_starttls_phase assms)

lemma connect_events:
  assumes "connect_upstream env cfg server auth n = (err, Some u)"
    and "allows A ''EHLO mailscript-proxy''" and "allows A ''HELO mailscript-proxy''"
    and "allows A ''STARTTLS''" and "\<And>h. A (TlsHandshake h)" and "allows A []"
    and "\<And>x. allows A (''AUTH PLAIN '' @ b64_encode x)"
  shows "\<forall>e \<in> set (u_events u). A e"
proof -
  obtain host user password where
    eq: "(err, u) = then_up (connect_setup env cfg host n) (auth_phase env cfg user password)"
    using connect_upstream_cases [OF assms(1)] by blast
  have "grows A (connect_start env n)
      (snd (then_up (connect_setup env cfg host n) (auth_phase env cfg user password)))"
    by (intro grows_then_up grows_connect_setup grows_auth_phase assms(2-))
  then show ?thesis unfolding eq [symmetric] by (simp add: grows_def connect_start_def)
qed

lemma connect_line_events:
  assumes "connect_upstream env cfg server auth n = (err, Some u)"
  shows "\<forall>e \<in> set (u_events u). line_event e"
  by (rule connect_events [OF assms]) (auto intro!: allows_line_event)

definition encrypted :: "up_event list \<Rightarrow> bool" where
  "encrypted es \<longleftrightarrow> (\<exists>h. TlsHandshake h \<in> set es)"

definition auth_protected :: "up_event list \<Rightarrow> bool" where
  "auth_protected es \<longleftrightarrow>
     (\<forall>pre b post. es = pre @ Wrote b # post \<and> has_prefix b ''AUTH'' \<longrightarrow> encrypted pre)"

lemma auth_protected_append:
  assumes free: "\<forall>e \<in> set es. no_auth_event e" and enc: "encrypted es \<or> (\<forall>e \<in> set fs. no_auth_event e)"
  shows "auth_protected (es @ fs)"
  unfolding auth_protected_def
proof (intro allI impI, elim conjE)
  fix pre b post assume eq: "es @ fs = pre @ Wrote b # post" and auth: "has_prefix b ''AUTH''"
  show "encrypted pre"
  proof (cases "length pre < length es")
    case True
    have "(es @ fs) ! length pre = Wrote b" unfolding eq by simp
    then have "Wrote b \<in> set es" using True by (metis nth_append nth_mem)
    with free auth show ?thesis by fastforce
  next
    case False
    then obtain qs where pre: "pre = es @ qs"
      using eq by (metis append_eq_append_conv_if append_take_drop_id linorder_not_less)
    then have "Wrote b \<in> set fs" using eq by auto
    with enc auth have "encrypted es" by fastforce
    with pre show ?thesis by (auto simp: encrypted_def)
  qed
qed

lemma encrypted_grows: "grows A u v \<Longrightarrow> encrypted (u_events u) \<Longrightarrow> encrypted (u_events v)"
  by (auto simp: grows_def encrypted_def)

lemma encrypted_handshake: "encrypted (u_events (snd (up_handshake env name u)))"
  by (auto simp: up_handshake_def Let_def add_event_def encrypted_def split: option.split)

lemma grows_any:
  "grows (\<lambda>_. True) u (snd (up_hello env u))" "grows (\<lambda>_. True) u (snd (up_expect env c w u))"
  "grows (\<lambda>_. True) u (snd (starttls_phase env cfg host u))"
  by (auto intro!: grows_up_hello grows_up_expect grows_starttls_phase simp: allows_def)

lemma then_up_None:
  "fst (then_up r f) = None \<Longrightarrow> fst r = None \<and> fst (f (snd r)) = None \<and> then_up r f = f (snd r)"
  by (cases r) (auto simp: then_up_def split: option.splits)

lemma encrypted_starttls:
  assumes "uc_mode cfg = ''starttls''" and "fst (starttls_phase env cfg host u) = None"
  shows "encrypted (u_events (snd (starttls_phase env cfg host u)))"
proof -
  let ?r = "up_expect env ''STARTTLS'' 220 u"
  have st: "starttls_phase env cfg host u =
      then_up ?r (\<lambda>u1. then_up (up_handshake env host u1) (up_hello env))"
    using assms by (auto simp: starttls_phase_def split: if_splits)
  let ?h = "up_handshake env host (snd ?r)"
  have "starttls_phase env cfg host u = up_hello env (snd ?h)"
    using assms(2) unfolding st by (metis then_up_None)
  then show ?thesis
    using encrypted_handshake encrypted_grows grows_any(1) by metis
qed

lemma encrypted_setup:
  assumes "uc_mode cfg = ''tls'' \<or> uc_mode cfg = ''starttls''"
    and "fst (connect_setup env cfg host n) = None"
  shows "encrypted (u_events (snd (connect_setup env cfg host n)))"
proof -
  define a where "a = (if uc_mode cfg = ''tls'' then up_handshake env host (connect_start env n)
        else (None, connect_start env n))"
  define b where "b = up_hello env (snd (up_expect env [] 220 (snd a)))"
  have all: "connect_setup env cfg host n = starttls_phase env cfg host (snd b)"
    using assms(2) unfolding connect_setup_def a_def [symmetric] b_def by (metis then_up_None)
  show ?thesis
  proof (cases "uc_mode cfg = ''tls''")
    case True
    then have "encrypted (u_events (snd a))" by (simp add: a_def encrypted_handshake)
    then have "encrypted (u_events (snd b))"
      unfolding b_def by (metis encrypted_grows grows_any(1,2))
    then show ?thesis unfolding all by (metis encrypted_grows grows_any(3))
  next
    case False
    then show ?thesis using assms all encrypted_starttls by metis
  qed
qed

lemma connect_auth_protected:
  assumes "connect_upstream env cfg server auth n = (err, Some u)"
  shows "auth_protected (u_events u)"
proof -
  obtain host user password where
    eq: "(err, u) = then_up (connect_setup env cfg host n) (auth_phase env cfg user password)"
    using connect_upstream_cases [OF assms] by blast
  let ?s = "connect_setup env cfg host n"
  have free: "\<forall>e \<in> set (u_events (snd ?s)). no_auth_event e"
    using grows_connect_setup [of no_auth_event env n cfg host]
    by (simp add: grows_def connect_start_def)
  show ?thesis
  proof (cases "fst ?s")
    case (Some e)
    then have "u = snd ?s" using eq by (cases ?s) (simp add: then_up_def)
    with free auth_protected_append [of "u_events (snd ?s)" "[]"] show ?thesis by simp
  next
    case None
    then have u: "u = snd (auth_phase env cfg user password (snd ?s))"
      using eq by (cases ?s) (simp add: then_up_def, metis snd_conv)
    show ?thesis
    proof (cases "uc_mode cfg = ''tls'' \<or> uc_mode cfg = ''starttls''")
      case True
      obtain es where "u_events u = u_events (snd ?s) @ es"
        using grows_auth_phase [of "\<lambda>_. True" "snd ?s" env cfg user password] u
        by (auto simp: grows_def allows_def)
      with free encrypted_setup [OF True None] show ?thesis by (simp add: auth_protected_append)
    next
      case False
      then have "u = snd ?s" using u by (auto simp: auth_phase_def split: if_splits)
      with free auth_protected_append [of "u_events (snd ?s)" "[]"] show ?thesis by simp
    qed
  qed
qed

text \<open>A connection that is handed out under a TLS mode is encrypted.\<close>

lemma connect_encrypted:
  assumes "connect_upstream env cfg server auth n = (None, Some u)"
    and "uc_mode cfg = ''tls'' \<or> uc_mode cfg = ''starttls''"
  shows "encrypted (u_events u)"
proof -
  obtain host user password where
    eq: "(None, u) = then_up (connect_setup env cfg host n) (auth_phase env cfg user password)"
    using connect_upstream_cases [OF assms(1)] by blast
  let ?s = "connect_setup env cfg host n"
  have None: "fst ?s = None" and u: "u = snd (auth_phase env cfg user password (snd ?s))"
    using eq by (metis then_up_None fst_conv, metis then_up_None fst_conv snd_conv)
  have "grows (\<lambda>_. True) (snd ?s) u"
    unfolding u by (rule grows_auth_phase) (simp add: allows_def)
  with encrypted_setup [OF assms(2) None] show ?thesis by (metis encrypted_grows)
qed

section \<open>Properties\<close>

text \<open>
  Credentials go to the backend only over TLS: whatever the backend answers, on every
  connection that was opened each write that starts with AUTH comes after a TLS handshake,
  and in the TLS modes a connection that is handed out is encrypted.
\<close>

theorem credentials_encrypted:
  assumes "connect_upstream env cfg server auth n = (err, Some u)"
  shows "auth_protected (u_events u) \<and>
     (err = None \<and> (uc_mode cfg = ''tls'' \<or> uc_mode cfg = ''starttls'') \<longrightarrow> encrypted (u_events u))"
  using connect_auth_protected [OF assms] connect_encrypted assms by blast

definition plain_env :: net_env where
  "plain_env = \<lparr>ne_dial = (\<lambda>_. True), ne_peer = (\<lambda>_ _. Some [''220 ready'' @ CRLF])\<rparr>"

theorem credentials_encrypted_witness:
  "\<exists>err u. connect_upstream plain_env \<lparr>uc_mode = ''plain'', uc_server_name = [], uc_username = ''me'', uc_password = ''pw''\<rparr>
     ''b:25'' None 0 = (err, Some u) \<and> auth_protected (u_events u)"
proof -
  define r where "r = connect_upstream plain_env
     \<lparr>uc_mode = ''plain'', uc_server_name = [], uc_username = ''me'', uc_password = ''pw''\<rparr> ''b:25'' None 0"
  have "(case snd r of None \<Rightarrow> False | Some u \<Rightarrow> True)" unfolding r_def by code_simp
  then obtain u where "snd r = Some u" by (auto split: option.splits)
  then have r: "connect_upstream plain_env
     \<lparr>uc_mode = ''plain'', uc_server_name = [], uc_username = ''me'', uc_password = ''pw''\<rparr> ''b:25'' None 0 = (fst r, Some u)"
    unfolding r_def by (simp add: prod_eq_iff)
  from credentials_encrypted [OF r] r show ?thesis by blast
qed

text \<open>
  A reply that the proxy accepts from a backend is a sequence of lines with one and the
  same code from 200 to 599, all but the last marked as continued; anything else is an error.
\<close>

theorem reply_well_formed:
  assumes "read_smtp_reply rd = (Inr (code, reply), rd')"
  shows "200 \<le> code \<and> code \<le> 599 \<and>
    (\<exists>ls l. reply = concat ls @ l \<and> reply_line code l \<and>
       list_all (\<lambda>k. reply_line code k \<and> k ! 3 = CHR ''-'') ls)"
proof -
  obtain ls l where "reply = [] @ concat ls @ l" "reply_line code l"
      "\<forall>k \<in> set ls. reply_line code k \<and> k ! 3 = CHR ''-''"
    using read_reply_loop_lines assms unfolding read_smtp_reply_def by blast
  then show ?thesis using read_smtp_reply_code [OF assms] by (auto simp: list_all_iff)
qed

theorem reply_well_formed_witness:
  "\<exists>ls l. ''250-a'' @ CRLF @ ''250 b'' @ CRLF = concat ls @ l \<and> reply_line 250 l \<and>
     list_all (\<lambda>k. reply_line 250 k \<and> k ! 3 = CHR ''-'') ls"
proof -
  have "read_smtp_reply (new_reader [''250-a'' @ CRLF @ ''250 b'' @ CRLF]) =
      (Inr (250, ''250-a'' @ CRLF @ ''250 b'' @ CRLF), \<lparr>rd_buf = [], rd_net = []\<rparr>)"
    by code_simp
  from reply_well_formed [OF this] show ?thesis by blast
qed

end
