(* ===== verification/HostAdapter.thy ===== *)
theory HostAdapter
  imports Upstream
begin

text \<open>
  \<^verbatim>\<open>cmd/mailscript/host_adapter.go\<close>: delivery of a whole plan (message, envelope, actions)
  to a host's HTTP service in one request. The HTTP exchange and the JSON and SHA-256
  encodings are outside: \<open>ha_post\<close> is the service's answer to a request and \<open>ha_digest\<close>
  the hexadecimal SHA-256 of the JSON form of the four fields that identify a delivery.
\<close>

record host_delivery_request =
  hr_version :: int
  hr_id :: string
  hr_from :: string
  hr_to :: "string list"
  hr_message :: string
  hr_actions :: "string list"
  hr_client_ip :: string
  hr_helo :: string

record host_delivery_response =
  hs_id :: string
  hs_smtp_code :: int
  hs_receipt :: string
  hs_reason :: string

text \<open>An HTTP answer: status, length of the body, and the body if it is valid JSON.\<close>

record http_answer =
  ht_status :: int
  ht_length :: nat
  ht_decoded :: "host_delivery_response option"

record adapter_env =
  ha_post :: "host_delivery_request \<Rightarrow> http_answer option"
  ha_digest :: "string \<times> string list \<times> string \<times> string list \<Rightarrow> string"

definition adapter_request :: "adapter_env \<Rightarrow> host_delivery_request \<Rightarrow> go_error + host_delivery_response" where
  "adapter_request env req =
     (case ha_post env req of
        None \<Rightarrow> Inl (PlainError ''delivery adapter request failed'')
      | Some a \<Rightarrow>
          if ht_length a > 64 * 1024 then Inl (PlainError ''delivery adapter response too large'')
          else if ht_status a \<noteq> 200 then Inl (PlainError (''delivery adapter HTTP '' @ show_int (ht_status a)))
          else (case ht_decoded a of
              None \<Rightarrow> Inl (PlainError ''invalid JSON'')
            | Some r \<Rightarrow> Inr r))"

definition action_name :: "string \<Rightarrow> string" where
  "action_name action = split2 CHR '':'' action ! 0"

definition adapter_ignores :: "string \<Rightarrow> bool" where
  "adapter_ignores name \<longleftrightarrow>
     name = ''log'' \<or> name = ''add_header'' \<or> name = ''remove_header'' \<or> name = ''protect_metadata''"

definition adapter_supports :: "string list \<Rightarrow> string \<Rightarrow> bool" where
  "adapter_supports supported action \<longleftrightarrow>
     adapter_ignores (action_name action) \<or> action_name action \<in> set supported"

definition delivery_identity ::
  "adapter_env \<Rightarrow> string \<Rightarrow> string list \<Rightarrow> string \<Rightarrow> string list \<Rightarrow> string" where
  "delivery_identity env from to message actions = ha_digest env (from, to, message, actions)"

text \<open>
  \<^verbatim>\<open>(*hostAdapter).deliver\<close>: the error, if any, and the request that was posted, if any.
\<close>

definition adapter_deliver ::
  "adapter_env \<Rightarrow> string list \<Rightarrow> string \<Rightarrow> string list \<Rightarrow> string \<Rightarrow> string list \<Rightarrow> string \<Rightarrow> string \<Rightarrow>
     go_error option \<times> host_delivery_request option" where
  "adapter_deliver env supported from to message actions client_ip helo =
     (case filter (\<lambda>a. \<not> adapter_supports supported a) actions of
        a # _ \<Rightarrow> (Some (PlainError (''delivery adapter does not support action '' @ action_name a)), None)
      | [] \<Rightarrow>
          let req = \<lparr>hr_version = 1, hr_id = delivery_identity env from to message actions,
                     hr_from = from, hr_to = to, hr_message = message, hr_actions = actions,
                     hr_client_ip = client_ip, hr_helo = helo\<rparr>
          in case adapter_request env req of
               Inl e \<Rightarrow> (Some e, Some req)
             | Inr resp \<Rightarrow>
                 if hs_id resp \<noteq> hr_id req
                 then (Some (PlainError ''delivery adapter response ID mismatch''), Some req)
                 else if 400 \<le> hs_smtp_code resp \<and> hs_smtp_code resp \<le> 599
                 then (Some (UpstreamError (hs_smtp_code resp) ''host delivery''
                         (smtp_reply_text (hs_reason resp))), Some req)
                 else if hs_smtp_code resp \<noteq> 250 \<or> hs_receipt resp = []
                 then (Some (PlainError ''delivery adapter did not acknowledge durable delivery''), Some req)
                 else (None, Some req))"

text \<open>\<^verbatim>\<open>newHostAdapter\<close>: what is accepted of the service's capabilities.\<close>

definition adapter_capabilities :: "int \<Rightarrow> string list \<Rightarrow> go_error + string list" where
  "adapter_capabilities version actions =
     (if version \<noteq> 1 then Inl (PlainError ''unsupported delivery adapter version'')
      else if ''accept'' \<notin> set actions then Inl (PlainError ''delivery adapter must support accept'')
      else Inr actions)"

section \<open>What an acknowledged delivery means\<close>

text \<open>
  The service confirmed the delivery of exactly this request: status 200, a body within
  the limit, the request's own ID, code 250 and a receipt.
\<close>

definition host_acknowledged :: "adapter_env \<Rightarrow> host_delivery_request \<Rightarrow> bool" where
  "host_acknowledged env req =
     (case ha_post env req of
        None \<Rightarrow> False
      | Some a \<Rightarrow> ht_status a = 200 \<and> ht_length a \<le> 64 * 1024 \<and>
          (case ht_decoded a of
             None \<Rightarrow> False
           | Some resp \<Rightarrow> hs_id resp = hr_id req \<and> hs_smtp_code resp = 250 \<and> hs_receipt resp \<noteq> []))"

lemma adapter_request_Inr:
  "adapter_request env req = Inr resp \<Longrightarrow>
     \<exists>a. ha_post env req = Some a \<and> ht_status a = 200 \<and> ht_length a \<le> 64 * 1024 \<and> ht_decoded a = Some resp"
  by (auto simp: adapter_request_def split: option.splits if_splits)

lemma adapter_deliver_ok:
  assumes "adapter_deliver env supported from to message actions ip helo = (None, r)"
  shows "\<exists>req. r = Some req \<and> host_acknowledged env req \<and>
    hr_from req = from \<and> hr_to req = to \<and> hr_message req = message \<and> hr_actions req = actions \<and>
    (\<forall>a \<in> set actions. adapter_supports supported a)"
proof -
  have none: "filter (\<lambda>a. \<not> adapter_supports supported a) actions = []"
    using assms by (auto simp: adapter_deliver_def split: list.splits)
  define req where "req = \<lparr>hr_version = 1, hr_id = delivery_identity env from to message actions,
                     hr_from = from, hr_to = to, hr_message = message, hr_actions = actions,
                     hr_client_ip = ip, hr_helo = helo\<rparr>"
  obtain resp where resp: "adapter_request env req = Inr resp"
    using assms none by (auto simp: adapter_deliver_def req_def Let_def split: sum.splits)
  then have good: "r = Some req" "hs_id resp = hr_id req" "hs_smtp_code resp = 250" "hs_receipt resp \<noteq> []"
    using assms none by (auto simp: adapter_deliver_def req_def Let_def split: if_splits)
  with adapter_request_Inr [OF resp] have "host_acknowledged env req"
    by (auto simp: host_acknowledged_def)
  with good none show ?thesis by (auto simp: req_def filter_empty_conv)
qed

lemma adapter_deliver_line:
  assumes "adapter_deliver env supported from to message actions ip helo = (Some (UpstreamError c st t), r)"
  shows "400 \<le> c \<and> c \<le> 599 \<and> line_ok t"
proof -
  have none: "filter (\<lambda>a. \<not> adapter_supports supported a) actions = []"
    using assms by (auto simp: adapter_deliver_def split: list.splits)
  have "adapter_request env req \<noteq> Inl (UpstreamError c st t)" for req
    by (auto simp: adapter_request_def split: option.splits)
  with assms none show ?thesis
    by (auto simp: adapter_deliver_def Let_def split: sum.splits if_splits)
qed

text \<open>A request that was posted is acknowledged exactly when the delivery succeeds.\<close>

lemma adapter_deliver_acks:
  assumes "adapter_deliver env supported from to message actions ip helo = (err, r)"
  shows "case r of None \<Rightarrow> err \<noteq> None | Some req \<Rightarrow> host_acknowledged env req \<longleftrightarrow> err = None"
proof (cases err)
  case None
  with adapter_deliver_ok assms show ?thesis by fastforce
next
  case (Some e)
  show ?thesis
  proof (cases r)
    case (Some req)
    have none: "filter (\<lambda>a. \<not> adapter_supports supported a) actions = []"
      using assms Some by (auto simp: adapter_deliver_def split: list.splits)
    have "\<not> host_acknowledged env req"
      using assms none Some \<open>err = Some e\<close>
      by (auto simp: adapter_deliver_def adapter_request_def host_acknowledged_def Let_def
          split: option.splits if_splits)
    with Some \<open>err = Some e\<close> show ?thesis by simp
  qed (use Some in simp)
qed

section \<open>Properties\<close>

text \<open>
  C13: A delivery through the host adapter succeeds only if the host supports every action of
  the plan and has confirmed this very request: status 200, an answer within 64 KiB, the
  request's own ID, code 250 and a receipt. A failure never carries a success code, and its
  text fits one reply line.
\<close>

theorem adapter_delivery_acknowledged:
  assumes "adapter_deliver env supported from to message actions ip helo = (err, req)"
  shows "case err of
      None \<Rightarrow> (\<exists>r. req = Some r \<and> host_acknowledged env r \<and> hr_from r = from \<and> hr_to r = to \<and>
         hr_message r = message \<and> hr_actions r = actions \<and> list_all (adapter_supports supported) actions)
    | Some (UpstreamError code stage reason) \<Rightarrow> 400 \<le> code \<and> code \<le> 599 \<and> line_ok reason
    | Some (PlainError _) \<Rightarrow> (\<forall>r. req = Some r \<longrightarrow> \<not> host_acknowledged env r)"
proof (cases err)
  case None
  with adapter_deliver_ok assms show ?thesis by (fastforce simp: list_all_iff)
next
  case (Some e)
  show ?thesis
  proof (cases e)
    case (PlainError m)
    with Some adapter_deliver_acks [OF assms] show ?thesis by (auto split: option.splits)
  next
    case (UpstreamError c st t)
    with Some adapter_deliver_line assms show ?thesis by simp
  qed
qed

definition demo_host :: adapter_env where
  "demo_host = \<lparr>ha_post = (\<lambda>r. Some \<lparr>ht_status = 200, ht_length = 10,
      ht_decoded = Some \<lparr>hs_id = hr_id r, hs_smtp_code = 250, hs_receipt = ''r1'', hs_reason = []\<rparr>\<rparr>),
     ha_digest = (\<lambda>(f, _). f)\<rparr>"

theorem adapter_delivery_acknowledged_witness:
  "\<exists>r. host_acknowledged demo_host r \<and> hr_message r = ''hello'' \<and> hr_to r = [''c@d'']"
proof -
  obtain req where r: "adapter_deliver demo_host [''accept''] ''a@b'' [''c@d''] ''hello'' [''accept''] ''1'' ''h'' = (None, req)"
    by (simp add: adapter_deliver_def adapter_supports_def action_name_def split2_def demo_host_def
        adapter_request_def Let_def delivery_identity_def)
  from adapter_delivery_acknowledged [OF r] show ?thesis by auto
qed

end
