(* ===== verification/Loops.thy ===== *)
theory Loops
  imports GoStrings
begin

text \<open>
  The two kinds of endless \<^verbatim>\<open>for\<close> loops of the program, once for all of them: a loop whose
  body says whether to go on (\<open>run_loop\<close>, with fuel, so that not returning is
  \<^const>\<open>None\<close>), and the contract under which such a loop returns.

  The locale \<open>bounded_loop\<close> is the interface between a loop and its body: the body keeps an
  invariant and every round that asks for another one uses up some of a budget. Its clients
  are the command loop of an SMTP session and the accept loop of the listener.
\<close>

fun run_loop :: "nat \<Rightarrow> ('s \<Rightarrow> bool \<times> 's) \<Rightarrow> 's \<Rightarrow> 's option" where
  "run_loop 0 step s = None"
| "run_loop (Suc fuel) step s =
     (case step s of (False, s') \<Rightarrow> Some s' | (True, s') \<Rightarrow> run_loop fuel step s')"

locale bounded_loop =
  fixes step :: "'s \<Rightarrow> bool \<times> 's"
    and inv :: "'s \<Rightarrow> bool"
    and budget :: "'s \<Rightarrow> nat"
  assumes keeps: "inv s \<Longrightarrow> inv (snd (step s))"
    and uses_up: "inv s \<Longrightarrow> step s = (True, s') \<Longrightarrow> budget s' < budget s"
begin

lemma run_returns:
  assumes "inv s" and "budget s < fuel"
  shows "\<exists>s'. run_loop fuel step s = Some s' \<and> inv s'"
  using assms
proof (induction fuel arbitrary: s)
  case 0
  then show ?case by simp
next
  case (Suc fuel)
  obtain b s1 where s1: "step s = (b, s1)" by (cases "step s")
  have "inv s1" using keeps [OF Suc.prems(1)] s1 by simp
  moreover have "budget s1 < fuel" if b using uses_up [OF Suc.prems(1)] s1 that Suc.prems(2) by fastforce
  ultimately show ?case using Suc.IH [of s1] s1 by (cases b) auto
qed

lemma run_keeps: "inv s \<Longrightarrow> run_loop fuel step s = Some s' \<Longrightarrow> inv s'"
proof (induction fuel arbitrary: s)
  case (Suc fuel)
  obtain b s1 where s1: "step s = (b, s1)" by (cases "step s")
  have "inv s1" using keeps [OF Suc.prems(1)] s1 by simp
  with Suc s1 show ?case by (cases b) auto
qed simp

text \<open>Any two amounts of fuel above the budget give the same result.\<close>

lemma run_fuel:
  assumes "inv s" and "budget s < fuel" and "budget s < fuel'"
  shows "run_loop fuel step s = run_loop fuel' step s"
  using assms
proof (induction fuel arbitrary: s fuel')
  case (Suc fuel)
  obtain k where k: "fuel' = Suc k" using Suc.prems(3) by (cases fuel') auto
  obtain b s1 where s1: "step s = (b, s1)" by (cases "step s")
  have "inv s1" using keeps [OF Suc.prems(1)] s1 by simp
  moreover have "budget s1 < fuel \<and> budget s1 < k" if b
    using uses_up [OF Suc.prems(1)] s1 that Suc.prems(2,3) k by fastforce
  ultimately show ?case using Suc.IH [of s1 k] s1 k by (cases b) auto
qed simp

end

end
