(* ===== verification/SmtpSession.thy ===== *)
theory SmtpSession
  imports HostAdapter Loops
begin

text \<open>
  One SMTP session of the proxy: the \<^verbatim>\<open>SMTPSession\<close> of \<^verbatim>\<open>cmd/mailscript/proxy.go\<close> with its
  command handlers, \<^verbatim>\<open>handleAUTH\<close> of \<^verbatim>\<open>submission.go\<close> and the delivery functions of
  \<^verbatim>\<open>upstream.go\<close>, in explicit state passing.

  The record \<open>session\<close> holds the fields of the code's struct and, for what the code does to
  the outside, the reply lines written to the client (\<open>s_out\<close>), the backend connections that
  were closed with all their events (\<open>s_closed\<close>), the requests posted to a host adapter and
  the statistics counters. Closing the client connection ends the network input, while bytes
  the buffered reader already holds can still be read, as with Go's \<^verbatim>\<open>bufio.Reader\<close>.

  The record \<open>world\<close> is the outside: the backend, the host adapter, the bytes the client sends
  after a TLS handshake, and the policy engine (message parser and Starlark interpreter).
\<close>

record policy_input =
  pi_message :: string
  pi_from :: string
  pi_to :: "string list"
  pi_helo :: string
  pi_client_ip :: string

record policy_output =
  po_actions :: "string list"
  po_removed :: "string list"
  po_added :: "(string \<times> string) list"

datatype policy_result = PolicyParseError | PolicyScriptError | PolicyDone policy_output

record world =
  w_net :: net_env
  w_host :: adapter_env
  w_policy :: "policy_input \<Rightarrow> policy_result"
  w_client_tls :: "string list option"

record proxy =
  px_server :: string
  px_config :: upstream_config
  px_submission :: bool
  px_tls :: bool
  px_forward_quarantine :: bool
  px_adapter :: "string list option"

record session =
  s_actions :: "string list"
  s_reader :: reader
  s_open :: bool
  s_from :: string
  s_recipients :: "string list"
  s_data :: string
  s_helo :: string
  s_client_ip :: string
  s_mail_set :: bool
  s_tls_active :: bool
  s_reply_code :: int
  s_upstream :: "upstream option"
  s_authenticated :: bool
  s_auth_user :: string
  s_auth_password :: string
  s_out :: "string list"
  s_conns :: nat
  s_closed :: "upstream list"
  s_requests :: "host_delivery_request list"
  s_processed :: int
  s_accepted :: int
  s_rejected :: int
  s_bytes :: int

section \<open>Replies and transaction state\<close>

definition write_line :: "string \<Rightarrow> session \<Rightarrow> session" where
  "write_line msg s = (if s_open s then s\<lparr>s_out := s_out s @ [msg @ CRLF]\<rparr> else s)"

definition close_conn :: "session \<Rightarrow> session" where
  "close_conn s = s\<lparr>s_open := False, s_reader := (s_reader s)\<lparr>rd_net := []\<rparr>\<rparr>"

definition close_upstream :: "session \<Rightarrow> session" where
  "close_upstream s =
     (case s_upstream s of
        None \<Rightarrow> s
      | Some u \<Rightarrow> s\<lparr>s_upstream := None, s_closed := s_closed s @ [u]\<rparr>)"

definition reset_transaction :: "session \<Rightarrow> session" where
  "reset_transaction s = (close_upstream s)\<lparr>s_from := [], s_recipients := [], s_data := [],
     s_mail_set := False, s_reply_code := 0, s_actions := []\<rparr>"

definition upstream_failure :: "go_error \<Rightarrow> session \<Rightarrow> session" where
  "upstream_failure err s =
     (case err of
        UpstreamError code stage text \<Rightarrow>
          if 400 \<le> code \<and> code \<le> 599
          then (let s' = write_line (client_reply code text) s in if code = 421 then close_conn s' else s')
          else write_line ''451 Upstream temporarily unavailable'' s
      | PlainError _ \<Rightarrow> write_line ''451 Upstream temporarily unavailable'' s)"

section \<open>The backend transaction\<close>

definition session_auth :: "session \<Rightarrow> (string \<times> string) option" where
  "session_auth s = (if s_authenticated s then Some (s_auth_user s, s_auth_password s) else None)"

definition session_connect :: "world \<Rightarrow> proxy \<Rightarrow> session \<Rightarrow> (go_error option \<times> upstream option) \<times> session" where
  "session_connect w px s =
     (connect_upstream (w_net w) (px_config px) (px_server px) (session_auth s) (s_conns s),
      s\<lparr>s_conns := Suc (s_conns s)\<rparr>)"

definition log_closed :: "upstream option \<Rightarrow> session \<Rightarrow> session" where
  "log_closed uo s = (case uo of None \<Rightarrow> s | Some u \<Rightarrow> s\<lparr>s_closed := s_closed s @ [u]\<rparr>)"

definition mail_command :: "upstream \<Rightarrow> string \<Rightarrow> string" where
  "mail_command u from = ''MAIL FROM:<'' @ from @ ''>'' @
     (if u_ext u ''8BITMIME'' \<noteq> None then '' BODY=8BITMIME'' else [])"

definition begin_upstream :: "world \<Rightarrow> proxy \<Rightarrow> session \<Rightarrow> go_error option \<times> session" where
  "begin_upstream w px s =
     (case session_connect w px s of
        ((Some e, uo), s1) \<Rightarrow> (Some e, log_closed uo s1)
      | ((None, None), s1) \<Rightarrow> (Some (PlainError ''no connection''), s1)
      | ((None, Some u), s1) \<Rightarrow>
          (case up_expect (w_net w) (mail_command u (s_from s)) 250 u of
             (Some e, u') \<Rightarrow> (Some e, log_closed (Some u') s1)
           | (None, u') \<Rightarrow> (None, s1\<lparr>s_upstream := Some u'\<rparr>)))"

definition rcpt_accepted :: "int \<Rightarrow> bool" where
  "rcpt_accepted code \<longleftrightarrow> code = 250 \<or> code = 251 \<or> code = 252"

definition rcpt_command :: "string \<Rightarrow> string" where
  "rcpt_command rcpt = ''RCPT TO:<'' @ rcpt @ ''>''"

text \<open>The recipients of an API call: number accepted, rejection to report, or a fatal error.\<close>

definition worse_rejection :: "(int \<times> string) option \<Rightarrow> int \<Rightarrow> string \<Rightarrow> (int \<times> string) option" where
  "worse_rejection rejection code text =
     (case rejection of
        None \<Rightarrow> Some (code, text)
      | Some (c, t) \<Rightarrow> if c \<ge> 500 \<or> code < 500 then Some (code, text) else Some (c, t))"

fun rcpt_loop ::
  "net_env \<Rightarrow> string list \<Rightarrow> nat \<Rightarrow> (int \<times> string) option \<Rightarrow> upstream \<Rightarrow>
     (go_error + nat \<times> (int \<times> string) option) \<times> upstream" where
  "rcpt_loop env [] accepted rejection u = (Inr (accepted, rejection), u)"
| "rcpt_loop env (rcpt # rcpts) accepted rejection u =
     (case up_command env (rcpt_command rcpt) 0 u of
        (Inl e, u') \<Rightarrow> (Inl e, u')
      | (Inr (code, text), u') \<Rightarrow>
          if rcpt_accepted code then rcpt_loop env rcpts (Suc accepted) rejection u'
          else rcpt_loop env rcpts accepted (worse_rejection rejection code text) u')"

text \<open>DATA, the stuffed message, the final dot.\<close>

definition transmit :: "net_env \<Rightarrow> string \<Rightarrow> upstream \<Rightarrow> up_result" where
  "transmit env data u =
     then_up (up_expect env ''DATA'' 354 u) (\<lambda>u1.
     then_up (up_write env (dot_stuff data) u1) (\<lambda>u2.
     then_up (if has_suffix data CRLF then (None, u2) else up_write env CRLF u2) (\<lambda>u3.
     up_expect env ''.'' 250 u3)))"

definition transmit_session :: "world \<Rightarrow> session \<Rightarrow> go_error option \<times> session" where
  "transmit_session w s =
     (case s_upstream s of
        None \<Rightarrow> (Some (PlainError ''no transaction''), s)
      | Some u \<Rightarrow>
          (case transmit (w_net w) (s_data s) u of
             (err, u') \<Rightarrow> (err, close_upstream (s\<lparr>s_upstream := Some u'\<rparr>))))"

definition forward_to_upstream :: "world \<Rightarrow> proxy \<Rightarrow> session \<Rightarrow> go_error option \<times> session" where
  "forward_to_upstream w px s =
     (case validate_wire_data (s_data s) of
        Some e \<Rightarrow> (Some (UpstreamError 550 ''message'' (go_error_text e)), s)
      | None \<Rightarrow>
     (case validate_envelope (s_from s) (s_recipients s) of
        Some e \<Rightarrow> (Some e, s)
      | None \<Rightarrow>
     (case s_upstream s of
        Some _ \<Rightarrow> transmit_session w s
      | None \<Rightarrow>
          (case begin_upstream w px s of
             (Some e, s1) \<Rightarrow> (Some e, s1)
           | (None, s1) \<Rightarrow>
               (case s_upstream s1 of
                  None \<Rightarrow> (Some (PlainError ''no transaction''), s1)
                | Some u \<Rightarrow>
                    (case rcpt_loop (w_net w) (s_recipients s1) 0 None u of
                       (Inl e, u') \<Rightarrow> (Some e, close_upstream (s1\<lparr>s_upstream := Some u'\<rparr>))
                     | (Inr (accepted, rejection), u') \<Rightarrow>
                         let s2 = s1\<lparr>s_upstream := Some u'\<rparr> in
                         (case rejection of
                            Some (code, text) \<Rightarrow>
                              (Some (if accepted > 0
                                     then UpstreamError 451 ''RCPT TO'' ''Mixed recipient results; no message delivered''
                                     else UpstreamError code ''RCPT TO'' text), close_upstream s2)
                          | None \<Rightarrow> transmit_session w s2)))))))"

section \<open>Delivery of an accepted message\<close>

definition action_arg :: "string \<Rightarrow> string \<Rightarrow> string option" where
  "action_arg name action =
     (let parts = split2 CHR '':'' action in
      if length parts = 2 \<and> parts ! 0 = name then Some (parts ! 1) else None)"

definition redirect_target :: "string \<Rightarrow> string option" where
  "redirect_target action =
     (case action_arg ''redirect'' action of Some r \<Rightarrow> Some r | None \<Rightarrow> action_arg ''divert_to'' action)"

definition replacements :: "string list \<Rightarrow> string list" where
  "replacements actions = List.map_filter redirect_target actions"

definition copies :: "string list \<Rightarrow> string list" where
  "copies actions = List.map_filter (action_arg ''screen_to'') actions"

definition plan_recipients :: "string list \<Rightarrow> string list \<Rightarrow> string list" where
  "plan_recipients actions rcpts =
     (if replacements actions \<noteq> [] then replacements actions else rcpts) @ copies actions"

text \<open>The first occurrence of each recipient, in order.\<close>

fun dedup :: "string list \<Rightarrow> string list \<Rightarrow> string list" where
  "dedup seen [] = []"
| "dedup seen (r # rs) = (if r \<in> set seen then dedup seen rs else r # dedup (r # seen) rs)"

definition deliver :: "world \<Rightarrow> proxy \<Rightarrow> session \<Rightarrow> go_error option \<times> session" where
  "deliver w px s =
     (case px_adapter px of
        Some supported \<Rightarrow>
          let s1 = close_upstream s in
          (case adapter_deliver (w_host w) supported (s_from s1) (s_recipients s1) (s_data s1)
                  (s_actions s1) (s_client_ip s1) (s_helo s1) of
             (err, req) \<Rightarrow> (err, s1\<lparr>s_requests := s_requests s1 @
                (case req of None \<Rightarrow> [] | Some r \<Rightarrow> [r])\<rparr>))
      | None \<Rightarrow>
          if replacements (s_actions s) \<noteq> [] \<or> copies (s_actions s) \<noteq> [] then
            let rcpts = plan_recipients (s_actions s) (s_recipients s) in
            (case validate_envelope (s_from s) rcpts of
               Some e \<Rightarrow> (Some e, s)
             | None \<Rightarrow> forward_to_upstream w px (close_upstream (s\<lparr>s_recipients := dedup [] rcpts\<rparr>)))
          else forward_to_upstream w px s)"

section \<open>Filtering a message\<close>

definition quarantine_header :: string where
  "quarantine_header = ''X-MailScript-Quarantine''"

text \<open>The disposition, after the actions that only a host adapter can carry out.\<close>

definition final_disposition :: "proxy \<Rightarrow> string list \<Rightarrow> delivery_disposition" where
  "final_disposition px actions =
     (let d = policy_disposition actions (px_forward_quarantine px \<or> px_adapter px \<noteq> None);
          unsupported = unsupported_delivery_action actions
      in if dd_code d = 250 \<and> unsupported \<noteq> [] \<and> px_adapter px = None
         then \<lparr>dd_code = 451,
               dd_reason = ''Delivery action requires a host adapter: '' @ unsupported,
               dd_quarantine = False\<rparr>
         else d)"

text \<open>\<^verbatim>\<open>processWithMailScript\<close>: accepted, quarantined and the reason.\<close>

definition process_with_mailscript :: "world \<Rightarrow> proxy \<Rightarrow> session \<Rightarrow> (bool \<times> bool \<times> string) \<times> session" where
  "process_with_mailscript w px s0 =
     (let s = s0\<lparr>s_data := strip_header (s_data s0) quarantine_header\<rparr> in
      case w_policy w \<lparr>pi_message = s_data s, pi_from = s_from s, pi_to = s_recipients s,
                       pi_helo = s_helo s, pi_client_ip = s_client_ip s\<rparr> of
        PolicyParseError \<Rightarrow> ((False, False, ''Message could not be parsed''), s)
      | PolicyScriptError \<Rightarrow> ((False, False, ''Script execution error''), s\<lparr>s_reply_code := 451\<rparr>)
      | PolicyDone out \<Rightarrow>
          let s1 = s\<lparr>s_data := apply_header_changes (s_data s) (po_removed out) (po_added out),
                     s_actions := po_actions out\<rparr>;
              d = final_disposition px (po_actions out)
          in ((dd_code d = 250, dd_quarantine d, dd_reason d), s1\<lparr>s_reply_code := dd_code d\<rparr>))"

definition delivery_failure_reply :: "go_error \<Rightarrow> string" where
  "delivery_failure_reply err =
     (case err of
        UpstreamError code stage text \<Rightarrow>
          if 400 \<le> code \<and> code < 600 then client_reply code text else ''450 Temporary failure''
      | PlainError _ \<Rightarrow> ''450 Temporary failure'')"

definition count_processed :: "bool \<Rightarrow> session \<Rightarrow> session" where
  "count_processed accepted s =
     s\<lparr>s_processed := s_processed s + 1, s_bytes := s_bytes s + int (length (s_data s)),
       s_rejected := s_rejected s + (if accepted then 0 else 1)\<rparr>"

definition finish_data :: "world \<Rightarrow> proxy \<Rightarrow> session \<Rightarrow> session" where
  "finish_data w px s =
     (case process_with_mailscript w px s of
        ((accepted, quarantined, reason), s1) \<Rightarrow>
          let s2 = count_processed accepted s1 in
          if accepted then
            let s3 = (if quarantined then s2\<lparr>s_data := prepend_header (s_data s2) quarantine_header ''true''\<rparr>
                      else s2) in
            (case deliver w px s3 of
               (Some err, s4) \<Rightarrow> write_line (delivery_failure_reply err) (s4\<lparr>s_rejected := s_rejected s4 + 1\<rparr>)
             | (None, s4) \<Rightarrow> write_line ''250 OK: Message accepted'' (s4\<lparr>s_accepted := s_accepted s4 + 1\<rparr>))
          else
            write_line (show_int (if s_reply_code s2 = 0 then 550 else s_reply_code s2) @ '' '' @
                        smtp_reply_text reason) s2)"

section \<open>Command handlers\<close>

definition handle_helo :: "string list \<Rightarrow> session \<Rightarrow> session" where
  "handle_helo parts s =
     (if length parts < 2 then write_line ''501 Syntax: HELO hostname'' s
      else write_line ''250 MailScript SMTP Proxy'' ((reset_transaction s)\<lparr>s_helo := parts ! 1\<rparr>))"

definition handle_ehlo :: "proxy \<Rightarrow> string list \<Rightarrow> session \<Rightarrow> session" where
  "handle_ehlo px parts s =
     (if length parts < 2 then write_line ''501 Syntax: EHLO hostname'' s
      else
        let s1 = (reset_transaction s)\<lparr>s_helo := parts ! 1\<rparr>;
            s2 = write_line ''250-8BITMIME'' (write_line ''250-PIPELINING''
                   (write_line ''250-MailScript SMTP Proxy'' s1));
            s3 = (if px_tls px \<and> \<not> s_tls_active s2 then write_line ''250-STARTTLS'' s2 else s2);
            s4 = (if px_submission px \<and> s_tls_active s3 \<and> \<not> s_authenticated s3
                  then write_line ''250-AUTH PLAIN'' s3 else s3)
        in write_line ''250 SIZE 52428800'' s4)"

definition handle_mail :: "world \<Rightarrow> proxy \<Rightarrow> string \<Rightarrow> session \<Rightarrow> session" where
  "handle_mail w px line s =
     (if s_helo s = [] then write_line ''503 Send HELO or EHLO first'' s
      else if px_submission px \<and> \<not> s_authenticated s then write_line ''530 Authentication required'' s
      else if s_mail_set s then write_line ''503 Transaction already started'' s
      else (case parse_smtp_path line ''MAIL FROM:'' True of
          Inl _ \<Rightarrow> write_line ''501 Invalid MAIL FROM'' s
        | Inr address \<Rightarrow>
            let s1 = (reset_transaction s)\<lparr>s_from := address\<rparr> in
            (case (if px_server px \<noteq> [] then begin_upstream w px s1 else (None, s1)) of
               (Some err, s2) \<Rightarrow> upstream_failure err (reset_transaction s2)
             | (None, s2) \<Rightarrow> write_line ''250 OK'' (s2\<lparr>s_mail_set := True\<rparr>))))"

definition handle_rcpt :: "world \<Rightarrow> string \<Rightarrow> session \<Rightarrow> session" where
  "handle_rcpt w line s =
     (if \<not> s_mail_set s then write_line ''503 Send MAIL first'' s
      else (case parse_smtp_path line ''RCPT TO:'' False of
          Inl _ \<Rightarrow> write_line ''501 Invalid RCPT TO'' s
        | Inr address \<Rightarrow>
            if length (s_recipients s) \<ge> 100 then write_line ''452 Too many recipients'' s
            else (case s_upstream s of
                None \<Rightarrow> write_line ''250 OK'' (s\<lparr>s_recipients := s_recipients s @ [address]\<rparr>)
              | Some u \<Rightarrow>
                  (case up_command (w_net w) (rcpt_command address) 0 u of
                     (Inl e, u') \<Rightarrow>
                       upstream_failure e (reset_transaction (s\<lparr>s_upstream := Some u'\<rparr>))
                   | (Inr (code, text), u') \<Rightarrow>
                       let s1 = s\<lparr>s_upstream := Some u'\<rparr> in
                       if \<not> rcpt_accepted code
                       then upstream_failure (UpstreamError code ''RCPT TO'' text) s1
                       else write_line ''250 OK'' (s1\<lparr>s_recipients := s_recipients s1 @ [address]\<rparr>)))))"

definition handle_data :: "world \<Rightarrow> proxy \<Rightarrow> session \<Rightarrow> session" where
  "handle_data w px s =
     (if \<not> s_mail_set s \<or> s_recipients s = [] then write_line ''503 Error: need MAIL command'' s
      else
        let s1 = write_line ''354 End data with <CR><LF>.<CR><LF>'' s in
        (case data_loop [] (s_reader s1) of
           (r, rd) \<Rightarrow>
             let s2 = s1\<lparr>s_reader := rd\<rparr> in
             reset_transaction
               (case r of
                  DataReadError \<Rightarrow> close_conn s2
                | DataBadLine \<Rightarrow> close_conn (write_line ''550 DATA requires CRLF line endings'' s2)
                | DataTooLarge \<Rightarrow> close_conn (write_line ''552 Message too large'' s2)
                | DataDone data \<Rightarrow> finish_data w px (s2\<lparr>s_data := data\<rparr>))))"

definition handle_rset :: "session \<Rightarrow> session" where
  "handle_rset s = write_line ''250 OK'' (reset_transaction s)"

definition handle_starttls :: "world \<Rightarrow> proxy \<Rightarrow> session \<Rightarrow> session" where
  "handle_starttls w px s =
     (if \<not> px_tls px \<or> s_tls_active s then write_line ''454 TLS not available'' s
      else
        let s1 = write_line ''220 Ready to start TLS'' s in
        (case (if s_open s1 then w_client_tls w else None) of
           None \<Rightarrow> close_conn s1
         | Some chunks \<Rightarrow>
             (reset_transaction s1)\<lparr>s_helo := [], s_authenticated := False, s_auth_user := [],
               s_auth_password := [], s_tls_active := True, s_reader := new_reader chunks\<rparr>))"

text \<open>The credentials of an AUTH PLAIN response.\<close>

definition plain_credentials :: "string \<Rightarrow> (string \<times> string) option" where
  "plain_credentials encoded =
     (case b64_decode encoded of
        None \<Rightarrow> None
      | Some decoded \<Rightarrow>
          let fs = split_on NUL decoded in
          if length fs \<noteq> 3 \<or> fs ! 1 = [] \<or> fs ! 2 = [] \<or> (fs ! 0 \<noteq> [] \<and> fs ! 0 \<noteq> fs ! 1)
          then None else Some (fs ! 1, fs ! 2))"

definition clear_auth :: "session \<Rightarrow> session" where
  "clear_auth s = s\<lparr>s_auth_user := [], s_auth_password := [], s_authenticated := False\<rparr>"

definition check_credentials :: "world \<Rightarrow> proxy \<Rightarrow> string \<Rightarrow> session \<Rightarrow> session" where
  "check_credentials w px encoded s =
     (case plain_credentials encoded of
        None \<Rightarrow> write_line ''501 Invalid AUTH PLAIN credentials'' s
      | Some (user, password) \<Rightarrow>
          let s1 = s\<lparr>s_auth_user := user, s_auth_password := password, s_authenticated := True\<rparr> in
          (case session_connect w px s1 of
             ((Some err, uo), s2) \<Rightarrow>
               write_line (case err of
                   UpstreamError code _ _ \<Rightarrow>
                     if code = 535 then ''535 Authentication failed''
                     else ''454 Authentication temporarily unavailable''
                 | PlainError _ \<Rightarrow> ''454 Authentication temporarily unavailable'')
                 (clear_auth (log_closed uo s2))
           | ((None, uo), s2) \<Rightarrow> write_line ''235 Authentication successful'' (log_closed uo s2)))"

definition handle_auth :: "world \<Rightarrow> proxy \<Rightarrow> string list \<Rightarrow> session \<Rightarrow> session" where
  "handle_auth w px parts s =
     (if \<not> px_submission px then write_line ''502 AUTH unavailable'' s
      else if \<not> s_tls_active s then write_line ''538 Encryption required'' s
      else if s_helo s = [] \<or> s_mail_set s \<or> s_authenticated s
        then write_line ''503 AUTH not allowed in this state'' s
      else if length parts < 2 \<or> length parts > 3 \<or> \<not> equal_fold (parts ! 1) ''PLAIN''
        then write_line ''504 Use AUTH PLAIN'' s
      else if length parts = 3 then check_credentials w px (parts ! 2) s
      else
        let s1 = write_line ''334 '' s in
        (case read_wire_line 4096 (s_reader s1) of
           (Inl _, rd) \<Rightarrow> close_conn (s1\<lparr>s_reader := rd\<rparr>)
         | (Inr line, rd) \<Rightarrow> check_credentials w px (trim_space line) (s1\<lparr>s_reader := rd\<rparr>)))"

section \<open>The command loop\<close>

definition dispatch :: "world \<Rightarrow> proxy \<Rightarrow> string \<Rightarrow> session \<Rightarrow> bool \<times> session" where
  "dispatch w px line s =
     (let parts = str_fields line; cmd = to_upper (parts ! 0) in
      if cmd = ''AUTH'' then (True, handle_auth w px parts s)
      else if cmd = ''HELO'' then (True, handle_helo parts s)
      else if cmd = ''EHLO'' then (True, handle_ehlo px parts s)
      else if cmd = ''MAIL'' then (True, handle_mail w px line s)
      else if cmd = ''RCPT'' then (True, handle_rcpt w line s)
      else if cmd = ''DATA'' then (True, handle_data w px s)
      else if cmd = ''RSET'' then (True, handle_rset s)
      else if cmd = ''NOOP'' then (True, write_line ''250 OK'' s)
      else if cmd = ''QUIT'' then (False, write_line ''221 Bye'' s)
      else if cmd = ''STARTTLS'' then (True, handle_starttls w px s)
      else (True, write_line ''500 Command not recognized'' s))"

text \<open>One round of the loop in \<^verbatim>\<open>handleSMTPConnection\<close>; \<^const>\<open>False\<close> ends it.\<close>

definition serve_line :: "world \<Rightarrow> proxy \<Rightarrow> session \<Rightarrow> bool \<times> session" where
  "serve_line w px s =
     (case read_wire_line 4096 (s_reader s) of
        (Inl _, rd) \<Rightarrow> (False, s\<lparr>s_reader := rd\<rparr>)
      | (Inr raw, rd) \<Rightarrow>
          let s1 = s\<lparr>s_reader := rd\<rparr>; line = trim_space raw in
          if line = [] \<or> str_fields line = [] then (True, s1) else dispatch w px line s1)"

definition serve_loop :: "nat \<Rightarrow> world \<Rightarrow> proxy \<Rightarrow> session \<Rightarrow> session option" where
  "serve_loop fuel w px s = run_loop fuel (serve_line w px) s"

definition new_session :: "string \<Rightarrow> string list \<Rightarrow> session" where
  "new_session client_ip net =
     \<lparr>s_actions = [], s_reader = new_reader net, s_open = True, s_from = [], s_recipients = [],
      s_data = [], s_helo = [], s_client_ip = client_ip, s_mail_set = False, s_tls_active = False,
      s_reply_code = 0, s_upstream = None, s_authenticated = False, s_auth_user = [],
      s_auth_password = [], s_out = [], s_conns = 0, s_closed = [], s_requests = [],
      s_processed = 0, s_accepted = 0, s_rejected = 0, s_bytes = 0\<rparr>"

definition start_session :: "string \<Rightarrow> string list \<Rightarrow> session" where
  "start_session client_ip net =
     write_line ''220 MailScript SMTP Proxy ready'' (new_session client_ip net)"

text \<open>
  \<^verbatim>\<open>handleSMTPConnection\<close> on a connection whose client sends \<open>net\<close>; the deferred calls close
  the backend connection and the client connection. The fuel is the bound proved enough by
  \<open>session_returns\<close>.
\<close>

definition serve_fuel :: "world \<Rightarrow> session \<Rightarrow> nat" where
  "serve_fuel w s = length (rd_bytes (s_reader s)) +
     (if s_tls_active s then 0
      else Suc (case w_client_tls w of None \<Rightarrow> 0 | Some chunks \<Rightarrow> length (concat chunks))) + 1"

definition handle_smtp_connection :: "world \<Rightarrow> proxy \<Rightarrow> string \<Rightarrow> string list \<Rightarrow> session option" where
  "handle_smtp_connection w px client_ip net =
     (let s0 = start_session client_ip net in
      map_option (\<lambda>s. close_conn (close_upstream s)) (serve_loop (serve_fuel w s0) w px s0))"

end
