(* ===== verification/SessionInv.thy ===== *)
theory SessionInv
  imports SmtpSession
begin

text \<open>
  The state invariant of an SMTP session (\<open>session_ok\<close>): what the fields of the code's
  \<^verbatim>\<open>SMTPSession\<close> say about each other between two commands. Every handler keeps it, the
  initial state has it, and the command loop returns on every input: \<open>bounded_loop\<close> is
  interpreted on \<^const>\<open>serve_line\<close>.
\<close>

section \<open>Frames\<close>

text \<open>What each operation leaves alone.\<close>

lemma write_line_frame [simp]:
  "s_actions (write_line m s) = s_actions s" "s_reader (write_line m s) = s_reader s"
  "s_open (write_line m s) = s_open s" "s_from (write_line m s) = s_from s"
  "s_recipients (write_line m s) = s_recipients s" "s_data (write_line m s) = s_data s"
  "s_helo (write_line m s) = s_helo s" "s_client_ip (write_line m s) = s_client_ip s"
  "s_mail_set (write_line m s) = s_mail_set s" "s_tls_active (write_line m s) = s_tls_active s"
  "s_reply_code (write_line m s) = s_reply_code s" "s_upstream (write_line m s) = s_upstream s"
  "s_authenticated (write_line m s) = s_authenticated s" "s_auth_user (write_line m s) = s_auth_user s"
  "s_auth_password (write_line m s) = s_auth_password s" "s_conns (write_line m s) = s_conns s"
  "s_closed (write_line m s) = s_closed s" "s_requests (write_line m s) = s_requests s"
  "s_processed (write_line m s) = s_processed s" "s_accepted (write_line m s) = s_accepted s"
  "s_rejected (write_line m s) = s_rejected s" "s_bytes (write_line m s) = s_bytes s"
  by (simp_all add: write_line_def)

lemma close_conn_frame [simp]:
  "s_actions (close_conn s) = s_actions s" "s_open (close_conn s) = False"
  "s_from (close_conn s) = s_from s" "s_out (close_conn s) = s_out s"
  "s_recipients (close_conn s) = s_recipients s" "s_data (close_conn s) = s_data s"
  "s_helo (close_conn s) = s_helo s" "s_client_ip (close_conn s) = s_client_ip s"
  "s_mail_set (close_conn s) = s_mail_set s" "s_tls_active (close_conn s) = s_tls_active s"
  "s_reply_code (close_conn s) = s_reply_code s" "s_upstream (close_conn s) = s_upstream s"
  "s_authenticated (close_conn s) = s_authenticated s" "s_auth_user (close_conn s) = s_auth_user s"
  "s_auth_password (close_conn s) = s_auth_password s" "s_conns (close_conn s) = s_conns s"
  "s_closed (close_conn s) = s_closed s" "s_requests (close_conn s) = s_requests s"
  "s_processed (close_conn s) = s_processed s" "s_accepted (close_conn s) = s_accepted s"
  "s_rejected (close_conn s) = s_rejected s" "s_bytes (close_conn s) = s_bytes s"
  by (simp_all add: close_conn_def)

lemma rd_bytes_close: "length (rd_bytes (s_reader (close_conn s))) \<le> length (rd_bytes (s_reader s))"
  by (simp add: close_conn_def rd_bytes_def)

lemma close_upstream_frame [simp]:
  "s_actions (close_upstream s) = s_actions s" "s_reader (close_upstream s) = s_reader s"
  "s_open (close_upstream s) = s_open s" "s_from (close_upstream s) = s_from s"
  "s_recipients (close_upstream s) = s_recipients s" "s_data (close_upstream s) = s_data s"
  "s_helo (close_upstream s) = s_helo s" "s_client_ip (close_upstream s) = s_client_ip s"
  "s_mail_set (close_upstream s) = s_mail_set s" "s_tls_active (close_upstream s) = s_tls_active s"
  "s_reply_code (close_upstream s) = s_reply_code s" "s_upstream (close_upstream s) = None"
  "s_authenticated (close_upstream s) = s_authenticated s" "s_auth_user (close_upstream s) = s_auth_user s"
  "s_auth_password (close_upstream s) = s_auth_password s" "s_conns (close_upstream s) = s_conns s"
  "s_out (close_upstream s) = s_out s" "s_requests (close_upstream s) = s_requests s"
  "s_processed (close_upstream s) = s_processed s" "s_accepted (close_upstream s) = s_accepted s"
  "s_rejected (close_upstream s) = s_rejected s" "s_bytes (close_upstream s) = s_bytes s"
  by (simp_all add: close_upstream_def split: option.split)

lemma reset_transaction_frame [simp]:
  "s_actions (reset_transaction s) = []" "s_reader (reset_transaction s) = s_reader s"
  "s_open (reset_transaction s) = s_open s" "s_from (reset_transaction s) = []"
  "s_recipients (reset_transaction s) = []" "s_data (reset_transaction s) = []"
  "s_helo (reset_transaction s) = s_helo s" "s_client_ip (reset_transaction s) = s_client_ip s"
  "s_mail_set (reset_transaction s) = False" "s_tls_active (reset_transaction s) = s_tls_active s"
  "s_reply_code (reset_transaction s) = 0" "s_upstream (reset_transaction s) = None"
  "s_authenticated (reset_transaction s) = s_authenticated s"
  "s_auth_user (reset_transaction s) = s_auth_user s"
  "s_auth_password (reset_transaction s) = s_auth_password s"
  "s_conns (reset_transaction s) = s_conns s" "s_out (reset_transaction s) = s_out s"
  "s_closed (reset_transaction s) = s_closed (close_upstream s)"
  "s_requests (reset_transaction s) = s_requests s" "s_processed (reset_transaction s) = s_processed s"
  "s_accepted (reset_transaction s) = s_accepted s" "s_rejected (reset_transaction s) = s_rejected s"
  "s_bytes (reset_transaction s) = s_bytes s"
  by (simp_all add: reset_transaction_def)

lemma log_closed_frame [simp]:
  "s_actions (log_closed u s) = s_actions s" "s_reader (log_closed u s) = s_reader s"
  "s_open (log_closed u s) = s_open s" "s_from (log_closed u s) = s_from s"
  "s_recipients (log_closed u s) = s_recipients s" "s_data (log_closed u s) = s_data s"
  "s_helo (log_closed u s) = s_helo s" "s_client_ip (log_closed u s) = s_client_ip s"
  "s_mail_set (log_closed u s) = s_mail_set s" "s_tls_active (log_closed u s) = s_tls_active s"
  "s_upstream (log_closed u s) = s_upstream s" "s_authenticated (log_closed u s) = s_authenticated s"
  "s_auth_user (log_closed u s) = s_auth_user s" "s_auth_password (log_closed u s) = s_auth_password s"
  "s_out (log_closed u s) = s_out s" "s_requests (log_closed u s) = s_requests s"
  "s_accepted (log_closed u s) = s_accepted s" "s_reply_code (log_closed u s) = s_reply_code s"
  "s_conns (log_closed u s) = s_conns s"
  by (simp_all add: log_closed_def split: option.split)

text \<open>
  Everything between the end of DATA and the reply leaves the session's identity and its
  reader alone; the backend operations leave the message and the replies alone too.
\<close>

definition same_client :: "session \<Rightarrow> session \<Rightarrow> bool" where
  "same_client s s' \<longleftrightarrow> s_helo s' = s_helo s \<and> s_tls_active s' = s_tls_active s \<and>
     s_authenticated s' = s_authenticated s \<and> s_auth_user s' = s_auth_user s \<and>
     s_auth_password s' = s_auth_password s \<and> s_client_ip s' = s_client_ip s \<and>
     s_reader s' = s_reader s \<and> s_open s' = s_open s"

definition same_message :: "session \<Rightarrow> session \<Rightarrow> bool" where
  "same_message s s' \<longleftrightarrow> same_client s s' \<and> s_out s' = s_out s \<and> s_data s' = s_data s \<and>
     s_from s' = s_from s \<and> s_mail_set s' = s_mail_set s \<and> s_actions s' = s_actions s \<and>
     s_accepted s' = s_accepted s \<and> s_reply_code s' = s_reply_code s"

lemma same_client_refl [simp]: "same_client s s"
  by (simp add: same_client_def)

lemma same_client_trans: "same_client s t \<Longrightarrow> same_client t u \<Longrightarrow> same_client s u"
  by (simp add: same_client_def)

lemma same_message_refl [simp]: "same_message s s"
  by (simp add: same_message_def)

lemma same_message_trans: "same_message s t \<Longrightarrow> same_message t u \<Longrightarrow> same_message s u"
  by (auto simp: same_message_def intro: same_client_trans)

lemma session_connect_frame:
  "session_connect w px s = (r, s') \<Longrightarrow> s' = s\<lparr>s_conns := Suc (s_conns s)\<rparr>"
  by (simp add: session_connect_def)

text \<open>What an operation on the backend transaction keeps.\<close>

definition kept :: "session \<Rightarrow> session \<Rightarrow> bool" where
  "kept s s' \<longleftrightarrow> same_message s s' \<and> s_recipients s' = s_recipients s \<and> s_requests s' = s_requests s"

lemma kept_refl [simp]: "kept s s"
  by (simp add: kept_def)

lemma kept_trans: "kept s t \<Longrightarrow> kept t u \<Longrightarrow> kept s u"
  by (auto simp: kept_def intro: same_message_trans)

lemma kept_simps [simp]:
  "kept s (t\<lparr>s_upstream := u\<rparr>) = kept s t" "kept s (t\<lparr>s_conns := n\<rparr>) = kept s t"
  "kept s (close_upstream t) = kept s t" "kept s (log_closed uo t) = kept s t"
  by (simp_all add: kept_def same_message_def same_client_def)

lemma begin_upstream_frame:
  assumes "begin_upstream w px s = (err, s')"
  shows "kept s s'" and "err \<noteq> None \<Longrightarrow> s_upstream s' = s_upstream s"
  using assms
  by (auto simp: begin_upstream_def session_connect_def split: prod.splits option.splits)

lemma begin_upstream_ok:
  "begin_upstream w px s = (None, s') \<Longrightarrow> s_upstream s' \<noteq> None"
  by (auto simp: begin_upstream_def session_connect_def split: prod.splits option.splits)

lemma transmit_session_frame:
  assumes "transmit_session w s = (err, s')"
  shows "kept s s'"
  using assms by (auto simp: transmit_session_def split: prod.splits option.splits)

text \<open>The branch of \<^const>\<open>forward_to_upstream\<close> that opens its own transaction.\<close>

definition forward_new :: "world \<Rightarrow> session \<Rightarrow> upstream \<Rightarrow> go_error option \<times> session" where
  "forward_new w s1 u =
     (case rcpt_loop (w_net w) (s_recipients s1) 0 None u of
        (Inl e, u') \<Rightarrow> (Some e, close_upstream (s1\<lparr>s_upstream := Some u'\<rparr>))
      | (Inr (accepted, rejection), u') \<Rightarrow>
          (case rejection of
             Some (code, text) \<Rightarrow>
               (Some (if accepted > 0
                      then UpstreamError 451 ''RCPT TO'' ''Mixed recipient results; no message delivered''
                      else UpstreamError code ''RCPT TO'' text),
                close_upstream (s1\<lparr>s_upstream := Some u'\<rparr>))
           | None \<Rightarrow> transmit_session w (s1\<lparr>s_upstream := Some u'\<rparr>)))"

lemma forward_to_upstream_cases:
  assumes "forward_to_upstream w px s = (err, s')"
  obtains (invalid) e where "err = Some e" "s' = s"
    | (open_transaction) "validate_wire_data (s_data s) = None"
        "validate_envelope (s_from s) (s_recipients s) = None" "s_upstream s \<noteq> None"
        "transmit_session w s = (err, s')"
    | (begin_failed) e where "validate_wire_data (s_data s) = None"
        "validate_envelope (s_from s) (s_recipients s) = None" "s_upstream s = None"
        "begin_upstream w px s = (Some e, s')" "err = Some e"
    | (new_transaction) s1 u where "validate_wire_data (s_data s) = None"
        "validate_envelope (s_from s) (s_recipients s) = None" "s_upstream s = None"
        "begin_upstream w px s = (None, s1)" "s_upstream s1 = Some u"
        "forward_new w s1 u = (err, s')"
proof -
  note d = assms [unfolded forward_to_upstream_def Let_def]
  show thesis
  proof (cases "validate_wire_data (s_data s)")
    case (Some e)
    then show thesis using d by (intro invalid [of "UpstreamError 550 ''message'' (go_error_text e)"]) auto
  next
    case None
    note wire = this
    show thesis
    proof (cases "validate_envelope (s_from s) (s_recipients s)")
      case (Some e)
      then show thesis using d wire by (intro invalid [of e]) auto
    next
      case None
      note env = this
      show thesis
      proof (cases "s_upstream s")
        case (Some u)
        then show thesis using d wire env open_transaction by simp
      next
        case None
        obtain e s1 where b: "begin_upstream w px s = (e, s1)" by (cases "begin_upstream w px s")
        show thesis
        proof (cases e)
          case (Some e')
          then show thesis using d wire env None b by (intro begin_failed [of e']) auto
        next
          case e: None
          then obtain u where u: "s_upstream s1 = Some u" using begin_upstream_ok b by blast
          show thesis
            using d wire env None b e u
            by (intro new_transaction [of s1 u]) (simp_all add: forward_new_def)
        qed
      qed
    qed
  qed
qed

lemma forward_new_frame: "forward_new w s1 u = (err, s') \<Longrightarrow> kept s1 s'"
  using transmit_session_frame [of w "s1\<lparr>s_upstream := Some u'\<rparr>" err s' for u']
  by (fastforce simp: forward_new_def kept_def same_message_def same_client_def
      split: prod.splits sum.splits option.splits)

lemma forward_to_upstream_frame: "forward_to_upstream w px s = (err, s') \<Longrightarrow> kept s s'"
  by (erule forward_to_upstream_cases)
     (auto dest: transmit_session_frame begin_upstream_frame(1) forward_new_frame intro: kept_trans)

lemma deliver_frame:
  assumes "deliver w px s = (err, s')"
  shows "same_message s s'"
proof -
  have f: "same_message s t \<Longrightarrow> forward_to_upstream w px t = (err, s') \<Longrightarrow> same_message s s'" for t
    using forward_to_upstream_frame [of w px t] same_message_trans by (auto simp: kept_def)
  have c: "same_message s (close_upstream (s\<lparr>s_recipients := r\<rparr>))" for r
    by (simp add: same_message_def same_client_def)
  show ?thesis
    using assms f [of s] f [OF c]
    by (auto simp: deliver_def Let_def same_message_def same_client_def
        split: option.splits if_splits prod.splits)
qed

lemma process_frame:
  assumes "process_with_mailscript w px s = (r, s')"
  shows "same_client s s'" "s_out s' = s_out s" "s_recipients s' = s_recipients s"
    "s_from s' = s_from s" "s_mail_set s' = s_mail_set s" "s_accepted s' = s_accepted s"
    "s_upstream s' = s_upstream s" "s_closed s' = s_closed s" "s_requests s' = s_requests s"
  using assms
  by (auto simp: process_with_mailscript_def Let_def same_client_def split: policy_result.splits)

lemma finish_data_frame: "same_client s (finish_data w px s)"
proof -
  obtain a q m s1 where p: "process_with_mailscript w px s = ((a, q, m), s1)"
    by (cases "process_with_mailscript w px s") auto
  have d: "same_client s s'" if "deliver w px t = (err, s')" "same_client s t" for t err s'
    using deliver_frame [OF that(1)] that(2) by (auto simp: same_message_def intro: same_client_trans)
  have c: "same_client s (count_processed a s1)"
    "same_client s ((count_processed a s1)\<lparr>s_data := x\<rparr>)" for x
    using process_frame(1) [OF p] by (auto simp: same_client_def count_processed_def)
  show ?thesis
  proof (cases a)
    case True
    define t where "t = (if q then (count_processed a s1)\<lparr>s_data :=
        prepend_header (s_data (count_processed a s1)) quarantine_header ''true''\<rparr> else count_processed a s1)"
    obtain err s4 where s4: "deliver w px t = (err, s4)" by (cases "deliver w px t")
    then have "same_client s s4" using d c by (simp add: t_def)
    with s4 p True show ?thesis
      by (auto simp: finish_data_def Let_def t_def same_client_def split: option.splits)
  next
    case False
    with p c show ?thesis by (simp add: finish_data_def Let_def same_client_def)
  qed
qed

lemma upstream_failure_frame [simp]:
  "s_actions (upstream_failure e s) = s_actions s" "s_from (upstream_failure e s) = s_from s"
  "s_recipients (upstream_failure e s) = s_recipients s" "s_data (upstream_failure e s) = s_data s"
  "s_helo (upstream_failure e s) = s_helo s" "s_client_ip (upstream_failure e s) = s_client_ip s"
  "s_mail_set (upstream_failure e s) = s_mail_set s"
  "s_tls_active (upstream_failure e s) = s_tls_active s"
  "s_upstream (upstream_failure e s) = s_upstream s"
  "s_authenticated (upstream_failure e s) = s_authenticated s"
  "s_auth_user (upstream_failure e s) = s_auth_user s"
  "s_auth_password (upstream_failure e s) = s_auth_password s"
  "s_conns (upstream_failure e s) = s_conns s" "s_closed (upstream_failure e s) = s_closed s"
  "s_requests (upstream_failure e s) = s_requests s" "s_accepted (upstream_failure e s) = s_accepted s"
  "s_reply_code (upstream_failure e s) = s_reply_code s"
  by (simp_all add: upstream_failure_def Let_def split: go_error.split)

lemma rd_bytes_upstream_failure:
  "length (rd_bytes (s_reader (upstream_failure e s))) \<le> length (rd_bytes (s_reader s))"
  using rd_bytes_close [of "write_line m s" for m]
  by (simp add: upstream_failure_def Let_def split: go_error.split)

section \<open>The invariant\<close>

definition no_transaction :: "session \<Rightarrow> bool" where
  "no_transaction s \<longleftrightarrow> \<not> s_mail_set s \<and> s_from s = [] \<and> s_recipients s = [] \<and> s_data s = [] \<and>
     s_actions s = [] \<and> s_upstream s = None \<and> s_reply_code s = 0"

definition open_transaction :: "proxy \<Rightarrow> session \<Rightarrow> bool" where
  "open_transaction px s \<longleftrightarrow> s_mail_set s \<and> s_helo s \<noteq> [] \<and> s_reply_code s = 0 \<and>
     valid_envelope_address (s_from s) True \<and> length (s_recipients s) \<le> 100 \<and>
     (\<forall>r \<in> set (s_recipients s). valid_envelope_address r False) \<and>
     (s_upstream s = None \<longleftrightarrow> px_server px = []) \<and> (px_submission px \<longrightarrow> s_authenticated s)"

definition auth_ok :: "proxy \<Rightarrow> session \<Rightarrow> bool" where
  "auth_ok px s \<longleftrightarrow>
     (s_authenticated s \<longrightarrow> px_submission px \<and> s_tls_active s \<and> s_auth_user s \<noteq> [] \<and> s_auth_password s \<noteq> []) \<and>
     (s_tls_active s \<longrightarrow> px_tls px)"

definition session_ok :: "proxy \<Rightarrow> session \<Rightarrow> bool" where
  "session_ok px s \<longleftrightarrow> auth_ok px s \<and> (no_transaction s \<or> open_transaction px s)"

text \<open>The bytes the session can still read, the ones behind a TLS handshake included.\<close>

definition serve_budget :: "world \<Rightarrow> session \<Rightarrow> nat" where
  "serve_budget w s = length (rd_bytes (s_reader s)) +
     (if s_tls_active s then 0
      else Suc (case w_client_tls w of None \<Rightarrow> 0 | Some chunks \<Rightarrow> length (concat chunks)))"

text \<open>The contract of a command handler.\<close>

definition handles :: "world \<Rightarrow> proxy \<Rightarrow> session \<Rightarrow> session \<Rightarrow> bool" where
  "handles w px s s' \<longleftrightarrow> session_ok px s' \<and> serve_budget w s' \<le> serve_budget w s"

lemma auth_ok_same_client: "same_client s s' \<Longrightarrow> auth_ok px s' = auth_ok px s"
  by (simp add: auth_ok_def same_client_def)

lemma no_transaction_reset [simp]: "no_transaction (reset_transaction s)"
  by (simp add: no_transaction_def)

lemma no_transaction_write [simp]: "no_transaction (write_line m s) = no_transaction s"
  by (simp add: no_transaction_def)

lemma open_transaction_write [simp]: "open_transaction px (write_line m s) = open_transaction px s"
  by (simp add: open_transaction_def)

lemma auth_ok_write [simp]: "auth_ok px (write_line m s) = auth_ok px s"
  by (simp add: auth_ok_def)

lemma auth_ok_reset [simp]: "auth_ok px (reset_transaction s) = auth_ok px s"
  by (simp add: auth_ok_def)

lemma session_ok_write [simp]: "session_ok px (write_line m s) = session_ok px s"
  by (simp add: session_ok_def)

lemma session_ok_close [simp]: "session_ok px (close_conn s) = session_ok px s"
  by (simp add: session_ok_def no_transaction_def open_transaction_def auth_ok_def)

lemma session_ok_reader [simp]: "session_ok px (s\<lparr>s_reader := rd\<rparr>) = session_ok px s"
  by (simp add: session_ok_def no_transaction_def open_transaction_def auth_ok_def)

lemma session_ok_failure [simp]: "session_ok px (upstream_failure e s) = session_ok px s"
  by (simp add: session_ok_def no_transaction_def open_transaction_def auth_ok_def)

lemma session_ok_reset: "auth_ok px s \<Longrightarrow> session_ok px (reset_transaction s)"
  by (simp add: session_ok_def)

lemma serve_budget_le:
  "s_tls_active s' = s_tls_active s \<Longrightarrow>
     length (rd_bytes (s_reader s')) \<le> length (rd_bytes (s_reader s)) \<Longrightarrow>
     serve_budget w s' \<le> serve_budget w s"
  by (simp add: serve_budget_def)

lemma serve_budget_write [simp]: "serve_budget w (write_line m s) = serve_budget w s"
  by (simp add: serve_budget_def)

lemma serve_budget_reset [simp]: "serve_budget w (reset_transaction s) = serve_budget w s"
  by (simp add: serve_budget_def)

lemma serve_budget_close: "serve_budget w (close_conn s) \<le> serve_budget w s"
  by (rule serve_budget_le) (simp_all add: rd_bytes_close)

lemma serve_budget_failure: "serve_budget w (upstream_failure e s) \<le> serve_budget w s"
  by (rule serve_budget_le) (simp_all add: rd_bytes_upstream_failure)

lemma handles_write [simp]: "handles w px s (write_line m s') = handles w px s s'"
  by (simp add: handles_def)

lemma handles_refl: "session_ok px s \<Longrightarrow> handles w px s s"
  by (simp add: handles_def)

lemma session_ok_auth: "session_ok px s \<Longrightarrow> auth_ok px s"
  by (simp add: session_ok_def)

lemma session_ok_mail_set: "session_ok px s \<Longrightarrow> s_mail_set s \<Longrightarrow> open_transaction px s"
  by (auto simp: session_ok_def no_transaction_def)

lemma session_ok_no_mail: "session_ok px s \<Longrightarrow> \<not> s_mail_set s \<Longrightarrow> no_transaction s"
  by (auto simp: session_ok_def open_transaction_def)

section \<open>Every handler keeps it\<close>

lemma session_ok_greeted:
  "session_ok px s \<Longrightarrow> handles w px s ((reset_transaction s)\<lparr>s_helo := h\<rparr>)"
  by (simp add: handles_def session_ok_def no_transaction_def auth_ok_def serve_budget_def)

lemma handle_helo_ok: "session_ok px s \<Longrightarrow> handles w px s (handle_helo parts s)"
  by (simp add: handle_helo_def handles_refl session_ok_greeted)

lemma handle_ehlo_ok:
  assumes "session_ok px s"
  shows "handles w px s (handle_ehlo px parts s)"
proof (cases "length parts < 2")
  case True
  with assms show ?thesis by (simp add: handle_ehlo_def handles_refl)
next
  case False
  have w: "handles w px s (if c then write_line m t else t) = handles w px s t" for c m t by simp
  show ?thesis
    unfolding handle_ehlo_def Let_def if_not_P [OF False] handles_write w
    using assms by (rule session_ok_greeted)
qed

lemma handle_rset_ok: "session_ok px s \<Longrightarrow> handles w px s (handle_rset s)"
  by (simp add: handle_rset_def handles_def session_ok_reset session_ok_auth)

lemma handle_mail_ok:
  assumes "session_ok px s"
  shows "handles w px s (handle_mail w px line s)"
proof (cases "s_helo s = [] \<or> px_submission px \<and> \<not> s_authenticated s \<or> s_mail_set s")
  case True
  with assms show ?thesis by (auto simp: handle_mail_def handles_refl)
next
  case go: False
  show ?thesis
  proof (cases "parse_smtp_path line ''MAIL FROM:'' True")
    case (Inl e)
    with go assms show ?thesis by (simp add: handle_mail_def handles_refl)
  next
    case (Inr address)
    define s1 where "s1 = (reset_transaction s)\<lparr>s_from := address\<rparr>"
    define r where "r = (if px_server px \<noteq> [] then begin_upstream w px s1 else (None, s1))"
    obtain err s2 where s2: "r = (err, s2)" by (cases r)
    have k: "kept s1 s2" using s2 begin_upstream_frame by (auto simp: r_def split: if_splits)
    have auth: "auth_ok px s2"
      using k assms by (auto simp: kept_def same_message_def same_client_def s1_def auth_ok_def session_ok_def)
    have budget: "serve_budget w s2 = serve_budget w s"
      using k by (simp add: kept_def same_message_def same_client_def s1_def serve_budget_def)
    have eq: "handle_mail w px line s = (case err of
        Some e \<Rightarrow> upstream_failure e (reset_transaction s2)
      | None \<Rightarrow> write_line ''250 OK'' (s2\<lparr>s_mail_set := True\<rparr>))"
      using go Inr s2 by (auto simp: handle_mail_def Let_def s1_def [symmetric] r_def [symmetric])
    show ?thesis
    proof (cases err)
      case (Some e)
      with eq auth budget serve_budget_failure [of w e "reset_transaction s2"] show ?thesis
        by (simp add: handles_def session_ok_reset)
    next
      case None
      have up: "s_upstream s2 = None \<longleftrightarrow> px_server px = []"
        using s2 None begin_upstream_ok by (auto simp: r_def s1_def split: if_splits)
      have "open_transaction px (s2\<lparr>s_mail_set := True\<rparr>)"
        using k go up parse_smtp_path_valid [OF Inr]
        by (simp add: open_transaction_def kept_def same_message_def same_client_def s1_def)
      moreover have "auth_ok px (s2\<lparr>s_mail_set := True\<rparr>)" using auth by (simp add: auth_ok_def)
      ultimately show ?thesis
        using eq None budget by (simp add: handles_def session_ok_def serve_budget_def)
    qed
  qed
qed

lemma handle_rcpt_ok:
  assumes "session_ok px s"
  shows "handles w px s (handle_rcpt w line s)"
proof (cases "s_mail_set s")
  case False
  with assms show ?thesis by (simp add: handle_rcpt_def handles_refl)
next
  case True
  note o = session_ok_mail_set [OF assms True] and a = session_ok_auth [OF assms]
  show ?thesis
  proof (cases "parse_smtp_path line ''RCPT TO:'' False")
    case (Inl e)
    with True assms show ?thesis by (simp add: handle_rcpt_def handles_refl)
  next
    case (Inr address)
    note valid = parse_smtp_path_valid [OF Inr]
    have added: "handles w px s (t\<lparr>s_recipients := s_recipients s @ [address]\<rparr>)"
      if "length (s_recipients s) < 100" "t = s \<or> (\<exists>u. t = s\<lparr>s_upstream := Some u\<rparr>) \<and> s_upstream s \<noteq> None" for t
      using that o a valid
      by (auto simp: handles_def session_ok_def open_transaction_def auth_ok_def serve_budget_def)
    show ?thesis
    proof (cases "length (s_recipients s) \<ge> 100 \<or> s_upstream s = None")
      case True
      with \<open>s_mail_set s\<close> Inr assms added [of s] show ?thesis
        by (auto simp: handle_rcpt_def handles_refl)
    next
      case False
      then obtain u where u: "s_upstream s = Some u" and few: "length (s_recipients s) < 100" by auto
      obtain r u' where r: "up_command (w_net w) (rcpt_command address) 0 u = (r, u')"
        by (cases "up_command (w_net w) (rcpt_command address) 0 u")
      have h: "handle_rcpt w line s = (case r of
          Inl e \<Rightarrow> upstream_failure e (reset_transaction (s\<lparr>s_upstream := Some u'\<rparr>))
        | Inr (code, text) \<Rightarrow>
            if \<not> rcpt_accepted code
            then upstream_failure (UpstreamError code ''RCPT TO'' text) (s\<lparr>s_upstream := Some u'\<rparr>)
            else write_line ''250 OK'' (s\<lparr>s_upstream := Some u', s_recipients := s_recipients s @ [address]\<rparr>))"
        using True Inr u few r by (simp add: handle_rcpt_def Let_def split: sum.split)
      have b: "serve_budget w (s\<lparr>s_upstream := Some u'\<rparr>) = serve_budget w s"
        by (simp add: serve_budget_def)
      have "session_ok px (s\<lparr>s_upstream := Some u'\<rparr>)"
        using o a u by (simp add: session_ok_def open_transaction_def auth_ok_def)
      moreover have "auth_ok px (s\<lparr>s_upstream := Some u'\<rparr>)" using a by (simp add: auth_ok_def)
      ultimately show ?thesis
        using h few u added [of "s\<lparr>s_upstream := Some u'\<rparr>"] b
          serve_budget_failure [of w e "reset_transaction (s\<lparr>s_upstream := Some u'\<rparr>)" for e]
          serve_budget_failure [of w e "s\<lparr>s_upstream := Some u'\<rparr>" for e]
        by (auto simp: handles_def session_ok_reset split: sum.split)
    qed
  qed
qed

lemma rd_bytes_shorter:
  "read_wire_line limit rd = (r, rd') \<Longrightarrow> length (rd_bytes rd') \<le> length (rd_bytes rd)"
  using read_line_acc_bytes [of limit "[]" rd r rd'] by (simp add: read_wire_line_def)

lemma handle_data_ok:
  assumes "session_ok px s"
  shows "handles w px s (handle_data w px s)"
proof (cases "\<not> s_mail_set s \<or> s_recipients s = []")
  case True
  with assms show ?thesis by (auto simp: handle_data_def handles_refl)
next
  case False
  define s1 where "s1 = write_line ''354 End data with <CR><LF>.<CR><LF>'' s"
  obtain r rd where r: "data_loop [] (s_reader s1) = (r, rd)" by (cases "data_loop [] (s_reader s1)")
  define s2 where "s2 = s1\<lparr>s_reader := rd\<rparr>"
  define t where "t = (case r of
                  DataReadError \<Rightarrow> close_conn s2
                | DataBadLine \<Rightarrow> close_conn (write_line ''550 DATA requires CRLF line endings'' s2)
                | DataTooLarge \<Rightarrow> close_conn (write_line ''552 Message too large'' s2)
                | DataDone data \<Rightarrow> finish_data w px (s2\<lparr>s_data := data\<rparr>))"
  have eq: "handle_data w px s = reset_transaction t"
    unfolding handle_data_def Let_def if_not_P [OF False] s1_def [symmetric] r prod.case t_def s2_def ..
  have s2: "auth_ok px s2" "serve_budget w s2 \<le> serve_budget w s"
    using session_ok_auth [OF assms] data_loop_shorter [OF r]
    by (simp_all add: s2_def s1_def auth_ok_def serve_budget_def)
  have "auth_ok px (s2\<lparr>s_data := d\<rparr>)" "serve_budget w (s2\<lparr>s_data := d\<rparr>) = serve_budget w s2" for d
    using s2 by (simp_all add: auth_ok_def serve_budget_def)
  then have "auth_ok px t \<and> serve_budget w t \<le> serve_budget w s2"
    using s2 serve_budget_close [of w "write_line m s2" for m] serve_budget_close [of w s2]
      auth_ok_same_client [OF finish_data_frame] finish_data_frame [of "s2\<lparr>s_data := d\<rparr>" w px for d]
    by (auto simp: t_def auth_ok_def serve_budget_def same_client_def split: data_result.split)
  with eq s2 show ?thesis by (simp add: handles_def session_ok_reset)
qed

lemma handle_starttls_ok:
  assumes "session_ok px s"
  shows "handles w px s (handle_starttls w px s)"
proof (cases "\<not> px_tls px \<or> s_tls_active s")
  case True
  with assms show ?thesis by (auto simp: handle_starttls_def handles_refl)
next
  case False
  define s1 where "s1 = write_line ''220 Ready to start TLS'' s"
  show ?thesis
  proof (cases "if s_open s1 then w_client_tls w else None")
    case None
    with False assms serve_budget_close [of w s1] show ?thesis
      by (simp add: handle_starttls_def Let_def s1_def handles_def)
  next
    case (Some chunks)
    then have "w_client_tls w = Some chunks" by (auto split: if_splits)
    with False Some show ?thesis
      by (simp add: handle_starttls_def Let_def s1_def [symmetric])
         (simp add: handles_def session_ok_def no_transaction_def auth_ok_def serve_budget_def s1_def)
  qed
qed

lemma plain_credentials_ne:
  "plain_credentials x = Some (u, p) \<Longrightarrow> u \<noteq> [] \<and> p \<noteq> []"
  by (auto simp: plain_credentials_def Let_def split: option.splits if_splits)

text \<open>Outside a transaction the credentials are all that \<^const>\<open>check_credentials\<close> changes.\<close>

lemma check_credentials_ok:
  assumes "session_ok px s" and "px_submission px" and "s_tls_active s" and "\<not> s_mail_set s"
  shows "handles w px s (check_credentials w px x s)"
proof (cases "plain_credentials x")
  case None
  with assms show ?thesis by (simp add: check_credentials_def handles_refl)
next
  case (Some c)
  then obtain u p where up: "plain_credentials x = Some (u, p)" by (cases c) auto
  define s1 where "s1 = s\<lparr>s_auth_user := u, s_auth_password := p, s_authenticated := True\<rparr>"
  obtain err uo s2 where s2: "session_connect w px s1 = ((err, uo), s2)"
    by (cases "session_connect w px s1") auto
  have n: "no_transaction s" "auth_ok px s" using assms session_ok_no_mail session_ok_auth by auto
  have "handles w px s (log_closed uo s2)"
    using n assms plain_credentials_ne [OF up] session_connect_frame [OF s2]
    by (simp add: handles_def session_ok_def no_transaction_def auth_ok_def serve_budget_def s1_def)
  moreover have "handles w px s (clear_auth (log_closed uo s2))"
    using n session_connect_frame [OF s2]
    by (simp add: handles_def session_ok_def no_transaction_def auth_ok_def serve_budget_def s1_def
        clear_auth_def)
  moreover have "\<exists>m. check_credentials w px x s =
      write_line m (if err = None then log_closed uo s2 else clear_auth (log_closed uo s2))"
    unfolding check_credentials_def up option.case prod.case Let_def s1_def [symmetric] s2
    by (cases err) auto
  ultimately show ?thesis by fastforce
qed

lemma handle_auth_ok:
  assumes "session_ok px s"
  shows "handles w px s (handle_auth w px parts s)"
proof (cases "px_submission px \<and> s_tls_active s \<and> \<not> (s_helo s = [] \<or> s_mail_set s \<or> s_authenticated s) \<and>
    \<not> (length parts < 2 \<or> length parts > 3 \<or> \<not> equal_fold (parts ! 1) ''PLAIN'')")
  case False
  with handles_refl [OF assms] show ?thesis unfolding handle_auth_def by (auto split: if_split)
next
  case go: True
  then have *: "handle_auth w px parts s =
      (if length parts = 3 then check_credentials w px (parts ! 2) s
      else
        let s1 = write_line ''334 '' s in
        (case read_wire_line 4096 (s_reader s1) of
           (Inl _, rd) \<Rightarrow> close_conn (s1\<lparr>s_reader := rd\<rparr>)
         | (Inr line, rd) \<Rightarrow> check_credentials w px (trim_space line) (s1\<lparr>s_reader := rd\<rparr>)))"
    unfolding handle_auth_def by (auto split: if_split)
  show ?thesis
  proof (cases "length parts = 3")
    case True
    with go * assms check_credentials_ok show ?thesis by simp
  next
    case False
    obtain r rd where r: "read_wire_line 4096 (s_reader s) = (r, rd)"
      by (cases "read_wire_line 4096 (s_reader s)")
    define t where "t = (write_line ''334 '' s)\<lparr>s_reader := rd\<rparr>"
    have le: "serve_budget w t \<le> serve_budget w s"
      using rd_bytes_shorter [OF r] by (simp add: t_def serve_budget_def)
    have ok: "session_ok px t" using assms by (simp add: t_def)
    have "handles w px t (check_credentials w px x t)" for x
      using ok go by (intro check_credentials_ok) (simp_all add: t_def)
    then have "handles w px s (check_credentials w px x t)" for x
      using le by (fastforce simp: handles_def)
    moreover have "handles w px s (close_conn t)"
      using ok le serve_budget_close [of w t] by (simp add: handles_def)
    ultimately show ?thesis
      using False * r by (simp add: Let_def t_def [symmetric] split: sum.split)
  qed
qed

text \<open>The contracts of the handlers, as one bundle.\<close>

lemmas handlers_ok = handle_auth_ok handle_helo_ok handle_ehlo_ok handle_mail_ok handle_rcpt_ok
  handle_data_ok handle_rset_ok handle_starttls_ok

lemma dispatch_ok: "session_ok px s \<Longrightarrow> handles w px s (snd (dispatch w px line s))"
  unfolding dispatch_def Let_def by (simp add: handlers_ok handles_refl)

section \<open>The command loop\<close>

lemma serve_line_ok: "session_ok px s \<Longrightarrow> session_ok px (snd (serve_line w px s))"
  using dispatch_ok [of px "s\<lparr>s_reader := rd\<rparr>" w l for rd l]
  by (auto simp: serve_line_def Let_def handles_def split: prod.splits sum.splits)

lemma serve_line_shrinks:
  assumes "session_ok px s" and "serve_line w px s = (True, s')"
  shows "serve_budget w s' < serve_budget w s"
proof -
  obtain r rd where r: "read_wire_line 4096 (s_reader s) = (r, rd)"
    by (cases "read_wire_line 4096 (s_reader s)")
  then obtain raw where raw: "r = Inr raw"
    using assms(2) by (cases r) (auto simp: serve_line_def)
  have less: "serve_budget w (s\<lparr>s_reader := rd\<rparr>) < serve_budget w s"
    using read_wire_line_smaller r raw by (simp add: serve_budget_def)
  have "s' = s\<lparr>s_reader := rd\<rparr> \<or> s' = snd (dispatch w px (trim_space raw) (s\<lparr>s_reader := rd\<rparr>))"
    using assms(2) r raw by (auto simp: serve_line_def Let_def split: if_splits)
  then show ?thesis
    using less dispatch_ok [of px "s\<lparr>s_reader := rd\<rparr>" w "trim_space raw"] assms(1)
    by (auto simp: handles_def)
qed

interpretation smtp: bounded_loop "serve_line w px" "session_ok px" "serve_budget w" for w px
  by unfold_locales (auto simp: serve_line_ok serve_line_shrinks)

lemma session_ok_start: "session_ok px (start_session ip net)"
  by (simp add: start_session_def new_session_def session_ok_def no_transaction_def auth_ok_def)

lemma serve_fuel_budget: "serve_fuel w s = Suc (serve_budget w s)"
  by (simp add: serve_fuel_def serve_budget_def)

end
