(* ===== verification/SessionLog.thy ===== *)
theory SessionLog
  imports SessionInv
begin

text \<open>
  What a session has done to the outside: the dialogue with every backend connection, the
  requests to the host adapter and the replies to the client.

  \<open>transacts\<close> describes the dialogue of an open backend transaction, \<open>delivered\<close> the dialogue
  of a completed one. The invariant \<open>ledger\<close> balances the books: the messages counted as
  accepted are exactly the backend transactions that ended in 250 for the final dot plus the
  requests the host adapter acknowledged. \<open>replies_ok\<close> ties the 250 replies to that count.
\<close>

section \<open>Dialogues\<close>

definition data_command :: up_event where
  "data_command = Wrote (''DATA'' @ CRLF)"

definition final_dot :: up_event where
  "final_dot = Wrote (''.'' @ CRLF)"

definition rcpt_line :: "string \<Rightarrow> string" where
  "rcpt_line r = rcpt_command r @ CRLF"

text \<open>The backend took the message: its last reply is 250, for the final dot.\<close>

definition committed :: "up_event list \<Rightarrow> bool" where
  "committed es \<longleftrightarrow> take 2 (rev es) = [GotReply 250, final_dot]"

text \<open>Events of the connection set-up: whole lines that start no transaction.\<close>

fun setup_event :: "up_event \<Rightarrow> bool" where
  "setup_event (Wrote b) \<longleftrightarrow> (\<exists>c. b = c @ CRLF \<and> line_ok c) \<and>
     \<not> has_prefix b ''MAIL'' \<and> \<not> has_prefix b ''RCPT'' \<and> \<not> has_prefix b ''DATA'' \<and> \<not> has_prefix b ''.''"
| "setup_event _ \<longleftrightarrow> True"

fun rcpt_event :: "up_event \<Rightarrow> bool" where
  "rcpt_event (Wrote b) \<longleftrightarrow> (\<exists>a. b = rcpt_line a \<and> valid_envelope_address a False)"
| "rcpt_event (GotReply _) \<longleftrightarrow> True"
| "rcpt_event (TlsHandshake _) \<longleftrightarrow> False"

text \<open>The RCPT lines a backend answered with an accepting code.\<close>

fun backend_rcpts :: "up_event list \<Rightarrow> string list" where
  "backend_rcpts (Wrote b # GotReply k # es) =
     (if has_prefix b ''RCPT'' \<and> rcpt_accepted k then b # backend_rcpts es else backend_rcpts es)"
| "backend_rcpts (e # es) = backend_rcpts es"
| "backend_rcpts [] = []"

definition transacts :: "upstream \<Rightarrow> string \<Rightarrow> string list \<Rightarrow> bool" where
  "transacts u from rcpts \<longleftrightarrow> valid_envelope_address from True \<and>
     (\<exists>pre post. u_events u = pre @ [Wrote (mail_command u from @ CRLF), GotReply 250] @ post \<and>
        (\<forall>e \<in> set pre. setup_event e) \<and> (\<forall>e \<in> set post. rcpt_event e) \<and>
        backend_rcpts post = map rcpt_line rcpts)"

definition data_events :: "string \<Rightarrow> up_event list" where
  "data_events data = [data_command, GotReply 354, Wrote (dot_stuff data)] @
     (if has_suffix data CRLF then [] else [Wrote CRLF]) @ [final_dot, GotReply 250]"

definition delivered :: "upstream \<Rightarrow> string \<Rightarrow> string list \<Rightarrow> string \<Rightarrow> bool" where
  "delivered u from rcpts data \<longleftrightarrow> wire_clean data \<and> rcpts \<noteq> [] \<and>
     (\<exists>u0. transacts u0 from rcpts \<and> u_ext u = u_ext u0 \<and> u_events u = u_events u0 @ data_events data)"

text \<open>
  A dialogue without injected commands: every write is one whole line, except message
  bytes, which are dot-stuffed clean lines and come right after a 354 for DATA.
\<close>

inductive safe_dialogue :: "up_event list \<Rightarrow> bool" where
  start: "safe_dialogue []"
| line: "safe_dialogue es \<Longrightarrow> line_event e \<Longrightarrow> safe_dialogue (es @ [e])"
| payload: "safe_dialogue (pre @ [data_command, GotReply 354]) \<Longrightarrow> wire_clean raw \<Longrightarrow>
     safe_dialogue (pre @ [data_command, GotReply 354, Wrote (dot_stuff raw)])"

lemma safe_dialogue_append:
  "safe_dialogue es \<Longrightarrow> \<forall>e \<in> set fs. line_event e \<Longrightarrow> safe_dialogue (es @ fs)"
proof (induction fs rule: rev_induct)
  case (snoc e fs)
  then show ?case using safe_dialogue.line [of "es @ fs" e] by simp
qed simp

lemma setup_line_event: "setup_event e \<Longrightarrow> line_event e"
  by (cases e) auto

lemma line_ok_rcpt: "valid_envelope_address a e \<Longrightarrow> line_ok (rcpt_command a)"
  by (simp add: rcpt_command_def valid_envelope_line_ok)

lemma line_ok_mail: "valid_envelope_address a e \<Longrightarrow> line_ok (mail_command u a)"
  by (simp add: mail_command_def valid_envelope_line_ok)

lemma rcpt_line_event: "rcpt_event e \<Longrightarrow> line_event e"
  by (cases e) (auto simp: rcpt_line_def line_ok_rcpt)

lemma line_event_command: "line_ok c \<Longrightarrow> line_event (Wrote (c @ CRLF))"
  by auto

lemma line_event_data [simp]: "line_event data_command" "line_event final_dot"
  unfolding data_command_def final_dot_def by (rule line_event_command, simp)+

lemma transacts_lines:
  assumes "transacts u from rcpts"
  shows "\<forall>e \<in> set (u_events u). line_event e"
  using assms line_event_command [OF line_ok_mail]
  by (auto simp: transacts_def setup_line_event rcpt_line_event)

lemma transacts_safe: "transacts u from rcpts \<Longrightarrow> safe_dialogue (u_events u)"
  using safe_dialogue_append [OF safe_dialogue.start] transacts_lines by fastforce

lemma committed_append [simp]:
  "committed (es @ [Wrote b, GotReply k]) \<longleftrightarrow> Wrote b = final_dot \<and> k = 250"
  "\<not> committed (es @ [Wrote b])"
  by (auto simp: committed_def numeral_2_eq_2)

lemma committed_dot: "committed es \<Longrightarrow> final_dot \<in> set es"
  by (metis committed_def in_set_takeD list.set_intros(1,2) set_rev)

lemma setup_no_dot: "setup_event e \<Longrightarrow> e \<noteq> final_dot"
  by (auto simp: final_dot_def has_prefix_def)

lemma rcpt_no_dot: "rcpt_event e \<Longrightarrow> e \<noteq> final_dot"
  by (auto simp: final_dot_def rcpt_line_def rcpt_command_def)

lemma mail_no_dot: "Wrote (mail_command u from @ CRLF) \<noteq> final_dot"
  by (simp add: final_dot_def mail_command_def)

lemma transacts_not_committed:
  assumes "transacts u from rcpts"
  shows "\<not> committed (u_events u)"
proof
  assume "committed (u_events u)"
  then have "final_dot \<in> set (u_events u)" by (rule committed_dot)
  moreover obtain pre post where "u_events u = pre @ [Wrote (mail_command u from @ CRLF), GotReply 250] @ post"
    "\<forall>e \<in> set pre. setup_event e" "\<forall>e \<in> set post. rcpt_event e"
    using assms unfolding transacts_def by blast
  moreover have "final_dot \<noteq> GotReply 250" by (simp add: final_dot_def)
  ultimately show False using setup_no_dot rcpt_no_dot mail_no_dot [of u "from"] by auto
qed

lemma backend_rcpts_append:
  "backend_rcpts (es @ Wrote b # fs) = backend_rcpts es @ backend_rcpts (Wrote b # fs)"
  by (induction es rule: backend_rcpts.induct) auto

section \<open>The commands of a transaction\<close>

lemma up_write_events:
  "up_write env b u = (r, u') \<Longrightarrow> u_events u' = u_events u @ [Wrote b] \<and> u_ext u' = u_ext u \<and> u_id u' = u_id u"
  by (auto simp: up_write_def Let_def add_event_def receive_def split: option.splits)

lemma up_read_reply_events:
  "up_read_reply u = (r, u') \<Longrightarrow> u_ext u' = u_ext u \<and> u_id u' = u_id u \<and>
     (case r of Inl e \<Rightarrow> u_events u' = u_events u
      | Inr (code, text) \<Rightarrow> u_events u' = u_events u @ [GotReply code] \<and> 200 \<le> code \<and> code \<le> 599)"
  using read_smtp_reply_code
  by (fastforce simp: up_read_reply_def add_event_def split: prod.splits sum.splits)

text \<open>Every outcome of a command: its line, then possibly the reply.\<close>

lemma up_command_cases:
  assumes "up_command env c want u = (r, u')" and "c \<noteq> []"
  obtains (fails) e where "r = Inl e" "u_ext u' = u_ext u" "u_events u' = u_events u @ [Wrote (c @ CRLF)]"
    | (refused) e code where "r = Inl e" "u_ext u' = u_ext u" "code \<noteq> want" "want > 0"
        "u_events u' = u_events u @ [Wrote (c @ CRLF), GotReply code]"
    | (replied) code reply where "r = Inr (code, reply)" "u_ext u' = u_ext u" "want > 0 \<Longrightarrow> code = want"
        "u_events u' = u_events u @ [Wrote (c @ CRLF), GotReply code]"
proof -
  obtain e u1 where w: "up_write env (c @ CRLF) u = (e, u1)" by (cases "up_write env (c @ CRLF) u")
  note u1 = up_write_events [OF w]
  show thesis
  proof (cases e)
    case (Some x)
    then show thesis using assms w u1 by (intro fails [of x]) (auto simp: up_command_def)
  next
    case None
    obtain q u2 where q: "up_read_reply u1 = (q, u2)" by (cases "up_read_reply u1")
    note u2 = up_read_reply_events [OF q]
    show thesis
    proof (cases q)
      case (Inl x)
      then show thesis using assms w u1 None q u2 by (intro fails [of x]) (auto simp: up_command_def)
    next
      case (Inr ct)
      obtain code reply where ct: "ct = (code, reply)" by (cases ct)
      show thesis
      proof (cases "want > 0 \<and> code \<noteq> want")
        case True
        then show thesis
          using assms w u1 None q u2 Inr ct
          by (intro refused [of "UpstreamError code (command_stage c) reply" code]) (auto simp: up_command_def)
      next
        case False
        then show thesis
          using assms w u1 None q u2 Inr ct
          by (intro replied [of code reply]) (auto simp: up_command_def)
      qed
    qed
  qed
qed

lemma up_expect_cases:
  assumes "up_expect env c want u = (r, u')" and "c \<noteq> []" and "want > 0"
  obtains (fails) e where "r = Some e" "u_ext u' = u_ext u" "u_events u' = u_events u @ [Wrote (c @ CRLF)]"
    | (refused) e code where "r = Some e" "u_ext u' = u_ext u" "code \<noteq> want"
        "u_events u' = u_events u @ [Wrote (c @ CRLF), GotReply code]"
    | (accepted) "r = None" "u_ext u' = u_ext u" "u_events u' = u_events u @ [Wrote (c @ CRLF), GotReply want]"
proof -
  obtain q v where q: "up_command env c want u = (q, v)" by (cases "up_command env c want u")
  from q assms(2) show thesis
    by (cases rule: up_command_cases)
       (use assms(1,3) q fails refused accepted in \<open>auto simp: up_expect_def\<close>)
qed

text \<open>A new backend connection, up to its MAIL command.\<close>

lemma connect_setup_events:
  assumes "connect_upstream env cfg server auth n = (err, Some u)"
  shows "\<forall>e \<in> set (u_events u). setup_event e"
proof (rule connect_events [OF assms])
  have a: "allows setup_event c" if "line_ok c" "\<not> has_prefix (c @ CRLF) ''MAIL''" "\<not> has_prefix (c @ CRLF) ''RCPT''"
      "\<not> has_prefix (c @ CRLF) ''DATA''" "\<not> has_prefix (c @ CRLF) ''.''" for c
    using that by (simp add: allows_def)
  show "allows setup_event ''EHLO mailscript-proxy''" "allows setup_event ''HELO mailscript-proxy''"
    "allows setup_event ''STARTTLS''" "allows setup_event []"
    by (rule a; simp add: has_prefix_def)+
  show "allows setup_event (''AUTH PLAIN '' @ b64_encode x)" for x
    by (rule a) (simp_all add: has_prefix_def line_ok_b64_encode)
qed simp

lemma transacts_rcpt_events:
  assumes "transacts u from rcpts" and "u_ext u' = u_ext u" and "u_events u' = u_events u @ fs"
    and "\<forall>e \<in> set fs. rcpt_event e" and "fs = Wrote b # gs" and "backend_rcpts fs = map rcpt_line new"
  shows "transacts u' from (rcpts @ new)"
proof -
  obtain pre post where *: "u_events u = pre @ [Wrote (mail_command u from @ CRLF), GotReply 250] @ post"
    "\<forall>e \<in> set pre. setup_event e" "\<forall>e \<in> set post. rcpt_event e" "backend_rcpts post = map rcpt_line rcpts"
    and valid: "valid_envelope_address from True"
    using assms(1) unfolding transacts_def by blast
  have "mail_command u' from = mail_command u from" using assms(2) by (simp add: mail_command_def)
  moreover have "backend_rcpts (post @ fs) = map rcpt_line (rcpts @ new)"
    using *(4) assms(5,6) backend_rcpts_append [of post b gs] by simp
  ultimately show ?thesis
    unfolding transacts_def using valid * assms(3,4)
    by (intro conjI exI [of _ pre] exI [of _ "post @ fs"]) auto
qed

lemma has_prefix_rcpt [simp]: "has_prefix (rcpt_line a) ''RCPT''"
  by (simp add: rcpt_line_def rcpt_command_def has_prefix_def)

text \<open>One RCPT command in an open transaction.\<close>

lemma rcpt_command_transacts:
  assumes "up_command env (rcpt_command a) 0 u = (r, u')" and "transacts u from rcpts"
    and "valid_envelope_address a False"
  shows "transacts u' from (case r of
      Inr (code, text) \<Rightarrow> if rcpt_accepted code then rcpts @ [a] else rcpts | Inl e \<Rightarrow> rcpts)"
proof -
  have ne: "rcpt_command a \<noteq> []" by (simp add: rcpt_command_def)
  have ev: "rcpt_event (Wrote (rcpt_line a))" using assms(3) by auto
  note t = transacts_rcpt_events [OF assms(2), of u', folded rcpt_line_def]
  from assms(1) ne show ?thesis
  proof (cases rule: up_command_cases)
    case (fails e)
    then show ?thesis
      using t [of "[Wrote (rcpt_line a)]" "rcpt_line a" "[]" "[]"] ev by (simp add: rcpt_line_def)
  next
    case (refused e code)
    then show ?thesis by simp
  next
    case (replied code reply)
    then show ?thesis
      using t [of "[Wrote (rcpt_line a), GotReply code]" "rcpt_line a" "[GotReply code]" "[a]"]
        t [of "[Wrote (rcpt_line a), GotReply code]" "rcpt_line a" "[GotReply code]" "[]"] ev
        has_prefix_rcpt [of a]
      by (auto simp: rcpt_line_def split: if_splits)
  qed
qed

section \<open>The message\<close>

text \<open>What the books say of one closed connection.\<close>

definition closed_ok :: "upstream \<Rightarrow> bool" where
  "closed_ok u \<longleftrightarrow> safe_dialogue (u_events u) \<and>
     (committed (u_events u) \<longrightarrow> (\<exists>from rcpts data. delivered u from rcpts data))"

lemma closed_ok_transacts: "transacts u from rcpts \<Longrightarrow> closed_ok u"
  by (simp add: closed_ok_def transacts_safe transacts_not_committed)

lemma closed_ok_lines: "\<forall>e \<in> set (u_events u). line_event e \<Longrightarrow> \<not> committed (u_events u) \<Longrightarrow> closed_ok u"
  using safe_dialogue_append [OF safe_dialogue.start] by (fastforce simp: closed_ok_def)

lemma closed_ok_setup: "\<forall>e \<in> set (u_events u). setup_event e \<Longrightarrow> closed_ok u"
  using committed_dot setup_no_dot setup_line_event by (blast intro!: closed_ok_lines)

lemma committed_data: "committed (es @ data_events data)"
  by (simp add: data_events_def final_dot_def committed_def numeral_2_eq_2)

lemma safe_data:
  assumes "safe_dialogue es" and "wire_clean data"
  shows "safe_dialogue (es @ [data_command, GotReply 354, Wrote (dot_stuff data)])"
proof -
  have "safe_dialogue (es @ [data_command, GotReply 354])"
    using assms(1) by (rule safe_dialogue_append) auto
  then show ?thesis using assms(2) by (rule safe_dialogue.payload)
qed

text \<open>
  \<^const>\<open>transmit\<close> succeeds exactly when the dialogue of the message completes, and leaves an
  uncommitted safe dialogue behind when it fails.
\<close>

lemma transmit_result:
  assumes "transmit env data u = (r, u')" and "transacts u from rcpts" and "wire_clean data"
  shows "u_ext u' = u_ext u" and "safe_dialogue (u_events u')"
    and "if r = None then u_events u' = u_events u @ data_events data else \<not> committed (u_events u')"
proof -
  define nl where "nl = (if has_suffix data CRLF then [] else [Wrote CRLF])"
  have ne: "''DATA'' \<noteq> []" "(354::int) > 0" and ne2: "''.'' \<noteq> []" "(250::int) > 0" by simp_all
  have lines: "\<forall>e \<in> set nl. line_event e" using line_event_command [of "[]"] by (simp add: nl_def)
  have safe: "safe_dialogue (u_events u @ [data_command, GotReply 354, Wrote (dot_stuff data)] @ nl @ fs)"
    if "\<forall>e \<in> set fs. line_event e" for fs
    using safe_dialogue_append [OF safe_data [OF transacts_safe [OF assms(2)] assms(3)], of "nl @ fs"]
      that lines by fastforce
  obtain r1 u1 where r1: "up_expect env ''DATA'' 354 u = (r1, u1)" by (cases "up_expect env ''DATA'' 354 u")
  have "u_ext u' = u_ext u \<and> safe_dialogue (u_events u') \<and>
      (if r = None then u_events u' = u_events u @ data_events data else \<not> committed (u_events u'))"
  proof (cases r1)
    case (Some e)
    then have eq: "r = Some e" "u' = u1" using assms(1) r1 by (auto simp: transmit_def then_up_def)
    note l = safe_dialogue_append [OF transacts_safe [OF assms(2)]]
    from r1 ne show ?thesis
    proof (cases rule: up_expect_cases)
      case (fails e)
      then show ?thesis using eq l [of "[data_command]"] by (simp add: data_command_def)
    next
      case (refused e code)
      then show ?thesis
        using eq l [of "[data_command, GotReply code]"] by (simp add: data_command_def final_dot_def)
    qed (use Some in simp_all)
  next
    case None
    from r1 ne have u1: "u_ext u1 = u_ext u" "u_events u1 = u_events u @ [data_command, GotReply 354]"
      by (cases rule: up_expect_cases; use None in \<open>simp add: data_command_def\<close>)+
    obtain r2 u2 where r2: "up_write env (dot_stuff data) u1 = (r2, u2)"
      by (cases "up_write env (dot_stuff data) u1")
    note u2 = up_write_events [OF r2]
    show ?thesis
    proof (cases r2)
      case (Some e)
      then have eq: "r = Some e" "u' = u2" using assms(1) r1 None r2 by (auto simp: transmit_def then_up_def)
      have "u_events u2 = (u_events u @ [data_command, GotReply 354]) @ [Wrote (dot_stuff data)]"
        using u1 u2 by simp
      then have "\<not> committed (u_events u2)" by (metis committed_append(2))
      moreover have "safe_dialogue (u_events u2)"
        using u1 u2 safe_data [OF transacts_safe [OF assms(2)] assms(3)] by simp
      ultimately show ?thesis using eq u1 u2 by simp
    next
      case None2: None
      define q where "q = (if has_suffix data CRLF then (None, u2) else up_write env CRLF u2)"
      obtain r3 u3 where r3: "q = (r3, u3)" by (cases q)
      have u3: "u_ext u3 = u_ext u" "u_events u3 = u_events u @ [data_command, GotReply 354, Wrote (dot_stuff data)] @ nl"
        using r3 u1 u2 up_write_events [of env CRLF u2 r3 u3] unfolding q_def nl_def
        by (cases "has_suffix data CRLF"; simp)+
      have eq: "(r, u') = then_up (r3, u3) (up_expect env ''.'' 250)"
        using assms(1) r1 None r2 None2 unfolding transmit_def r3 [symmetric] q_def by (simp add: then_up_def)
      show ?thesis
      proof (cases r3)
        case (Some e)
        then have e: "r = Some e" "u' = u3" using eq by (auto simp: then_up_def)
        have "nl = [Wrote CRLF]" using r3 Some by (auto simp: q_def nl_def split: if_splits)
        then have "u_events u3 = (u_events u @ [data_command, GotReply 354, Wrote (dot_stuff data)]) @ [Wrote CRLF]"
          using u3 by simp
        then have "\<not> committed (u_events u3)" by (metis committed_append(2))
        then show ?thesis using e u3 safe [of "[]"] by simp
      next
        case None3: None
        then have x: "up_expect env ''.'' 250 u3 = (r, u')" using eq by (simp add: then_up_def)
        define b where "b = u_events u @ [data_command, GotReply 354, Wrote (dot_stuff data)] @ nl"
        have b: "u_events u3 = b" "data_events data = [data_command, GotReply 354, Wrote (dot_stuff data)] @ nl @
            [final_dot, GotReply 250]"
          using u3 by (simp_all add: b_def data_events_def nl_def)
        from x ne2 show ?thesis
        proof (cases rule: up_expect_cases)
          case (fails e)
          then have "u_events u' = b @ [Wrote (''.'' @ CRLF)]" using b by simp
          then show ?thesis
            using fails u3 safe [of "[final_dot]"] committed_append(2) [of b "''.'' @ CRLF"]
            by (simp add: b_def final_dot_def)
        next
          case (refused e code)
          then have "u_events u' = b @ [Wrote (''.'' @ CRLF), GotReply code]" using b by simp
          then show ?thesis
            using refused u3 safe [of "[final_dot, GotReply code]"] committed_append(1) [of b "''.'' @ CRLF" code]
            by (simp add: b_def final_dot_def)
        next
          case accepted
          then have "u_events u' = b @ [final_dot, GotReply 250]" using b by (simp add: final_dot_def)
          then show ?thesis
            using accepted u3 safe [of "[final_dot, GotReply 250]"] b by (simp add: b_def)
        qed
      qed
    qed
  qed
  then show "u_ext u' = u_ext u" and "safe_dialogue (u_events u')"
    and "if r = None then u_events u' = u_events u @ data_events data else \<not> committed (u_events u')"
    by auto
qed

section \<open>The books\<close>

definition commits :: "world \<Rightarrow> session \<Rightarrow> nat" where
  "commits w s = length (filter (\<lambda>u. committed (u_events u)) (s_closed s)) +
     length (filter (host_acknowledged (w_host w)) (s_requests s))"

text \<open>\<open>ledger k\<close>: the books with \<open>k\<close> deliveries that are not counted as accepted yet.\<close>

definition ledger :: "nat \<Rightarrow> world \<Rightarrow> session \<Rightarrow> bool" where
  "ledger k w s \<longleftrightarrow> int (commits w s) = s_accepted s + int k \<and> (\<forall>u \<in> set (s_closed s). closed_ok u)"

definition open_ok :: "session \<Rightarrow> bool" where
  "open_ok s \<longleftrightarrow> (\<forall>u. s_upstream s = Some u \<longrightarrow> transacts u (s_from s) (s_recipients s))"

lemma ledger_closed:
  "s_closed s' = s_closed s @ [u] \<Longrightarrow> s_requests s' = s_requests s \<Longrightarrow> s_accepted s' = s_accepted s \<Longrightarrow>
     ledger k w s \<Longrightarrow> closed_ok u \<Longrightarrow> ledger (k + (if committed (u_events u) then 1 else 0)) w s'"
  by (auto simp: ledger_def commits_def)

lemma ledger_same:
  "s_closed s' = s_closed s \<Longrightarrow> s_requests s' = s_requests s \<Longrightarrow> s_accepted s' = s_accepted s \<Longrightarrow>
     ledger k w s' = ledger k w s"
  by (simp add: ledger_def commits_def)

lemma ledger_write [simp]: "ledger k w (write_line m s) = ledger k w s"
  by (rule ledger_same) simp_all

lemma ledger_close_upstream:
  assumes "ledger k w s" and "open_ok s"
  shows "ledger k w (close_upstream s)"
proof (cases "s_upstream s")
  case None
  with assms show ?thesis by (simp add: close_upstream_def)
next
  case (Some u)
  then have "transacts u (s_from s) (s_recipients s)" using assms(2) by (simp add: open_ok_def)
  then have "closed_ok u" "\<not> committed (u_events u)" by (simp_all add: closed_ok_transacts transacts_not_committed)
  then show ?thesis
    using Some assms(1) ledger_closed [of "close_upstream s" s u k w] by (simp add: close_upstream_def)
qed

lemma ledger_reset: "ledger k w s \<Longrightarrow> open_ok s \<Longrightarrow> ledger k w (reset_transaction s)"
  using ledger_close_upstream by (simp add: reset_transaction_def) (simp add: ledger_def commits_def)

lemma session_connect_setup:
  assumes "session_connect w px s = ((err, Some u), s')"
  shows "\<forall>e \<in> set (u_events u). setup_event e"
  using assms connect_setup_events by (auto simp: session_connect_def)

lemma mail_command_transacts:
  assumes "\<forall>e \<in> set (u_events u). setup_event e" and "valid_envelope_address from True"
    and "up_expect env (mail_command u from) 250 u = (r, u')"
  shows "case r of None \<Rightarrow> transacts u' from [] | Some e \<Rightarrow> closed_ok u' \<and> \<not> committed (u_events u')"
proof -
  have ne: "mail_command u from \<noteq> []" "(250::int) > 0" by (simp_all add: mail_command_def)
  have lines: "\<forall>e \<in> set (u_events u @ Wrote (mail_command u from @ CRLF) # gs). line_event e"
    if "\<forall>g \<in> set gs. line_event g" for gs
    using assms(1) setup_line_event line_event_command [OF line_ok_mail [OF assms(2), of u]] that by auto
  have c: "\<not> committed (u_events u @ [Wrote (mail_command u from @ CRLF), GotReply k])" for k
    using mail_no_dot [of u "from"] by simp
  from assms(3) ne show ?thesis
  proof (cases rule: up_expect_cases)
    case (fails e)
    have "\<not> committed (u_events u')" unfolding fails by (rule committed_append(2))
    moreover have "\<forall>e \<in> set (u_events u'). line_event e" unfolding fails by (rule lines) simp
    ultimately show ?thesis using fails by (simp add: closed_ok_lines)
  next
    case (refused e code)
    have "\<not> committed (u_events u')" unfolding refused by (rule c)
    moreover have "\<forall>e \<in> set (u_events u'). line_event e" unfolding refused by (rule lines) simp
    ultimately show ?thesis using refused by (simp add: closed_ok_lines)
  next
    case accepted
    have "mail_command u' from = mail_command u from" using accepted by (simp add: mail_command_def)
    then have "transacts u' from []"
      unfolding transacts_def using assms(1,2) accepted
      by (intro conjI exI [of _ "u_events u"] exI [of _ "[]"]) simp_all
    with accepted show ?thesis by simp
  qed
qed

lemma begin_upstream_books:
  assumes "begin_upstream w px s = (err, s')" and "ledger k w s" and "s_upstream s = None"
    and "valid_envelope_address (s_from s) True"
  shows "ledger k w s' \<and> (\<forall>u. s_upstream s' = Some u \<longrightarrow> transacts u (s_from s) [])"
proof -
  obtain e uo s1 where c: "session_connect w px s = ((e, uo), s1)" by (cases "session_connect w px s") auto
  have s1: "ledger k w s1" "s_upstream s1 = None"
    using session_connect_frame [OF c] assms(2,3) ledger_same [of s1 s k w] by simp_all
  have closing: "ledger k w (log_closed (Some u) s1)" if "closed_ok u" "\<not> committed (u_events u)" for u
    using ledger_closed [of "log_closed (Some u) s1" s1 u k w] s1 that by (simp add: log_closed_def)
  show ?thesis
  proof (cases uo)
    case None
    then have "s' = s1" using assms(1) c by (cases e) (auto simp: begin_upstream_def log_closed_def)
    with s1 show ?thesis by simp
  next
    case (Some u)
    note su = session_connect_setup [OF c [unfolded Some]]
    show ?thesis
    proof (cases e)
      case (Some x)
      then have "s' = log_closed (Some u) s1" using assms(1) c \<open>uo = Some u\<close> by (simp add: begin_upstream_def)
      moreover have "\<not> committed (u_events u)" using su committed_dot setup_no_dot by blast
      ultimately show ?thesis using closing [OF closed_ok_setup [OF su]] s1 by simp
    next
      case None
      obtain r u' where r: "up_expect (w_net w) (mail_command u (s_from s)) 250 u = (r, u')"
        by (cases "up_expect (w_net w) (mail_command u (s_from s)) 250 u")
      note m = mail_command_transacts [OF su assms(4) r]
      show ?thesis
        using assms(1) c \<open>uo = Some u\<close> None r m closing [of u'] s1
        by (cases r) (auto simp: begin_upstream_def ledger_same [of "s1\<lparr>s_upstream := x\<rparr>" s1 for x])
    qed
  qed
qed

text \<open>The recipients of an own transaction.\<close>

lemma rcpt_loop_transacts:
  assumes "rcpt_loop env rcpts accepted rejection u = (r, u')" and "transacts u from done_rcpts"
    and "\<forall>a \<in> set rcpts. valid_envelope_address a False"
  shows "\<exists>new. transacts u' from new \<and>
     (\<forall>n. r = Inr (n, None) \<longrightarrow> rejection = None \<and> new = done_rcpts @ rcpts)"
  using assms
proof (induction rcpts arbitrary: accepted rejection u done_rcpts)
  case Nil
  then show ?case by auto
next
  case (Cons a rcpts)
  obtain q v where q: "up_command env (rcpt_command a) 0 u = (q, v)" by (cases "up_command env (rcpt_command a) 0 u")
  note t = rcpt_command_transacts [OF q Cons.prems(2)]
  show ?case
  proof (cases q)
    case (Inl e)
    with Cons.prems q t show ?thesis by auto
  next
    case (Inr ct)
    obtain code reply where ct: "ct = (code, reply)" by (cases ct)
    show ?thesis
    proof (cases "rcpt_accepted code")
      case True
      then have "rcpt_loop env rcpts (Suc accepted) rejection v = (r, u')"
        using Cons.prems(1) q Inr ct by simp
      moreover have "transacts v from (done_rcpts @ [a])" using t Inr ct True Cons.prems(3) by simp
      ultimately show ?thesis using Cons.IH [of "Suc accepted" rejection v "done_rcpts @ [a]"] Cons.prems(3) by simp
    next
      case False
      then have "rcpt_loop env rcpts accepted (worse_rejection rejection code reply) v = (r, u')"
        using Cons.prems(1) q Inr ct by simp
      moreover have "transacts v from done_rcpts" using t Inr ct False Cons.prems(3) by simp
      moreover have "worse_rejection rejection code reply \<noteq> None"
        by (auto simp: worse_rejection_def split: option.split)
      ultimately show ?thesis
        using Cons.IH [of accepted "worse_rejection rejection code reply" v done_rcpts] Cons.prems(3) by auto
    qed
  qed
qed

definition owed :: "go_error option \<Rightarrow> nat" where
  "owed err = (if err = None then 1 else 0)"

text \<open>What a successful forwarding leaves behind.\<close>

definition delivered_last :: "session \<Rightarrow> session \<Rightarrow> bool" where
  "delivered_last s s' \<longleftrightarrow> (\<exists>u us. s_closed s' = s_closed s @ us @ [u] \<and>
     committed (u_events u) \<and> delivered u (s_from s) (s_recipients s) (s_data s))"

lemma transmit_session_books:
  assumes "transmit_session w s = (err, s')" and "ledger 0 w s" and "open_ok s"
    and "wire_clean (s_data s)" and "s_recipients s \<noteq> []"
  shows "ledger (owed err) w s' \<and> s_upstream s' = None \<and> (err = None \<longrightarrow> delivered_last s s')"
proof (cases "s_upstream s")
  case None
  with assms show ?thesis by (auto simp: transmit_session_def owed_def)
next
  case (Some u)
  then have t: "transacts u (s_from s) (s_recipients s)" using assms(3) by (simp add: open_ok_def)
  obtain r u' where r: "transmit (w_net w) (s_data s) u = (r, u')" by (cases "transmit (w_net w) (s_data s) u")
  note m = transmit_result [OF r t assms(4)]
  have s': "err = r" "s' = s\<lparr>s_upstream := None, s_closed := s_closed s @ [u']\<rparr>"
    using assms(1) Some r by (auto simp: transmit_session_def close_upstream_def)
  have c: "committed (u_events u') \<longleftrightarrow> r = None" using m(3) committed_data by (auto split: if_splits)
  have d: "delivered u' (s_from s) (s_recipients s) (s_data s)" if "r = None"
    using m t assms(4,5) that by (auto simp: delivered_def)
  then have "closed_ok u'" using m(2) c by (auto simp: closed_ok_def)
  then have "ledger (0 + (if committed (u_events u') then 1 else 0)) w s'"
    using s' assms(2) by (intro ledger_closed [of s' s u']) simp_all
  moreover have "delivered_last s s'" if "r = None"
    unfolding delivered_last_def using that s' c d by (intro exI [of _ u'] exI [of _ "[]"]) simp
  ultimately show ?thesis using s' c by (simp add: owed_def)
qed

section \<open>Forwarding and delivery\<close>

lemma validate_wire_clean: "validate_wire_data d = None \<Longrightarrow> wire_clean d"
  by (simp add: validate_wire_data_None)

lemma forward_new_books:
  assumes "forward_new w s1 u = (err, s')" and "ledger 0 w s1" and "transacts u (s_from s1) []"
    and "wire_clean (s_data s1)" and "s_recipients s1 \<noteq> []"
    and "\<forall>a \<in> set (s_recipients s1). valid_envelope_address a False"
  shows "ledger (owed err) w s' \<and> s_upstream s' = None \<and> (err = None \<longrightarrow> delivered_last s1 s')"
proof -
  obtain r u' where r: "rcpt_loop (w_net w) (s_recipients s1) 0 None u = (r, u')"
    by (cases "rcpt_loop (w_net w) (s_recipients s1) 0 None u")
  obtain new where new: "transacts u' (s_from s1) new"
    "\<And>n. r = Inr (n, None) \<Longrightarrow> new = s_recipients s1"
    using rcpt_loop_transacts [OF r assms(3,6)] by auto
  define t where "t = s1\<lparr>s_upstream := Some u'\<rparr>"
  have t: "ledger 0 w t" using assms(2) ledger_same [of t s1 0 w] by (simp add: t_def)
  have closing: "ledger 0 w (close_upstream t)"
    using ledger_closed [of "close_upstream t" t u' 0 w] t closed_ok_transacts [OF new(1)]
      transacts_not_committed [OF new(1)] by (simp add: close_upstream_def t_def)
  show ?thesis
  proof (cases "\<exists>n. r = Inr (n, None)")
    case True
    then have x: "transmit_session w t = (err, s')" using assms(1) r by (auto simp: forward_new_def t_def)
    have "open_ok t" using new True by (auto simp: open_ok_def t_def)
    then show ?thesis
      using transmit_session_books [OF x t] assms(4,5) by (simp add: t_def delivered_last_def)
  next
    case False
    then have "s' = close_upstream t \<and> err \<noteq> None"
      using assms(1) r by (auto simp: forward_new_def t_def split: sum.splits option.splits)
    with closing show ?thesis by (auto simp: owed_def)
  qed
qed

lemma forward_to_upstream_books:
  assumes "forward_to_upstream w px s = (err, s')" and "ledger 0 w s" and "open_ok s"
  shows "ledger (owed err) w s' \<and> (s_upstream s' = None \<or> s_upstream s' = s_upstream s) \<and>
     (err = None \<longrightarrow> delivered_last s s')"
  using assms(1)
proof (cases rule: forward_to_upstream_cases)
  case (invalid e)
  with assms show ?thesis by (simp add: owed_def)
next
  case open_transaction
  then have "s_recipients s \<noteq> []" by (simp add: validate_envelope_None)
  with open_transaction show ?thesis
    using transmit_session_books [OF open_transaction(4) assms(2,3)] validate_wire_clean by simp
next
  case (begin_failed e)
  then have "valid_envelope_address (s_from s) True" by (simp add: validate_envelope_None)
  with begin_upstream_books [OF begin_failed(4) assms(2) begin_failed(3)]
    begin_upstream_frame(2) [OF begin_failed(4)] begin_failed
  show ?thesis by (simp add: owed_def)
next
  case (new_transaction s1 u)
  note env = new_transaction(2) [unfolded validate_envelope_None]
  have k: "kept s s1" using begin_upstream_frame(1) [OF new_transaction(4)] .
  have b: "ledger 0 w s1" "transacts u (s_from s) []"
    using begin_upstream_books [OF new_transaction(4) assms(2) new_transaction(3)] env new_transaction(5) by auto
  have f: "s_from s1 = s_from s" "s_data s1 = s_data s" "s_recipients s1 = s_recipients s"
    using k by (simp_all add: kept_def same_message_def)
  have c: "s_closed s1 = s_closed s"
    using new_transaction(4,5)
    by (auto simp: begin_upstream_def split: prod.splits option.splits dest!: session_connect_frame)
  have "ledger (owed err) w s' \<and> s_upstream s' = None \<and> (err = None \<longrightarrow> delivered_last s1 s')"
    using forward_new_books [OF new_transaction(6) b(1)] b(2) f env new_transaction(1) validate_wire_clean
    by auto
  moreover have "delivered_last s1 s' = delivered_last s s'" using f c by (simp add: delivered_last_def)
  ultimately show ?thesis by simp
qed

lemma deliver_books:
  assumes "deliver w px s = (err, s')" and "ledger 0 w s" and "open_ok s"
  shows "ledger (owed err) w s' \<and> (s_upstream s' = None \<or> s_upstream s' = s_upstream s \<and> s_recipients s' = s_recipients s)"
proof (cases "px_adapter px")
  case (Some supported)
  define s1 where "s1 = close_upstream s"
  obtain e req where a: "adapter_deliver (w_host w) supported (s_from s1) (s_recipients s1) (s_data s1)
       (s_actions s1) (s_client_ip s1) (s_helo s1) = (e, req)"
    by (cases "adapter_deliver (w_host w) supported (s_from s1) (s_recipients s1) (s_data s1)
       (s_actions s1) (s_client_ip s1) (s_helo s1)")
  have s': "err = e" "s' = s1\<lparr>s_requests := s_requests s1 @ (case req of None \<Rightarrow> [] | Some r \<Rightarrow> [r])\<rparr>"
    using assms(1) Some a by (auto simp: deliver_def Let_def s1_def)
  have "ledger 0 w s1" using ledger_close_upstream assms(2,3) by (simp add: s1_def)
  then have "ledger (owed err) w s'"
    using s' adapter_deliver_acks [OF a]
    by (auto simp: ledger_def commits_def owed_def split: option.splits)
  with s' show ?thesis by (simp add: s1_def)
next
  case None
  show ?thesis
  proof (cases "replacements (s_actions s) \<noteq> [] \<or> copies (s_actions s) \<noteq> []")
    case False
    then have f: "forward_to_upstream w px s = (err, s')"
      using assms(1) None by (simp add: deliver_def)
    with forward_to_upstream_books [OF f assms(2,3)] forward_to_upstream_frame [OF f] show ?thesis
      by (auto simp: kept_def)
  next
    case True
    define rcpts where "rcpts = plan_recipients (s_actions s) (s_recipients s)"
    show ?thesis
    proof (cases "validate_envelope (s_from s) rcpts")
      case (Some e)
      then have "err = Some e" "s' = s" using assms(1) None True by (auto simp: deliver_def rcpts_def)
      with assms(2) show ?thesis by (simp add: owed_def)
    next
      case valid: None
      define t where "t = close_upstream (s\<lparr>s_recipients := dedup [] rcpts\<rparr>)"
      have f: "forward_to_upstream w px t = (err, s')"
        using assms(1) None True valid by (simp add: deliver_def rcpts_def t_def)
      have "t = (close_upstream s)\<lparr>s_recipients := dedup [] rcpts\<rparr>"
        by (simp add: t_def close_upstream_def split: option.split)
      then have "ledger 0 w t"
        using ledger_close_upstream [OF assms(2,3)] ledger_same [of t "close_upstream s" 0 w] by simp
      with forward_to_upstream_books [OF f] show ?thesis by (auto simp: open_ok_def t_def)
    qed
  qed
qed

section \<open>Replies to the client\<close>

definition accept_text :: string where
  "accept_text = ''250 OK: Message accepted''"

definition accept_line :: string where
  "accept_line = accept_text @ CRLF"

definition accepts_sent :: "session \<Rightarrow> nat" where
  "accepts_sent s = length (filter (\<lambda>l. l = accept_line) (s_out s))"

definition replies_ok :: "session \<Rightarrow> bool" where
  "replies_ok s \<longleftrightarrow> (\<forall>l \<in> set (s_out s). \<exists>m. l = m @ CRLF \<and> line_ok m) \<and>
     int (accepts_sent s) \<le> s_accepted s \<and> (s_open s \<longrightarrow> int (accepts_sent s) = s_accepted s)"

definition plain_reply :: "string \<Rightarrow> bool" where
  "plain_reply m \<longleftrightarrow> line_ok m \<and> m \<noteq> accept_text"

lemma replies_ok_write: "replies_ok s \<Longrightarrow> plain_reply m \<Longrightarrow> replies_ok (write_line m s)"
  by (auto simp: replies_ok_def write_line_def plain_reply_def accepts_sent_def accept_line_def)

lemma replies_ok_same:
  "s_out s' = s_out s \<Longrightarrow> s_accepted s' = s_accepted s \<Longrightarrow> (s_open s' \<Longrightarrow> s_open s) \<Longrightarrow>
     replies_ok s \<Longrightarrow> replies_ok s'"
  by (auto simp: replies_ok_def accepts_sent_def)

lemma replies_ok_accept:
  "replies_ok s \<Longrightarrow> s_out s' = s_out s \<Longrightarrow> s_open s' = s_open s \<Longrightarrow> s_accepted s' = s_accepted s + 1 \<Longrightarrow>
     replies_ok (write_line accept_text s')"
  by (auto simp: replies_ok_def write_line_def accepts_sent_def accept_line_def accept_text_def)

lemma plain_reply_code:
  assumes "400 \<le> c" and "c \<le> 599" and "line_ok t"
  shows "plain_reply (show_int c @ '' '' @ t)"
proof -
  have a: "accept_text = show_int 250 @ SP # ''OK: Message accepted''"
    by code_simp
  have "c \<noteq> 250" "int64_ok c" "int64_ok 250" using assms by (simp_all add: int64_ok_def)
  then have "show_int c @ SP # t \<noteq> show_int 250 @ SP # ''OK: Message accepted''"
    using show_int_prefix by blast
  then show ?thesis unfolding a plain_reply_def using assms(3) by simp
qed

lemma plain_reply_client:
  "400 \<le> c \<Longrightarrow> c \<le> 599 \<Longrightarrow> plain_reply (client_reply c t)"
  unfolding client_reply_def by (rule plain_reply_code) simp_all

section \<open>Every handler keeps the books\<close>

definition books :: "world \<Rightarrow> session \<Rightarrow> bool" where
  "books w s \<longleftrightarrow> ledger 0 w s \<and> open_ok s \<and> replies_ok s"

lemma open_ok_write [simp]: "open_ok (write_line m s) = open_ok s"
  by (simp add: open_ok_def)

lemma books_write: "books w s \<Longrightarrow> plain_reply m \<Longrightarrow> books w (write_line m s)"
  by (simp add: books_def replies_ok_write)

lemma books_same:
  assumes "books w s" and "s_closed s' = s_closed s" "s_requests s' = s_requests s"
    "s_accepted s' = s_accepted s" "s_upstream s' = s_upstream s" "s_out s' = s_out s"
    "s_open s' \<Longrightarrow> s_open s"
    and "s_upstream s \<noteq> None \<Longrightarrow> s_from s' = s_from s \<and> s_recipients s' = s_recipients s"
  shows "books w s'"
  using assms ledger_same [of s' s 0 w] replies_ok_same [of s' s] by (auto simp: books_def open_ok_def)

lemma books_close [simp]: "books w s \<Longrightarrow> books w (close_conn s)"
  by (rule books_same) simp_all

lemma books_reset: "books w s \<Longrightarrow> books w (reset_transaction s)"
  using ledger_reset [of 0 w s] replies_ok_same [of "reset_transaction s" s]
  by (simp add: books_def open_ok_def)

lemma books_reader [simp]: "books w s \<Longrightarrow> books w (s\<lparr>s_reader := rd\<rparr>)"
  by (rule books_same) simp_all

lemma plain_reply_const [simp]:
  "plain_reply ''451 Upstream temporarily unavailable''" "plain_reply ''450 Temporary failure''"
  by (simp_all add: plain_reply_def accept_text_def)

lemma books_failure: "books w s \<Longrightarrow> books w (upstream_failure e s)"
  by (simp add: upstream_failure_def Let_def books_write plain_reply_client split: go_error.split)

text \<open>Constant replies.\<close>

definition const_replies :: "string list" where
  "const_replies = [''250 OK'', ''221 Bye'', ''500 Command not recognized'', ''501 Syntax: HELO hostname'',
     ''501 Syntax: EHLO hostname'', ''250 MailScript SMTP Proxy'', ''250-MailScript SMTP Proxy'',
     ''250-PIPELINING'', ''250-8BITMIME'', ''250-STARTTLS'', ''250-AUTH PLAIN'', ''250 SIZE 52428800'',
     ''503 Send HELO or EHLO first'', ''530 Authentication required'', ''503 Transaction already started'',
     ''501 Invalid MAIL FROM'', ''503 Send MAIL first'', ''501 Invalid RCPT TO'', ''452 Too many recipients'',
     ''503 Error: need MAIL command'', ''354 End data with <CR><LF>.<CR><LF>'',
     ''550 DATA requires CRLF line endings'', ''552 Message too large'', ''454 TLS not available'',
     ''220 Ready to start TLS'', ''220 MailScript SMTP Proxy ready'', ''502 AUTH unavailable'',
     ''538 Encryption required'', ''503 AUTH not allowed in this state'', ''504 Use AUTH PLAIN'', ''334 '',
     ''501 Invalid AUTH PLAIN credentials'', ''535 Authentication failed'',
     ''454 Authentication temporarily unavailable'', ''235 Authentication successful'']"

lemma const_plain: "\<forall>m \<in> set const_replies. plain_reply m"
  by (simp add: const_replies_def plain_reply_def accept_text_def)

lemmas const_plain_each [simp] = const_plain [unfolded const_replies_def list.set ball_simps]

lemma books_helo: "books w s \<Longrightarrow> books w ((reset_transaction s)\<lparr>s_helo := h\<rparr>)"
  by (rule books_same [OF books_reset]) simp_all

lemma handle_helo_books: "books w s \<Longrightarrow> books w (handle_helo parts s)"
  by (simp add: handle_helo_def books_write books_helo)

lemma handle_ehlo_books:
  assumes "books w s"
  shows "books w (handle_ehlo px parts s)"
proof -
  have c: "books w t \<Longrightarrow> plain_reply m \<Longrightarrow> books w (if b then write_line m t else t)" for b m t
    by (simp add: books_write)
  show ?thesis
    unfolding handle_ehlo_def Let_def
    by (cases "length parts < 2"; simp only: if_True if_False; intro books_write c books_helo assms; simp)
qed

lemma handle_rset_books: "books w s \<Longrightarrow> books w (handle_rset s)"
  by (simp add: handle_rset_def books_write books_reset)

lemma handle_mail_books:
  assumes "books w s"
  shows "books w (handle_mail w px line s)"
proof (cases "s_helo s = [] \<or> px_submission px \<and> \<not> s_authenticated s \<or> s_mail_set s")
  case True
  with assms show ?thesis by (auto simp: handle_mail_def books_write)
next
  case go: False
  show ?thesis
  proof (cases "parse_smtp_path line ''MAIL FROM:'' True")
    case (Inl e)
    with go assms show ?thesis by (simp add: handle_mail_def books_write)
  next
    case (Inr address)
    define s1 where "s1 = (reset_transaction s)\<lparr>s_from := address\<rparr>"
    define r where "r = (if px_server px \<noteq> [] then begin_upstream w px s1 else (None, s1))"
    obtain err s2 where s2: "r = (err, s2)" by (cases r)
    have k: "kept s1 s2" using s2 begin_upstream_frame by (auto simp: r_def split: if_splits)
    have b1: "books w s1" unfolding s1_def by (rule books_same [OF books_reset [OF assms]]) simp_all
    have up: "s_upstream s1 = None" "valid_envelope_address (s_from s1) True" "s_recipients s1 = []"
      using parse_smtp_path_valid [OF Inr] by (simp_all add: s1_def)
    have "ledger 0 w s2 \<and> (\<forall>u. s_upstream s2 = Some u \<longrightarrow> transacts u (s_from s1) [])"
      using s2 begin_upstream_books [of w px s1 err s2 0] b1 up by (auto simp: r_def books_def split: if_splits)
    then have b2: "books w s2"
      using k up b1 replies_ok_same [of s2 s1]
      by (simp add: books_def open_ok_def kept_def same_message_def same_client_def)
    have eq: "handle_mail w px line s = (case err of
        Some e \<Rightarrow> upstream_failure e (reset_transaction s2)
      | None \<Rightarrow> write_line ''250 OK'' (s2\<lparr>s_mail_set := True\<rparr>))"
      using go Inr s2 by (auto simp: handle_mail_def Let_def s1_def [symmetric] r_def [symmetric])
    have "books w (s2\<lparr>s_mail_set := True\<rparr>)" by (rule books_same [OF b2]) simp_all
    with eq b2 show ?thesis by (cases err) (simp_all add: books_write books_failure books_reset)
  qed
qed

lemma handle_rcpt_books:
  assumes "books w s"
  shows "books w (handle_rcpt w line s)"
proof (cases "s_mail_set s")
  case False
  with assms show ?thesis by (simp add: handle_rcpt_def books_write)
next
  case True
  show ?thesis
  proof (cases "parse_smtp_path line ''RCPT TO:'' False")
    case (Inl e)
    with True assms show ?thesis by (simp add: handle_rcpt_def books_write)
  next
    case (Inr address)
    show ?thesis
    proof (cases "s_upstream s")
      case None
      have "books w (s\<lparr>s_recipients := s_recipients s @ [address]\<rparr>)"
        by (rule books_same [OF assms]) (simp_all add: None)
      with True Inr None assms show ?thesis by (simp add: handle_rcpt_def books_write)
    next
      case (Some u)
      obtain r u' where r: "up_command (w_net w) (rcpt_command address) 0 u = (r, u')"
        by (cases "up_command (w_net w) (rcpt_command address) 0 u")
      have t: "transacts u (s_from s) (s_recipients s)" using assms Some by (simp add: books_def open_ok_def)
      note t' = rcpt_command_transacts [OF r t parse_smtp_path_valid [OF Inr]]
      have b: "books w (s\<lparr>s_upstream := Some u', s_recipients := rc\<rparr>)"
        if "transacts u' (s_from s) rc" for rc
        using that assms ledger_same [of "s\<lparr>s_upstream := Some u', s_recipients := rc\<rparr>" s 0 w]
          replies_ok_same [of "s\<lparr>s_upstream := Some u', s_recipients := rc\<rparr>" s]
        by (auto simp: books_def open_ok_def)
      have b0: "books w (s\<lparr>s_upstream := Some u'\<rparr>)" if "transacts u' (s_from s) (s_recipients s)"
        using b [OF that] by (rule books_same) simp_all
      have h: "handle_rcpt w line s = (if length (s_recipients s) \<ge> 100 then write_line ''452 Too many recipients'' s
        else case r of
          Inl e \<Rightarrow> upstream_failure e (reset_transaction (s\<lparr>s_upstream := Some u'\<rparr>))
        | Inr (code, text) \<Rightarrow>
            if \<not> rcpt_accepted code
            then upstream_failure (UpstreamError code ''RCPT TO'' text) (s\<lparr>s_upstream := Some u'\<rparr>)
            else write_line ''250 OK'' (s\<lparr>s_upstream := Some u', s_recipients := s_recipients s @ [address]\<rparr>))"
        using True Inr Some r by (simp add: handle_rcpt_def Let_def split: sum.split)
      show ?thesis
        using h t' assms b0 b
        by (cases r) (auto simp: books_write books_failure books_reset split: if_splits prod.splits)
    qed
  qed
qed

lemma final_disposition_code:
  "dd_code (final_disposition px acts) = 250 \<or>
     (400 \<le> dd_code (final_disposition px acts) \<and> dd_code (final_disposition px acts) \<le> 599)"
proof -
  define fq where "fq = (px_forward_quarantine px \<or> px_adapter px \<noteq> None)"
  define d0 where "d0 = policy_disposition acts fq"
  have "dd_code d0 = 250 \<or> (400 \<le> dd_code d0 \<and> dd_code d0 \<le> 599)"
  proof (cases "List.map_filter (decides fq) acts")
    case Nil
    then show ?thesis by (simp add: d0_def policy_disposition_def policy_loop_decides)
  next
    case (Cons d ds)
    obtain act where "decides fq act = Some d" using map_filter_head [OF Cons] by blast
    then have "400 \<le> dd_code d \<and> dd_code d \<le> 599" by (rule decides_code)
    with Cons show ?thesis by (simp add: d0_def policy_disposition_def policy_loop_decides)
  qed
  then show ?thesis
    unfolding final_disposition_def Let_def fq_def [symmetric] d0_def [symmetric]
    by (cases "dd_code d0 = 250 \<and> unsupported_delivery_action acts \<noteq> [] \<and> px_adapter px = None";
        simp only: if_True if_False delivery_disposition.select_convs; simp)
qed

lemma process_reply_code:
  assumes "process_with_mailscript w px s = ((a, q, m), s1)" and "\<not> a" and "s_reply_code s = 0"
  shows "s_reply_code s1 = 0 \<or> (400 \<le> s_reply_code s1 \<and> s_reply_code s1 \<le> 599)"
proof (cases "w_policy w \<lparr>pi_message = strip_header (s_data s) quarantine_header, pi_from = s_from s,
      pi_to = s_recipients s, pi_helo = s_helo s, pi_client_ip = s_client_ip s\<rparr>")
  case (PolicyDone out)
  with assms final_disposition_code [of px "po_actions out"] show ?thesis
    by (auto simp: process_with_mailscript_def Let_def)
qed (use assms in \<open>auto simp: process_with_mailscript_def Let_def\<close>)

lemma finish_data_books:
  assumes "books w s" and "s_reply_code s = 0"
  shows "books w (finish_data w px s)"
proof -
  obtain a q m s1 where p: "process_with_mailscript w px s = ((a, q, m), s1)"
    by (cases "process_with_mailscript w px s") auto
  define s2 where "s2 = count_processed a s1"
  have b2: "books w (s2\<lparr>s_data := d\<rparr>)" for d
    using process_frame [OF p]
    by (intro books_same [OF assms(1)]) (simp_all add: s2_def count_processed_def same_client_def)
  then have b2': "books w s2" using books_same [OF b2 [of "[]"], of s2] by simp
  show ?thesis
  proof (cases a)
    case True
    define s3 where "s3 = (if q then s2\<lparr>s_data := prepend_header (s_data s2) quarantine_header ''true''\<rparr> else s2)"
    have b3: "books w s3" using b2 b2' by (simp add: s3_def)
    obtain err s4 where d: "deliver w px s3 = (err, s4)" by (cases "deliver w px s3")
    have l: "ledger (owed err) w s4"
      "s_upstream s4 = None \<or> s_upstream s4 = s_upstream s3 \<and> s_recipients s4 = s_recipients s3"
      using deliver_books [OF d] b3 by (simp_all add: books_def)
    have f: "s_from s4 = s_from s3" "s_out s4 = s_out s3" "s_open s4 = s_open s3" "s_accepted s4 = s_accepted s3"
      using deliver_frame [OF d] by (simp_all add: same_message_def same_client_def)
    have o: "open_ok s4" using l(2) f b3 by (auto simp: open_ok_def books_def)
    have r4: "replies_ok s4" using b3 f replies_ok_same [of s4 s3] by (simp add: books_def)
    have eq: "finish_data w px s = (case err of
        Some e \<Rightarrow> write_line (delivery_failure_reply e) (s4\<lparr>s_rejected := s_rejected s4 + 1\<rparr>)
      | None \<Rightarrow> write_line accept_text (s4\<lparr>s_accepted := s_accepted s4 + 1\<rparr>))"
      unfolding finish_data_def p prod.case Let_def s2_def [symmetric] if_P [OF True] s3_def [symmetric] d
        accept_text_def by (rule refl)
    show ?thesis
    proof (cases err)
      case None
      define t where "t = s4\<lparr>s_accepted := s_accepted s4 + 1\<rparr>"
      have "ledger 0 w t" using l(1) None by (simp add: t_def ledger_def commits_def owed_def)
      moreover have "replies_ok (write_line accept_text t)"
        by (rule replies_ok_accept [OF r4]) (simp_all add: t_def)
      moreover have "open_ok t" using o by (simp add: t_def open_ok_def)
      ultimately show ?thesis using eq None by (simp add: books_def t_def)
    next
      case (Some e)
      define t where "t = s4\<lparr>s_rejected := s_rejected s4 + 1\<rparr>"
      have "books w s4" using l(1) Some o r4 by (simp add: books_def owed_def)
      then have "books w t" by (rule books_same) (simp_all add: t_def)
      moreover have "plain_reply (delivery_failure_reply e)"
        by (simp add: delivery_failure_reply_def plain_reply_client split: go_error.split)
      ultimately show ?thesis using eq Some by (simp add: books_write t_def)
    qed
  next
    case False
    have c: "s_reply_code s2 = 0 \<or> (400 \<le> s_reply_code s2 \<and> s_reply_code s2 \<le> 599)"
      using process_reply_code [OF p False assms(2)] by (simp add: s2_def count_processed_def)
    define c where "c = (if s_reply_code s2 = 0 then 550 else s_reply_code s2)"
    have "400 \<le> c" "c \<le> 599" using c by (auto simp: c_def)
    then have "plain_reply (show_int c @ '' '' @ smtp_reply_text m)" by (rule plain_reply_code) simp
    moreover have "finish_data w px s = write_line (show_int c @ '' '' @ smtp_reply_text m) s2"
      unfolding finish_data_def p prod.case Let_def s2_def [symmetric] if_not_P [OF False] c_def by (rule refl)
    ultimately show ?thesis using b2' by (simp add: books_write)
  qed
qed

lemma handle_data_books:
  assumes "books w s" and "s_reply_code s = 0"
  shows "books w (handle_data w px s)"
proof (cases "\<not> s_mail_set s \<or> s_recipients s = []")
  case True
  with assms show ?thesis by (auto simp: handle_data_def books_write)
next
  case False
  define s1 where "s1 = write_line ''354 End data with <CR><LF>.<CR><LF>'' s"
  obtain r rd where r: "data_loop [] (s_reader s1) = (r, rd)" by (cases "data_loop [] (s_reader s1)")
  define s2 where "s2 = s1\<lparr>s_reader := rd\<rparr>"
  have b2: "books w s2" "s_reply_code s2 = 0" using assms by (simp_all add: s2_def s1_def books_write)
  have bd: "books w (finish_data w px (s2\<lparr>s_data := d\<rparr>))" for d
    using b2 by (intro finish_data_books books_same [OF b2(1)]) simp_all
  show ?thesis
    unfolding handle_data_def Let_def if_not_P [OF False] s1_def [symmetric] r prod.case s2_def [symmetric]
    using b2 bd by (intro books_reset) (simp add: books_write split: data_result.split)
qed

lemma handle_starttls_books:
  assumes "books w s"
  shows "books w (handle_starttls w px s)"
proof (cases "\<not> px_tls px \<or> s_tls_active s")
  case True
  with assms show ?thesis by (auto simp: handle_starttls_def books_write)
next
  case False
  define s1 where "s1 = write_line ''220 Ready to start TLS'' s"
  have b1: "books w s1" using assms by (simp add: s1_def books_write)
  have b: "books w ((reset_transaction s1)\<lparr>s_helo := [], s_authenticated := False, s_auth_user := [],
               s_auth_password := [], s_tls_active := True, s_reader := new_reader chunks\<rparr>)" for chunks
    by (rule books_same [OF books_reset [OF b1]]) simp_all
  show ?thesis
    unfolding handle_starttls_def Let_def if_not_P [OF False] s1_def [symmetric]
    using b1 b by (simp split: option.split)
qed

lemma check_credentials_books:
  assumes "books w s"
  shows "books w (check_credentials w px x s)"
proof (cases "plain_credentials x")
  case None
  with assms show ?thesis by (simp add: check_credentials_def books_write)
next
  case (Some c)
  then obtain u p where up: "plain_credentials x = Some (u, p)" by (cases c) auto
  define s1 where "s1 = s\<lparr>s_auth_user := u, s_auth_password := p, s_authenticated := True\<rparr>"
  obtain err uo s2 where s2: "session_connect w px s1 = ((err, uo), s2)"
    by (cases "session_connect w px s1") auto
  have b2: "books w s2"
    using session_connect_frame [OF s2] by (intro books_same [OF assms]) (simp_all add: s1_def)
  have b3: "books w (log_closed uo s2)"
  proof (cases uo)
    case None
    with b2 show ?thesis by (simp add: log_closed_def)
  next
    case (Some v)
    note su = session_connect_setup [OF s2 [unfolded Some]]
    have "\<not> committed (u_events v)" using su committed_dot setup_no_dot by blast
    then have "ledger 0 w (log_closed uo s2)"
      using Some ledger_closed [of "log_closed uo s2" s2 v 0 w] b2 closed_ok_setup [OF su]
      by (simp add: log_closed_def books_def)
    then show ?thesis
      using b2 replies_ok_same [of "log_closed uo s2" s2] by (simp add: books_def open_ok_def)
  qed
  moreover have "books w (clear_auth (log_closed uo s2))"
    by (rule books_same [OF b3]) (simp_all add: clear_auth_def)
  ultimately show ?thesis
    unfolding check_credentials_def up option.case prod.case Let_def s1_def [symmetric] s2
    by (auto simp: books_write split: option.split go_error.split)
qed

lemma handle_auth_books:
  assumes "books w s"
  shows "books w (handle_auth w px parts s)"
proof -
  have b: "books w ((write_line ''334 '' s)\<lparr>s_reader := rd\<rparr>)" for rd
    using assms by (simp add: books_write)
  then have "books w (let s1 = write_line ''334 '' s in
        (case read_wire_line 4096 (s_reader s1) of
           (Inl _, rd) \<Rightarrow> close_conn (s1\<lparr>s_reader := rd\<rparr>)
         | (Inr line, rd) \<Rightarrow> check_credentials w px (trim_space line) (s1\<lparr>s_reader := rd\<rparr>)))"
    by (simp add: Let_def check_credentials_books split: prod.split sum.split)
  then show ?thesis
    unfolding handle_auth_def using assms by (simp add: books_write check_credentials_books)
qed

lemmas handlers_books = handle_auth_books handle_helo_books handle_ehlo_books handle_mail_books
  handle_rcpt_books handle_data_books handle_rset_books handle_starttls_books books_write

lemma session_ok_reply_code: "session_ok px s \<Longrightarrow> s_reply_code s = 0"
  by (auto simp: session_ok_def no_transaction_def open_transaction_def)

lemma dispatch_books: "session_ok px s \<Longrightarrow> books w s \<Longrightarrow> books w (snd (dispatch w px line s))"
  unfolding dispatch_def Let_def by (simp add: handlers_books session_ok_reply_code)

lemma serve_line_books: "session_ok px s \<Longrightarrow> books w s \<Longrightarrow> books w (snd (serve_line w px s))"
  using dispatch_books [of px "s\<lparr>s_reader := rd\<rparr>" w l for rd l]
  by (auto simp: serve_line_def Let_def split: prod.splits sum.splits)

interpretation smtp_books:
  bounded_loop "serve_line w px" "\<lambda>s. session_ok px s \<and> books w s" "serve_budget w" for w px
  by unfold_locales (auto simp: serve_line_ok serve_line_shrinks serve_line_books)

lemma books_start: "books w (start_session ip net)"
  unfolding start_session_def
  by (intro books_write)
     (simp_all add: new_session_def books_def ledger_def commits_def open_ok_def replies_ok_def accepts_sent_def)

end
