(* ===== verification/SessionDelivery.thy ===== *)
theory SessionDelivery
  imports SessionLog "HOL-Library.Sublist"
begin

text \<open>
  Which message reaches the backend: every backend connection that a session commits carries
  the envelope and the message of one DATA command of that session.

  \<open>session_reaches\<close> is the relation of the command loop's rounds, with the command lines that
  were read. \<open>closes P\<close> says that the connections an operation closes satisfy \<open>P\<close> if the
  backend committed them; with the books of \<^theory_text>\<open>SessionLog\<close> it suffices to look at the operations
  that count a message as accepted. \<open>data_delivered\<close> is the delivery of one DATA command.
\<close>

section \<open>Growing logs\<close>

definition logs_more :: "session \<Rightarrow> session \<Rightarrow> bool" where
  "logs_more s s' \<longleftrightarrow> prefix (s_closed s) (s_closed s') \<and> prefix (s_requests s) (s_requests s')"

lemma logs_more_same: "s_closed s' = s_closed s \<Longrightarrow> s_requests s' = s_requests s \<Longrightarrow> logs_more s s'"
  by (simp add: logs_more_def)

lemma logs_more_refl [simp]: "logs_more s s"
  by (simp add: logs_more_def)

lemma logs_more_trans: "logs_more s t \<Longrightarrow> logs_more t u \<Longrightarrow> logs_more s u"
  by (auto simp: logs_more_def intro: prefix_order.trans)

lemma logs_more_eq:
  "s_closed t' = s_closed t \<Longrightarrow> s_requests t' = s_requests t \<Longrightarrow> logs_more s t' = logs_more s t"
  by (simp add: logs_more_def)

lemma logs_more_frame [simp]:
  "logs_more s (write_line m t) = logs_more s t" "logs_more s (close_conn t) = logs_more s t"
  "logs_more s (t\<lparr>s_upstream := uo\<rparr>) = logs_more s t" "logs_more s (t\<lparr>s_conns := n\<rparr>) = logs_more s t"
  "logs_more s (t\<lparr>s_reader := rd\<rparr>) = logs_more s t" "logs_more s (t\<lparr>s_data := d\<rparr>) = logs_more s t"
  "logs_more s (t\<lparr>s_recipients := rc\<rparr>) = logs_more s t" "logs_more s (t\<lparr>s_from := a\<rparr>) = logs_more s t"
  "logs_more s (t\<lparr>s_helo := a\<rparr>) = logs_more s t" "logs_more s (t\<lparr>s_mail_set := b\<rparr>) = logs_more s t"
  "logs_more s (t\<lparr>s_accepted := i\<rparr>) = logs_more s t" "logs_more s (t\<lparr>s_rejected := i\<rparr>) = logs_more s t"
  "logs_more s (t\<lparr>s_authenticated := b\<rparr>) = logs_more s t" "logs_more s (t\<lparr>s_auth_user := a\<rparr>) = logs_more s t"
  "logs_more s (t\<lparr>s_auth_password := a\<rparr>) = logs_more s t" "logs_more s (t\<lparr>s_tls_active := b\<rparr>) = logs_more s t"
  "logs_more s (count_processed b t) = logs_more s t" "logs_more s (clear_auth t) = logs_more s t"
  by (simp_all add: logs_more_def count_processed_def clear_auth_def)

lemma logs_more_log_closed: "logs_more s t \<Longrightarrow> logs_more s (log_closed uo t)"
  by (auto simp: logs_more_def log_closed_def split: option.split)

lemma logs_more_close: "logs_more s t \<Longrightarrow> logs_more s (close_upstream t)"
  by (auto simp: logs_more_def close_upstream_def split: option.split)

lemma logs_more_reset: "logs_more s t \<Longrightarrow> logs_more s (reset_transaction t)"
  using logs_more_close [of s t] logs_more_eq [of "reset_transaction t" "close_upstream t" s] by simp

lemma logs_more_failure [simp]: "logs_more s (upstream_failure e t) = logs_more s t"
  by (simp add: logs_more_def)

lemma logs_more_connect: "session_connect w px s = (r, s') \<Longrightarrow> logs_more s s'"
  by (auto dest!: session_connect_frame)

lemma logs_more_begin:
  assumes "begin_upstream w px s = (err, s')"
  shows "logs_more s s'"
proof -
  obtain e uo s1 where c: "session_connect w px s = ((e, uo), s1)" by (cases "session_connect w px s") auto
  have m: "logs_more s s1" by (rule logs_more_connect [OF c])
  then have "logs_more s (log_closed x s1)" "logs_more s (s1\<lparr>s_upstream := x\<rparr>)" for x
    by (simp_all add: logs_more_log_closed)
  with assms c m show ?thesis
    by (auto simp: begin_upstream_def split: option.splits prod.splits)
qed

lemma logs_more_transmit:
  assumes "transmit_session w s = (err, s')"
  shows "logs_more s s'"
proof -
  have "logs_more s (close_upstream (s\<lparr>s_upstream := x\<rparr>))" for x by (rule logs_more_close) simp
  with assms show ?thesis by (auto simp: transmit_session_def split: option.splits prod.splits)
qed

lemma logs_more_forward_new:
  assumes "forward_new w s u = (err, s')"
  shows "logs_more s s'"
proof -
  have c: "logs_more s (close_upstream (s\<lparr>s_upstream := x\<rparr>))" for x by (rule logs_more_close) simp
  have t: "logs_more s s'" if "transmit_session w (s\<lparr>s_upstream := x\<rparr>) = (err, s')" for x
    using logs_more_transmit [OF that] logs_more_trans [of s "s\<lparr>s_upstream := x\<rparr>" s'] by simp
  show ?thesis
    using assms c t by (auto simp: forward_new_def split: sum.splits option.splits prod.splits)
qed

lemma logs_more_forward: "forward_to_upstream w px s = (err, s') \<Longrightarrow> logs_more s s'"
  by (erule forward_to_upstream_cases)
     (auto dest: logs_more_transmit logs_more_begin logs_more_forward_new intro: logs_more_trans)

lemma logs_more_deliver:
  assumes "deliver w px s = (err, s')"
  shows "logs_more s s'"
proof -
  have c: "logs_more s (close_upstream (s\<lparr>s_recipients := x\<rparr>))" for x by (rule logs_more_close) simp
  have f: "logs_more s s'" if "forward_to_upstream w px (close_upstream (s\<lparr>s_recipients := x\<rparr>)) = (err, s')" for x
    by (rule logs_more_trans [OF c logs_more_forward [OF that]])
  have a: "logs_more s ((close_upstream s)\<lparr>s_requests := s_requests s @ q\<rparr>)" for q
    using logs_more_close [of s s] by (simp add: logs_more_def)
  show ?thesis
    using assms f a a [of "[]"] logs_more_forward [of w px s err s']
    by (auto simp: deliver_def Let_def split: option.splits if_splits prod.splits)
qed

lemma logs_more_finish: "logs_more s (finish_data w px s)"
proof -
  obtain a q m s1 where p: "process_with_mailscript w px s = ((a, q, m), s1)"
    by (cases "process_with_mailscript w px s") auto
  define t where "t = (if q then (count_processed a s1)\<lparr>s_data :=
      prepend_header (s_data (count_processed a s1)) quarantine_header ''true''\<rparr> else count_processed a s1)"
  have m: "logs_more s s1" using process_frame [OF p] by (simp add: logs_more_same)
  then have t: "logs_more s t" by (simp add: t_def)
  obtain err s4 where d: "deliver w px t = (err, s4)" by (cases "deliver w px t")
  have "logs_more s s4" by (rule logs_more_trans [OF t logs_more_deliver [OF d]])
  then show ?thesis
    using p d m by (simp add: finish_data_def Let_def t_def split: option.split)
qed

lemma logs_more_data: "logs_more s (handle_data w px s)"
proof -
  define s1 where "s1 = write_line ''354 End data with <CR><LF>.<CR><LF>'' s"
  have f: "logs_more s (finish_data w px (s1\<lparr>s_reader := rd, s_data := d\<rparr>))" for rd d
    by (rule logs_more_trans [OF _ logs_more_finish]) (simp add: s1_def)
  show ?thesis
    using f by (auto simp: handle_data_def Let_def s1_def [symmetric] intro!: logs_more_reset
        split: prod.split data_result.split) (simp_all add: s1_def)
qed

lemma logs_more_mail: "logs_more s (handle_mail w px line s)"
proof -
  have r: "logs_more s ((reset_transaction s)\<lparr>s_from := a\<rparr>)" for a by (simp add: logs_more_reset)
  have b: "logs_more s s'" if "begin_upstream w px ((reset_transaction s)\<lparr>s_from := a\<rparr>) = (e, s')" for a e s'
    by (rule logs_more_trans [OF r logs_more_begin [OF that]])
  show ?thesis
    using r b by (auto simp: handle_mail_def Let_def intro!: logs_more_reset split: sum.split prod.split option.split)
qed

lemma logs_more_rcpt: "logs_more s (handle_rcpt w line s)"
proof -
  have r: "logs_more s (reset_transaction (s\<lparr>s_upstream := x\<rparr>))" for x by (rule logs_more_reset) simp
  show ?thesis
    using r by (auto simp: handle_rcpt_def Let_def split: sum.split prod.split option.split)
qed

lemma logs_more_credentials: "logs_more s (check_credentials w px x s)"
proof -
  have c: "logs_more s (log_closed uo s2)"
    if "session_connect w px (s\<lparr>s_auth_user := u, s_auth_password := p, s_authenticated := True\<rparr>) = (r, s2)"
    for u p r s2 uo
    by (rule logs_more_log_closed, rule logs_more_trans [OF _ logs_more_connect [OF that]]) simp
  show ?thesis
    using c by (fastforce simp: check_credentials_def Let_def split: option.split prod.split)
qed

lemma logs_more_auth: "logs_more s (handle_auth w px parts s)"
proof -
  have "logs_more s (check_credentials w px x ((write_line ''334 '' s)\<lparr>s_reader := rd\<rparr>))" for x rd
    by (rule logs_more_trans [OF _ logs_more_credentials]) simp
  then show ?thesis
    by (simp add: handle_auth_def Let_def logs_more_credentials split: sum.split prod.split)
qed

lemma logs_more_if_write [simp]: "logs_more s (if c then write_line m t else t) = logs_more s t"
  by simp

lemma logs_more_helo: "logs_more s (handle_helo parts s)"
  by (simp add: handle_helo_def logs_more_reset)

lemma logs_more_ehlo: "logs_more s (handle_ehlo px parts s)"
proof (cases "length parts < 2")
  case False
  then show ?thesis
    unfolding handle_ehlo_def Let_def if_not_P [OF False] logs_more_if_write logs_more_frame
    by (simp add: logs_more_reset)
qed (simp add: handle_ehlo_def)

lemma logs_more_starttls: "logs_more s (handle_starttls w px s)"
  by (simp add: handle_starttls_def Let_def logs_more_reset split: option.split)

lemmas handlers_log = logs_more_auth logs_more_helo logs_more_ehlo logs_more_mail logs_more_rcpt
  logs_more_data logs_more_starttls

lemma logs_more_dispatch: "logs_more s (snd (dispatch w px line s))"
  unfolding dispatch_def Let_def by (simp add: handlers_log handle_rset_def logs_more_reset)

section \<open>The connections an operation closes\<close>

definition closes :: "(upstream \<Rightarrow> bool) \<Rightarrow> session \<Rightarrow> session \<Rightarrow> bool" where
  "closes P s s' \<longleftrightarrow> (\<exists>us. s_closed s' = s_closed s @ us \<and> (\<forall>u \<in> set us. committed (u_events u) \<longrightarrow> P u))"

lemma closes_trans: "closes P s t \<Longrightarrow> closes P t u \<Longrightarrow> closes P s u"
  unfolding closes_def by (metis Un_iff append_assoc set_append)

lemma closes_mono: "closes P s t \<Longrightarrow> (\<And>u. P u \<Longrightarrow> Q u) \<Longrightarrow> closes Q s t"
  unfolding closes_def by blast

lemma closes_same: "s_closed t = s_closed s \<Longrightarrow> closes P s t"
  by (simp add: closes_def)

lemma closes_eq: "s_closed t' = s_closed t \<Longrightarrow> closes P s t' = closes P s t"
  by (simp add: closes_def)

lemma closes_eq_left: "s_closed s' = s_closed s \<Longrightarrow> closes P s' t = closes P s t"
  by (simp add: closes_def)

lemma no_commits:
  assumes "logs_more s s'" and "commits w s' = commits w s"
  shows "closes P s s'"
proof -
  obtain us qs where "s_closed s' = s_closed s @ us" "s_requests s' = s_requests s @ qs"
    using assms(1) by (auto simp: logs_more_def prefix_def)
  with assms(2) show ?thesis by (auto simp: closes_def commits_def filter_empty_conv)
qed

text \<open>An operation that counts no message as accepted commits none.\<close>

lemma uncounted_closes:
  assumes "ledger 0 w s" and "ledger 0 w s'" and "logs_more s s'" and "s_accepted s' = s_accepted s"
  shows "closes P s s'"
  using assms by (intro no_commits [of s s' w]) (simp_all add: ledger_def)

section \<open>Delivery\<close>

text \<open>The recipients the actions of a policy leave, and the message it makes of the one it saw.\<close>

definition delivery_recipients :: "string list \<Rightarrow> string list \<Rightarrow> string list" where
  "delivery_recipients acts rcpts =
     (if replacements acts = [] \<and> copies acts = [] then rcpts else dedup [] (plan_recipients acts rcpts))"

definition delivered_message :: "proxy \<Rightarrow> string \<Rightarrow> policy_output \<Rightarrow> string" where
  "delivered_message px raw out =
     (let m = apply_header_changes raw (po_removed out) (po_added out)
      in if dd_quarantine (final_disposition px (po_actions out)) then prepend_header m quarantine_header ''true''
         else m)"

lemma forward_closes:
  assumes "forward_to_upstream w px t = (None, s')" and "ledger 0 w t" and "open_ok t"
    and "logs_more s t" and "commits w t = commits w s"
  shows "closes (\<lambda>u. delivered u (s_from t) (s_recipients t) (s_data t)) s s'"
proof -
  have l: "ledger 1 w s'" and d: "delivered_last t s'"
    using forward_to_upstream_books [OF assms(1-3)] by (simp_all add: owed_def)
  have "s_accepted s' = s_accepted t"
    using forward_to_upstream_frame [OF assms(1)] by (simp add: kept_def same_message_def)
  then have c: "commits w s' = commits w s + 1" using l assms(2,5) by (simp add: ledger_def)
  obtain u us where u: "s_closed s' = s_closed t @ us @ [u]" "committed (u_events u)"
      "delivered u (s_from t) (s_recipients t) (s_data t)"
    using d unfolding delivered_last_def by blast
  obtain vs where v: "s_closed t = s_closed s @ vs" using assms(4) by (auto simp: logs_more_def prefix_def)
  obtain qs where q: "s_requests s' = s_requests s @ qs"
    using logs_more_trans [OF assms(4) logs_more_forward [OF assms(1)]] by (auto simp: logs_more_def prefix_def)
  have "filter (\<lambda>u. committed (u_events u)) (vs @ us) = []"
    using c u(1,2) v q by (simp add: commits_def)
  then have "\<forall>x \<in> set (vs @ us). \<not> committed (u_events x)" unfolding filter_empty_conv .
  then show ?thesis unfolding closes_def using u v by (intro exI [of _ "vs @ us @ [u]"]) auto
qed

lemma deliver_closes:
  assumes "deliver w px s = (None, s')" and "ledger 0 w s" and "open_ok s"
  shows "closes (\<lambda>u. px_adapter px = None \<and>
      delivered u (s_from s) (delivery_recipients (s_actions s) (s_recipients s)) (s_data s)) s s'"
proof (cases "px_adapter px")
  case (Some supported)
  then have "s_closed s' = s_closed (close_upstream s)"
    using assms(1) by (auto simp: deliver_def Let_def split: prod.splits)
  moreover have l: "ledger 0 w (close_upstream s)" by (rule ledger_close_upstream [OF assms(2,3)])
  have "closes Q s (close_upstream s)" for Q
    by (rule uncounted_closes [OF assms(2) l]) (simp_all add: logs_more_close)
  ultimately show ?thesis using closes_eq by blast
next
  case None
  show ?thesis
  proof (cases "replacements (s_actions s) \<noteq> [] \<or> copies (s_actions s) \<noteq> []")
    case False
    then have f: "forward_to_upstream w px s = (None, s')" using assms(1) None by (simp add: deliver_def)
    show ?thesis
      using forward_closes [OF f assms(2,3) logs_more_refl refl] False None
      by (simp add: delivery_recipients_def)
  next
    case True
    define t where "t = close_upstream (s\<lparr>s_recipients := dedup [] (plan_recipients (s_actions s) (s_recipients s))\<rparr>)"
    have f: "forward_to_upstream w px t = (None, s')"
      using assms(1) None True by (auto simp: deliver_def Let_def t_def split: option.splits)
    have eq: "t = (close_upstream s)\<lparr>s_recipients := dedup [] (plan_recipients (s_actions s) (s_recipients s))\<rparr>"
      by (simp add: t_def close_upstream_def split: option.split)
    then have l: "ledger 0 w t"
      using ledger_close_upstream [OF assms(2,3)] ledger_same [of t "close_upstream s" 0 w] by simp
    have m: "logs_more s t" using eq logs_more_close [of s s] by simp
    have c: "commits w t = commits w s" using l assms(2) by (simp add: ledger_def eq)
    have "open_ok t" by (simp add: open_ok_def t_def)
    moreover have "delivery_recipients (s_actions s) (s_recipients s) =
        dedup [] (plan_recipients (s_actions s) (s_recipients s))"
      using True by (auto simp: delivery_recipients_def)
    ultimately show ?thesis
      using forward_closes [OF f l _ m c] None by (simp add: t_def)
  qed
qed

text \<open>The delivery of one DATA command: the message body read in \<open>t\<close>, accepted by the policy.\<close>

definition policy_accepts :: "world \<Rightarrow> proxy \<Rightarrow> session \<Rightarrow> string \<Rightarrow> policy_output \<Rightarrow> bool" where
  "policy_accepts w px t body out \<longleftrightarrow>
     w_policy w \<lparr>pi_message = strip_header body quarantine_header, pi_from = s_from t,
       pi_to = s_recipients t, pi_helo = s_helo t, pi_client_ip = s_client_ip t\<rparr> = PolicyDone out \<and>
     dd_code (final_disposition px (po_actions out)) = 250"

definition message_delivered :: "world \<Rightarrow> proxy \<Rightarrow> session \<Rightarrow> string \<Rightarrow> upstream \<Rightarrow> bool" where
  "message_delivered w px t body u \<longleftrightarrow> px_adapter px = None \<and>
     (\<exists>out. policy_accepts w px t body out \<and>
        delivered u (s_from t) (delivery_recipients (po_actions out) (s_recipients t))
          (delivered_message px (strip_header body quarantine_header) out))"

lemma finish_closes:
  assumes "books w s" and "s_reply_code s = 0"
  shows "closes (message_delivered w px s (s_data s)) s (finish_data w px s)"
proof -
  obtain a q m s1 where p: "process_with_mailscript w px s = ((a, q, m), s1)"
    by (cases "process_with_mailscript w px s") auto
  have b: "ledger 0 w s" "ledger 0 w (finish_data w px s)"
    using assms finish_data_books [OF assms, of px] by (simp_all add: books_def)
  have uncounted: ?thesis if "s_accepted (finish_data w px s) = s_accepted s"
    using b logs_more_finish that by (rule uncounted_closes)
  show ?thesis
  proof (cases a)
    case False
    then show ?thesis
      using process_frame(6) [OF p] p by (intro uncounted) (simp add: finish_data_def Let_def count_processed_def)
  next
    case True
    define t where "t = (if q then (count_processed a s1)\<lparr>s_data :=
      prepend_header (s_data (count_processed a s1)) quarantine_header ''true''\<rparr> else count_processed a s1)"
    obtain err s4 where d: "deliver w px t = (err, s4)" by (cases "deliver w px t")
    have t: "s_closed t = s_closed s" "s_requests t = s_requests s" "s_accepted t = s_accepted s"
      "s_upstream t = s_upstream s" "s_from t = s_from s" "s_recipients t = s_recipients s"
      using process_frame [OF p] by (simp_all add: t_def count_processed_def)
    have e: "finish_data w px s = (case err of
        Some e \<Rightarrow> write_line (delivery_failure_reply e) (s4\<lparr>s_rejected := s_rejected s4 + 1\<rparr>)
      | None \<Rightarrow> write_line ''250 OK: Message accepted'' (s4\<lparr>s_accepted := s_accepted s4 + 1\<rparr>))"
      unfolding finish_data_def p prod.case Let_def if_P [OF True] t_def [symmetric] d by (rule refl)
    show ?thesis
    proof (cases err)
      case (Some x)
      then show ?thesis
        using e deliver_frame [OF d] t by (intro uncounted) (simp add: same_message_def)
    next
      case None
      define inp where "inp = \<lparr>pi_message = strip_header (s_data s) quarantine_header, pi_from = s_from s,
        pi_to = s_recipients s, pi_helo = s_helo s, pi_client_ip = s_client_ip s\<rparr>"
      obtain out where out: "w_policy w inp = PolicyDone out"
        using p True by (cases "w_policy w inp") (auto simp: process_with_mailscript_def Let_def inp_def)
      have s1: "s_data s1 = apply_header_changes (strip_header (s_data s) quarantine_header) (po_removed out) (po_added out)"
        "s_actions s1 = po_actions out" "dd_code (final_disposition px (po_actions out)) = 250"
        "q = dd_quarantine (final_disposition px (po_actions out))"
        using p True out by (auto simp: process_with_mailscript_def Let_def inp_def)
      have m: "s_actions t = po_actions out"
        "s_data t = delivered_message px (strip_header (s_data s) quarantine_header) out"
        using s1 by (simp_all add: t_def count_processed_def delivered_message_def Let_def)
      have "ledger 0 w t" "open_ok t"
        using assms(1) t ledger_same [of t s 0 w] by (simp_all add: books_def open_ok_def)
      from deliver_closes [OF d [unfolded None] this]
      have "closes (message_delivered w px s (s_data s)) t s4"
        by (rule closes_mono)
           (use out s1(3) m t in \<open>auto simp: message_delivered_def policy_accepts_def inp_def\<close>)
      then show ?thesis using e None t(1) closes_eq_left [of t s] by (simp add: closes_def)
    qed
  qed
qed

section \<open>The commands\<close>

definition command_verb :: "string \<Rightarrow> string" where
  "command_verb line = (case str_fields line of [] \<Rightarrow> [] | c # _ \<Rightarrow> to_upper c)"

lemma command_verb_dispatch: "str_fields line \<noteq> [] \<Longrightarrow> to_upper (str_fields line ! 0) = command_verb line"
  by (cases "str_fields line") (simp_all add: command_verb_def)

text \<open>The round in \<open>t\<close> reads a DATA command whose message is delivered on \<open>u\<close>.\<close>

definition data_delivered :: "world \<Rightarrow> proxy \<Rightarrow> session \<Rightarrow> upstream \<Rightarrow> bool" where
  "data_delivered w px t u \<longleftrightarrow> s_mail_set t \<and> s_recipients t \<noteq> [] \<and>
     (\<exists>line rd body rest. read_wire_line 4096 (s_reader t) = (Inr line, rd) \<and>
        command_verb (trim_space line) = ''DATA'' \<and> data_loop [] rd = (DataDone body, rest) \<and>
        message_delivered w px t body u)"

lemma reset_closes: "books w s \<Longrightarrow> closes P s (reset_transaction s)"
  using books_reset [of w s] logs_more_reset [of s s]
  by (intro uncounted_closes [of w]) (simp_all add: books_def)

lemma data_closes:
  assumes "books w s" and "s_reply_code s = 0"
  shows "closes (\<lambda>u. s_mail_set s \<and> s_recipients s \<noteq> [] \<and>
      (\<exists>body rest. data_loop [] (s_reader s) = (DataDone body, rest) \<and> message_delivered w px s body u))
    s (handle_data w px s)"
    (is "closes ?P _ _")
proof (cases "\<not> s_mail_set s \<or> s_recipients s = []")
  case True
  then show ?thesis by (auto simp: handle_data_def intro: closes_same)
next
  case False
  define s1 where "s1 = write_line ''354 End data with <CR><LF>.<CR><LF>'' s"
  obtain r rd where r: "data_loop [] (s_reader s) = (r, rd)" by (cases "data_loop [] (s_reader s)")
  define s2 where "s2 = s1\<lparr>s_reader := rd\<rparr>"
  have b2: "books w s2" "s_reply_code s2 = 0" "s_closed s2 = s_closed s"
    using assms by (simp_all add: s2_def s1_def books_write)
  show ?thesis
  proof (cases "\<exists>body. r = DataDone body")
    case True
    then obtain body where DataDone: "r = DataDone body" by blast
    define t where "t = s2\<lparr>s_data := body\<rparr>"
    have t: "books w t" "s_reply_code t = 0" "s_data t = body" "s_closed t = s_closed s"
      using books_same [OF b2(1), of t] b2 by (simp_all add: t_def)
    have m: "message_delivered w px t = message_delivered w px s"
      by (intro ext) (simp add: message_delivered_def policy_accepts_def t_def s2_def s1_def)
    have "closes (message_delivered w px s body) t (finish_data w px t)"
      using finish_closes [OF t(1,2), of px] unfolding m t(3) .
    then have f: "closes (message_delivered w px s body) s (finish_data w px t)"
      using closes_eq_left [OF t(4)] by blast
    have eq: "handle_data w px s = reset_transaction (finish_data w px t)"
      unfolding handle_data_def Let_def if_not_P [OF False] s1_def [symmetric]
      using r DataDone by (simp add: t_def s2_def s1_def)
    have "closes (message_delivered w px s body) s (handle_data w px s)"
      unfolding eq by (rule closes_trans [OF f reset_closes [OF finish_data_books [OF t(1,2)]]])
    then show ?thesis
      by (rule closes_mono) (use False r DataDone in simp)
  next
    case failed: False
    define x where "x = (case r of DataReadError \<Rightarrow> close_conn s2
      | DataBadLine \<Rightarrow> close_conn (write_line ''550 DATA requires CRLF line endings'' s2)
      | _ \<Rightarrow> close_conn (write_line ''552 Message too large'' s2))"
    have eq: "handle_data w px s = reset_transaction x"
      unfolding handle_data_def Let_def if_not_P [OF False] s1_def [symmetric]
      using failed r by (cases r) (simp_all add: x_def s2_def s1_def)
    have x: "books w x" "s_closed x = s_closed s"
      using b2 by (cases r; simp add: x_def books_write)+
    show ?thesis
      unfolding eq by (rule closes_trans [OF closes_same [OF x(2)] reset_closes [OF x(1)]])
  qed
qed

text \<open>Every other command leaves the count of accepted messages alone.\<close>

lemma begin_accepted: "begin_upstream w px s = (e, s') \<Longrightarrow> s_accepted s' = s_accepted s"
  using begin_upstream_frame(1) by (fastforce simp: kept_def same_message_def)

lemma check_credentials_accepted: "s_accepted (check_credentials w px x s) = s_accepted s"
  by (auto simp: check_credentials_def session_connect_def Let_def clear_auth_def split: option.split prod.split)

lemma uncounted_handlers:
  "s_accepted (handle_auth w px parts s) = s_accepted s" "s_accepted (handle_helo parts s) = s_accepted s"
  "s_accepted (handle_ehlo px parts s) = s_accepted s" "s_accepted (handle_mail w px line s) = s_accepted s"
  "s_accepted (handle_rcpt w line s) = s_accepted s" "s_accepted (handle_rset s) = s_accepted s"
  "s_accepted (handle_starttls w px s) = s_accepted s"
  by (auto simp: handle_auth_def handle_helo_def handle_ehlo_def handle_mail_def handle_rcpt_def handle_rset_def
      handle_starttls_def Let_def check_credentials_accepted
      dest: begin_accepted split: sum.split prod.split option.split)

lemma serve_line_closes:
  assumes "session_ok px s" and "books w s"
  shows "closes (data_delivered w px s) s (snd (serve_line w px s))"
proof (cases "\<exists>line rd. read_wire_line 4096 (s_reader s) = (Inr line, rd) \<and> command_verb (trim_space line) = ''DATA''")
  case True
  then obtain line rd where r: "read_wire_line 4096 (s_reader s) = (Inr line, rd)"
    and v: "command_verb (trim_space line) = ''DATA''" by blast
  define t where "t = s\<lparr>s_reader := rd\<rparr>"
  have ne: "str_fields (trim_space line) \<noteq> []" using v by (auto simp: command_verb_def)
  have "str_fields [] = []" by code_simp
  with ne have "trim_space line \<noteq> []" by force
  then have eq: "snd (serve_line w px s) = handle_data w px t"
    using r v ne by (simp add: serve_line_def Let_def dispatch_def command_verb_dispatch t_def)
  have t: "books w t" "s_reply_code t = 0" "s_closed t = s_closed s"
    using assms session_ok_reply_code by (simp_all add: t_def)
  have m: "message_delivered w px t = message_delivered w px s"
    by (intro ext) (simp add: message_delivered_def policy_accepts_def t_def)
  have "closes (data_delivered w px s) t (handle_data w px t)"
    using data_closes [OF t(1,2), of px] unfolding m
    by (rule closes_mono) (use r v in \<open>auto simp: data_delivered_def t_def\<close>)
  then show ?thesis unfolding eq using closes_eq_left [OF t(3)] by blast
next
  case False
  have acc: "s_accepted (snd (serve_line w px s)) = s_accepted s"
    using False by (auto simp: serve_line_def Let_def dispatch_def uncounted_handlers command_verb_dispatch
        split: prod.split sum.split)
  have log: "logs_more s (snd (serve_line w px s))"
    using logs_more_trans [OF _ logs_more_dispatch, of s "s\<lparr>s_reader := rd\<rparr>" w px l for rd l]
    by (auto simp: serve_line_def Let_def split: prod.split sum.split)
  show ?thesis
    using assms serve_line_books [OF assms] acc log by (intro uncounted_closes [of w]) (simp_all add: books_def)
qed

section \<open>The envelope\<close>

text \<open>
  The envelope a client sent in its command lines: the sender of a MAIL line, and recipients
  of RCPT lines behind it, in order.
\<close>

fun rcpt_addresses :: "string list \<Rightarrow> string list" where
  "rcpt_addresses [] = []"
| "rcpt_addresses (l # ls) =
     (case parse_smtp_path l ''RCPT TO:'' False of
        Inr a \<Rightarrow> if command_verb l = ''RCPT'' then a # rcpt_addresses ls else rcpt_addresses ls
      | Inl _ \<Rightarrow> rcpt_addresses ls)"

definition envelope_sent :: "string list \<Rightarrow> string \<Rightarrow> string list \<Rightarrow> bool" where
  "envelope_sent ls from rcpts \<longleftrightarrow>
     (\<exists>before mail after. ls = before @ mail # after \<and> command_verb mail = ''MAIL'' \<and>
        parse_smtp_path mail ''MAIL FROM:'' True = Inr from \<and> subseq rcpts (rcpt_addresses after))"

lemma rcpt_addresses_append: "rcpt_addresses (ls @ ms) = rcpt_addresses ls @ rcpt_addresses ms"
  by (induction ls) (auto split: sum.split)

lemma envelope_sent_more: "envelope_sent ls from rcpts \<Longrightarrow> envelope_sent (ls @ ms) from rcpts"
  unfolding envelope_sent_def rcpt_addresses_append
  by (metis append.assoc append_Cons rcpt_addresses_append subseq_rev_drop_many)

lemma envelope_sent_rcpt:
  assumes "envelope_sent ls from rcpts" and "command_verb l = ''RCPT''"
    and "parse_smtp_path l ''RCPT TO:'' False = Inr a"
  shows "envelope_sent (ls @ [l]) from (rcpts @ [a])"
proof -
  obtain before mail after where *: "ls = before @ mail # after" "command_verb mail = ''MAIL''"
      "parse_smtp_path mail ''MAIL FROM:'' True = Inr from" "subseq rcpts (rcpt_addresses after)"
    using assms(1) unfolding envelope_sent_def by blast
  then have "subseq (rcpts @ [a]) (rcpt_addresses (after @ [l]))"
    using assms(2,3) by (simp add: rcpt_addresses_append list_emb_append_mono)
  with * show ?thesis unfolding envelope_sent_def by (metis append.assoc append_Cons)
qed

definition envelope_step :: "string \<Rightarrow> session \<Rightarrow> session \<Rightarrow> bool" where
  "envelope_step line s s' \<longleftrightarrow> (s_mail_set s' \<longrightarrow>
     command_verb line = ''MAIL'' \<and> parse_smtp_path line ''MAIL FROM:'' True = Inr (s_from s') \<and> s_recipients s' = [] \<or>
     s_mail_set s \<and> s_from s' = s_from s \<and>
       (s_recipients s' = s_recipients s \<or>
        command_verb line = ''RCPT'' \<and>
          (\<exists>a. parse_smtp_path line ''RCPT TO:'' False = Inr a \<and> s_recipients s' = s_recipients s @ [a])))"

lemma envelope_step_same:
  "s_mail_set s' = s_mail_set s \<Longrightarrow> s_from s' = s_from s \<Longrightarrow> s_recipients s' = s_recipients s \<Longrightarrow> envelope_step l s s'"
  by (simp add: envelope_step_def)

lemma envelope_step_none: "\<not> s_mail_set s' \<Longrightarrow> envelope_step l s s'"
  by (simp add: envelope_step_def)

lemma check_credentials_envelope:
  "s_mail_set (check_credentials w px x s) = s_mail_set s" "s_from (check_credentials w px x s) = s_from s"
  "s_recipients (check_credentials w px x s) = s_recipients s"
  by (auto simp: check_credentials_def session_connect_def Let_def clear_auth_def split: option.split prod.split)

lemma auth_envelope: "envelope_step l s (handle_auth w px parts s)"
  by (rule envelope_step_same)
     (auto simp: handle_auth_def Let_def check_credentials_envelope split: sum.split prod.split)

lemma mail_envelope: "command_verb l = ''MAIL'' \<Longrightarrow> envelope_step l s (handle_mail w px l s)"
  by (auto simp: envelope_step_def handle_mail_def Let_def kept_def same_message_def
      dest!: begin_upstream_frame(1) split: sum.splits prod.splits option.splits if_splits)

lemma rcpt_envelope: "command_verb l = ''RCPT'' \<Longrightarrow> envelope_step l s (handle_rcpt w l s)"
  by (auto simp: envelope_step_def handle_rcpt_def Let_def split: sum.splits prod.splits option.splits if_splits)

lemma data_envelope: "envelope_step l s (handle_data w px s)"
  by (auto simp: envelope_step_def handle_data_def Let_def split: prod.splits if_splits)

lemma greeting_envelope:
  "envelope_step l s (handle_helo parts s)" "envelope_step l s (handle_ehlo px parts s)"
  "envelope_step l s (handle_starttls w px s)" "envelope_step l s (handle_rset s)"
  by (auto simp: envelope_step_def handle_helo_def handle_ehlo_def handle_starttls_def handle_rset_def Let_def
      split: option.splits if_splits)

lemma dispatch_envelope:
  "str_fields l \<noteq> [] \<Longrightarrow> envelope_step l s (snd (dispatch w px l s))"
  unfolding dispatch_def Let_def
  by (simp add: command_verb_dispatch auth_envelope mail_envelope rcpt_envelope data_envelope greeting_envelope
      envelope_step_same)

section \<open>The rounds of a session\<close>

text \<open>The states between two rounds of the command loop, with the command lines read so far.\<close>

definition line_read :: "session \<Rightarrow> string list" where
  "line_read s = (case read_wire_line 4096 (s_reader s) of (Inl _, _) \<Rightarrow> [] | (Inr line, _) \<Rightarrow> [trim_space line])"

inductive session_reaches :: "world \<Rightarrow> proxy \<Rightarrow> session \<Rightarrow> string list \<Rightarrow> session \<Rightarrow> bool" for w px s0 where
  start: "session_reaches w px s0 [] s0"
| round: "session_reaches w px s0 ls t \<Longrightarrow> serve_line w px t = (True, t') \<Longrightarrow>
     session_reaches w px s0 (ls @ line_read t) t'"

lemma reaches_keeps:
  "session_reaches w px s0 ls t \<Longrightarrow> session_ok px s0 \<Longrightarrow> books w s0 \<Longrightarrow> session_ok px t \<and> books w t"
proof (induction rule: session_reaches.induct)
  case (round ls t t')
  then show ?case using serve_line_ok [of px t w] serve_line_books [of px t w] by simp
qed simp

lemma reaches_envelope:
  "session_reaches w px s0 ls t \<Longrightarrow> \<not> s_mail_set s0 \<Longrightarrow> s_mail_set t \<Longrightarrow>
     envelope_sent ls (s_from t) (s_recipients t)"
proof (induction rule: session_reaches.induct)
  case (round ls t t')
  obtain raw rd where r: "read_wire_line 4096 (s_reader t) = (Inr raw, rd)"
    using round.hyps(2) by (auto simp: serve_line_def split: prod.splits sum.splits)
  define t1 where "t1 = t\<lparr>s_reader := rd\<rparr>"
  have lr: "line_read t = [trim_space raw]" using r by (simp add: line_read_def)
  have "t' = t1 \<or> str_fields (trim_space raw) \<noteq> [] \<and> t' = snd (dispatch w px (trim_space raw) t1)"
    using round.hyps(2) r by (auto simp: serve_line_def Let_def t1_def split: if_splits)
  then have "envelope_step (trim_space raw) t1 t'"
    using dispatch_envelope envelope_step_same [of t1 t1] by auto
  then have e: "envelope_step (trim_space raw) t t'" by (simp add: envelope_step_def t1_def)
  have ih: "s_mail_set t \<Longrightarrow> envelope_sent ls (s_from t) (s_recipients t)" using round by simp
  have mail: "envelope_sent (ls @ [l]) a []"
    if "command_verb l = ''MAIL''" "parse_smtp_path l ''MAIL FROM:'' True = Inr a" for l a
    using that by (auto simp: envelope_sent_def intro!: exI [of _ ls])
  show ?case
    unfolding lr
    using e round.prems(2) mail ih envelope_sent_more [of ls _ _ "[trim_space raw]"] envelope_sent_rcpt [of ls]
    by (fastforce simp: envelope_step_def)
qed simp

lemma run_closes:
  assumes "run_loop fuel (serve_line w px) t = Some s" and "session_reaches w px s0 ls t"
    and "session_ok px s0" and "books w s0"
  shows "closes (\<lambda>u. \<exists>ls t. session_reaches w px s0 ls t \<and> data_delivered w px t u) t s"
  using assms(1,2)
proof (induction fuel arbitrary: t ls)
  case (Suc fuel)
  obtain go t' where r: "serve_line w px t = (go, t')" by (cases "serve_line w px t")
  have "closes (data_delivered w px t) t t'"
    using serve_line_closes reaches_keeps [OF Suc.prems(2) assms(3,4)] r by (metis snd_conv)
  then have c: "closes (\<lambda>u. \<exists>ls t. session_reaches w px s0 ls t \<and> data_delivered w px t u) t t'"
    by (rule closes_mono) (use Suc.prems(2) in blast)
  show ?case
  proof (cases go)
    case True
    then have "session_reaches w px s0 (ls @ line_read t) t'" using Suc.prems(2) r by (simp add: round)
    with Suc True r c show ?thesis by (auto intro: closes_trans)
  next
    case False
    with Suc.prems(1) r c show ?thesis by simp
  qed
qed simp

text \<open>What a whole session commits.\<close>

lemma session_commits:
  assumes "handle_smtp_connection w px ip net = Some s" and "u \<in> set (s_closed s)" and "committed (u_events u)"
  shows "\<exists>ls t. session_reaches w px (start_session ip net) ls t \<and> data_delivered w px t u"
proof -
  define s0 where "s0 = start_session ip net"
  obtain s1 where s1: "run_loop (serve_fuel w s0) (serve_line w px) s0 = Some s1"
    and s: "s = close_conn (close_upstream s1)"
    using assms(1) by (auto simp: handle_smtp_connection_def serve_loop_def Let_def s0_def)
  have ok: "session_ok px s0" "books w s0" by (simp_all add: s0_def session_ok_start books_start)
  have b: "books w s1"
    using smtp_books.run_keeps [OF _ s1] ok by blast
  have "closes (\<lambda>u. \<exists>ls t. session_reaches w px s0 ls t \<and> data_delivered w px t u) s0 s1"
    by (rule run_closes [OF s1 session_reaches.start ok])
  moreover have "closes P s1 (close_upstream s1)" for P
    using b ledger_close_upstream [of 0 w s1] logs_more_close [of s1 s1]
    by (intro uncounted_closes [of w]) (simp_all add: books_def)
  ultimately have "closes (\<lambda>u. \<exists>ls t. session_reaches w px s0 ls t \<and> data_delivered w px t u) s0 s"
    unfolding s using closes_trans closes_eq [of "close_conn (close_upstream s1)" "close_upstream s1"] by simp
  moreover have "s_closed s0 = []" by (simp add: s0_def start_session_def new_session_def)
  ultimately show ?thesis using assms(2,3) unfolding s0_def closes_def by auto
qed

end
