(* ===== verification/SessionClosed.thy ===== *)
theory SessionClosed
  imports SessionDelivery
begin

text \<open>
  Sessions whose client connection the proxy has closed. Closing drops the replies and the
  rest of the network input; the bytes in the reader's buffer stay. \<open>unheard\<close> is a session with
  a closed connection, and every operation of the session but a TLS handshake commutes with it:
  the commands left in the buffer have the effects they would have on an open connection.
\<close>

definition unheard :: "string list \<Rightarrow> session \<Rightarrow> session" where
  "unheard sent s = s\<lparr>s_open := False, s_out := sent\<rparr>"

section \<open>Replies and transaction state\<close>

lemma unheard_select [simp]:
  "s_actions (unheard o' s) = s_actions s" "s_reader (unheard o' s) = s_reader s"
  "s_open (unheard o' s) = False" "s_out (unheard o' s) = o'" "s_from (unheard o' s) = s_from s"
  "s_recipients (unheard o' s) = s_recipients s" "s_data (unheard o' s) = s_data s"
  "s_helo (unheard o' s) = s_helo s" "s_client_ip (unheard o' s) = s_client_ip s"
  "s_mail_set (unheard o' s) = s_mail_set s" "s_tls_active (unheard o' s) = s_tls_active s"
  "s_reply_code (unheard o' s) = s_reply_code s" "s_upstream (unheard o' s) = s_upstream s"
  "s_authenticated (unheard o' s) = s_authenticated s" "s_auth_user (unheard o' s) = s_auth_user s"
  "s_auth_password (unheard o' s) = s_auth_password s" "s_conns (unheard o' s) = s_conns s"
  "s_closed (unheard o' s) = s_closed s" "s_requests (unheard o' s) = s_requests s"
  "s_processed (unheard o' s) = s_processed s" "s_accepted (unheard o' s) = s_accepted s"
  "s_rejected (unheard o' s) = s_rejected s" "s_bytes (unheard o' s) = s_bytes s"
  by (simp_all add: unheard_def)

lemma unheard_update [simp]:
  "(unheard o' s)\<lparr>s_actions := a\<rparr> = unheard o' (s\<lparr>s_actions := a\<rparr>)"
  "(unheard o' s)\<lparr>s_reader := rd\<rparr> = unheard o' (s\<lparr>s_reader := rd\<rparr>)"
  "(unheard o' s)\<lparr>s_from := b\<rparr> = unheard o' (s\<lparr>s_from := b\<rparr>)"
  "(unheard o' s)\<lparr>s_recipients := a\<rparr> = unheard o' (s\<lparr>s_recipients := a\<rparr>)"
  "(unheard o' s)\<lparr>s_data := b\<rparr> = unheard o' (s\<lparr>s_data := b\<rparr>)"
  "(unheard o' s)\<lparr>s_helo := b\<rparr> = unheard o' (s\<lparr>s_helo := b\<rparr>)"
  "(unheard o' s)\<lparr>s_mail_set := c\<rparr> = unheard o' (s\<lparr>s_mail_set := c\<rparr>)"
  "(unheard o' s)\<lparr>s_reply_code := i\<rparr> = unheard o' (s\<lparr>s_reply_code := i\<rparr>)"
  "(unheard o' s)\<lparr>s_upstream := u\<rparr> = unheard o' (s\<lparr>s_upstream := u\<rparr>)"
  "(unheard o' s)\<lparr>s_authenticated := c\<rparr> = unheard o' (s\<lparr>s_authenticated := c\<rparr>)"
  "(unheard o' s)\<lparr>s_auth_user := b\<rparr> = unheard o' (s\<lparr>s_auth_user := b\<rparr>)"
  "(unheard o' s)\<lparr>s_auth_password := b\<rparr> = unheard o' (s\<lparr>s_auth_password := b\<rparr>)"
  "(unheard o' s)\<lparr>s_conns := n\<rparr> = unheard o' (s\<lparr>s_conns := n\<rparr>)"
  "(unheard o' s)\<lparr>s_closed := us\<rparr> = unheard o' (s\<lparr>s_closed := us\<rparr>)"
  "(unheard o' s)\<lparr>s_requests := qs\<rparr> = unheard o' (s\<lparr>s_requests := qs\<rparr>)"
  "(unheard o' s)\<lparr>s_processed := i\<rparr> = unheard o' (s\<lparr>s_processed := i\<rparr>)"
  "(unheard o' s)\<lparr>s_accepted := i\<rparr> = unheard o' (s\<lparr>s_accepted := i\<rparr>)"
  "(unheard o' s)\<lparr>s_rejected := i\<rparr> = unheard o' (s\<lparr>s_rejected := i\<rparr>)"
  "(unheard o' s)\<lparr>s_bytes := i\<rparr> = unheard o' (s\<lparr>s_bytes := i\<rparr>)"
  by (simp_all add: unheard_def)

lemma unheard_write [simp]:
  "write_line m (unheard o' s) = unheard o' s" "unheard o' (write_line m s) = unheard o' s"
  by (simp_all add: write_line_def unheard_def)

lemma unheard_unheard [simp]: "unheard o' (unheard x s) = unheard o' s"
  by (simp add: unheard_def)

lemma unheard_close [simp]: "close_conn (unheard o' s) = unheard o' (close_conn s)"
  by (simp add: close_conn_def unheard_def)

lemma unheard_close_upstream [simp]: "close_upstream (unheard o' s) = unheard o' (close_upstream s)"
  by (simp add: close_upstream_def split: option.split)

lemma unheard_reset [simp]: "reset_transaction (unheard o' s) = unheard o' (reset_transaction s)"
  by (simp add: reset_transaction_def)

lemma unheard_log_closed [simp]: "log_closed uo (unheard o' s) = unheard o' (log_closed uo s)"
  by (simp add: log_closed_def split: option.split)

lemma unheard_count [simp]: "count_processed a (unheard o' s) = unheard o' (count_processed a s)"
  by (simp add: count_processed_def)

lemma unheard_clear_auth [simp]: "clear_auth (unheard o' s) = unheard o' (clear_auth s)"
  by (simp add: clear_auth_def)

lemma unheard_failure [simp]: "upstream_failure e (unheard o' s) = unheard o' (upstream_failure e s)"
proof -
  have "unheard o' (close_conn (write_line m s)) = unheard o' (close_conn s)" for m
    by (simp add: unheard_def close_conn_def write_line_def)
  then show ?thesis by (simp add: upstream_failure_def Let_def split: go_error.split)
qed

section \<open>Deliveries\<close>

lemma unheard_connect [simp]:
  "session_connect w px (unheard o' s) = apsnd (unheard o') (session_connect w px s)"
  by (simp add: session_connect_def session_auth_def)

lemma unheard_begin [simp]: "begin_upstream w px (unheard o' s) = apsnd (unheard o') (begin_upstream w px s)"
  by (simp add: begin_upstream_def split: prod.split option.split)

lemma unheard_transmit [simp]: "transmit_session w (unheard o' s) = apsnd (unheard o') (transmit_session w s)"
  by (simp add: transmit_session_def split: prod.split option.split)

lemma unheard_forward [simp]:
  "forward_to_upstream w px (unheard o' s) = apsnd (unheard o') (forward_to_upstream w px s)"
  by (simp add: forward_to_upstream_def Let_def split: prod.split option.split sum.split)

lemma unheard_deliver [simp]: "deliver w px (unheard o' s) = apsnd (unheard o') (deliver w px s)"
  by (auto simp: deliver_def Let_def split: prod.split option.split)

lemma unheard_process [simp]:
  "process_with_mailscript w px (unheard o' s) = apsnd (unheard o') (process_with_mailscript w px s)"
  by (simp add: process_with_mailscript_def Let_def split: policy_result.split)

lemma unheard_finish [simp]: "finish_data w px (unheard o' s) = unheard o' (finish_data w px s)"
proof -
  obtain a q m s1 where p: "process_with_mailscript w px s = ((a, q, m), s1)"
    by (cases "process_with_mailscript w px s") auto
  define f where "f t = (if q then t\<lparr>s_data := prepend_header (s_data t) quarantine_header ''true''\<rparr> else t)" for t :: session
  obtain err s4 where d: "deliver w px (f (count_processed a s1)) = (err, s4)"
    by (cases "deliver w px (f (count_processed a s1))")
  have f: "f (unheard o' t) = unheard o' (f t)" for t by (simp add: f_def)
  have u: "process_with_mailscript w px (unheard o' s) = ((a, q, m), unheard o' s1)" using p by simp
  have d': "deliver w px (unheard o' (f (count_processed a s1))) = (err, unheard o' s4)" using d by simp
  show ?thesis
  proof (cases a)
    case True
    show ?thesis
      unfolding finish_data_def p u prod.case Let_def if_P [OF True] f_def [symmetric] unheard_count f d d'
      by (simp split: option.split)
  next
    case False
    show ?thesis
      unfolding finish_data_def p u prod.case Let_def if_not_P [OF False] unheard_count by simp
  qed
qed

section \<open>Commands\<close>

lemma unheard_helo [simp]: "handle_helo parts (unheard o' s) = unheard o' (handle_helo parts s)"
  by (simp add: handle_helo_def)

lemma unheard_if_write [simp]: "unheard o' (if c then write_line m t else t) = unheard o' t"
  by simp

lemma unheard_ehlo [simp]: "handle_ehlo px parts (unheard o' s) = unheard o' (handle_ehlo px parts s)"
  by (cases "length parts < 2") (simp_all add: handle_ehlo_def Let_def)

lemma unheard_rset [simp]: "handle_rset (unheard o' s) = unheard o' (handle_rset s)"
  by (simp add: handle_rset_def)

lemma unheard_mail [simp]: "handle_mail w px line (unheard o' s) = unheard o' (handle_mail w px line s)"
proof -
  define b where "b t = (if px_server px \<noteq> [] then begin_upstream w px t else (None, t))" for t
  have b: "b (unheard o' t) = apsnd (unheard o') (b t)" for t by (simp add: b_def)
  show ?thesis
    unfolding handle_mail_def Let_def b_def [symmetric] by (simp add: b split: prod.split option.split sum.split)
qed

lemma unheard_rcpt [simp]: "handle_rcpt w line (unheard o' s) = unheard o' (handle_rcpt w line s)"
  by (simp add: handle_rcpt_def Let_def split: prod.split option.split sum.split)

text \<open>The same commutations, read inwards: they drop the replies written in between.\<close>

lemmas unheard_inwards = unheard_close [symmetric] unheard_reset [symmetric] unheard_finish [symmetric]
  unheard_update(2) [symmetric] unheard_update(5) [symmetric]

lemma unheard_write_reader:
  "write_line m ((unheard o' s)\<lparr>s_reader := rd\<rparr>) = (unheard o' s)\<lparr>s_reader := rd\<rparr>"
  by (simp add: write_line_def)

lemma unheard_data [simp]: "handle_data w px (unheard o' s) = unheard o' (handle_data w px s)"
  by (simp add: handle_data_def Let_def unheard_inwards unheard_write_reader
      del: unheard_close unheard_reset unheard_finish unheard_update split: prod.split data_result.split)

lemma unheard_credentials [simp]:
  "check_credentials w px x (unheard o' s) = unheard o' (check_credentials w px x s)"
  by (simp add: check_credentials_def Let_def split: prod.split option.split)

lemma unheard_auth [simp]: "handle_auth w px parts (unheard o' s) = unheard o' (handle_auth w px parts s)"
  by (simp add: handle_auth_def Let_def unheard_close [symmetric] unheard_credentials [symmetric]
      unheard_update(2) [symmetric] del: unheard_close unheard_credentials unheard_update
      split: prod.split sum.split)

text \<open>STARTTLS is refused where TLS is not offered or already active.\<close>

definition no_starttls :: "proxy \<Rightarrow> session \<Rightarrow> bool" where
  "no_starttls px s \<longleftrightarrow> \<not> px_tls px \<or> s_tls_active s"

lemma unheard_starttls:
  "no_starttls px s \<Longrightarrow> handle_starttls w px (unheard o' s) = unheard o' (handle_starttls w px s)"
  by (simp add: handle_starttls_def no_starttls_def)

lemma unheard_dispatch:
  "no_starttls px s \<Longrightarrow> dispatch w px line (unheard o' s) = apsnd (unheard o') (dispatch w px line s)"
  unfolding dispatch_def Let_def by (simp add: unheard_starttls)

lemma unheard_serve_line:
  "no_starttls px s \<Longrightarrow> serve_line w px (unheard o' s) = apsnd (unheard o') (serve_line w px s)"
  by (simp add: serve_line_def Let_def unheard_dispatch no_starttls_def split: prod.split sum.split)

section \<open>The command loop\<close>

lemma begin_tls: "begin_upstream w px s = (e, s') \<Longrightarrow> s_tls_active s' = s_tls_active s"
  using begin_upstream_frame(1) by (fastforce simp: kept_def same_message_def same_client_def)

lemma check_credentials_tls: "s_tls_active (check_credentials w px x s) = s_tls_active s"
  by (auto simp: check_credentials_def session_connect_def Let_def clear_auth_def split: option.split prod.split)

lemma finish_tls: "s_tls_active (finish_data w px s) = s_tls_active s"
  using finish_data_frame [of s w px] by (simp add: same_client_def)

lemma handlers_tls:
  "s_tls_active (handle_auth w px parts s) = s_tls_active s" "s_tls_active (handle_helo parts s) = s_tls_active s"
  "s_tls_active (handle_ehlo px parts s) = s_tls_active s" "s_tls_active (handle_mail w px line s) = s_tls_active s"
  "s_tls_active (handle_rcpt w line s) = s_tls_active s" "s_tls_active (handle_data w px s) = s_tls_active s"
  "s_tls_active (handle_rset s) = s_tls_active s"
  by (auto simp: handle_auth_def handle_helo_def handle_ehlo_def handle_mail_def handle_rcpt_def handle_data_def
      handle_rset_def Let_def check_credentials_tls finish_tls
      dest: begin_tls split: sum.split prod.split option.split data_result.split)

lemma no_starttls_keeps: "no_starttls px s \<Longrightarrow> no_starttls px (snd (serve_line w px s))"
proof -
  assume n: "no_starttls px s"
  then have "no_starttls px (snd (dispatch w px l (s\<lparr>s_reader := rd\<rparr>)))" for l rd
    unfolding dispatch_def Let_def no_starttls_def by (auto simp: handlers_tls handle_starttls_def)
  with n show ?thesis by (auto simp: serve_line_def Let_def no_starttls_def split: prod.split sum.split)
qed

lemma unheard_run:
  "no_starttls px s \<Longrightarrow>
     run_loop fuel (serve_line w px) (unheard o' s) = map_option (unheard o') (run_loop fuel (serve_line w px) s)"
proof (induction fuel arbitrary: s)
  case (Suc fuel)
  obtain go s1 where r: "serve_line w px s = (go, s1)" by (cases "serve_line w px s")
  have "no_starttls px s1" using no_starttls_keeps [OF Suc.prems, of w] r by simp
  with Suc r show ?case by (cases go) (simp_all add: unheard_serve_line)
qed simp

text \<open>A DATA command that is refused for its line endings, as a session with a closed connection.\<close>

definition left_in_buffer :: "reader \<Rightarrow> reader" where
  "left_in_buffer rd = rd\<lparr>rd_net := []\<rparr>"

lemma refused_data:
  assumes "s_mail_set s" and "s_recipients s \<noteq> []" and "data_loop [] (s_reader s) = (DataBadLine, rd)"
  shows "handle_data w px s =
    unheard (s_out (handle_data w px s)) ((reset_transaction s)\<lparr>s_reader := left_in_buffer rd\<rparr>)"
  using assms
  by (simp add: handle_data_def Let_def reset_transaction_def close_upstream_def close_conn_def write_line_def
      unheard_def left_in_buffer_def split: option.split)

end
