(* ===== verification/SessionProps.thy ===== *)
theory SessionProps
  imports SessionClosed
begin

text \<open>
  The properties of an SMTP session, and the concrete sessions that witness them: a backend
  that accepts everything (\<open>demo_world\<close>), one that speaks TLS and AUTH (\<open>tls_world\<close>), and
  client inputs for them.
\<close>

section \<open>Concrete sessions\<close>

fun demo_reply :: "up_event list \<Rightarrow> string list option" where
  "demo_reply es = (case rev es of
      [] \<Rightarrow> Some [''220 ready'' @ CRLF]
    | Wrote b # _ \<Rightarrow>
        if has_prefix b ''DATA'' then Some [''354 go'' @ CRLF]
        else if has_prefix b ''AUTH'' then Some [''235 ok'' @ CRLF]
        else if has_prefix b ''EHLO'' then Some [''250-b'' @ CRLF @ ''250 AUTH PLAIN'' @ CRLF]
        else if has_prefix b ''MAIL'' \<or> has_prefix b ''RCPT'' \<or> b = ''.'' @ CRLF
          then Some [''250 ok'' @ CRLF] else Some []
    | TlsHandshake _ # _ \<Rightarrow> Some [''220 ready'' @ CRLF]
    | _ \<Rightarrow> Some [])"

definition demo_world :: world where
  "demo_world = \<lparr>w_net = \<lparr>ne_dial = (\<lambda>_. True), ne_peer = (\<lambda>_. demo_reply)\<rparr>,
     w_host = \<lparr>ha_post = (\<lambda>_. None), ha_digest = (\<lambda>_. [])\<rparr>,
     w_policy = (\<lambda>_. PolicyDone \<lparr>po_actions = [''accept''], po_removed = [], po_added = []\<rparr>),
     w_client_tls = Some [''EHLO a'' @ CRLF]\<rparr>"

definition demo_proxy :: proxy where
  "demo_proxy = \<lparr>px_server = ''b:25'',
     px_config = \<lparr>uc_mode = ''plain'', uc_server_name = [], uc_username = [], uc_password = []\<rparr>,
     px_submission = False, px_tls = False, px_forward_quarantine = False, px_adapter = None\<rparr>"

definition tls_proxy :: proxy where
  "tls_proxy = demo_proxy\<lparr>px_config := \<lparr>uc_mode = ''tls'', uc_server_name = [], uc_username = [],
     uc_password = []\<rparr>, px_submission := True, px_tls := True\<rparr>"

definition demo_net :: "string list" where
  "demo_net = [''HELO a'' @ CRLF @ ''MAIL FROM:<a@b>'' @ CRLF @ ''RCPT TO:<c@d>'' @ CRLF @ ''DATA'' @ CRLF @
     ''Hi'' @ CRLF @ ''.'' @ CRLF @ ''QUIT'' @ CRLF]"

definition demo_end :: session where
  "demo_end = the (handle_smtp_connection demo_world demo_proxy ''192.0.2.1'' demo_net)"

text \<open>A session after HELO, and one after EHLO under TLS.\<close>

definition greeted :: session where
  "greeted = (new_session ''192.0.2.1'' [])\<lparr>s_helo := ''a''\<rparr>"

definition greeted_tls :: session where
  "greeted_tls = greeted\<lparr>s_tls_active := True\<rparr>"

section \<open>The session as a whole\<close>

lemma session_runs:
  obtains s where "serve_loop (serve_fuel w (start_session ip net)) w px (start_session ip net) = Some s"
    "handle_smtp_connection w px ip net = Some (close_conn (close_upstream s))"
    "session_ok px s" "books w s"
proof -
  have i: "session_ok px (start_session ip net) \<and> books w (start_session ip net)"
    by (simp add: session_ok_start books_start)
  obtain s where "run_loop (serve_fuel w (start_session ip net)) (serve_line w px) (start_session ip net) = Some s"
    "session_ok px s \<and> books w s"
    using smtp_books.run_returns [OF i, where fuel = "serve_fuel w (start_session ip net)"]
    by (auto simp: serve_fuel_budget)
  then show thesis
    by (intro that [of s]) (simp_all add: serve_loop_def handle_smtp_connection_def Let_def)
qed

lemma session_ends:
  assumes "handle_smtp_connection w px ip net = Some s"
  shows "ledger 0 w s" and "replies_ok s" and "s_upstream s = None"
proof -
  obtain s0 where s0: "handle_smtp_connection w px ip net = Some (close_conn (close_upstream s0))" "books w s0"
    using session_runs by metis
  have s: "s = close_conn (close_upstream s0)" using assms s0(1) by simp
  have l: "ledger 0 w (close_upstream s0)" using s0(2) by (simp add: books_def ledger_close_upstream)
  show "ledger 0 w s" unfolding s using l ledger_same [of "close_conn (close_upstream s0)" "close_upstream s0" 0 w] by simp
  show "replies_ok s" unfolding s using s0(2) replies_ok_same [of "close_conn (close_upstream s0)" s0]
    by (simp add: books_def)
  show "s_upstream s = None" unfolding s by simp
qed

lemma demo_run: "handle_smtp_connection demo_world demo_proxy ''192.0.2.1'' demo_net = Some demo_end"
  unfolding demo_end_def
  by (rule session_runs [of demo_world "''192.0.2.1''" demo_net demo_proxy]) simp

lemma demo_closed: "hd (s_closed demo_end) \<in> set (s_closed demo_end)"
proof -
  have "length (s_closed demo_end) = 1" by code_simp
  then show ?thesis by (intro hd_in_set) auto
qed

lemma demo_committed: "committed (u_events (hd (s_closed demo_end)))"
  by code_simp

text \<open>
  C1: A session with any client, backend and policy returns, and its books balance: the
  messages counted as accepted are exactly the backend transactions that ended in 250 for
  the final dot plus the requests the host adapter acknowledged, and no more
  \<^verbatim>\<open>250 OK: Message accepted\<close> replies are sent than that.
\<close>

theorem session_balances:
  "\<exists>s. handle_smtp_connection w px ip net = Some s \<and> s_accepted s = int (commits w s) \<and>
     accepts_sent s \<le> commits w s"
proof -
  obtain s where s: "handle_smtp_connection w px ip net = Some s" using session_runs by metis
  have "s_accepted s = int (commits w s)" using session_ends(1) [OF s] by (simp add: ledger_def)
  moreover have "int (accepts_sent s) \<le> s_accepted s" using session_ends(2) [OF s] by (simp add: replies_ok_def)
  ultimately show ?thesis using s by auto
qed

text \<open>
  C2: Whatever the client sends, no command of its making reaches the backend: on every
  connection each write is one whole line, except message bytes, which are dot-stuffed
  lines and come right after the backend's 354 for DATA.
\<close>

theorem session_dialogues:
  assumes "handle_smtp_connection w px ip net = Some s" and "u \<in> set (s_closed s)"
  shows "safe_dialogue (u_events u)"
  using session_ends(1) [OF assms(1)] assms(2) by (auto simp: ledger_def closed_ok_def)

theorem session_dialogues_witness: "safe_dialogue (u_events (hd (s_closed demo_end)))"
  by (rule session_dialogues [OF demo_run demo_closed])

text \<open>
  C3: Whatever a backend commits is the delivery of one DATA command of the session. In a
  state \<open>t\<close> that the rounds of the command loop reach, with sender and recipients taken from
  the client's MAIL line and RCPT lines behind it, a DATA command is read and the whole of the
  message \<open>body\<close> behind it; the policy accepts exactly that message with that envelope; and the
  dialogue with the backend is: MAIL with the sender of \<open>t\<close>, answered 250, accepted RCPT
  commands for exactly the recipients of \<open>t\<close> (or for those that the policy's redirections make
  of them), and the body without quarantine markers and with the policy's header changes,
  dot-stuffed, before the final dot.
\<close>

theorem session_delivers:
  assumes "handle_smtp_connection w px ip net = Some s" and "u \<in> set (s_closed s)"
    and "committed (u_events u)"
  shows "\<exists>ls t line rd body rest out.
     session_reaches w px (start_session ip net) ls t \<and> s_mail_set t \<and>
     envelope_sent ls (s_from t) (s_recipients t) \<and>
     read_wire_line 4096 (s_reader t) = (Inr line, rd) \<and> command_verb (trim_space line) = ''DATA'' \<and>
     data_loop [] rd = (DataDone body, rest) \<and> px_adapter px = None \<and>
     w_policy w \<lparr>pi_message = strip_header body quarantine_header, pi_from = s_from t,
       pi_to = s_recipients t, pi_helo = s_helo t, pi_client_ip = s_client_ip t\<rparr> = PolicyDone out \<and>
     dd_code (final_disposition px (po_actions out)) = 250 \<and>
     delivered u (s_from t) (delivery_recipients (po_actions out) (s_recipients t))
       (delivered_message px (strip_header body quarantine_header) out)"
proof -
  obtain ls t where t: "session_reaches w px (start_session ip net) ls t" "data_delivered w px t u"
    using session_commits [OF assms] by blast
  have "\<not> s_mail_set (start_session ip net)" by (simp add: start_session_def new_session_def)
  then have "envelope_sent ls (s_from t) (s_recipients t)"
    using reaches_envelope [OF t(1)] t(2) by (simp add: data_delivered_def)
  with t show ?thesis
    unfolding data_delivered_def message_delivered_def policy_accepts_def by blast
qed

theorem session_delivers_witness:
  "\<exists>ls t line rd body rest out.
     session_reaches demo_world demo_proxy (start_session ''192.0.2.1'' demo_net) ls t \<and>
     envelope_sent ls (s_from t) (s_recipients t) \<and>
     read_wire_line 4096 (s_reader t) = (Inr line, rd) \<and> data_loop [] rd = (DataDone body, rest) \<and>
     delivered (hd (s_closed demo_end)) (s_from t) (delivery_recipients (po_actions out) (s_recipients t))
       (delivered_message demo_proxy (strip_header body quarantine_header) out)"
  using session_delivers [OF demo_run demo_closed demo_committed] by blast

text \<open>
  C4: Every round of the command loop keeps the session's state consistent: a transaction
  is open only after a greeting, with a valid sender and at most 100 valid recipients, under
  authentication on a submission listener, and with a backend connection if there is a
  backend; outside a transaction nothing of the last one is left.
\<close>

theorem serve_line_keeps_state:
  assumes "session_ok px s"
  shows "session_ok px (snd (serve_line w px s))"
  using assms by (rule serve_line_ok)

theorem serve_line_keeps_state_witness:
  "session_ok demo_proxy (snd (serve_line demo_world demo_proxy (start_session ''192.0.2.1'' demo_net)))"
  by (rule serve_line_keeps_state [OF session_ok_start])

section \<open>Encryption and authentication\<close>

lemma connect_authenticates:
  assumes "connect_upstream env cfg server (Some (user, password)) n = (None, Some u)" and "user \<noteq> []"
  shows "\<exists>pre. u_events u = pre @ [Wrote (''AUTH PLAIN '' @ auth_payload user password @ CRLF), GotReply 235] \<and>
     encrypted pre"
proof -
  obtain host where eq: "(None, u) = then_up (connect_setup env cfg host n) (auth_phase env cfg user password)"
    using connect_upstream_auth [OF assms(1)] by (auto simp: connect_credentials_def)
  define v where "v = snd (connect_setup env cfg host n)"
  have None: "fst (connect_setup env cfg host n) = None" and u: "auth_phase env cfg user password v = (None, u)"
    using eq unfolding v_def by (metis then_up_None fst_conv, metis then_up_None fst_conv)
  have mode: "uc_mode cfg = ''tls'' \<or> uc_mode cfg = ''starttls''"
    using u assms(2) by (auto simp: auth_phase_def split: if_splits)
  have x: "up_expect env (''AUTH PLAIN '' @ auth_payload user password) 235 v = (None, u)"
    using u assms(2) unfolding auth_phase_def by (auto split: if_splits)
  have ne: "''AUTH PLAIN '' @ auth_payload user password \<noteq> []" "(235::int) > 0" by simp_all
  have "u_events u = u_events v @ [Wrote (''AUTH PLAIN '' @ auth_payload user password @ CRLF), GotReply 235]"
    using up_expect_cases [OF x ne] by fastforce
  moreover have "encrypted (u_events v)" unfolding v_def by (rule encrypted_setup [OF mode None])
  ultimately show ?thesis by blast
qed

lemma check_credentials_verified:
  assumes "s_authenticated (check_credentials w px x s)" and "\<not> s_authenticated s"
  shows "\<exists>u. connect_upstream (w_net w) (px_config px) (px_server px)
       (Some (s_auth_user (check_credentials w px x s), s_auth_password (check_credentials w px x s)))
       (s_conns s) = (None, u) \<and> s_auth_user (check_credentials w px x s) \<noteq> []"
proof -
  obtain user password where c: "plain_credentials x = Some (user, password)"
    using assms by (cases "plain_credentials x") (auto simp: check_credentials_def)
  define s1 where "s1 = s\<lparr>s_auth_user := user, s_auth_password := password, s_authenticated := True\<rparr>"
  obtain err uo s2 where s2: "session_connect w px s1 = ((err, uo), s2)"
    by (cases "session_connect w px s1") auto
  have s2': "s2 = s1\<lparr>s_conns := Suc (s_conns s1)\<rparr>" using session_connect_frame [OF s2] .
  have n: "connect_upstream (w_net w) (px_config px) (px_server px) (Some (user, password)) (s_conns s) = (err, uo)"
    using s2 by (simp add: session_connect_def session_auth_def s1_def)
  have eq: "check_credentials w px x s = (case err of
      Some e \<Rightarrow> write_line (case e of UpstreamError code _ _ \<Rightarrow>
                     if code = 535 then ''535 Authentication failed''
                     else ''454 Authentication temporarily unavailable''
                 | PlainError _ \<Rightarrow> ''454 Authentication temporarily unavailable'') (clear_auth (log_closed uo s2))
    | None \<Rightarrow> write_line ''235 Authentication successful'' (log_closed uo s2))"
    unfolding check_credentials_def c option.case prod.case Let_def s1_def [symmetric] s2
    by (cases err) simp_all
  have "err = None" using assms(1) unfolding eq by (cases err) (auto simp: clear_auth_def)
  then show ?thesis
    using n plain_credentials_ne [OF c] unfolding eq by (simp add: s2' s1_def)
qed

text \<open>
  C5: A session becomes authenticated only on a submission listener, over TLS, with
  credentials that the backend itself has just accepted (235 for AUTH PLAIN with these
  credentials) on an encrypted connection.
\<close>

theorem auth_only_verified:
  assumes "\<not> s_authenticated s" and "s' = handle_auth w px parts s" and "s_authenticated s'"
  shows "px_submission px \<and> s_tls_active s \<and>
     (\<exists>u n pre. connect_upstream (w_net w) (px_config px) (px_server px)
            (Some (s_auth_user s', s_auth_password s')) n = (None, Some u) \<and>
        u_events u = pre @ [Wrote (''AUTH PLAIN '' @ auth_payload (s_auth_user s') (s_auth_password s') @ CRLF),
          GotReply 235] \<and> encrypted pre)"
proof -
  have sub: "px_submission px" and tls: "s_tls_active s"
    using assms by (auto simp: handle_auth_def split: if_splits)
  obtain x t where t: "s' = check_credentials w px x t" "\<not> s_authenticated t"
    using assms by (auto simp: handle_auth_def Let_def split: if_splits prod.splits sum.splits)
  obtain u where u: "connect_upstream (w_net w) (px_config px) (px_server px)
       (Some (s_auth_user s', s_auth_password s')) (s_conns t) = (None, u)" "s_auth_user s' \<noteq> []"
    using check_credentials_verified [OF assms(3) [unfolded t(1)] t(2)] unfolding t(1) by blast
  obtain v where "u = Some v"
    using u(1) by (auto simp: connect_upstream_def Let_def split: option.splits if_splits)
  with u connect_authenticates [of "w_net w" "px_config px" "px_server px"] sub tls show ?thesis by blast
qed

theorem auth_only_verified_witness:
  "\<exists>u n pre. connect_upstream (w_net demo_world) (px_config tls_proxy) (px_server tls_proxy)
      (Some (''u'', ''p'')) n = (None, Some u) \<and>
      u_events u = pre @ [Wrote (''AUTH PLAIN '' @ auth_payload ''u'' ''p'' @ CRLF), GotReply 235] \<and>
      encrypted pre"
proof -
  define s' where "s' = handle_auth demo_world tls_proxy [''AUTH'', ''PLAIN'', ''AHUAcA==''] greeted_tls"
  have a: "\<not> s_authenticated greeted_tls" by code_simp
  have b: "s_authenticated s'" unfolding s'_def by code_simp
  have c: "s_auth_user s' = ''u''" "s_auth_password s' = ''p''" unfolding s'_def by code_simp+
  show ?thesis using auth_only_verified [OF a s'_def b] unfolding c by (elim conjE)
qed

text \<open>
  C6: STARTTLS discards what the client sent in plaintext: the session after a successful
  handshake depends neither on the bytes still buffered nor on the greeting or the
  authentication before it, and no transaction is open.
\<close>

theorem starttls_discards:
  assumes "px_tls px" and "\<not> s_tls_active s" and "s_open s" and "w_client_tls w = Some chunks"
  shows "handle_starttls w px (s\<lparr>s_reader := rd, s_helo := h, s_authenticated := a\<rparr>) = handle_starttls w px s \<and>
     rd_bytes (s_reader (handle_starttls w px s)) = concat chunks \<and>
     s_helo (handle_starttls w px s) = [] \<and> \<not> s_authenticated (handle_starttls w px s) \<and>
     no_transaction (handle_starttls w px s)"
proof -
  define f where "f t = (reset_transaction (write_line ''220 Ready to start TLS'' t))\<lparr>s_helo := [],
    s_authenticated := False, s_auth_user := [], s_auth_password := [], s_tls_active := True,
    s_reader := new_reader chunks\<rparr>" for t
  have eq: "handle_starttls w px t = f t" if "s_open t" "\<not> s_tls_active t" for t
    using that assms(1,4) by (simp add: handle_starttls_def Let_def f_def)
  have "f (s\<lparr>s_reader := rd, s_helo := h, s_authenticated := a\<rparr>) = f s"
    by (simp add: f_def write_line_def reset_transaction_def close_upstream_def split: option.split)
  then show ?thesis
    using eq [of s] eq [of "s\<lparr>s_reader := rd, s_helo := h, s_authenticated := a\<rparr>"] assms(2,3)
    by (simp add: f_def no_transaction_def)
qed

theorem starttls_discards_witness:
  "rd_bytes (s_reader (handle_starttls demo_world tls_proxy greeted)) = ''EHLO a'' @ CRLF"
  using starttls_discards [where px = tls_proxy and s = greeted and w = demo_world
      and chunks = "[''EHLO a'' @ CRLF]"]
  by (simp add: tls_proxy_def demo_proxy_def greeted_def new_session_def demo_world_def)

text \<open>
  The credentials that the proxy sends to the backend in AUTH PLAIN are read back
  unchanged by the AUTH PLAIN parser of the proxy's own submission listener.
\<close>

theorem auth_plain_roundtrip:
  assumes "user \<noteq> []" and "password \<noteq> []" and "NUL \<notin> set user" and "NUL \<notin> set password"
  shows "plain_credentials (auth_payload user password) = Some (user, password)"
proof -
  have p: "NUL \<notin> set l \<Longrightarrow> split_on NUL (l @ NUL # r) = l # split_on NUL r" for l r
    unfolding split_on_def by (rule split_where_append) auto
  have q: "NUL \<notin> set l \<Longrightarrow> split_on NUL l = [l]" for l
    unfolding split_on_def by (rule split_where_no) auto
  have "split_on NUL ([NUL] @ user @ [NUL] @ password) = [[], user, password]"
    using p [of "[]" "user @ NUL # password"] p [of user password] q [of password] assms(3,4) by simp
  then show ?thesis
    using assms(1,2) by (simp add: plain_credentials_def auth_payload_def b64_decode_encode Let_def)
qed

theorem auth_plain_roundtrip_witness: "plain_credentials (auth_payload ''me'' ''secret'') = Some (''me'', ''secret'')"
  by (rule auth_plain_roundtrip) simp_all

section \<open>Delivery\<close>

text \<open>
  C10: Delivery is all or nothing: a delivery that reports success has added exactly one
  committed backend transaction or acknowledged adapter request to the books, one that
  reports an error none, also when the backend refused only some of the recipients.
\<close>

theorem deliver_all_or_nothing:
  assumes "deliver w px s = (err, s')" and "books w s"
  shows "commits w s' = commits w s + (if err = None then 1 else 0)"
proof -
  have "ledger (owed err) w s'" using deliver_books [OF assms(1)] assms(2) by (simp add: books_def)
  moreover have "s_accepted s' = s_accepted s" using deliver_frame [OF assms(1)] by (simp add: same_message_def)
  ultimately show ?thesis using assms(2) by (simp add: books_def ledger_def owed_def)
qed

definition ready_to_deliver :: session where
  "ready_to_deliver = greeted\<lparr>s_mail_set := True, s_from := ''a@b'', s_recipients := [''c@d''],
     s_data := ''Hi'' @ CRLF\<rparr>"

theorem deliver_all_or_nothing_witness:
  "commits demo_world (snd (deliver demo_world demo_proxy ready_to_deliver)) = 1"
proof -
  have "books demo_world ready_to_deliver"
    by (simp add: ready_to_deliver_def greeted_def new_session_def books_def ledger_def commits_def
        open_ok_def replies_ok_def accepts_sent_def)
  moreover have "fst (deliver demo_world demo_proxy ready_to_deliver) = None" by code_simp
  ultimately show ?thesis
    using deliver_all_or_nothing [of demo_world demo_proxy ready_to_deliver]
    by (cases "deliver demo_world demo_proxy ready_to_deliver")
      (auto simp: ready_to_deliver_def greeted_def new_session_def commits_def)
qed

text \<open>
  Without redirecting actions, a successful delivery through the backend is a complete
  transaction of the session's own envelope and message, on the connection closed last.
\<close>

theorem deliver_envelope:
  assumes "deliver w px s = (None, s')" and "books w s" and "px_adapter px = None"
    and "replacements (s_actions s) = []" and "copies (s_actions s) = []"
  shows "s_closed s' \<noteq> [] \<and> delivered (last (s_closed s')) (s_from s) (s_recipients s) (s_data s)"
proof -
  have f: "forward_to_upstream w px s = (None, s')" using assms(1,3-5) by (simp add: deliver_def)
  have "delivered_last s s'" using forward_to_upstream_books [OF f] assms(2) by (simp add: books_def)
  then show ?thesis by (auto simp: delivered_last_def)
qed

theorem deliver_envelope_witness:
  "delivered (last (s_closed (snd (deliver demo_world demo_proxy ready_to_deliver)))) ''a@b'' [''c@d''] (''Hi'' @ CRLF)"
proof -
  have "books demo_world ready_to_deliver"
    by (simp add: ready_to_deliver_def greeted_def new_session_def books_def ledger_def commits_def
        open_ok_def replies_ok_def accepts_sent_def)
  moreover have "fst (deliver demo_world demo_proxy ready_to_deliver) = None" by code_simp
  ultimately show ?thesis
    using deliver_envelope [of demo_world demo_proxy ready_to_deliver]
    by (cases "deliver demo_world demo_proxy ready_to_deliver")
      (auto simp: ready_to_deliver_def greeted_def new_session_def demo_proxy_def replacements_def
        copies_def map_filter_simps)
qed

lemma smtp_path_parses:
  assumes "valid_envelope_address a e" and "length pre = n" and "has_prefix (to_upper (pre @ ''<'' @ a @ ''>'' @ post)) pre"
    and "trim_space (''<'' @ a @ ''>'' @ post) = ''<'' @ a @ ''>'' @ post"
    and "list_all (parameter_ok pre) (str_fields post)"
  shows "parse_smtp_path (pre @ ''<'' @ a @ ''>'' @ post) pre e = Inr a"
proof -
  have "CHR ''>'' \<notin> set (CHR ''<'' # a)" using valid_envelope_no_angle [OF assms(1)] by simp
  then have i: "index_byte CHR ''>'' ((CHR ''<'' # a) @ CHR ''>'' # post) = Some (Suc (length a))"
    using index_byte_append [of "CHR ''>''" "CHR ''<'' # a" post] by simp
  define path where "path = (CHR ''<'' # a) @ CHR ''>'' # post"
  have path: "trim_space (drop (length pre) (pre @ ''<'' @ a @ ''>'' @ post)) = path"
    "has_prefix path ''<''" "index_byte CHR ''>'' path = Some (Suc (length a))"
    "take (Suc (length a) - 1) (drop 1 path) = a" "drop (Suc (Suc (length a))) path = post"
    using assms(4) i by (simp_all add: path_def has_prefix_def)
  show ?thesis
    unfolding parse_smtp_path_def Let_def path using assms(1,3,5) by (simp add: path_def has_prefix_def)
qed

text \<open>
  The envelope commands the proxy writes are read back by its own parser: RCPT and MAIL
  commands for valid addresses parse to the same addresses.
\<close>

theorem envelope_commands_parse:
  assumes "valid_envelope_address a False" and "valid_envelope_address from True"
  shows "parse_smtp_path (rcpt_command a) ''RCPT TO:'' False = Inr a \<and>
     parse_smtp_path (mail_command u from) ''MAIL FROM:'' True = Inr from"
proof
  have t: "trim_space (''<'' @ b @ ''>'') = ''<'' @ b @ ''>''" for b
    by (rule trim_space_id) (simp add: is_space_def)
  have t8: "trim_space (''<'' @ b @ ''> BODY=8BITMIME'') = ''<'' @ b @ ''> BODY=8BITMIME''" for b
    by (rule trim_space_id) (simp add: is_space_def)
  have up: "has_prefix (to_upper (''RCPT TO:'' @ x)) ''RCPT TO:''" "has_prefix (to_upper (''MAIL FROM:'' @ x)) ''MAIL FROM:''" for x
    by (simp_all add: has_prefix_def to_upper_def upper_char_def is_lower_def char_code_def)
  have par: "list_all (parameter_ok ''MAIL FROM:'') (str_fields '' BODY=8BITMIME'')" by code_simp
  show "parse_smtp_path (rcpt_command a) ''RCPT TO:'' False = Inr a"
    using smtp_path_parses [OF assms(1) refl, of "''RCPT TO:''" "[]"] t [of a] up(1) [of "''<'' @ a @ ''>''"]
    by (simp add: rcpt_command_def)
  show "parse_smtp_path (mail_command u from) ''MAIL FROM:'' True = Inr from"
    using smtp_path_parses [OF assms(2) refl, of "''MAIL FROM:''" "[]"] t [of "from"] up(2) [of "''<'' @ from @ ''>''"]
      smtp_path_parses [OF assms(2) refl, of "''MAIL FROM:''" "'' BODY=8BITMIME''"] t8 [of "from"]
      up(2) [of "''<'' @ from @ ''> BODY=8BITMIME''"] par
    by (simp add: mail_command_def)
qed

theorem envelope_commands_parse_witness:
  "parse_smtp_path (rcpt_command ''c@d'') ''RCPT TO:'' False = Inr ''c@d''"
proof -
  have "valid_envelope_address ''c@d'' False" "valid_envelope_address [] True" by code_simp+
  from envelope_commands_parse [OF this] show ?thesis by blast
qed

section \<open>Control signals\<close>

text \<open>
  C11: The quarantine marker is the proxy's own signal: a client cannot set it. Neither the
  message that the policy sees nor the message after the policy's header changes carries it,
  unless the policy itself adds it.
\<close>

theorem quarantine_marker_private:
  assumes "process_with_mailscript w px s = (r, s')"
    and "\<And>inp out n. w_policy w inp = PolicyDone out \<Longrightarrow> n \<in> fst ` set (po_added out) \<Longrightarrow>
      LF \<notin> set n \<and> LF \<notin> set (the (map_of (po_added out) n)) \<and>
      \<not> names_field quarantine_header (n @ '': '' @ the (map_of (po_added out) n) @ CRLF)"
  shows "\<not> carries_field quarantine_header (s_data s')"
proof -
  define raw where "raw = strip_header (s_data s) quarantine_header"
  define inp where "inp = \<lparr>pi_message = raw, pi_from = s_from s, pi_to = s_recipients s,
      pi_helo = s_helo s, pi_client_ip = s_client_ip s\<rparr>"
  have raw: "\<not> carries_field quarantine_header raw" unfolding raw_def by (rule strip_header_removes)
  have removed: "\<not> carries_field quarantine_header (fold (\<lambda>n raw. strip_header raw n) rs raw)" for rs
  proof -
    have "carries_field quarantine_header (fold (\<lambda>n raw. strip_header raw n) rs r) \<Longrightarrow>
        carries_field quarantine_header r" for r
      by (induction rs arbitrary: r) (auto dest: strip_header_mono)
    with raw show ?thesis by blast
  qed
  show ?thesis
  proof (cases "w_policy w inp")
    case (PolicyDone out)
    have "s_data s' = apply_header_changes raw (po_removed out) (po_added out)"
      using assms(1) PolicyDone by (auto simp: process_with_mailscript_def Let_def raw_def inp_def)
    moreover have "\<forall>n \<in> fst ` set (po_added out). LF \<notin> set n \<and> LF \<notin> set (the (map_of (po_added out) n)) \<and>
        \<not> names_field quarantine_header (n @ '': '' @ the (map_of (po_added out) n) @ CRLF)"
      using assms(2) [OF PolicyDone] by blast
    ultimately show ?thesis
      using carries_apply_modified removed by (metis apply_header_changes_def)
  qed (use assms(1) raw in \<open>auto simp: process_with_mailscript_def Let_def raw_def inp_def\<close>)
qed

theorem quarantine_marker_private_witness:
  "\<not> carries_field quarantine_header (s_data (snd (process_with_mailscript demo_world demo_proxy
     (ready_to_deliver\<lparr>s_data := ''X-MailScript-Quarantine: true'' @ CRLF @ ''A: b'' @ CRLF\<rparr>))))"
proof -
  obtain r s' where p: "process_with_mailscript demo_world demo_proxy
     (ready_to_deliver\<lparr>s_data := ''X-MailScript-Quarantine: true'' @ CRLF @ ''A: b'' @ CRLF\<rparr>) = (r, s')"
    by (metis surj_pair)
  have "\<not> carries_field quarantine_header (s_data s')"
    by (rule quarantine_marker_private [OF p]) (auto simp: demo_world_def)
  with p show ?thesis by simp
qed

section \<open>A defect\<close>

text \<open>
  C12: After DATA is refused for its line endings the code closes the connection but goes on
  executing what is in its buffer. In every session in which TLS is not on offer any more, with
  whatever bytes in the buffer, the rounds behind the refused DATA do exactly what they do on an
  open connection whose client reset the transaction and sent these bytes as commands, backend
  transactions and deliveries included; only their replies are dropped, so that the last thing
  the client is told is the 550.
\<close>

theorem framing_error_goes_on:
  assumes "s_mail_set s" and "s_recipients s \<noteq> []" and "s_open s" and "no_starttls px s"
    and "data_loop [] (s_reader s) = (DataBadLine, rd)" and "s' = handle_data w px s"
  shows "s_out s' = s_out s @ [''354 End data with <CR><LF>.<CR><LF>'' @ CRLF,
       ''550 DATA requires CRLF line endings'' @ CRLF] \<and>
     run_loop fuel (serve_line w px) s' =
       map_option (\<lambda>r. r\<lparr>s_open := False, s_out := s_out s'\<rparr>)
         (run_loop fuel (serve_line w px) ((reset_transaction s)\<lparr>s_reader := rd\<lparr>rd_net := []\<rparr>\<rparr>))"
proof
  show "s_out s' = s_out s @ [''354 End data with <CR><LF>.<CR><LF>'' @ CRLF,
       ''550 DATA requires CRLF line endings'' @ CRLF]"
    using assms by (simp add: handle_data_def Let_def write_line_def)
  define t where "t = (reset_transaction s)\<lparr>s_reader := left_in_buffer rd\<rparr>"
  have s': "s' = unheard (s_out s') t" using refused_data [OF assms(1,2,5)] assms(6) by (simp add: t_def)
  have "no_starttls px t" using assms(4) by (simp add: t_def no_starttls_def)
  then have "run_loop fuel (serve_line w px) (unheard (s_out s') t) =
      map_option (unheard (s_out s')) (run_loop fuel (serve_line w px) t)" by (rule unheard_run)
  then show "run_loop fuel (serve_line w px) s' =
      map_option (\<lambda>r. r\<lparr>s_open := False, s_out := s_out s'\<rparr>)
        (run_loop fuel (serve_line w px) ((reset_transaction s)\<lparr>s_reader := rd\<lparr>rd_net := []\<rparr>\<rparr>))"
    using s' by (simp add: t_def left_in_buffer_def unheard_def [abs_def])
qed

text \<open>A message whose body holds a bare LF and then a whole transaction of its own.\<close>

definition smuggled_body :: string where
  "smuggled_body = ''Hi'' @ [LF] @ ''MAIL FROM:<x@y>'' @ CRLF @ ''RCPT TO:<v@w>'' @ CRLF @ ''DATA'' @ CRLF @
     ''Yo'' @ CRLF @ ''.'' @ CRLF"

definition before_smuggling :: session where
  "before_smuggling = greeted\<lparr>s_mail_set := True, s_from := ''a@b'', s_recipients := [''c@d''],
     s_reader := \<lparr>rd_buf = smuggled_body, rd_net = []\<rparr>\<rparr>"

theorem framing_error_goes_on_witness:
  "map_option (\<lambda>r. (commits demo_world r, s_out r))
     (run_loop 5 (serve_line demo_world demo_proxy) (handle_data demo_world demo_proxy before_smuggling)) =
   Some (1, [''354 End data with <CR><LF>.<CR><LF>'' @ CRLF, ''550 DATA requires CRLF line endings'' @ CRLF])"
proof -
  define rd where "rd = snd (data_loop [] (s_reader before_smuggling))"
  have h: "s_mail_set before_smuggling" "s_recipients before_smuggling \<noteq> []" "s_open before_smuggling"
    "no_starttls demo_proxy before_smuggling" "s_out before_smuggling = []"
    by (simp_all add: before_smuggling_def greeted_def new_session_def no_starttls_def demo_proxy_def)
  have "fst (data_loop [] (s_reader before_smuggling)) = DataBadLine" by code_simp
  then have r: "data_loop [] (s_reader before_smuggling) = (DataBadLine, rd)" by (simp add: rd_def prod_eq_iff)
  have c: "map_option (commits demo_world) (run_loop 5 (serve_line demo_world demo_proxy)
      ((reset_transaction before_smuggling)\<lparr>s_reader := rd\<lparr>rd_net := []\<rparr>\<rparr>)) = Some 1"
    unfolding rd_def by code_simp
  have d: "commits w (x\<lparr>s_open := b, s_out := y\<rparr>) = commits w x" for w x b y by (simp add: commits_def)
  show ?thesis
    using framing_error_goes_on [OF h(1-4) r refl, of demo_world 5] c h(5)
    by (auto simp: option.map_comp o_def d)
qed

text \<open>The same from the client's first byte on: one message committed, none acknowledged.\<close>

definition smuggled_net :: "string list" where
  "smuggled_net = [''HELO a'' @ CRLF @ ''MAIL FROM:<a@b>'' @ CRLF @ ''RCPT TO:<c@d>'' @ CRLF @ ''DATA'' @ CRLF @
     smuggled_body]"

lemma smuggled_commit:
  "map_option (\<lambda>s. (commits demo_world s, accepts_sent s, last (s_out s) = ''550 DATA requires CRLF line endings'' @ CRLF))
     (handle_smtp_connection demo_world demo_proxy ''192.0.2.1'' smuggled_net) = Some (1, 0, True)"
  by code_simp

end
