(* ===== verification/NetIp.thy ===== *)
theory NetIp
  imports GoStrings "HOL-Library.Word"
begin

text \<open>
  The part of Go's \<^verbatim>\<open>net\<close> package that the program uses on addresses: \<^verbatim>\<open>ParseIP\<close>,
  \<^verbatim>\<open>ParseCIDR\<close>, \<^verbatim>\<open>IP.String\<close>, \<^verbatim>\<open>IPNet.Contains\<close> and \<^verbatim>\<open>IP.IsLoopback\<close>. An address is the
  128-bit number of its 16-byte form; an IPv4 address is its mapped form \<open>::ffff:a.b.c.d\<close>,
  as in Go, so that \<^verbatim>\<open>IP.Equal\<close> is equality.
\<close>

unbundle bit_operations_syntax

type_synonym ip_addr = "128 word"

definition v4_mapped :: "32 word \<Rightarrow> ip_addr" where
  "v4_mapped w = push_bit 32 0xffff OR ucast w"

definition is_v4 :: "ip_addr \<Rightarrow> bool" where
  "is_v4 ip \<longleftrightarrow> drop_bit 32 ip = 0xffff"

section \<open>Parsing\<close>

definition parse_octet :: "string \<Rightarrow> nat option" where
  "parse_octet s =
     (case parse_digits s of
        None \<Rightarrow> None
      | Some n \<Rightarrow> if (length s > 1 \<and> s ! 0 = CHR ''0'') \<or> n > 255 then None else Some n)"

definition parse_ipv4 :: "string \<Rightarrow> 32 word option" where
  "parse_ipv4 s =
     (case map parse_octet (split_on CHR ''.'' s) of
        [Some a, Some b, Some c, Some d] \<Rightarrow> Some (word_of_nat (((a * 256 + b) * 256 + c) * 256 + d))
      | _ \<Rightarrow> None)"

definition hex_val :: "char \<Rightarrow> nat option" where
  "hex_val c =
     (let n = char_code c in
      if 48 \<le> n \<and> n \<le> 57 then Some (n - 48)
      else if 97 \<le> n \<and> n \<le> 102 then Some (n - 87)
      else if 65 \<le> n \<and> n \<le> 70 then Some (n - 55) else None)"

definition is_hex :: "char \<Rightarrow> bool" where
  "is_hex c \<longleftrightarrow> hex_val c \<noteq> None"

definition hex_number :: "string \<Rightarrow> nat" where
  "hex_number s = foldl (\<lambda>acc c. 16 * acc + the (hex_val c)) 0 s"

text \<open>
  The groups of an IPv6 address from the point \<open>s\<close> on: \<open>groups\<close> were read before it and
  \<open>ellipsis\<close> is the place of a \<open>::\<close>. The result holds all groups and that place.
\<close>

function parse_groups :: "nat list \<Rightarrow> nat option \<Rightarrow> string \<Rightarrow> (nat list \<times> nat option) option" where
  "parse_groups groups ellipsis s =
     (if length groups \<ge> 8 then (if s = [] then Some (groups, ellipsis) else None)
      else
        let digits = takeWhile is_hex s; rest = dropWhile is_hex s in
        if digits = [] \<or> length digits > 4 then None
        else if rest \<noteq> [] \<and> hd rest = CHR ''.'' then
          (if (ellipsis = None \<and> length groups \<noteq> 6) \<or> length groups > 6 then None
           else (case parse_ipv4 s of
               None \<Rightarrow> None
             | Some w \<Rightarrow> Some (groups @ [unat (drop_bit 16 w), unat (take_bit 16 w)], ellipsis)))
        else
          let groups' = groups @ [hex_number digits] in
          (case rest of
             [] \<Rightarrow> Some (groups', ellipsis)
           | c # t \<Rightarrow>
               if c \<noteq> CHR '':'' then None
               else (case t of
                   [] \<Rightarrow> None
                 | d # u \<Rightarrow>
                     if d = CHR '':'' then
                       (if ellipsis \<noteq> None then None
                        else if u = [] then Some (groups', Some (length groups'))
                        else parse_groups groups' (Some (length groups')) u)
                     else parse_groups groups' ellipsis t)))"
  by pat_completeness auto
termination
proof (relation "measure (\<lambda>(g, e, s). length s)", goal_cases)
  case 1
  then show ?case by simp
next
  case (2 groups ellipsis s digits rest groups' c t d u)
  have "length (dropWhile is_hex s) \<le> length s" by (rule length_dropWhile_le)
  moreover have "dropWhile is_hex s = c # d # u" using 2 by simp
  ultimately have "Suc (Suc (length u)) \<le> length s" by simp
  with 2 show ?case by simp
next
  case (3 groups ellipsis s digits rest groups' c t d u)
  have "length (dropWhile is_hex s) \<le> length s" by (rule length_dropWhile_le)
  moreover have "dropWhile is_hex s = c # d # u" using 3 by simp
  ultimately have "Suc (Suc (length u)) \<le> length s" by simp
  with 3 show ?case by simp
qed

declare parse_groups.simps [simp del]

definition groups_word :: "nat list \<Rightarrow> ip_addr" where
  "groups_word gs = foldl (\<lambda>acc g. push_bit 16 acc OR word_of_nat g) 0 gs"

definition expand_groups :: "nat list \<Rightarrow> nat option \<Rightarrow> nat list option" where
  "expand_groups groups ellipsis =
     (case ellipsis of
        None \<Rightarrow> if length groups = 8 then Some groups else None
      | Some e \<Rightarrow> if length groups < 8
          then Some (take e groups @ replicate (8 - length groups) 0 @ drop e groups) else None)"

definition parse_ipv6 :: "string \<Rightarrow> ip_addr option" where
  "parse_ipv6 s =
     (if has_prefix s ''::'' then
        (if length s = 2 then Some 0
         else (case parse_groups [] (Some 0) (drop 2 s) of
             None \<Rightarrow> None | Some (g, e) \<Rightarrow> map_option groups_word (expand_groups g e)))
      else (case parse_groups [] None s of
             None \<Rightarrow> None | Some (g, e) \<Rightarrow> map_option groups_word (expand_groups g e)))"

text \<open>
  \<^verbatim>\<open>netip.ParseAddr\<close>: the first dot or colon decides the family; an address with a zone is
  of no use to any caller and counts as an error. The flag says whether it was written as IPv4.
\<close>

definition parse_addr :: "string \<Rightarrow> (bool \<times> ip_addr) option" where
  "parse_addr s =
     (case filter (\<lambda>c. c = CHR ''.'' \<or> c = CHR '':'' \<or> c = CHR ''%'') s of
        [] \<Rightarrow> None
      | c # _ \<Rightarrow>
          if c = CHR ''%'' \<or> CHR ''%'' \<in> set s then None
          else if c = CHR ''.'' then map_option (\<lambda>w. (True, v4_mapped w)) (parse_ipv4 s)
          else map_option (Pair False) (parse_ipv6 s))"

definition parse_ip :: "string \<Rightarrow> ip_addr option" where
  "parse_ip s = map_option snd (parse_addr s)"

section \<open>Networks\<close>

text \<open>
  The bits of \<open>ip\<close> and \<open>net\<close> that a prefix of length \<open>len\<close> leaves out of \<open>bits\<close> bits are
  not compared.
\<close>

definition same_prefix :: "nat \<Rightarrow> nat \<Rightarrow> ip_addr \<Rightarrow> ip_addr \<Rightarrow> bool" where
  "same_prefix bits len a b \<longleftrightarrow> drop_bit (bits - len) (take_bit bits a) = drop_bit (bits - len) (take_bit bits b)"

record ip_net =
  net_v4 :: bool
  net_addr :: ip_addr
  net_len :: nat

definition parse_cidr :: "string \<Rightarrow> ip_net option" where
  "parse_cidr s =
     (case index_byte CHR ''/'' s of
        None \<Rightarrow> None
      | Some i \<Rightarrow>
          (case (parse_addr (take i s), parse_digits (drop (Suc i) s)) of
             (Some (v4, ip), Some n) \<Rightarrow>
               if n > (if v4 then 32 else 128) then None
               else Some \<lparr>net_v4 = v4, net_addr = ip, net_len = n\<rparr>
           | _ \<Rightarrow> None))"

text \<open>
  \<^verbatim>\<open>IPNet.Contains\<close>: the network number is the address under the mask; when it is an IPv4
  address, also in its mapped form, the last four bytes are compared and only IPv4 addresses
  can be contained.
\<close>

definition net_number :: "ip_net \<Rightarrow> ip_addr" where
  "net_number net =
     (if net_v4 net then push_bit 32 0xffff OR push_bit (32 - net_len net) (drop_bit (32 - net_len net) (take_bit 32 (net_addr net)))
      else push_bit (128 - net_len net) (drop_bit (128 - net_len net) (net_addr net)))"

definition net_contains :: "ip_net \<Rightarrow> ip_addr \<Rightarrow> bool" where
  "net_contains net ip \<longleftrightarrow>
     (if is_v4 (net_number net)
      then is_v4 ip \<and> same_prefix 32 (if net_v4 net then net_len net else net_len net - 96) ip (net_number net)
      else \<not> is_v4 ip \<and> \<not> net_v4 net \<and> same_prefix 128 (net_len net) ip (net_number net))"

definition is_loopback :: "ip_addr \<Rightarrow> bool" where
  "is_loopback ip \<longleftrightarrow> (if is_v4 ip then take_bit 8 (drop_bit 24 ip) = 127 else ip = 1)"

section \<open>Printing\<close>

definition v4_octets :: "ip_addr \<Rightarrow> nat list" where
  "v4_octets ip = map (\<lambda>k. unat (take_bit 8 (drop_bit k ip))) [24, 16, 8, 0]"

definition v6_groups :: "ip_addr \<Rightarrow> nat list" where
  "v6_groups ip = map (\<lambda>k. unat (take_bit 16 (drop_bit k ip))) [112, 96, 80, 64, 48, 32, 16, 0]"

definition hex_char :: "nat \<Rightarrow> char" where
  "hex_char n = (if n < 10 then char_of (n + 48) else char_of (n + 87))"

fun show_hex :: "nat \<Rightarrow> string" where
  "show_hex n = (if n < 16 then [hex_char n] else show_hex (n div 16) @ [hex_char (n mod 16)])"

declare show_hex.simps [simp del]

text \<open>The longest run of at least two zero groups, the first of several.\<close>

definition zero_run :: "nat list \<Rightarrow> nat \<times> nat" where
  "zero_run gs =
     fold (\<lambda>i (a, b).
        let l = length (takeWhile (\<lambda>g. g = 0) (drop i gs)) in
        if l \<ge> 2 \<and> l > b - a then (i, i + l) else (a, b)) [0..<length gs] (8, 8)"

definition ip_string :: "ip_addr \<Rightarrow> string" where
  "ip_string ip =
     (if is_v4 ip then join ''.'' (map show_nat (v4_octets ip))
      else
        let gs = v6_groups ip; (a, b) = zero_run gs; h = join '':'' \<circ> map show_hex
        in if a < b then h (take a gs) @ ''::'' @ h (drop b gs) else h gs)"

text \<open>\<^verbatim>\<open>hex.EncodeToString\<close> of the 16 bytes.\<close>

definition ip_nibbles :: "ip_addr \<Rightarrow> string" where
  "ip_nibbles ip = map (\<lambda>k. hex_char (unat (take_bit 4 (drop_bit (4 * k) ip)))) (rev [0..<32])"

section \<open>Facts\<close>

lemma is_v4_mapped [simp]: "is_v4 (v4_mapped w)"
proof -
  have "drop_bit 32 (ucast w :: ip_addr) = 0"
    by (rule bit_word_eqI) (auto simp: bit_simps dest: bit_imp_le_length)
  moreover have "drop_bit 32 (push_bit 32 0xffff :: ip_addr) = 0xffff" by simp
  ultimately show ?thesis by (simp add: is_v4_def v4_mapped_def drop_bit_or)
qed

text \<open>Arithmetic code equations, so that concrete addresses are evaluated quickly.\<close>

lemma v4_mapped_code [code]: "v4_mapped w = word_of_nat (0xffff00000000 + unat w)"
proof -
  have "push_bit 32 0xffff AND (ucast w :: ip_addr) = 0"
    by (rule bit_word_eqI) (simp only: bit_and_iff bit_push_bit_iff bit_ucast_iff bit_0_eq bot_apply, auto dest: bit_imp_le_length)
  then have "v4_mapped w = push_bit 32 0xffff + ucast w"
    unfolding v4_mapped_def by (simp only: disjunctive_add_eq_or)
  then show ?thesis by (simp add: push_bit_eq_mult)
qed

lemma is_v4_code [code]: "is_v4 ip \<longleftrightarrow> unat ip div 0x100000000 = 0xffff"
proof -
  have "unat (drop_bit 32 ip) = unat ip div 0x100000000" unfolding unat_drop_bit_eq by (simp add: drop_bit_eq_div)
  then show ?thesis by (simp only: is_v4_def word_unat_eq_iff) simp
qed

lemma same_prefix_code [code]: "same_prefix bits len a b \<longleftrightarrow>
  (unat a mod 2 ^ bits) div 2 ^ (bits - len) = (unat b mod 2 ^ bits) div 2 ^ (bits - len)"
  unfolding same_prefix_def word_unat_eq_iff unat_drop_bit_eq unsigned_take_bit_eq
  by (simp only: drop_bit_eq_div take_bit_eq_mod)

lemma same_prefix_full: "same_prefix bits bits a b \<longleftrightarrow> take_bit bits a = take_bit bits b"
  by (simp add: same_prefix_def)

lemma same_prefix_mono:
  assumes "same_prefix bits len a b" and "k \<le> len"
  shows "same_prefix bits k a b"
proof -
  have e: "(bits - k) - (bits - len) + (bits - len) = bits - k" using assms(2) by arith
  have *: "drop_bit (bits - k) x = drop_bit ((bits - k) - (bits - len)) (drop_bit (bits - len) x)" for x :: ip_addr
    by (simp only: drop_bit_drop_bit e)
  show ?thesis
    unfolding same_prefix_def * using assms(1) by (simp add: same_prefix_def)
qed

lemma same_prefix_refl [simp]: "same_prefix bits len a a"
  by (simp add: same_prefix_def)

text \<open>The predicates in terms of bits.\<close>

lemma same_prefix_bits:
  "bits \<le> 128 \<Longrightarrow> same_prefix bits len a b \<longleftrightarrow> (\<forall>i. bits - len \<le> i \<and> i < bits \<longrightarrow> bit a i = bit b i)"
proof
  assume "same_prefix bits len a b"
  then have *: "bit (drop_bit (bits - len) (take_bit bits a)) n = bit (drop_bit (bits - len) (take_bit bits b)) n" for n
    by (simp add: same_prefix_def)
  show "\<forall>i. bits - len \<le> i \<and> i < bits \<longrightarrow> bit a i = bit b i"
  proof (intro allI impI)
    fix i assume "bits - len \<le> i \<and> i < bits"
    then show "bit a i = bit b i" using * [of "i - (bits - len)"] by (auto simp: bit_simps)
  qed
next
  assume h: "bits \<le> 128" "\<forall>i. bits - len \<le> i \<and> i < bits \<longrightarrow> bit a i = bit b i"
  show "same_prefix bits len a b"
    unfolding same_prefix_def by (rule bit_word_eqI) (use h(2) in \<open>auto simp: bit_simps\<close>)
qed

lemma is_v4_bits: "is_v4 ip \<longleftrightarrow> (\<forall>i. 32 \<le> i \<and> i < 128 \<longrightarrow> bit ip i = (i < 48))"
proof -
  have m: "(0xffff :: ip_addr) = mask 16" by (simp add: mask_eq_exp_minus_1)
  have b: "bit (drop_bit 32 ip) n = bit ip (32 + n)" "bit (mask 16 :: ip_addr) n \<longleftrightarrow> n < 16" for n
    by (auto simp: bit_simps)
  show ?thesis
  proof
    assume "is_v4 ip"
    then have *: "bit ip (32 + n) = (n < 16)" for n using b by (simp add: is_v4_def m)
    show "\<forall>i. 32 \<le> i \<and> i < 128 \<longrightarrow> bit ip i = (i < 48)"
    proof (intro allI impI)
      fix i :: nat assume "32 \<le> i \<and> i < 128"
      then show "bit ip i = (i < 48)" using * [of "i - 32"] by auto
    qed
  next
    assume h: "\<forall>i. 32 \<le> i \<and> i < 128 \<longrightarrow> bit ip i = (i < 48)"
    have "drop_bit 32 ip = mask 16"
    proof (rule bit_word_eqI)
      fix n assume "n < LENGTH(128)"
      show "bit (drop_bit 32 ip) n = bit (mask 16 :: ip_addr) n"
      proof (cases "n < 96")
        case True
        then show ?thesis using b h by auto
      next
        case False
        then have "\<not> bit ip (32 + n)" by (auto dest: bit_imp_le_length)
        with False b show ?thesis by auto
      qed
    qed
    then show "is_v4 ip" by (simp add: is_v4_def m)
  qed
qed

lemma net_number_bits:
  assumes "net_len net \<le> (if net_v4 net then 32 else 128)" and "i < 128"
  shows "bit (net_number net) i \<longleftrightarrow>
     (if net_v4 net then (if i < 32 then 32 - net_len net \<le> i \<and> bit (net_addr net) i else i < 48)
      else 128 - net_len net \<le> i \<and> bit (net_addr net) i)"
proof -
  have m: "(0xffff :: ip_addr) = mask 16" by (simp add: mask_eq_exp_minus_1)
  show ?thesis
    using assms unfolding net_number_def m by (auto simp: bit_simps)
qed

text \<open>A network contains the addresses of its family that share the prefix.\<close>

lemma net_contains_v4:
  assumes "net_v4 net" and "net_len net \<le> 32"
  shows "net_contains net ip \<longleftrightarrow> is_v4 ip \<and> same_prefix 32 (net_len net) ip (net_addr net)"
proof -
  have "is_v4 (net_number net)" unfolding is_v4_bits using net_number_bits [of net] assms by auto
  moreover have "same_prefix 32 (net_len net) ip (net_number net) = same_prefix 32 (net_len net) ip (net_addr net)"
    using net_number_bits [of net] assms by (auto simp: same_prefix_bits)
  ultimately show ?thesis using assms by (simp add: net_contains_def)
qed

lemma net_contains_v6:
  assumes "\<not> net_v4 net" and "net_len net \<le> 128" and "\<not> is_v4 (net_addr net)"
  shows "net_contains net ip \<longleftrightarrow> \<not> is_v4 ip \<and> same_prefix 128 (net_len net) ip (net_addr net)"
proof -
  have "\<not> is_v4 (net_number net)"
  proof
    assume v: "is_v4 (net_number net)"
    have "bit (net_number net) 32" using v unfolding is_v4_bits by auto
    then have "128 - net_len net \<le> 32" using net_number_bits [of net 32] assms by auto
    then have "bit (net_addr net) i = (i < 48)" if "32 \<le> i" "i < 128" for i
      using v net_number_bits [of net i] assms that unfolding is_v4_bits by auto
    then show False using assms(3) unfolding is_v4_bits by blast
  qed
  moreover have "same_prefix 128 (net_len net) ip (net_number net) = same_prefix 128 (net_len net) ip (net_addr net)"
    using net_number_bits [of net] assms by (auto simp: same_prefix_bits)
  ultimately show ?thesis using assms by (simp add: net_contains_def)
qed

lemma parse_cidr_len: "parse_cidr s = Some net \<Longrightarrow> net_len net \<le> (if net_v4 net then 32 else 128)"
  by (auto simp: parse_cidr_def split: option.splits if_splits)

lemma parse_cidr_v4: "parse_cidr s = Some net \<Longrightarrow> net_v4 net \<Longrightarrow> is_v4 (net_addr net)"
  by (auto simp: parse_cidr_def parse_addr_def split: option.splits if_splits list.splits)

end
