(* ===== verification/Spf.thy ===== *)
theory Spf
  imports NetIp
begin

text \<open>
  SPF evaluation, \<^verbatim>\<open>pkg/authverify/spf.go\<close>. The resolver is a parameter: the record \<open>spf_dns\<close>
  holds its answers (\<^verbatim>\<open>LookupTXT\<close>, \<^verbatim>\<open>LookupHost\<close>, \<^verbatim>\<open>LookupMX\<close>, \<^verbatim>\<open>LookupPTR\<close> of
  \<^verbatim>\<open>dnsx.Resolver\<close>). The state of an evaluation is the three limit counters of
  \<^verbatim>\<open>spfEvaluator\<close> and, as a record of the effects, the queries sent to the resolver.

  \<open>check\<close> and \<open>evaluate_mechanism\<close> call each other in the code; here \<open>check\<close> has fuel for the
  depth of the recursion and hands the mechanisms a function for the nested check.
  \<open>check_returns\<close> shows that 12 levels are enough, because every level but the first costs
  one of the 10 lookups.
\<close>

datatype spf_verdict =
  SPFNone | SPFNeutral | SPFPass | SPFFail | SPFSoftfail | SPFTempError | SPFPermError

datatype dns_query = QTxt string | QHost string | QMx string | QPtr string

record spf_dns =
  sd_enabled :: bool
  sd_txt :: "string \<Rightarrow> string list"
  sd_host :: "string \<Rightarrow> string list"
  sd_mx :: "string \<Rightarrow> string list"
  sd_ptr :: "string \<Rightarrow> string list"

record spf_evaluator =
  se_ip :: ip_addr
  se_sender :: string
  se_helo :: string

record spf_state =
  sp_lookups :: nat
  sp_void :: nat
  sp_redirects :: nat
  sp_queries :: "dns_query list"

definition max_spf_lookups :: nat where "max_spf_lookups = 10"
definition max_spf_void :: nat where "max_spf_void = 2"
definition max_spf_redirects :: nat where "max_spf_redirects = 10"
definition max_spf_record :: nat where "max_spf_record = 4096"

datatype spf_error = SpfError (spf_err_result: spf_verdict) (spf_err_msg: string)

text \<open>Steps of the evaluation: an error or a value, and the new state.\<close>

type_synonym 'a spf_step = "(spf_error + 'a) \<times> spf_state"

definition spf_bind :: "'a spf_step \<Rightarrow> ('a \<Rightarrow> spf_state \<Rightarrow> 'b spf_step) \<Rightarrow> 'b spf_step" where
  "spf_bind m f = (case m of (Inl e, st) \<Rightarrow> (Inl e, st) | (Inr a, st) \<Rightarrow> f a st)"

definition query :: "dns_query \<Rightarrow> spf_state \<Rightarrow> spf_state" where
  "query q st = st\<lparr>sp_queries := sp_queries st @ [q]\<rparr>"

definition spend :: "spf_state \<Rightarrow> unit spf_step" where
  "spend st =
     (let st' = st\<lparr>sp_lookups := sp_lookups st + 1\<rparr> in
      if sp_lookups st' > max_spf_lookups
      then (Inl (SpfError SPFPermError ''exceeded the 10 DNS-lookup limit''), st') else (Inr (), st'))"

definition count_void :: "spf_state \<Rightarrow> unit spf_step" where
  "count_void st =
     (let st' = st\<lparr>sp_void := sp_void st + 1\<rparr> in
      if sp_void st' > max_spf_void
      then (Inl (SpfError SPFPermError ''exceeded the 2 void-lookup limit''), st') else (Inr (), st'))"

text \<open>\<^verbatim>\<open>if len(addrs) == 0\<close> count a void lookup.\<close>

definition void_if :: "bool \<Rightarrow> spf_state \<Rightarrow> unit spf_step" where
  "void_if c st = (if c then count_void st else (Inr (), st))"

fun qualifier_to_result :: "char \<Rightarrow> spf_verdict" where
  "qualifier_to_result c =
     (if c = CHR ''-'' then SPFFail else if c = CHR ''~'' then SPFSoftfail
      else if c = CHR ''?'' then SPFNeutral else SPFPass)"

section \<open>The record\<close>

definition is_spf_record :: "string \<Rightarrow> bool" where
  "is_spf_record rec \<longleftrightarrow> has_prefix (to_lower rec) ''v=spf1''"

text \<open>The loop stops at an oversized record, wherever it is in the answer.\<close>

definition find_record :: "spf_dns \<Rightarrow> string \<Rightarrow> spf_state \<Rightarrow> string spf_step" where
  "find_record dns domain st0 =
     (let st = query (QTxt domain) st0; records = sd_txt dns domain in
      if list_ex (\<lambda>r. length r > max_spf_record) records
      then (Inl (SpfError SPFPermError ''SPF record exceeds the size limit''), st)
      else (case filter is_spf_record records of
          [] \<Rightarrow> spf_bind (count_void st) (\<lambda>_ st'. (Inl (SpfError SPFNone (''no SPF record published for '' @ go_quote domain)), st'))
        | [r] \<Rightarrow> (Inr r, st)
        | found \<Rightarrow> (Inl (SpfError SPFPermError
            (show_nat (length found) @ '' SPF records published for '' @ go_quote domain)), st)))"

section \<open>Macros\<close>

definition reverse_v6 :: "ip_addr \<Rightarrow> string" where
  "reverse_v6 ip = join ''.'' (map (\<lambda>c. [c]) (ip_nibbles ip))"

definition macro_value :: "spf_evaluator \<Rightarrow> string \<Rightarrow> char \<Rightarrow> string option" where
  "macro_value ev current letter =
     (if letter = CHR ''s'' then Some (se_sender ev)
      else if letter = CHR ''d'' then Some current
      else if letter = CHR ''i'' then Some (if is_v4 (se_ip ev) then ip_string (se_ip ev) else reverse_v6 (se_ip ev))
      else if letter = CHR ''h'' then Some (se_helo ev)
      else if letter = CHR ''v'' then Some (if is_v4 (se_ip ev) then ''in-addr'' else ''ip6'')
      else if letter = CHR ''l'' then
        map_option (\<lambda>at. take at (se_sender ev)) (last_index CHR ''@'' (se_sender ev))
      else if letter = CHR ''o'' then
        map_option (\<lambda>at. drop (Suc at) (se_sender ev)) (last_index CHR ''@'' (se_sender ev))
      else None)"

text \<open>Go's \<^verbatim>\<open>int\<close> is 64 bits wide and wraps.\<close>

definition macro_digits :: "string \<Rightarrow> 64 word" where
  "macro_digits ds = foldl (\<lambda>n c. n * 10 + word_of_nat (digit_val c)) 0 ds"

definition macro_parts :: "64 word \<Rightarrow> bool \<Rightarrow> string list \<Rightarrow> string list" where
  "macro_parts digits reverse parts =
     (let kept = (if sint digits > 0 \<and> int (length parts) > sint digits
                  then drop (length parts - unat digits) parts else parts)
      in if reverse then rev kept else kept)"

definition expand_macro :: "spf_evaluator \<Rightarrow> string \<Rightarrow> string \<Rightarrow> spf_error + string" where
  "expand_macro ev current expr =
     (case expr of
        [] \<Rightarrow> Inl (SpfError SPFPermError ''empty SPF macro'')
      | letter # tail \<Rightarrow>
          if letter = CHR ''p'' \<or> \<not> is_lower letter
          then Inl (SpfError SPFPermError (''unsupported SPF macro %{'' @ expr @ ''}''))
          else (case macro_value ev current letter of
              None \<Rightarrow> Inl (SpfError SPFPermError (''unsupported SPF macro %{'' @ expr @ ''}''))
            | Some v \<Rightarrow>
                let digits = macro_digits (takeWhile is_digit tail);
                    rest = dropWhile is_digit tail;
                    reverse = has_prefix rest ''r'';
                    delims0 = (if reverse then drop 1 rest else rest);
                    delims = (if delims0 = [] then ''.'' else delims0)
                in Inr (join ''.'' (macro_parts digits reverse (fields_where (\<lambda>c. c \<in> set delims) v)))))"

function expand_spec :: "spf_evaluator \<Rightarrow> string \<Rightarrow> string \<Rightarrow> string \<Rightarrow> spf_error + string" where
  "expand_spec ev current out [] = Inr out"
| "expand_spec ev current out (c # spec) =
     (if c \<noteq> CHR ''%'' then expand_spec ev current (out @ [c]) spec
      else (case spec of
          [] \<Rightarrow> Inl (SpfError SPFPermError ''trailing % in SPF macro string'')
        | d # rest \<Rightarrow>
            if d = CHR ''%'' then expand_spec ev current (out @ ''%'') rest
            else if d = CHR ''_'' then expand_spec ev current (out @ '' '') rest
            else if d = CHR ''-'' then expand_spec ev current (out @ ''%20'') rest
            else if d \<noteq> CHR ''{'' then Inl (SpfError SPFPermError (''invalid SPF macro escape %'' @ [d]))
            else (case index_byte CHR ''}'' rest of
                None \<Rightarrow> Inl (SpfError SPFPermError ''unterminated SPF macro'')
              | Some e \<Rightarrow>
                  (case expand_macro ev current (take e rest) of
                     Inl err \<Rightarrow> Inl err
                   | Inr v \<Rightarrow> expand_spec ev current (out @ v) (drop (Suc e) rest)))))"
  by pat_completeness auto
termination
  by (relation "measure (\<lambda>(ev, current, out, spec). length spec)") auto

definition expand_domain_spec :: "spf_evaluator \<Rightarrow> string \<Rightarrow> string \<Rightarrow> spf_error + string" where
  "expand_domain_spec ev spec current = expand_spec ev current [] spec"

section \<open>Addresses\<close>

definition any_address_matches :: "ip_addr \<Rightarrow> string list \<Rightarrow> nat \<Rightarrow> nat \<Rightarrow> bool" where
  "any_address_matches ip addrs v4_len v6_len =
     list_ex (\<lambda>a. case parse_ip a of
         None \<Rightarrow> False
       | Some p \<Rightarrow> is_v4 p = is_v4 ip \<and>
           net_contains \<lparr>net_v4 = is_v4 p, net_addr = p, net_len = (if is_v4 p then v4_len else v6_len)\<rparr> ip) addrs"

definition ip_equal :: "string \<Rightarrow> ip_addr \<Rightarrow> bool" where
  "ip_equal a ip \<longleftrightarrow> parse_ip a = Some ip"

definition match_ip :: "ip_addr \<Rightarrow> bool \<Rightarrow> string \<Rightarrow> spf_error + bool" where
  "match_ip ip want_v4 v =
     (if v = [] then Inl (SpfError SPFPermError ((if want_v4 then ''ip4'' else ''ip6'') @ '' mechanism has no address''))
      else if want_v4 \<noteq> is_v4 ip then Inr False
      else if contains v ''/'' then
        (case parse_cidr v of
           None \<Rightarrow> Inl (SpfError SPFPermError ((if want_v4 then ''ip4:'' else ''ip6:'') @ v @ '' is not a valid CIDR''))
         | Some net \<Rightarrow> Inr (net_contains net ip))
      else (case parse_ip v of
           None \<Rightarrow> Inl (SpfError SPFPermError ((if want_v4 then ''ip4:'' else ''ip6:'') @ v @ '' is not a valid address''))
         | Some a \<Rightarrow> Inr (a = ip)))"

text \<open>\<^verbatim>\<open>fmt.Sscanf(s, "%d", &n)\<close>: an optional sign and digits; \<^const>\<open>None\<close> leaves \<open>n\<close> alone.\<close>

definition sscanf_int :: "string \<Rightarrow> int option" where
  "sscanf_int s =
     (let sgn = (if s \<noteq> [] \<and> (hd s = CHR ''-'' \<or> hd s = CHR ''+'') then take 1 s else []);
          ds = takeWhile is_digit (drop (length sgn) s)
      in if ds = [] then None else atoi (sgn @ ds))"

definition prefix_len :: "int \<Rightarrow> string \<Rightarrow> int" where
  "prefix_len dflt s = (case sscanf_int s of None \<Rightarrow> dflt | Some n \<Rightarrow> n)"

definition clamp_len :: "nat \<Rightarrow> int \<Rightarrow> nat" where
  "clamp_len bits n = (if n < 0 \<or> n > int bits then bits else nat n)"

definition mechanism_target ::
  "spf_evaluator \<Rightarrow> string \<Rightarrow> string \<Rightarrow> spf_error + (string \<times> nat \<times> nat)" where
  "mechanism_target ev v domain =
     (if v = [] then Inr (domain, 32, 128)
      else
        let (v6, rest1) = (case index_str v ''//'' of
               Some i \<Rightarrow> (prefix_len 128 (drop (i + 2) v), take i v) | None \<Rightarrow> (128, v));
            (v4, rest2) = (case index_byte CHR ''/'' rest1 of
               Some i \<Rightarrow> (prefix_len 32 (drop (Suc i) rest1), take i rest1) | None \<Rightarrow> (32, rest1))
        in (case (if trim_space rest2 \<noteq> [] then map_sum id to_lower (expand_domain_spec ev (trim_space rest2) domain)
                  else Inr domain) of
              Inl e \<Rightarrow> Inl e
            | Inr target \<Rightarrow> Inr (target, clamp_len 32 v4, clamp_len 128 v6)))"

section \<open>Mechanisms\<close>

record spf_outcome =
  so_verdict :: spf_verdict
  so_mechanism :: string
  so_record :: string
  so_error :: "string option"

definition lift_err :: "spf_error + 'a \<Rightarrow> spf_state \<Rightarrow> 'a spf_step" where
  "lift_err r st = (r, st)"

text \<open>The hosts of an mx mechanism are looked up until one matches.\<close>

fun mx_hosts :: "spf_dns \<Rightarrow> ip_addr \<Rightarrow> nat \<Rightarrow> nat \<Rightarrow> string list \<Rightarrow> spf_state \<Rightarrow> bool spf_step" where
  "mx_hosts dns ip l4 l6 [] st = (Inr False, st)"
| "mx_hosts dns ip l4 l6 (h # hs) st =
     (if any_address_matches ip (sd_host dns h) l4 l6 then (Inr True, query (QHost h) st)
      else mx_hosts dns ip l4 l6 hs (query (QHost h) st))"

definition ptr_name :: "string \<Rightarrow> string" where
  "ptr_name name = trim_suffix (to_lower name) ''.''"

fun ptr_names :: "spf_dns \<Rightarrow> ip_addr \<Rightarrow> string \<Rightarrow> string list \<Rightarrow> spf_state \<Rightarrow> bool spf_step" where
  "ptr_names dns ip target [] st = (Inr False, st)"
| "ptr_names dns ip target (raw # names) st =
     (let name = ptr_name raw in
      if name \<noteq> target \<and> \<not> has_suffix name (''.'' @ target) then ptr_names dns ip target names st
      else if list_ex (\<lambda>a. ip_equal a ip) (sd_host dns name) then (Inr True, query (QHost name) st)
      else ptr_names dns ip target names (query (QHost name) st))"

definition include_result :: "string \<Rightarrow> spf_outcome \<Rightarrow> spf_error + bool" where
  "include_result target out =
     (case so_verdict out of
        SPFPass \<Rightarrow> Inr True
      | SPFTempError \<Rightarrow> Inl (SpfError SPFTempError (''include:'' @ target @ '' returned temperror''))
      | SPFNone \<Rightarrow> Inl (SpfError SPFPermError (''include:'' @ target @ '' has no usable SPF record''))
      | SPFPermError \<Rightarrow> Inl (SpfError SPFPermError
          (case so_error out of
             None \<Rightarrow> ''include:'' @ target @ '' returned permerror''
           | Some msg \<Rightarrow> ''include:'' @ target @ '': '' @ msg))
      | _ \<Rightarrow> Inr False)"

type_synonym spf_nested = "string \<Rightarrow> spf_state \<Rightarrow> (spf_outcome \<times> spf_state) option"

definition mech_a :: "spf_dns \<Rightarrow> spf_evaluator \<Rightarrow> string \<Rightarrow> string \<Rightarrow> spf_state \<Rightarrow> bool spf_step" where
  "mech_a dns ev v domain st =
     spf_bind (spend st) (\<lambda>_ st1.
     spf_bind (lift_err (mechanism_target ev v domain) st1) (\<lambda>(target, l4, l6) st2.
     spf_bind (void_if (sd_host dns target = []) (query (QHost target) st2)) (\<lambda>_ st3.
     (Inr (any_address_matches (se_ip ev) (sd_host dns target) l4 l6), st3))))"

definition mech_mx :: "spf_dns \<Rightarrow> spf_evaluator \<Rightarrow> string \<Rightarrow> string \<Rightarrow> spf_state \<Rightarrow> bool spf_step" where
  "mech_mx dns ev v domain st =
     spf_bind (spend st) (\<lambda>_ st1.
     spf_bind (lift_err (mechanism_target ev v domain) st1) (\<lambda>(target, l4, l6) st2.
     spf_bind (void_if (sd_mx dns target = []) (query (QMx target) st2)) (\<lambda>_ st3.
     if length (sd_mx dns target) > 10
     then (Inl (SpfError SPFPermError ''mx mechanism resolved more than 10 hosts''), st3)
     else mx_hosts dns (se_ip ev) l4 l6 (sd_mx dns target) st3)))"

definition spec_target :: "spf_evaluator \<Rightarrow> string \<Rightarrow> string \<Rightarrow> string \<Rightarrow> spf_error + string" where
  "spec_target ev mech v domain =
     (case expand_domain_spec ev v domain of
        Inl e \<Rightarrow> Inl e
      | Inr t \<Rightarrow>
          let target = to_lower (trim_space t) in
          if target = [] then Inl (SpfError SPFPermError (mech @ '' mechanism has no domain'')) else Inr target)"

definition mech_exists :: "spf_dns \<Rightarrow> spf_evaluator \<Rightarrow> string \<Rightarrow> string \<Rightarrow> spf_state \<Rightarrow> bool spf_step" where
  "mech_exists dns ev v domain st =
     spf_bind (spend st) (\<lambda>_ st1.
     spf_bind (lift_err (spec_target ev ''exists'' v domain) st1) (\<lambda>target st2.
     spf_bind (void_if (sd_host dns target = []) (query (QHost target) st2)) (\<lambda>_ st3.
     (Inr (sd_host dns target \<noteq> []), st3))))"

definition mech_ptr :: "spf_dns \<Rightarrow> spf_evaluator \<Rightarrow> string \<Rightarrow> string \<Rightarrow> spf_state \<Rightarrow> bool spf_step" where
  "mech_ptr dns ev v domain st =
     spf_bind (spend st) (\<lambda>_ st1.
     let t = to_lower (trim_space v); target = (if t = [] then domain else t); a = ip_string (se_ip ev) in
     ptr_names dns (se_ip ev) target (sd_ptr dns a) (query (QPtr a) st1))"

definition mech_include ::
  "spf_nested \<Rightarrow> spf_evaluator \<Rightarrow> string \<Rightarrow> string \<Rightarrow> spf_state \<Rightarrow> bool spf_step option" where
  "mech_include nested ev v domain st =
     (case spf_bind (spend st) (\<lambda>_ st1. lift_err (spec_target ev ''include'' v domain) st1) of
        (Inl e, st1) \<Rightarrow> Some (Inl e, st1)
      | (Inr target, st1) \<Rightarrow>
          (case nested target st1 of
             None \<Rightarrow> None
           | Some (out, st2) \<Rightarrow> Some (include_result target out, st2)))"

definition evaluate_mechanism ::
  "spf_nested \<Rightarrow> spf_dns \<Rightarrow> spf_evaluator \<Rightarrow> string \<Rightarrow> string \<Rightarrow> string \<Rightarrow> string \<Rightarrow> spf_state \<Rightarrow> bool spf_step option" where
  "evaluate_mechanism nested dns ev name v body domain st =
     (if name = ''all'' then Some (Inr True, st)
      else if name = ''ip4'' then Some (match_ip (se_ip ev) True v, st)
      else if name = ''ip6'' then Some (match_ip (se_ip ev) False v, st)
      else if name = ''a'' then Some (mech_a dns ev v domain st)
      else if name = ''mx'' then Some (mech_mx dns ev v domain st)
      else if name = ''include'' then mech_include nested ev v domain st
      else if name = ''exists'' then Some (mech_exists dns ev v domain st)
      else if name = ''ptr'' then Some (mech_ptr dns ev v domain st)
      else Some (Inl (SpfError SPFPermError (''unknown SPF mechanism '' @ go_quote body)), st))"

section \<open>Terms and records\<close>

definition is_modifier :: "string \<Rightarrow> nat option" where
  "is_modifier term =
     (case index_byte CHR ''='' term of
        None \<Rightarrow> None
      | Some eq \<Rightarrow> if eq > 0 \<and> \<not> contains_any (take eq term) '':/'' then Some eq else None)"

definition is_qualifier :: "char \<Rightarrow> bool" where
  "is_qualifier c \<longleftrightarrow> c = CHR ''+'' \<or> c = CHR ''-'' \<or> c = CHR ''~'' \<or> c = CHR ''?''"

text \<open>The qualifier and the body of a term, then the name and the value of a body.\<close>

definition term_qualifier :: "string \<Rightarrow> char \<times> string" where
  "term_qualifier term =
     (case term of
        [] \<Rightarrow> (CHR ''+'', [])
      | c # rest \<Rightarrow> if is_qualifier c then (c, rest) else (CHR ''+'', term))"

definition mechanism_parts :: "string \<Rightarrow> string \<times> string" where
  "mechanism_parts body =
     (case index_byte CHR '':'' body of
        Some i \<Rightarrow> (to_lower (take i body), drop (Suc i) body)
      | None \<Rightarrow>
          (case index_byte CHR ''/'' body of
             Some i \<Rightarrow> (to_lower (take i body), drop i body)
           | None \<Rightarrow> (to_lower body, [])))"

definition done_with :: "spf_verdict \<Rightarrow> string \<Rightarrow> string \<Rightarrow> string option \<Rightarrow> spf_outcome" where
  "done_with v m r e = \<lparr>so_verdict = v, so_mechanism = m, so_record = r, so_error = e\<rparr>"

text \<open>The loop over the terms: an outcome, or the redirect modifier found on the way.\<close>

fun spf_terms ::
  "spf_nested \<Rightarrow> spf_dns \<Rightarrow> spf_evaluator \<Rightarrow> string \<Rightarrow> string \<Rightarrow> string list \<Rightarrow> string \<Rightarrow> spf_state \<Rightarrow>
     ((spf_outcome + string) \<times> spf_state) option" where
  "spf_terms nested dns ev domain rec [] redirect st = Some (Inr redirect, st)"
| "spf_terms nested dns ev domain rec (term # terms) redirect st =
     (if term = [] then spf_terms nested dns ev domain rec terms redirect st
      else (case is_modifier term of
          Some eq \<Rightarrow>
            spf_terms nested dns ev domain rec terms
              (if to_lower (take eq term) = ''redirect'' then drop (Suc eq) term else redirect) st
        | None \<Rightarrow>
            (case term_qualifier term of (qualifier, body) \<Rightarrow>
               (case mechanism_parts body of (name, v) \<Rightarrow>
                  (case evaluate_mechanism nested dns ev name v body domain st of
                     None \<Rightarrow> None
                   | Some (Inl e, st') \<Rightarrow> Some (Inl (done_with (spf_err_result e) body rec (Some (spf_err_msg e))), st')
                   | Some (Inr True, st') \<Rightarrow> Some (Inl (done_with (qualifier_to_result qualifier) body rec None), st')
                   | Some (Inr False, st') \<Rightarrow> spf_terms nested dns ev domain rec terms redirect st')))))"

definition follow_redirect ::
  "spf_nested \<Rightarrow> spf_evaluator \<Rightarrow> string \<Rightarrow> string \<Rightarrow> string \<Rightarrow> spf_state \<Rightarrow> (spf_outcome \<times> spf_state) option" where
  "follow_redirect nested ev domain rec redirect st =
     (case expand_domain_spec ev redirect domain of
        Inl e \<Rightarrow> Some (done_with SPFPermError ''redirect'' rec (Some (spf_err_msg e)), st)
      | Inr target \<Rightarrow>
          let st1 = st\<lparr>sp_redirects := sp_redirects st + 1\<rparr> in
          if sp_redirects st1 > max_spf_redirects
          then Some (done_with SPFPermError ''redirect'' rec (Some ''redirect chain exceeded 10 hops''), st1)
          else (case spend st1 of
              (Inl e, st2) \<Rightarrow> Some (done_with SPFPermError ''redirect'' rec (Some (spf_err_msg e)), st2)
            | (Inr _, st2) \<Rightarrow>
                (case nested (to_lower target) st2 of
                   None \<Rightarrow> None
                 | Some (out, st3) \<Rightarrow>
                     if so_verdict out = SPFNone
                     then Some (done_with SPFPermError ''redirect'' (so_record out)
                            (Some (''redirect target '' @ go_quote target @ '' has no SPF record'')), st3)
                     else Some (out, st3))))"

definition check_body ::
  "spf_nested \<Rightarrow> spf_dns \<Rightarrow> spf_evaluator \<Rightarrow> string \<Rightarrow> spf_state \<Rightarrow> (spf_outcome \<times> spf_state) option" where
  "check_body nested dns ev domain st =
     (case find_record dns domain st of
        (Inl e, st1) \<Rightarrow> Some (done_with (spf_err_result e) [] [] (Some (spf_err_msg e)), st1)
      | (Inr rec, st1) \<Rightarrow>
          (case str_fields rec of
             [] \<Rightarrow> Some (done_with SPFPermError [] rec (Some ''record does not start with v=spf1''), st1)
           | version # terms \<Rightarrow>
               if \<not> equal_fold version ''v=spf1''
               then Some (done_with SPFPermError [] rec (Some ''record does not start with v=spf1''), st1)
               else (case spf_terms nested dns ev domain rec terms [] st1 of
                   None \<Rightarrow> None
                 | Some (Inl out, st2) \<Rightarrow> Some (out, st2)
                 | Some (Inr redirect, st2) \<Rightarrow>
                     if redirect \<noteq> [] then follow_redirect nested ev domain rec redirect st2
                     else Some (done_with SPFNeutral [] rec None, st2))))"

fun check_spf :: "nat \<Rightarrow> spf_dns \<Rightarrow> spf_evaluator \<Rightarrow> string \<Rightarrow> spf_state \<Rightarrow> (spf_outcome \<times> spf_state) option" where
  "check_spf 0 dns ev domain st = None"
| "check_spf (Suc n) dns ev domain st = check_body (\<lambda>d s. check_spf n dns ev d s) dns ev domain st"

section \<open>The entry point\<close>

record spf_result =
  sr_result :: spf_verdict
  sr_domain :: string
  sr_sender :: string
  sr_mechanism :: string
  sr_record :: string
  sr_error :: "string option"
  sr_lookups :: nat

definition spf_identity :: "string \<Rightarrow> string \<Rightarrow> string" where
  "spf_identity mail_from helo =
     (if trim_space mail_from = [] then ''postmaster@'' @ trim_space helo else mail_from)"

definition identity_domain :: "string \<Rightarrow> string" where
  "identity_domain identity =
     (let d = (case last_index CHR ''@'' identity of Some at \<Rightarrow> drop (Suc at) identity | None \<Rightarrow> identity)
      in to_lower (trim_set (trim_space d) ''[]''))"

definition spf_fuel :: nat where "spf_fuel = 12"

definition fresh_state :: spf_state where
  "fresh_state = \<lparr>sp_lookups = 0, sp_void = 0, sp_redirects = 0, sp_queries = []\<rparr>"

definition spf_answer ::
  "spf_verdict \<Rightarrow> string \<Rightarrow> string \<Rightarrow> string option \<Rightarrow> spf_result" where
  "spf_answer v domain sender err = \<lparr>sr_result = v, sr_domain = domain, sr_sender = sender, sr_mechanism = [],
     sr_record = [], sr_error = err, sr_lookups = 0\<rparr>"

definition verify_spf :: "spf_dns \<Rightarrow> string \<Rightarrow> string \<Rightarrow> string \<Rightarrow> spf_result option" where
  "verify_spf dns client_ip mail_from helo =
     (if \<not> sd_enabled dns then Some (spf_answer SPFTempError [] mail_from (Some ''no DNS resolver configured''))
      else (case parse_ip client_ip of
          None \<Rightarrow> Some (spf_answer SPFPermError [] mail_from (Some (''client address '' @ go_quote client_ip @ '' is not an IP'')))
        | Some ip \<Rightarrow>
            let identity = spf_identity mail_from helo; domain = identity_domain identity in
            if domain = [] \<or> \<not> contains domain ''.''
            then Some (spf_answer SPFNone domain identity
              (Some (if trim_space mail_from = [] \<and> trim_space helo = []
                     then ''no envelope sender or HELO name supplied; SPF authenticates the SMTP envelope, not the From header''
                     else ''sender identity '' @ go_quote identity @ '' has no usable domain'')))
            else
              let ev = \<lparr>se_ip = ip, se_sender = identity, se_helo = helo\<rparr> in
              (case check_spf spf_fuel dns ev domain fresh_state of
                 None \<Rightarrow> None
               | Some (out, st) \<Rightarrow> Some \<lparr>sr_result = so_verdict out, sr_domain = domain, sr_sender = identity,
                   sr_mechanism = so_mechanism out, sr_record = so_record out, sr_error = so_error out,
                   sr_lookups = sp_lookups st\<rparr>)))"

end
