(* ===== verification/SpfProps.thy ===== *)
theory SpfProps
  imports Spf
begin

text \<open>
  What the limits of SPF evaluation achieve. The locale \<open>spf_nested_check\<close> is the interface
  between a record and the checks it includes: a nested check, entered within the limits and
  after enough lookups were spent, returns, stays within the limits or reports permerror, and
  pays for its queries with lookups. \<^const>\<open>check_body\<close> is analysed once against this
  contract, and \<^const>\<open>check_spf\<close> satisfies it at every depth.
\<close>

section \<open>Limits\<close>

definition within :: "spf_state \<Rightarrow> bool" where
  "within st \<longleftrightarrow> sp_lookups st \<le> max_spf_lookups \<and> sp_void st \<le> max_spf_void"

definition at_most_over :: "spf_state \<Rightarrow> bool" where
  "at_most_over st \<longleftrightarrow> sp_lookups st \<le> Suc max_spf_lookups \<and> sp_void st \<le> Suc max_spf_void"

text \<open>\<open>pays m c st st'\<close>: apart from \<open>c\<close> of them, the new queries cost at least a lookup per \<open>m + 1\<close>.\<close>

definition pays :: "nat \<Rightarrow> nat \<Rightarrow> spf_state \<Rightarrow> spf_state \<Rightarrow> bool" where
  "pays m c st st' \<longleftrightarrow> sp_lookups st \<le> sp_lookups st' \<and>
     length (sp_queries st') + Suc m * sp_lookups st \<le> length (sp_queries st) + Suc m * sp_lookups st' + c"

lemma pays_refl [simp]: "pays m c st st"
  by (simp add: pays_def)

lemma pays_trans: "pays m a st st1 \<Longrightarrow> pays m b st1 st2 \<Longrightarrow> pays m (a + b) st st2"
  unfolding pays_def by linarith

lemma pays_trans0: "pays m 0 st st1 \<Longrightarrow> pays m b st1 st2 \<Longrightarrow> pays m b st st2"
  using pays_trans [of m 0 st st1 b st2] by simp

lemma within_over: "within st \<Longrightarrow> at_most_over st"
  by (simp add: within_def at_most_over_def)

text \<open>The contract of a step that starts within the limits.\<close>

definition sound_step :: "nat \<Rightarrow> nat \<Rightarrow> spf_state \<Rightarrow> 'a spf_step \<Rightarrow> bool" where
  "sound_step m c st r \<longleftrightarrow> pays m c st (snd r) \<and> at_most_over (snd r) \<and>
     (within (snd r) \<or> (\<exists>e. fst r = Inl e \<and> spf_err_result e = SPFPermError))"

lemma sound_stepI: "pays m c st st' \<Longrightarrow> within st' \<Longrightarrow> sound_step m c st (r, st')"
  by (simp add: sound_step_def within_over)

lemma sound_bind:
  assumes "sound_step m a st r" and "\<And>x st1. r = (Inr x, st1) \<Longrightarrow> within st1 \<Longrightarrow> sound_step m b st1 (f x st1)"
  shows "sound_step m (a + b) st (spf_bind r f)"
proof (cases r)
  case (Pair x st1)
  show ?thesis
  proof (cases x)
    case (Inl e)
    then show ?thesis using assms(1) Pair
      by (auto simp: sound_step_def spf_bind_def pays_def)
  next
    case (Inr y)
    then have w: "within st1" using assms(1) Pair by (auto simp: sound_step_def)
    have "sound_step m b st1 (f y st1)" using assms(2) Pair Inr w by simp
    then show ?thesis
      using assms(1) Pair Inr pays_trans [of m a st st1 b "snd (f y st1)"]
      by (simp add: sound_step_def spf_bind_def)
  qed
qed

text \<open>Spending a lookup pays for \<open>m + 1\<close> queries to come.\<close>

definition credit :: "nat \<Rightarrow> nat \<Rightarrow> spf_state \<Rightarrow> spf_state \<Rightarrow> bool" where
  "credit m c st st' \<longleftrightarrow> sp_lookups st \<le> sp_lookups st' \<and>
     length (sp_queries st') + Suc m * sp_lookups st + c \<le> length (sp_queries st) + Suc m * sp_lookups st'"

lemma credit_pays: "credit m c st st' \<Longrightarrow> pays m d st' st'' \<Longrightarrow> d \<le> c \<Longrightarrow> pays m 0 st st''"
  unfolding credit_def pays_def by linarith

lemma spend_cases:
  assumes "within st"
  obtains (over) e st1 where "spend st = (Inl e, st1)" "spf_err_result e = SPFPermError" "at_most_over st1" "pays m 0 st st1"
    | (spent) st1 where "spend st = (Inr (), st1)" "within st1" "credit m (Suc m) st st1"
        "sp_lookups st1 = Suc (sp_lookups st)"
proof (cases "sp_lookups st + 1 > max_spf_lookups")
  case True
  then show thesis
    using assms over [of "SpfError SPFPermError ''exceeded the 10 DNS-lookup limit''" "st\<lparr>sp_lookups := sp_lookups st + 1\<rparr>"]
    by (simp add: spend_def Let_def within_def at_most_over_def pays_def)
next
  case False
  then show thesis
    using assms spent [of "st\<lparr>sp_lookups := sp_lookups st + 1\<rparr>"]
    by (simp add: spend_def Let_def within_def credit_def)
qed

lemma sound_spend:
  assumes "within st" and "\<And>st1. within st1 \<Longrightarrow> sound_step m (Suc m) st1 (f st1)"
  shows "sound_step m 0 st (spf_bind (spend st) (\<lambda>_. f))"
  using assms(1)
proof (cases rule: spend_cases [where m = m])
  case (over e st1)
  then show ?thesis by (auto simp: spf_bind_def sound_step_def)
next
  case (spent st1)
  then have "sound_step m (Suc m) st1 (f st1)" by (simp add: assms(2))
  then show ?thesis
    using spent credit_pays [OF spent(3)] by (auto simp: spf_bind_def sound_step_def)
qed

lemma sound_void_if: "within st \<Longrightarrow> sound_step m 0 st (void_if c st)"
  by (auto simp: void_if_def count_void_def Let_def sound_step_def within_def at_most_over_def pays_def)

lemma sound_lift: "within st \<Longrightarrow> sound_step m 0 st (lift_err r st)"
  by (simp add: lift_err_def sound_stepI)

lemma within_query [simp]: "within (query q st) = within st"
  by (simp add: within_def query_def)

lemma pays_query: "pays m 1 st (query q st)"
  by (simp add: pays_def query_def)

lemma sound_query:
  assumes "sound_step m c (query q st) r"
  shows "sound_step m (Suc c) st r"
  using assms pays_trans [of m 1 st "query q st" c "snd r"] pays_query [of m st q] by (auto simp: sound_step_def)

lemma sound_queried: "within st \<Longrightarrow> sound_step m (Suc 0) st (Inr x, query q st)"
  using pays_query [of m st q] by (simp add: sound_stepI)

lemma sound_weaken: "sound_step m c st r \<Longrightarrow> c \<le> d \<Longrightarrow> sound_step m d st r"
  by (auto simp: sound_step_def pays_def)

lemma sound_mx_hosts: "within st \<Longrightarrow> sound_step m (length hs) st (mx_hosts dns ip l4 l6 hs st)"
proof (induction hs arbitrary: st)
  case Nil
  then show ?case by (simp add: sound_stepI)
next
  case (Cons h hs)
  have "sound_step m (Suc (length hs)) st (Inr True, query (QHost h) st)"
    by (rule sound_weaken [OF sound_queried [OF Cons.prems]]) simp
  moreover have "sound_step m (Suc (length hs)) st (mx_hosts dns ip l4 l6 hs (query (QHost h) st))"
    by (rule sound_query [where q = "QHost h"]) (use Cons in simp)
  ultimately show ?case by simp
qed

lemma sound_ptr_names: "within st \<Longrightarrow> sound_step m (length names) st (ptr_names dns ip target names st)"
proof (induction names arbitrary: st)
  case Nil
  then show ?case by (simp add: sound_stepI)
next
  case (Cons raw names)
  have a: "sound_step m (Suc (length names)) st (Inr True, query (QHost n) st)" for n
    by (rule sound_weaken [OF sound_queried [OF Cons.prems]]) simp
  have b: "sound_step m (Suc (length names)) st (ptr_names dns ip target names st)"
    by (rule sound_weaken [OF Cons.IH [OF Cons.prems]]) simp
  have c: "sound_step m (Suc (length names)) st (ptr_names dns ip target names (query (QHost n) st))" for n
    by (rule sound_query [where q = "QHost n"]) (use Cons in simp)
  show ?case using a b c by (simp add: Let_def)
qed

lemma sound_void_query: "within st \<Longrightarrow> sound_step m (Suc 0) st (void_if c (query q st))"
  by (rule sound_query [where q = q]) (simp add: sound_void_if)

lemma sound_mech_a: "within st \<Longrightarrow> sound_step m 0 st (mech_a dns ev v domain st)"
  unfolding mech_a_def
proof (rule sound_spend)
  fix st1 assume w: "within st1"
  have "sound_step m (0 + (Suc 0 + 0)) st1 (spf_bind (lift_err (mechanism_target ev v domain) st1) (\<lambda>(target, l4, l6) st2.
     spf_bind (void_if (sd_host dns target = []) (query (QHost target) st2)) (\<lambda>_ st3.
     (Inr (any_address_matches (se_ip ev) (sd_host dns target) l4 l6), st3))))"
    by (rule sound_bind [OF sound_lift [OF w]])
       (auto split: prod.split intro!: sound_bind [where a = "Suc 0" and b = 0, simplified] sound_void_query sound_stepI)
  then show "sound_step m (Suc m) st1 (spf_bind (lift_err (mechanism_target ev v domain) st1) (\<lambda>(target, l4, l6) st2.
     spf_bind (void_if (sd_host dns target = []) (query (QHost target) st2)) (\<lambda>_ st3.
     (Inr (any_address_matches (se_ip ev) (sd_host dns target) l4 l6), st3))))"
    by (rule sound_weaken) simp
qed

lemma sound_mech_exists: "within st \<Longrightarrow> sound_step m 0 st (mech_exists dns ev v domain st)"
  unfolding mech_exists_def
proof (rule sound_spend)
  fix st1 assume w: "within st1"
  have "sound_step m (0 + (Suc 0 + 0)) st1 (spf_bind (lift_err (spec_target ev ''exists'' v domain) st1) (\<lambda>target st2.
     spf_bind (void_if (sd_host dns target = []) (query (QHost target) st2)) (\<lambda>_ st3.
     (Inr (sd_host dns target \<noteq> []), st3))))"
    by (rule sound_bind [OF sound_lift [OF w]])
       (auto split: prod.split intro!: sound_bind [where a = "Suc 0" and b = 0, simplified] sound_void_query sound_stepI)
  then show "sound_step m (Suc m) st1 (spf_bind (lift_err (spec_target ev ''exists'' v domain) st1) (\<lambda>target st2.
     spf_bind (void_if (sd_host dns target = []) (query (QHost target) st2)) (\<lambda>_ st3.
     (Inr (sd_host dns target \<noteq> []), st3))))"
    by (rule sound_weaken) simp
qed

lemma sound_mech_mx:
  assumes "within st" and "10 \<le> m"
  shows "sound_step m 0 st (mech_mx dns ev v domain st)"
  unfolding mech_mx_def using assms(1)
proof (rule sound_spend)
  fix st1 assume w: "within st1"
  have tail: "sound_step m m st3 (if length (sd_mx dns t) > 10
     then (Inl (SpfError SPFPermError ''mx mechanism resolved more than 10 hosts''), st3)
     else mx_hosts dns (se_ip ev) l4 l6 (sd_mx dns t) st3)" if "within st3" for t l4 l6 st3
    using that assms(2) sound_weaken [OF sound_mx_hosts [OF that], of "sd_mx dns t" m m]
    by (simp add: sound_stepI)
  have "sound_step m (0 + (Suc 0 + m)) st1 (spf_bind (lift_err (mechanism_target ev v domain) st1) (\<lambda>(target, l4, l6) st2.
     spf_bind (void_if (sd_mx dns target = []) (query (QMx target) st2)) (\<lambda>_ st3.
     if length (sd_mx dns target) > 10
     then (Inl (SpfError SPFPermError ''mx mechanism resolved more than 10 hosts''), st3)
     else mx_hosts dns (se_ip ev) l4 l6 (sd_mx dns target) st3)))"
  proof (rule sound_bind [OF sound_lift [OF w]])
    fix x st2 assume "within st2"
    then show "sound_step m (Suc 0 + m) st2 ((case x of (target, l4, l6) \<Rightarrow> \<lambda>st2.
     spf_bind (void_if (sd_mx dns target = []) (query (QMx target) st2)) (\<lambda>_ st3.
     if length (sd_mx dns target) > 10
     then (Inl (SpfError SPFPermError ''mx mechanism resolved more than 10 hosts''), st3)
     else mx_hosts dns (se_ip ev) l4 l6 (sd_mx dns target) st3)) st2)"
      by (cases x) (simp only: prod.case, intro sound_bind sound_void_query tail)
  qed
  then show "sound_step m (Suc m) st1 (spf_bind (lift_err (mechanism_target ev v domain) st1) (\<lambda>(target, l4, l6) st2.
     spf_bind (void_if (sd_mx dns target = []) (query (QMx target) st2)) (\<lambda>_ st3.
     if length (sd_mx dns target) > 10
     then (Inl (SpfError SPFPermError ''mx mechanism resolved more than 10 hosts''), st3)
     else mx_hosts dns (se_ip ev) l4 l6 (sd_mx dns target) st3)))"
    by simp
qed

lemma sound_mech_ptr:
  assumes "within st" and "length (sd_ptr dns (ip_string (se_ip ev))) \<le> m"
  shows "sound_step m 0 st (mech_ptr dns ev v domain st)"
proof -
  define a where "a = ip_string (se_ip ev)"
  define target where "target = (if to_lower (trim_space v) = [] then domain else to_lower (trim_space v))"
  have "sound_step m (Suc m) st1 (ptr_names dns (se_ip ev) target (sd_ptr dns a) (query (QPtr a) st1))"
    if w: "within st1" for st1
    by (rule sound_weaken [OF sound_query [where q = "QPtr a", OF sound_ptr_names]]) (use w assms(2) in \<open>simp_all add: a_def\<close>)
  then show ?thesis
    unfolding mech_ptr_def Let_def a_def [symmetric] target_def [symmetric] using assms(1) by (rule sound_spend [rotated])
qed

section \<open>The contract of a nested check\<close>

definition sound_check :: "nat \<Rightarrow> nat \<Rightarrow> spf_state \<Rightarrow> (spf_outcome \<times> spf_state) option \<Rightarrow> bool" where
  "sound_check m c st r \<longleftrightarrow> (\<exists>out st'. r = Some (out, st') \<and> pays m c st st' \<and> at_most_over st' \<and>
     (within st' \<or> so_verdict out = SPFPermError))"

lemma sound_checkI:
  "pays m c st st' \<Longrightarrow> within st' \<Longrightarrow> sound_check m c st (Some (out, st'))"
  by (simp add: sound_check_def within_over)

locale spf_nested_check =
  fixes nested :: spf_nested
    and dns :: spf_dns
    and ev :: spf_evaluator
    and m :: nat
    and k :: nat
  assumes ptr_bound: "length (sd_ptr dns (ip_string (se_ip ev))) \<le> m"
    and mx_bound: "10 \<le> m"
    and nested_sound: "within st \<Longrightarrow> k \<le> sp_lookups st \<Longrightarrow> sound_check m 1 st (nested d st)"
begin

definition sound_mech :: "spf_state \<Rightarrow> bool spf_step option \<Rightarrow> bool" where
  "sound_mech st r \<longleftrightarrow> (\<exists>x. r = Some x \<and> sound_step m 0 st x)"

lemma sound_include:
  assumes "within st" and "k \<le> Suc (sp_lookups st)"
  shows "sound_mech st (mech_include nested ev v domain st)"
  using assms(1)
proof (cases rule: spend_cases [where m = m])
  case (over e st1)
  then show ?thesis by (auto simp: mech_include_def spf_bind_def sound_mech_def sound_step_def)
next
  case (spent st1)
  show ?thesis
  proof (cases "spec_target ev ''include'' v domain")
    case (Inl e)
    then show ?thesis
      using spent credit_pays [OF spent(3) pays_refl [of m "Suc m"]] within_over
      by (simp add: mech_include_def spf_bind_def lift_err_def sound_mech_def sound_step_def)
  next
    case (Inr target)
    obtain out st2 where n: "nested target st1 = Some (out, st2)" "pays m 1 st1 st2" "at_most_over st2"
      "within st2 \<or> so_verdict out = SPFPermError"
      using nested_sound [of st1 target] spent assms(2) by (auto simp: sound_check_def)
    have "within st2 \<or> (\<exists>e. include_result target out = Inl e \<and> spf_err_result e = SPFPermError)"
      using n(4) by (auto simp: include_result_def)
    then show ?thesis
      using spent n Inr credit_pays [OF spent(3) n(2)]
      by (simp add: mech_include_def spf_bind_def lift_err_def sound_mech_def sound_step_def)
  qed
qed

lemma sound_evaluate:
  assumes "within st" and "k \<le> Suc (sp_lookups st)"
  shows "sound_mech st (evaluate_mechanism nested dns ev name v body domain st)"
proof -
  have s: "sound_step m 0 st x \<Longrightarrow> sound_mech st (Some x)" for x by (simp add: sound_mech_def)
  have i: "sound_mech st a \<Longrightarrow> sound_mech st b \<Longrightarrow> sound_mech st (if c then a else b)" for a b c by simp
  show ?thesis
    unfolding evaluate_mechanism_def
    by (intro i s sound_include sound_stepI sound_mech_a sound_mech_mx sound_mech_exists sound_mech_ptr
        pays_refl assms mx_bound ptr_bound)
qed

definition sound_terms :: "spf_state \<Rightarrow> ((spf_outcome + string) \<times> spf_state) option \<Rightarrow> bool" where
  "sound_terms st r \<longleftrightarrow> (\<exists>x st'. r = Some (x, st') \<and> pays m 0 st st' \<and> at_most_over st' \<and>
     (within st' \<or> (\<exists>out. x = Inl out \<and> so_verdict out = SPFPermError)))"

lemma sound_terms_step:
  assumes "pays m 0 st st'" and "sound_terms st' r"
  shows "sound_terms st r"
  using assms pays_trans0 by (fastforce simp: sound_terms_def)

lemma sound_spf_terms:
  "within st \<Longrightarrow> k \<le> Suc (sp_lookups st) \<Longrightarrow> sound_terms st (spf_terms nested dns ev domain rec terms redirect st)"
proof (induction terms arbitrary: redirect st)
  case Nil
  then show ?case by (simp add: sound_terms_def within_over)
next
  case (Cons t ts)
  obtain q body where q: "term_qualifier t = (q, body)" by (cases "term_qualifier t")
  obtain name v where n: "mechanism_parts body = (name, v)" by (cases "mechanism_parts body")
  obtain x st' where e: "evaluate_mechanism nested dns ev name v body domain st = Some (x, st')"
      "pays m 0 st st'" "at_most_over st'" "within st' \<or> (\<exists>e. x = Inl e \<and> spf_err_result e = SPFPermError)"
    using sound_evaluate [OF Cons.prems, of name v body domain] by (auto simp: sound_mech_def sound_step_def)
  have le: "sp_lookups st \<le> sp_lookups st'" using e(2) by (simp add: pays_def)
  have stop: "sound_terms st (Some (Inl (done_with vd body rec er), st'))" if "within st' \<or> vd = SPFPermError" for vd er
    using e that by (auto simp: sound_terms_def done_with_def)
  have go: "sound_terms st (spf_terms nested dns ev domain rec ts redirect st')" if "x = Inr b" for b
    using Cons.IH [of st' redirect] e that le Cons.prems(2) sound_terms_step by auto
  show ?case
  proof (cases "t = [] \<or> is_modifier t \<noteq> None")
    case True
    then show ?thesis using Cons by (auto split: option.split)
  next
    case False
    then show ?thesis
      using q n e stop go by (auto split: sum.split bool.split)
  qed
qed

lemma sound_redirect:
  assumes "within st" and "k \<le> Suc (sp_lookups st)"
  shows "sound_check m 0 st (follow_redirect nested ev domain rec redirect st)"
proof (cases "expand_domain_spec ev redirect domain")
  case (Inl e)
  with assms show ?thesis by (simp add: follow_redirect_def sound_checkI)
next
  case (Inr target)
  define st1 where "st1 = st\<lparr>sp_redirects := sp_redirects st + 1\<rparr>"
  have st1: "within st1" "pays m 0 st st1" "k \<le> Suc (sp_lookups st1)"
    using assms by (simp_all add: st1_def within_def pays_def)
  have trans: "sound_check m 0 st1 r \<Longrightarrow> sound_check m 0 st r" for r
    using pays_trans0 [OF st1(2)] by (auto simp: sound_check_def)
  show ?thesis
  proof (cases "sp_redirects st1 > max_spf_redirects")
    case True
    then show ?thesis
      unfolding follow_redirect_def Inr sum.case Let_def st1_def [symmetric] if_P [OF True]
      using st1 by (intro sound_checkI)
  next
    case False
    have eq: "follow_redirect nested ev domain rec redirect st =
        (case spend st1 of
              (Inl e, st2) \<Rightarrow> Some (done_with SPFPermError ''redirect'' rec (Some (spf_err_msg e)), st2)
            | (Inr _, st2) \<Rightarrow>
                (case nested (to_lower target) st2 of
                   None \<Rightarrow> None
                 | Some (out, st3) \<Rightarrow>
                     if so_verdict out = SPFNone
                     then Some (done_with SPFPermError ''redirect'' (so_record out)
                            (Some (''redirect target '' @ go_quote target @ '' has no SPF record'')), st3)
                     else Some (out, st3)))"
      unfolding follow_redirect_def Inr sum.case Let_def st1_def [symmetric] if_not_P [OF False] by (rule refl)
    from st1(1) have "sound_check m 0 st1 (follow_redirect nested ev domain rec redirect st)"
    proof (cases rule: spend_cases [where m = m])
      case (over e st2)
      then show ?thesis by (simp add: eq sound_check_def done_with_def)
    next
      case (spent st2)
      obtain out st3 where n: "nested (to_lower target) st2 = Some (out, st3)" "pays m 1 st2 st3" "at_most_over st3"
        "within st3 \<or> so_verdict out = SPFPermError"
        using nested_sound [of st2 "to_lower target"] spent st1(3) by (auto simp: sound_check_def)
      have "pays m 0 st1 st3" using credit_pays [OF spent(3) n(2)] by simp
      with n spent show ?thesis
        by (auto simp: eq sound_check_def done_with_def)
    qed
    then show ?thesis by (rule trans)
  qed
qed

lemma sound_find_record: "within st \<Longrightarrow> sound_step m 1 st (find_record dns domain st)"
proof -
  assume w: "within st"
  have v: "sound_step m (Suc 0 + 0) st (spf_bind (count_void (query q st)) (\<lambda>_ st'. (Inl e, st') :: string spf_step))" for q e
  proof (rule sound_bind)
    have "count_void (query q st) = void_if True (query q st)" by (simp add: void_if_def)
    then show "sound_step m (Suc 0) st (count_void (query q st))" using sound_void_query [OF w, of m True q] by simp
    show "sound_step m 0 st1 (Inl e, st1)" if "within st1" for st1 using that by (simp add: sound_stepI)
  qed
  have p: "sound_step m 1 st (r, query q st)" for r :: "spf_error + string" and q
    using w pays_query [of m st q] by (simp add: sound_stepI)
  show ?thesis
    using v p by (simp add: find_record_def Let_def split: list.split)
qed

lemma sound_check_body:
  assumes "within st" and "k \<le> Suc (sp_lookups st)"
  shows "sound_check m 1 st (check_body nested dns ev domain st)"
proof -
  obtain r st1 where r: "find_record dns domain st = (r, st1)" by (cases "find_record dns domain st")
  have s: "pays m 1 st st1" "at_most_over st1" "within st1 \<or> (\<exists>e. r = Inl e \<and> spf_err_result e = SPFPermError)"
    using sound_find_record [OF assms(1), of domain] r by (simp_all add: sound_step_def)
  show ?thesis
  proof (cases r)
    case (Inl e)
    with r s show ?thesis by (auto simp: check_body_def sound_check_def done_with_def)
  next
    case (Inr rec)
    with s have w1: "within st1" by auto
    have k1: "k \<le> Suc (sp_lookups st1)" using s(1) assms(2) by (simp add: pays_def)
    have now: "sound_check m 1 st (Some (out, st1))" for out using s w1 by (simp add: sound_checkI)
    show ?thesis
    proof (cases "str_fields rec")
      case Nil
      with r Inr now show ?thesis by (simp add: check_body_def)
    next
      case (Cons version terms)
      obtain x st2 where t: "spf_terms nested dns ev domain rec terms [] st1 = Some (x, st2)" "pays m 0 st1 st2"
        "at_most_over st2" "within st2 \<or> (\<exists>out. x = Inl out \<and> so_verdict out = SPFPermError)"
        using sound_spf_terms [OF w1 k1, of domain rec terms "[]"] by (auto simp: sound_terms_def)
      have p2: "pays m 1 st st2" using pays_trans [OF s(1) t(2)] by simp
      show ?thesis
      proof (cases "equal_fold version ''v=spf1''")
        case False
        with r Inr Cons now show ?thesis by (simp add: check_body_def)
      next
        case True
        show ?thesis
        proof (cases x)
          case (Inl out)
          with r Inr Cons True t p2 show ?thesis
            by (auto simp: check_body_def sound_check_def)
        next
          case red: (Inr redirect)
          have w2: "within st2" "k \<le> Suc (sp_lookups st2)" using t(2,4) k1 red by (auto simp: pays_def)
          obtain out st3 where f: "follow_redirect nested ev domain rec redirect st2 = Some (out, st3)" "pays m 0 st2 st3"
              "at_most_over st3" "within st3 \<or> so_verdict out = SPFPermError"
            using sound_redirect [OF w2, of domain rec redirect] by (auto simp: sound_check_def)
          have "pays m 1 st st3" using pays_trans [OF p2 f(2)] by simp
          with r Inr Cons True t red f p2 w2 show ?thesis
            by (auto simp: check_body_def sound_check_def within_over)
        qed
      qed
    qed
  qed
qed

end

section \<open>Every depth satisfies it\<close>

definition ptr_names_of :: "spf_dns \<Rightarrow> spf_evaluator \<Rightarrow> nat" where
  "ptr_names_of dns ev = length (sd_ptr dns (ip_string (se_ip ev)))"

lemma nested_check_spf:
  "spf_nested_check (\<lambda>d s. check_spf n dns ev d s) dns ev (max 10 (ptr_names_of dns ev)) (12 - n)"
proof (induction n)
  case 0
  show ?case
    by unfold_locales (auto simp: within_def max_spf_lookups_def ptr_names_of_def)
next
  case (Suc n)
  show ?case
  proof (unfold_locales)
    show "sound_check (max 10 (ptr_names_of dns ev)) 1 st (check_spf (Suc n) dns ev d st)"
      if "within st" "12 - Suc n \<le> sp_lookups st" for st d
      using spf_nested_check.sound_check_body [OF Suc, of st d] that by simp
  qed (simp_all add: ptr_names_of_def)
qed

interpretation checked:
  spf_nested_check "\<lambda>d s. check_spf n dns ev d s" dns ev "max 10 (ptr_names_of dns ev)" "12 - n"
  for n dns ev
  by (rule nested_check_spf)

lemma check_returns:
  "sound_check (max 10 (ptr_names_of dns ev)) 1 fresh_state (check_spf spf_fuel dns ev domain fresh_state)"
proof -
  have "within fresh_state" "12 - spf_fuel \<le> sp_lookups fresh_state"
    by (simp_all add: within_def fresh_state_def spf_fuel_def)
  then show ?thesis by (rule checked.nested_sound)
qed

section \<open>Properties\<close>

text \<open>
  C15: SPF evaluation returns for every domain, every record and every answer of the resolver,
  also when records include or redirect to each other in a cycle. It consumes at most 11 DNS
  terms and 3 void lookups, and a result other than permerror stays within the limits of 10
  and 2.
\<close>

theorem spf_returns_within_limits:
  "\<exists>out st. check_spf spf_fuel dns ev domain fresh_state = Some (out, st) \<and>
     sp_lookups st \<le> 11 \<and> sp_void st \<le> 3 \<and>
     (so_verdict out = SPFPermError \<or> sp_lookups st \<le> 10 \<and> sp_void st \<le> 2)"
  using check_returns [of dns ev domain]
  by (auto simp: sound_check_def at_most_over_def within_def max_spf_lookups_def max_spf_void_def)

text \<open>
  C16: The queries that a hostile sender can cause are bounded: with \<open>p\<close> PTR names for the
  client address, one evaluation sends at most 11 terms times (1 + max 10 p) queries, plus
  the first one.
\<close>

theorem spf_queries_bounded:
  assumes "check_spf spf_fuel dns ev domain fresh_state = Some (out, st)"
  shows "length (sp_queries st) \<le> 11 * Suc (max 10 (ptr_names_of dns ev)) + 1"
proof -
  have p: "length (sp_queries st) \<le> Suc (max 10 (ptr_names_of dns ev)) * sp_lookups st + 1" and l: "sp_lookups st \<le> 11"
    using check_returns [of dns ev domain] assms
    by (auto simp: sound_check_def pays_def at_most_over_def max_spf_lookups_def fresh_state_def)
  have "Suc (max 10 (ptr_names_of dns ev)) * sp_lookups st \<le> Suc (max 10 (ptr_names_of dns ev)) * 11"
    using l by (rule mult_le_mono2)
  with p show ?thesis by simp
qed

definition loop_dns :: spf_dns where
  "loop_dns = \<lparr>sd_enabled = True, sd_txt = (\<lambda>d. [''v=spf1 include:a.test include:b.test -all'']),
     sd_host = (\<lambda>_. []), sd_mx = (\<lambda>_. []), sd_ptr = (\<lambda>_. [])\<rparr>"

definition demo_client :: spf_evaluator where
  "demo_client = \<lparr>se_ip = v4_mapped 0xC0000201, se_sender = ''u@a.test'', se_helo = ''h.test''\<rparr>"

theorem spf_queries_bounded_witness:
  "case check_spf spf_fuel loop_dns demo_client ''a.test'' fresh_state of
     None \<Rightarrow> False | Some (out, st) \<Rightarrow> length (sp_queries st) \<le> 122 \<and> so_verdict out = SPFPermError"
proof -
  obtain out st where r: "check_spf spf_fuel loop_dns demo_client ''a.test'' fresh_state = Some (out, st)"
    using check_returns [of loop_dns demo_client "''a.test''"] by (auto simp: sound_check_def)
  have "ptr_names_of loop_dns demo_client = 0" by (simp add: ptr_names_of_def loop_dns_def)
  moreover have "map_option (so_verdict \<circ> fst) (check_spf spf_fuel loop_dns demo_client ''a.test'' fresh_state) = Some SPFPermError"
    by code_simp
  ultimately show ?thesis using spf_queries_bounded [OF r] r by simp
qed

definition ptr_dns :: "nat \<Rightarrow> spf_dns" where
  "ptr_dns n = \<lparr>sd_enabled = True, sd_txt = (\<lambda>_. [''v=spf1 ptr -all'']), sd_host = (\<lambda>_. []), sd_mx = (\<lambda>_. []),
     sd_ptr = (\<lambda>_. replicate n ''x.a.test'')\<rparr>"

lemma ptr_names_replicate:
  assumes "sd_host dns ''x.a.test'' = []"
  shows "ptr_names dns ip ''a.test'' (replicate n ''x.a.test'') st =
     (Inr False, st\<lparr>sp_queries := sp_queries st @ replicate n (QHost ''x.a.test'')\<rparr>)"
proof (induction n arbitrary: st)
  case (Suc n)
  have "ptr_name ''x.a.test'' = ''x.a.test''" by code_simp
  moreover have "has_suffix ''x.a.test'' (''.'' @ ''a.test'')" by code_simp
  ultimately show ?case using Suc assms by (simp add: query_def Let_def)
qed simp

text \<open>
  The comment in the code calls the limits the mechanism that stops a hostile record from
  turning one message into an unbounded DNS amplification. For \<^verbatim>\<open>ptr\<close> they do not: the number
  of PTR names is not limited, so for every \<open>n\<close> there is a resolver for which a record with
  the single term \<^verbatim>\<open>ptr\<close> makes the evaluation send more than \<open>n\<close> queries, within the limits.
\<close>

theorem ptr_queries_unbounded:
  "\<exists>out st. check_spf spf_fuel (ptr_dns n) demo_client ''a.test'' fresh_state = Some (out, st) \<and>
     so_verdict out = SPFFail \<and> sp_lookups st = 1 \<and> length (sp_queries st) > n"
proof -
  define st1 where "st1 = \<lparr>sp_lookups = 1, sp_void = 0, sp_redirects = 0,
     sp_queries = [QTxt ''a.test'', QPtr (ip_string (se_ip demo_client))] @ replicate n (QHost ''x.a.test'')\<rparr>"
  have rec: "find_record (ptr_dns n) ''a.test'' fresh_state =
      (Inr ''v=spf1 ptr -all'', fresh_state\<lparr>sp_queries := [QTxt ''a.test'']\<rparr>)"
  proof -
    have "is_spf_record ''v=spf1 ptr -all''" by code_simp
    then show ?thesis
      by (simp add: find_record_def ptr_dns_def Let_def query_def fresh_state_def max_spf_record_def)
  qed
  have parts: "str_fields ''v=spf1 ptr -all'' = [''v=spf1'', ''ptr'', ''-all'']" by code_simp
  have t1: "is_modifier ''ptr'' = None" "term_qualifier ''ptr'' = (CHR ''+'', ''ptr'')"
    "mechanism_parts ''ptr'' = (''ptr'', [])" by code_simp+
  have t2: "is_modifier ''-all'' = None" "term_qualifier ''-all'' = (CHR ''-'', ''all'')"
    "mechanism_parts ''all'' = (''all'', [])" by code_simp+
  have m1: "evaluate_mechanism nested (ptr_dns n) demo_client ''ptr'' [] ''ptr'' ''a.test''
      (fresh_state\<lparr>sp_queries := [QTxt ''a.test'']\<rparr>) = Some (Inr False, st1)" for nested
  proof -
    have "sd_host (ptr_dns n) ''x.a.test'' = []" by (simp add: ptr_dns_def)
    from ptr_names_replicate [OF this, of "se_ip demo_client" n] show ?thesis
      by (simp add: evaluate_mechanism_def mech_ptr_def spf_bind_def spend_def Let_def max_spf_lookups_def
          fresh_state_def query_def st1_def) (simp add: ptr_dns_def)
  qed
  have m2: "evaluate_mechanism nested (ptr_dns n) demo_client ''all'' [] ''all'' ''a.test'' st1 = Some (Inr True, st1)" for nested
    by (simp add: evaluate_mechanism_def)
  have "check_spf spf_fuel (ptr_dns n) demo_client ''a.test'' fresh_state =
      Some (done_with SPFFail ''all'' ''v=spf1 ptr -all'' None, st1)"
    by (simp add: spf_fuel_def numeral_eq_Suc check_body_def rec parts t1 t2 m1 m2 equal_fold_def)
  then show ?thesis by (simp add: st1_def done_with_def)
qed

definition plain_mechanism :: "string \<Rightarrow> bool" where
  "plain_mechanism term \<longleftrightarrow> term \<noteq> [] \<and> is_modifier term = None"

text \<open>
  The terms of a record are evaluated in order and the first match decides: what comes
  after a matching term has no influence, whatever the terms before it were.
\<close>

theorem first_match_decides:
  assumes "spf_terms nested dns ev domain rec ts redirect st = Some (Inr r, st1)"
    and "plain_mechanism t" and "term_qualifier t = (q, body)" and "mechanism_parts body = (name, v)"
    and "evaluate_mechanism nested dns ev name v body domain st1 = Some (Inr True, st2)"
  shows "spf_terms nested dns ev domain rec (ts @ t # us) redirect st =
     Some (Inl (done_with (qualifier_to_result q) body rec None), st2)"
  using assms(1)
proof (induction ts arbitrary: redirect st)
  case Nil
  then show ?case using assms(2-) by (simp add: plain_mechanism_def)
next
  case (Cons u ts)
  show ?case
  proof (cases "u = [] \<or> is_modifier u \<noteq> None")
    case True
    with Cons show ?thesis by (cases "u = []") (auto split: option.splits)
  next
    case False
    obtain q' b' where q': "term_qualifier u = (q', b')" by (cases "term_qualifier u")
    obtain n' v' where n': "mechanism_parts b' = (n', v')" by (cases "mechanism_parts b'")
    note step = False q' n'
    from Cons.prems step obtain st' where
      e: "evaluate_mechanism nested dns ev n' v' b' domain st = Some (Inr False, st')"
      "spf_terms nested dns ev domain rec ts redirect st' = Some (Inr r, st1)"
      by (simp split: option.splits prod.splits sum.splits bool.splits)
    have "spf_terms nested dns ev domain rec (ts @ t # us) redirect st' =
        Some (Inl (done_with (qualifier_to_result q) body rec None), st2)"
      by (rule Cons.IH [OF e(2)])
    with step e(1) show ?thesis by simp
  qed
qed

theorem first_match_decides_witness:
  "spf_terms (\<lambda>_ _. None) loop_dns demo_client ''a.test'' [] ([''ip6:::1''] @ ''~all'' # [''include:b.test'']) [] fresh_state =
     Some (Inl (done_with SPFSoftfail ''all'' [] None), fresh_state)"
proof -
  have "spf_terms (\<lambda>_ _. None) loop_dns demo_client ''a.test'' [] [''ip6:::1''] [] fresh_state =
      Some (Inr [], fresh_state)"
  proof -
    have "is_modifier ''ip6:::1'' = None" by code_simp
    moreover have "term_qualifier ''ip6:::1'' = (CHR ''+'', ''ip6:::1'')" by code_simp
    moreover have "mechanism_parts ''ip6:::1'' = (''ip6'', ''::1'')" by code_simp
    moreover have "match_ip (se_ip demo_client) False ''::1'' = Inr False"
      by (simp add: match_ip_def demo_client_def)
    ultimately show ?thesis by (simp add: evaluate_mechanism_def)
  qed
  moreover have "plain_mechanism ''~all''" by code_simp
  moreover have "term_qualifier ''~all'' = (CHR ''~'', ''all'')" by code_simp
  moreover have "mechanism_parts ''all'' = (''all'', [])" by code_simp
  moreover have "evaluate_mechanism (\<lambda>_ _. None) loop_dns demo_client ''all'' [] ''all'' ''a.test'' fresh_state =
      Some (Inr True, fresh_state)" by (simp add: evaluate_mechanism_def)
  ultimately have "spf_terms (\<lambda>_ _. None) loop_dns demo_client ''a.test'' [] ([''ip6:::1''] @ ''~all'' # [''include:b.test'']) [] fresh_state =
     Some (Inl (done_with (qualifier_to_result CHR ''~'') ''all'' [] None), fresh_state)"
    by (rule first_match_decides)
  then show ?thesis by simp
qed

definition rfc_parts :: "64 word \<Rightarrow> bool \<Rightarrow> string list \<Rightarrow> string list" where
  "rfc_parts digits reverse parts =
     (let ps = (if reverse then rev parts else parts)
      in if sint digits > 0 \<and> int (length ps) > sint digits then drop (length ps - unat digits) ps else ps)"

text \<open>
  RFC 7208 section 7.3, which the code says it implements, takes the right-hand parts
  of a macro after the optional reversal. The code reverses after it has cut the parts, so a
  macro with both transformers expands to the wrong labels: \<^verbatim>\<open>%{d1r}\<close> of \<^verbatim>\<open>a.b.c\<close> is \<^verbatim>\<open>c\<close>
  instead of \<^verbatim>\<open>a\<close>. Without a reversal, or with no more parts than digits, both orders agree.
\<close>

theorem macro_reverses_too_late:
  "expand_domain_spec (demo_client\<lparr>se_sender := ''u@x''\<rparr>) ''%{d1r}'' ''a.b.c'' = Inr ''c'' \<and>
   rfc_parts 1 True [''a'', ''b'', ''c''] = [''a''] \<and>
   (\<not> reverse \<or> int (length parts) \<le> sint digits \<or> sint digits \<le> 0 \<longrightarrow>
     macro_parts digits reverse parts = rfc_parts digits reverse parts)"
proof (intro conjI)
  show "expand_domain_spec (demo_client\<lparr>se_sender := ''u@x''\<rparr>) ''%{d1r}'' ''a.b.c'' = Inr ''c''" by code_simp
  show "rfc_parts 1 True [''a'', ''b'', ''c''] = [''a'']" by code_simp
  show "\<not> reverse \<or> int (length parts) \<le> sint digits \<or> sint digits \<le> 0 \<longrightarrow>
     macro_parts digits reverse parts = rfc_parts digits reverse parts"
    by (auto simp: macro_parts_def rfc_parts_def Let_def)
qed

theorem macro_reverses_too_late_witness:
  "macro_parts 2 False [''a'', ''b'', ''c''] = rfc_parts 2 False [''a'', ''b'', ''c'']"
  using macro_reverses_too_late [of False "[''a'', ''b'', ''c'']" 2] by blast

text \<open>
  An address mechanism matches exactly the clients of its network: for IPv4 clients and
  a plain IPv4 network the bits up to the prefix length agree, for IPv6 those of the 128-bit
  address, and a mechanism of the other family never matches.
\<close>

theorem ip_mechanism_exact:
  assumes "contains v ''/''" and "parse_cidr v = Some net" and "v \<noteq> []"
    and "net_v4 net = want_v4" and "is_v4 (net_addr net) = want_v4"
  shows "match_ip ip want_v4 v = Inr (is_v4 ip = want_v4 \<and>
     same_prefix (if want_v4 then 32 else 128) (net_len net) ip (net_addr net))"
proof -
  have len: "net_len net \<le> (if want_v4 then 32 else 128)" using parse_cidr_len [OF assms(2)] assms(4) by simp
  have "net_contains net ip \<longleftrightarrow> is_v4 ip = want_v4 \<and>
      same_prefix (if want_v4 then 32 else 128) (net_len net) ip (net_addr net)"
    using net_contains_v4 [of net ip] net_contains_v6 [of net ip] assms(4,5) len by (cases want_v4) auto
  then show ?thesis using assms(1-3) by (auto simp: match_ip_def)
qed

theorem ip_mechanism_exact_witness:
  "match_ip (v4_mapped 0xC0000201) True ''192.0.2.0/24'' = Inr True"
proof -
  have c: "contains ''192.0.2.0/24'' ''/''" by code_simp
  have p: "parse_cidr ''192.0.2.0/24'' = Some \<lparr>net_v4 = True, net_addr = v4_mapped 0xC0000200, net_len = 24\<rparr>"
    by code_simp
  have "same_prefix 32 24 (v4_mapped 0xC0000201) (v4_mapped 0xC0000200)" by code_simp
  then show ?thesis using ip_mechanism_exact [OF c p] by simp
qed

end
