(* ===== verification/TagList.thy ===== *)
theory TagList
  imports GoStrings
begin

text \<open>
  The tag lists \<^verbatim>\<open>a=b; c=d\<close> of DKIM, ARC and DMARC (\<^verbatim>\<open>parseDKIMTags\<close> and
  \<^verbatim>\<open>parseStrictDKIMTags\<close> of \<^verbatim>\<open>pkg/authverify/dkim.go\<close>) and the string helpers of that file. A Go
  map is a partial function; reading an absent key gives the empty string.
\<close>

type_synonym tag_map = "string \<rightharpoonup> string"

definition tag_value :: "tag_map \<Rightarrow> string \<Rightarrow> string" where
  "tag_value tags k = (case tags k of None \<Rightarrow> [] | Some v \<Rightarrow> v)"

text \<open>The name and the value of one part; \<^const>\<open>None\<close> for a part that is skipped.\<close>

definition tag_part :: "string \<Rightarrow> (string \<times> string) option" where
  "tag_part part =
     (case index_byte CHR ''='' part of
        None \<Rightarrow> None
      | Some eq \<Rightarrow>
          let key = trim_space (take eq part)
          in if key = [] then None else Some (key, trim_space (drop (Suc eq) part)))"

fun strict_parts :: "tag_map \<Rightarrow> string list \<Rightarrow> string + tag_map" where
  "strict_parts tags [] = Inr tags"
| "strict_parts tags (part # parts) =
     (case tag_part part of
        None \<Rightarrow> strict_parts tags parts
      | Some (key, v) \<Rightarrow>
          if key \<noteq> to_lower key then Inl (''DKIM tag name '' @ go_quote key @ '' must be lowercase'')
          else if tags key \<noteq> None then Inl (''duplicate DKIM tag '' @ go_quote key)
          else strict_parts (tags(key \<mapsto> v)) parts)"

definition parse_strict_tags :: "string \<Rightarrow> string + tag_map" where
  "parse_strict_tags s = strict_parts (\<lambda>_. None) (split_on CHR '';'' s)"

fun lenient_parts :: "tag_map \<Rightarrow> string list \<Rightarrow> tag_map" where
  "lenient_parts tags [] = tags"
| "lenient_parts tags (part # parts) =
     (case tag_part part of
        None \<Rightarrow> lenient_parts tags parts
      | Some (key, v) \<Rightarrow>
          if tags (to_lower key) \<noteq> None then lenient_parts tags parts
          else lenient_parts (tags(to_lower key \<mapsto> v)) parts)"

definition parse_dkim_tags :: "string \<Rightarrow> tag_map" where
  "parse_dkim_tags s = lenient_parts (\<lambda>_. None) (split_on CHR '';'' s)"

section \<open>String helpers\<close>

definition is_fold_char :: "char \<Rightarrow> bool" where
  "is_fold_char c \<longleftrightarrow> c = SP \<or> c = TAB \<or> c = CR \<or> c = LF"

definition strip_whitespace :: "string \<Rightarrow> string" where
  "strip_whitespace s = filter (\<lambda>c. \<not> is_fold_char c) s"

definition unfold_text :: "string \<Rightarrow> string" where
  "unfold_text s = replace_char LF [] (replace_crlf [] s)"

fun collapse_from :: "bool \<Rightarrow> string \<Rightarrow> string" where
  "collapse_from in_space [] = []"
| "collapse_from in_space (c # cs) =
     (if is_fold_char c then (if in_space then collapse_from True cs else SP # collapse_from True cs)
      else c # collapse_from False cs)"

definition collapse_whitespace :: "string \<Rightarrow> string" where
  "collapse_whitespace s = collapse_from False s"

definition split_header_list :: "string \<Rightarrow> string list" where
  "split_header_list s = filter (\<lambda>n. n \<noteq> []) (map trim_space (split_on CHR '':'' s))"

definition contains_fold :: "string list \<Rightarrow> string \<Rightarrow> bool" where
  "contains_fold items want = list_ex (\<lambda>i. equal_fold (trim_space i) want) items"

type_synonym header_field = "string \<times> string"

definition is_field :: "string \<Rightarrow> header_field \<Rightarrow> bool" where
  "is_field name h \<longleftrightarrow> equal_fold (trim_space (fst h)) name"

definition count_header :: "header_field list \<Rightarrow> string \<Rightarrow> nat" where
  "count_header headers name = length (filter (is_field name) headers)"

section \<open>Facts\<close>

text \<open>What a tag has in a map it has in the text, and the strict parser gives a tag one value.\<close>

lemma strict_parts_Cons:
  "strict_parts tags (p # ps) = Inr tags' \<longleftrightarrow>
     (case tag_part p of None \<Rightarrow> strict_parts tags ps = Inr tags'
      | Some (k, v) \<Rightarrow> to_lower k = k \<and> tags k = None \<and> strict_parts (tags(k \<mapsto> v)) ps = Inr tags')"
  by (auto split: option.splits)

declare strict_parts.simps(2) [simp del]

lemma strict_parts_mono:
  "strict_parts tags parts = Inr tags' \<Longrightarrow> tags k = Some v \<Longrightarrow> tags' k = Some v"
proof (induction parts arbitrary: tags)
  case (Cons p ps)
  show ?case
  proof (cases "tag_part p")
    case (Some kv)
    obtain k' v' where kv: "kv = (k', v')" by (cases kv)
    from Cons.prems Some kv have "strict_parts (tags(k' \<mapsto> v')) ps = Inr tags'" "tags k' = None"
      by (simp_all add: strict_parts_Cons)
    with Cons.prems Some kv Cons.IH [OF this(1)] show ?thesis by (cases "k = k'") auto
  qed (use Cons in \<open>auto simp: strict_parts_Cons\<close>)
qed simp

lemma strict_parts_part:
  "strict_parts tags parts = Inr tags' \<Longrightarrow> p \<in> set parts \<Longrightarrow> tag_part p = Some (k, v) \<Longrightarrow>
     tags' k = Some v \<and> to_lower k = k"
proof (induction parts arbitrary: tags)
  case (Cons q ps)
  show ?case
  proof (cases "p = q")
    case True
    with Cons.prems show ?thesis using strict_parts_mono [of "tags(k \<mapsto> v)" ps tags' k v]
      by (simp add: strict_parts_Cons)
  next
    case False
    with Cons show ?thesis by (auto simp: strict_parts_Cons split: option.splits)
  qed
qed simp

lemma strict_parts_from:
  "strict_parts tags parts = Inr tags' \<Longrightarrow> tags' k = Some v \<Longrightarrow>
     tags k = Some v \<or> (\<exists>p \<in> set parts. tag_part p = Some (k, v))"
proof (induction parts arbitrary: tags)
  case (Cons p ps)
  show ?case
  proof (cases "tag_part p")
    case (Some kv)
    obtain k' v' where kv: "kv = (k', v')" by (cases kv)
    from Cons.prems Some kv have "strict_parts (tags(k' \<mapsto> v')) ps = Inr tags'" "tags k' = None"
      by (simp_all add: strict_parts_Cons)
    with Cons.prems Some kv Cons.IH [OF this(1)] show ?thesis by (cases "k = k'") auto
  qed (use Cons in \<open>auto simp: strict_parts_Cons\<close>)
qed simp

text \<open>A tag list is read exactly as its parts say, and no two parts name the same tag.\<close>

lemma parse_strict_tags_exact:
  assumes "parse_strict_tags s = Inr tags"
  shows "tags k = Some v \<longleftrightarrow> (\<exists>p \<in> set (split_on CHR '';'' s). tag_part p = Some (k, v))"
proof
  assume "tags k = Some v"
  with strict_parts_from [OF assms [unfolded parse_strict_tags_def]] show "\<exists>p \<in> set (split_on CHR '';'' s). tag_part p = Some (k, v)"
    by fastforce
next
  assume "\<exists>p \<in> set (split_on CHR '';'' s). tag_part p = Some (k, v)"
  with strict_parts_part [OF assms [unfolded parse_strict_tags_def]] show "tags k = Some v" by blast
qed

lemma collapse_from_chars: "c \<in> set (collapse_from b s) \<Longrightarrow> c = SP \<or> c \<in> set s \<and> \<not> is_fold_char c"
  by (induction b s rule: collapse_from.induct) (auto split: if_splits)

lemma collapse_no_break: "c \<in> set (collapse_whitespace s) \<Longrightarrow> c \<noteq> CR \<and> c \<noteq> LF \<and> c \<noteq> TAB"
  using collapse_from_chars [of c False s] by (auto simp: collapse_whitespace_def is_fold_char_def)

lemma is_fold_SP [simp]: "is_fold_char SP" by (simp add: is_fold_char_def)

lemma collapse_from_idem:
  "collapse_from b (collapse_from b s) = collapse_from b s"
proof (induction b s rule: collapse_from.induct)
  case (2 b c cs)
  then show ?case by auto
qed simp

lemma collapse_idem [simp]: "collapse_whitespace (collapse_whitespace s) = collapse_whitespace s"
  by (simp add: collapse_whitespace_def collapse_from_idem)

lemma split_header_list_parts:
  "n \<in> set (split_header_list s) \<Longrightarrow> n \<noteq> [] \<and> trim_space n = n"
  by (auto simp: split_header_list_def)

end
