(* ===== verification/GoTime.thy ===== *)
theory GoTime
  imports GoStrings "HOL-Library.Word"
begin

text \<open>
  The part of Go's \<^verbatim>\<open>time\<close> package the program uses. A \<^verbatim>\<open>time.Time\<close> is the number of seconds
  since 1 January of year 1 as a signed 64-bit integer, which wraps, and the nanoseconds within
  the second; \<^verbatim>\<open>time.Unix\<close> adds the seconds between year 1 and 1970 without a check.
\<close>

record go_time =
  gt_sec :: "64 word"
  gt_nsec :: nat

definition unix_to_internal :: int where
  "unix_to_internal = 62135596800"

definition time_unix :: "int \<Rightarrow> go_time" where
  "time_unix s = \<lparr>gt_sec = word_of_int (s + unix_to_internal), gt_nsec = 0\<rparr>"

definition time_after :: "go_time \<Rightarrow> go_time \<Rightarrow> bool" where
  "time_after t u \<longleftrightarrow> sint (gt_sec t) > sint (gt_sec u) \<or> gt_sec t = gt_sec u \<and> gt_nsec t > gt_nsec u"

definition add_hours :: "nat \<Rightarrow> go_time \<Rightarrow> go_time" where
  "add_hours h t = t\<lparr>gt_sec := gt_sec t + word_of_nat (3600 * h)\<rparr>"

definition is_zero_time :: "go_time \<Rightarrow> bool" where
  "is_zero_time t \<longleftrightarrow> gt_sec t = 0 \<and> gt_nsec t = 0"

text \<open>The seconds for which \<^verbatim>\<open>time.Unix\<close> does not wrap.\<close>

definition unix_ok :: "int \<Rightarrow> bool" where
  "unix_ok s \<longleftrightarrow> - (2 ^ 63) \<le> s + unix_to_internal \<and> s + unix_to_internal < 2 ^ 63"

lemma sint_word64: "- (2 ^ 63) \<le> x \<Longrightarrow> x < 2 ^ 63 \<Longrightarrow> sint (word_of_int x :: 64 word) = x"
  by (simp add: sint_sbintrunc' signed_take_bit_int_eq_self)

lemma sint_time_unix: "unix_ok s \<Longrightarrow> sint (gt_sec (time_unix s)) = s + unix_to_internal"
  using sint_word64 [of "s + unix_to_internal"] by (simp only: time_unix_def unix_ok_def go_time.simps)

lemma time_after_unix:
  assumes "unix_ok s" and "unix_ok now"
  shows "time_after \<lparr>gt_sec = gt_sec (time_unix now), gt_nsec = n\<rparr> (time_unix s) \<longleftrightarrow> now > s \<or> now = s \<and> n > 0"
proof -
  have "gt_sec (time_unix now) = gt_sec (time_unix s) \<longleftrightarrow> now = s"
    using sint_time_unix [OF assms(1)] sint_time_unix [OF assms(2)] by (auto simp: signed_word_eqI)
  then show ?thesis
    using sint_time_unix [OF assms(1)] sint_time_unix [OF assms(2)]
    by (auto simp: time_after_def) (simp add: time_unix_def)+
qed

text \<open>A second past the bound wraps to the distant past.\<close>

lemma time_unix_wraps:
  assumes "2 ^ 63 \<le> s + unix_to_internal" and "s < 2 ^ 63"
  shows "sint (gt_sec (time_unix s)) = s + unix_to_internal - 2 ^ 64"
proof -
  have "(word_of_int (s + unix_to_internal) :: 64 word) = word_of_int (s + unix_to_internal - 2 ^ 64)"
    by (simp add: word_of_int_eq_iff take_bit_eq_mod)
  moreover have "sint (word_of_int (s + unix_to_internal - 2 ^ 64) :: 64 word) = s + unix_to_internal - 2 ^ 64"
    using assms by (intro sint_word64) (simp_all add: unix_to_internal_def)
  ultimately show ?thesis by (simp only: time_unix_def go_time.simps)
qed

section \<open>RFC 3339\<close>

text \<open>
  \<^verbatim>\<open>time.Unix(s, 0).UTC().Format(time.RFC3339)\<close>: the proleptic Gregorian date of a day number
  counted from 1 March of year 0, in eras of 400 years, and the time of day.
\<close>

definition pad_nat :: "nat \<Rightarrow> nat \<Rightarrow> string" where
  "pad_nat w n = (let s = show_nat n in replicate (w - length s) CHR ''0'' @ s)"

definition civil_date :: "int \<Rightarrow> int \<times> nat \<times> nat" where
  "civil_date days =
     (let era = days div 146097; doe = nat (days mod 146097);
          yoe = (doe - doe div 1460 + doe div 36524 - doe div 146096) div 365;
          doy = doe - (365 * yoe + yoe div 4 - yoe div 100);
          mp = (5 * doy + 2) div 153;
          d = doy - (153 * mp + 2) div 5 + 1;
          m = (if mp < 10 then mp + 3 else mp - 9)
      in (int yoe + era * 400 + (if m \<le> 2 then 1 else 0), m, d))"

text \<open>Day 306 of this count is 1 January of year 1.\<close>

definition format_rfc3339 :: "go_time \<Rightarrow> string" where
  "format_rfc3339 t =
     (let s = sint (gt_sec t); day = s div 86400; sod = nat (s mod 86400)
      in (case civil_date (day + 306) of (y, m, d) \<Rightarrow>
           (if y < 0 then CHR ''-'' # pad_nat 4 (nat (- y)) else pad_nat 4 (nat y)) @ ''-'' @ pad_nat 2 m @ ''-'' @
           pad_nat 2 d @ ''T'' @ pad_nat 2 (sod div 3600) @ '':'' @ pad_nat 2 (sod div 60 mod 60) @ '':'' @
           pad_nat 2 (sod mod 60) @ ''Z''))"

lemma format_rfc3339_epoch: "format_rfc3339 (time_unix 0) = ''1970-01-01T00:00:00Z''"
  by code_simp

lemma format_rfc3339_leap: "format_rfc3339 (time_unix 951782400) = ''2000-02-29T00:00:00Z''"
  by code_simp

lemma format_rfc3339_day: "format_rfc3339 (time_unix 1767225599) = ''2025-12-31T23:59:59Z''"
  by code_simp

end
