(* ===== verification/Dkim.thy ===== *)
theory Dkim
  imports TagList GoTime Base64 Spf
begin

text \<open>
  DKIM verification, \<^verbatim>\<open>pkg/authverify/dkim.go\<close>: canonicalisation, the bytes a signature covers,
  the key record and the verification of one signature and of a message. SHA-256, the parsers
  of public keys and the signature checks of Go's \<^verbatim>\<open>crypto\<close> packages are the fields of the
  parameter \<open>dkim_crypto\<close>; the resolver is that of \<^verbatim>\<open>Spf\<close>. The part of an explanation that is
  the text of an error of \<^verbatim>\<open>crypto/x509\<close> comes from the parameter, too.
\<close>

datatype dkim_verdict =
  DKIMNone | DKIMPass | DKIMFail | DKIMPolicy | DKIMNeutral | DKIMTempError | DKIMPermError

fun dkim_text :: "dkim_verdict \<Rightarrow> string" where
  "dkim_text DKIMNone = ''none''" | "dkim_text DKIMPass = ''pass''" | "dkim_text DKIMFail = ''fail''"
| "dkim_text DKIMPolicy = ''policy''" | "dkim_text DKIMNeutral = ''neutral''"
| "dkim_text DKIMTempError = ''temperror''" | "dkim_text DKIMPermError = ''permerror''"

definition min_rsa_key_bits :: nat where "min_rsa_key_bits = 1024"
definition max_signatures :: nat where "max_signatures = 10"
definition max_public_key_bytes :: nat where "max_public_key_bytes = 8192"

record rsa_key =
  rk_modulus :: nat
  rk_exponent :: nat

datatype public_key = RsaPublic rsa_key | Ed25519Public bytes | OtherPublic

record dkim_crypto =
  dc_sha256 :: "bytes \<Rightarrow> bytes"
  dc_pkix :: "bytes \<Rightarrow> string + public_key"
  dc_pkcs1 :: "bytes \<Rightarrow> rsa_key option"
  dc_rsa_verify :: "rsa_key \<Rightarrow> bytes \<Rightarrow> bytes \<Rightarrow> bool"
  dc_ed_verify :: "bytes \<Rightarrow> bytes \<Rightarrow> bytes \<Rightarrow> bool"

text \<open>\<^verbatim>\<open>N.BitLen()\<close>.\<close>

fun bit_len :: "nat \<Rightarrow> nat" where
  "bit_len n = (if n = 0 then 0 else Suc (bit_len (n div 2)))"

declare bit_len.simps [simp del]

record dkim_signature =
  ds_result :: dkim_verdict
  ds_domain :: string
  ds_selector :: string
  ds_identity :: string
  ds_algorithm :: string
  ds_headers_signed :: "string list"
  ds_key_bits :: nat
  ds_explanation :: string
  ds_body_truncated :: bool
  ds_signed_bytes :: nat
  ds_body_bytes :: nat
  ds_expired :: bool
  ds_timestamp_future :: bool

definition zero_signature :: dkim_signature where
  "zero_signature = \<lparr>ds_result = DKIMNone, ds_domain = [], ds_selector = [], ds_identity = [], ds_algorithm = [],
     ds_headers_signed = [], ds_key_bits = 0, ds_explanation = [], ds_body_truncated = False, ds_signed_bytes = 0,
     ds_body_bytes = 0, ds_expired = False, ds_timestamp_future = False\<rparr>"

text \<open>Setting the verdict and its explanation.\<close>

definition judged :: "dkim_verdict \<Rightarrow> string \<Rightarrow> dkim_signature \<Rightarrow> dkim_signature" where
  "judged r msg out = out\<lparr>ds_result := r, ds_explanation := msg\<rparr>"

section \<open>Canonicalisation\<close>

definition canonicalize_header :: "string \<Rightarrow> string \<Rightarrow> string \<Rightarrow> string" where
  "canonicalize_header name v canon =
     (if canon = ''relaxed''
      then to_lower (trim_space name) @ '':'' @ trim_space (collapse_whitespace (unfold_text v)) @ CRLF
      else name @ '':'' @ v @ CRLF)"

text \<open>\<^verbatim>\<open>strings.Split(text, "\r\n")\<close>.\<close>

fun split_crlf :: "string \<Rightarrow> string list" where
  "split_crlf (c # d # s) =
     (if c = CR \<and> d = LF then [] # split_crlf s
      else (case split_crlf (d # s) of [] \<Rightarrow> [[c]] | w # ws \<Rightarrow> (c # w) # ws))"
| "split_crlf s = [s]"

definition normalize_breaks :: "string \<Rightarrow> string" where
  "normalize_breaks body = replace_char LF CRLF (replace_crlf [LF] body)"

definition relax_line :: "string \<Rightarrow> string" where
  "relax_line line = trim_right_set (collapse_whitespace line) [SP, TAB]"

definition canonicalize_body :: "string \<Rightarrow> string \<Rightarrow> string" where
  "canonicalize_body body canon =
     (let text1 = normalize_breaks body;
          text2 = (if canon = ''relaxed'' then join CRLF (map relax_line (split_crlf text1)) else text1);
          text3 = trim_right_set text2 CRLF
      in if text3 = [] then (if canon = ''relaxed'' then [] else CRLF) else text3 @ CRLF)"

section \<open>The bytes a signature covers\<close>

text \<open>
  \<^verbatim>\<open>bTagPattern\<close> removes the value of a \<^verbatim>\<open>b\<close> tag. A match starts at the beginning or at a
  semicolon and ends before the next one, so the parts between semicolons are treated one by one.
\<close>

definition b_tag_prefix :: "string \<Rightarrow> string option" where
  "b_tag_prefix part =
     (case dropWhile is_fold_char part of
        [] \<Rightarrow> None
      | c # rest \<Rightarrow>
          if c = CHR ''b'' \<and> take 1 (dropWhile is_fold_char rest) = ''=''
          then Some (takeWhile is_fold_char part @ ''b'' @ takeWhile is_fold_char rest @ ''='')
          else None)"

definition strip_part :: "string \<Rightarrow> string" where
  "strip_part part = (case b_tag_prefix part of None \<Rightarrow> part | Some p \<Rightarrow> p)"

definition strip_signature_value :: "string \<Rightarrow> string" where
  "strip_signature_value sig = join '';'' (map strip_part (split_on CHR '';'' sig))"

definition field_key :: "string \<Rightarrow> string" where
  "field_key name = to_lower (trim_space name)"

definition occurrences :: "header_field list \<Rightarrow> nat \<Rightarrow> string \<Rightarrow> nat list" where
  "occurrences headers sig_index key =
     filter (\<lambda>i. i \<noteq> sig_index \<and> field_key (fst (headers ! i)) = key) [0..<length headers]"

text \<open>The fields in the order of \<^verbatim>\<open>h=\<close>, each name taking the last instance not used yet.\<close>

fun signed_fields :: "header_field list \<Rightarrow> string \<Rightarrow> (string \<Rightarrow> nat list) \<Rightarrow> string list \<Rightarrow> string" where
  "signed_fields headers canon occ [] = []"
| "signed_fields headers canon occ (name # names) =
     (let key = field_key name in
      if key = [] \<or> occ key = [] then signed_fields headers canon occ names
      else
        (let h = headers ! last (occ key) in
         canonicalize_header (fst h) (snd h) canon @
         signed_fields headers canon (occ(key := butlast (occ key))) names))"

definition build_signed_header_input ::
  "header_field list \<Rightarrow> nat \<Rightarrow> string list \<Rightarrow> string \<Rightarrow> string \<Rightarrow> string \<Rightarrow> string" where
  "build_signed_header_input headers sig_index names raw_sig canon signature_field =
     signed_fields headers canon (occurrences headers sig_index) names @
     trim_suffix (canonicalize_header signature_field (strip_signature_value raw_sig) canon) CRLF"

section \<open>The key record\<close>

record dkim_key =
  dk_key :: public_key
  dk_type :: string
  dk_flags :: string

definition parse_key :: "dkim_crypto \<Rightarrow> string \<Rightarrow> bytes \<Rightarrow> string + public_key" where
  "parse_key crypto key_type der =
     (if key_type = ''rsa'' then
        (case dc_pkix crypto der of
           Inl err \<Rightarrow> (case dc_pkcs1 crypto der of
               Some k \<Rightarrow> Inr (RsaPublic k) | None \<Rightarrow> Inl (''cannot parse RSA key: '' @ err))
         | Inr (RsaPublic k) \<Rightarrow> Inr (RsaPublic k)
         | Inr _ \<Rightarrow> Inl ''k=rsa but the key is not RSA'')
      else if key_type = ''ed25519'' then
        (if length der \<noteq> 32 then Inl (''Ed25519 key is '' @ show_nat (length der) @ '' bytes, expected 32'')
         else Inr (Ed25519Public der))
      else Inl (''unsupported key type '' @ go_quote key_type))"

text \<open>Every failure is a permerror, so only the message is returned.\<close>

definition fetch_dkim_key :: "spf_dns \<Rightarrow> dkim_crypto \<Rightarrow> string \<Rightarrow> string \<Rightarrow> string + dkim_key" where
  "fetch_dkim_key dns crypto selector domain =
     (let name = selector @ ''._domainkey.'' @ domain; records = sd_txt dns name in
      if records = [] then Inl (''no DKIM key published at '' @ name)
      else if length (concat records) > max_public_key_bytes then Inl ''DKIM key record exceeds the size limit''
      else (case parse_strict_tags (concat records) of
          Inl e \<Rightarrow> Inl e
        | Inr tags \<Rightarrow>
            let v = trim_space (tag_value tags ''v''); k = to_lower (trim_space (tag_value tags ''k''));
                key_type = (if k = [] then ''rsa'' else k); encoded = strip_whitespace (tag_value tags ''p'')
            in if v \<noteq> [] \<and> \<not> equal_fold v ''DKIM1'' then Inl (''unsupported key record version '' @ go_quote v)
               else if encoded = [] then Inl ''DKIM key has been revoked (empty p= tag)''
               else (case b64_decode encoded of
                   None \<Rightarrow> Inl ''DKIM key p= tag is not valid base64''
                 | Some der \<Rightarrow> (case parse_key crypto key_type der of
                     Inl e \<Rightarrow> Inl e
                   | Inr key \<Rightarrow> Inr \<lparr>dk_key = key, dk_type = key_type, dk_flags = tag_value tags ''t''\<rparr>))))"

section \<open>One signature\<close>

text \<open>
  The stages of \<^verbatim>\<open>verifyOneMessageSignature\<close>, in its order. Each returns the finished result
  (\<^const>\<open>Inl\<close>) or hands the result so far to the next stage.
\<close>

definition required_tags ::
  "tag_map \<Rightarrow> bool \<Rightarrow> dkim_signature \<Rightarrow> dkim_signature + dkim_signature" where
  "required_tags tags require_version out =
     (if require_version \<and> tag_value tags ''v'' \<noteq> ''1''
      then Inl (judged DKIMPermError (''unsupported DKIM version '' @ go_quote (tag_value tags ''v'')) out)
      else
        let out1 = out\<lparr>ds_domain := to_lower (trim_space (tag_value tags ''d'')),
              ds_selector := trim_space (tag_value tags ''s''), ds_identity := tag_value tags ''i'',
              ds_algorithm := to_lower (trim_space (tag_value tags ''a''))\<rparr>;
            names = split_header_list (tag_value tags ''h'')
        in if ds_domain out1 = [] \<or> ds_selector out1 = []
           then Inl (judged DKIMPermError ''signature is missing the d= or s= tag'' out1)
           else if strip_whitespace (tag_value tags ''b'') = [] \<or> strip_whitespace (tag_value tags ''bh'') = []
           then Inl (judged DKIMPermError ''signature is missing the b= or bh= tag'' out1)
           else if names = [] then Inl (judged DKIMPermError ''signature has an empty h= tag'' out1)
           else
             let out2 = out1\<lparr>ds_headers_signed := names\<rparr> in
             if \<not> contains_fold names ''from''
             then Inl (judged DKIMPermError ''the From field is not covered by the signature'' out2)
             else Inr out2)"

definition signing_key_type :: "dkim_signature \<Rightarrow> dkim_signature + string" where
  "signing_key_type out =
     (if ds_algorithm out = ''rsa-sha256'' then Inr ''rsa''
      else if ds_algorithm out = ''ed25519-sha256'' then Inr ''ed25519''
      else if ds_algorithm out = ''rsa-sha1'' then Inl (judged DKIMPolicy ''rsa-sha1 is prohibited by RFC 8301'' out)
      else Inl (judged DKIMPermError (''unsupported signing algorithm '' @ go_quote (ds_algorithm out)) out))"

definition timestamp_future :: "tag_map \<Rightarrow> go_time \<Rightarrow> bool" where
  "timestamp_future tags now =
     (case atoi (trim_space (tag_value tags ''t'')) of
        None \<Rightarrow> False | Some seconds \<Rightarrow> time_after (time_unix seconds) (add_hours 48 now))"

definition check_times :: "tag_map \<Rightarrow> go_time \<Rightarrow> dkim_signature \<Rightarrow> dkim_signature + dkim_signature" where
  "check_times tags now out =
     (let expiry = trim_space (tag_value tags ''x''); future = out\<lparr>ds_timestamp_future := timestamp_future tags now\<rparr> in
      if expiry = [] then Inr future
      else (case atoi expiry of
          None \<Rightarrow> Inl (judged DKIMPermError ''x= tag is not an integer'' out)
        | Some seconds \<Rightarrow>
            if time_after now (time_unix seconds)
            then Inl (judged DKIMFail (''signature expired at '' @ format_rfc3339 (time_unix seconds))
                   (out\<lparr>ds_expired := True\<rparr>))
            else Inr future))"

definition canon_names :: "tag_map \<Rightarrow> string \<times> string" where
  "canon_names tags =
     (case split2 CHR ''/'' (trim_space (tag_value tags ''c'')) of
        [h, b] \<Rightarrow> (to_lower (trim_space h), to_lower (trim_space b))
      | h # _ \<Rightarrow> (if h = [] then ''simple'' else to_lower (trim_space h), ''simple'')
      | [] \<Rightarrow> (''simple'', ''simple''))"

definition known_canon :: "string \<Rightarrow> bool" where
  "known_canon c \<longleftrightarrow> c = ''simple'' \<or> c = ''relaxed''"

text \<open>The body that the signature covers and the flags for an \<^verbatim>\<open>l=\<close> tag.\<close>

definition limit_body :: "tag_map \<Rightarrow> string \<Rightarrow> dkim_signature \<Rightarrow> dkim_signature + (string \<times> dkim_signature)" where
  "limit_body tags canonical out =
     (let out1 = out\<lparr>ds_body_bytes := length canonical, ds_signed_bytes := length canonical\<rparr>;
          length_tag = trim_space (tag_value tags ''l'')
      in if length_tag = [] then Inr (canonical, out1)
         else (case atoi length_tag of
             None \<Rightarrow> Inl (judged DKIMPermError ''l= tag is not a non-negative integer'' out1)
           | Some len \<Rightarrow>
               if len < 0 then Inl (judged DKIMPermError ''l= tag is not a non-negative integer'' out1)
               else if len < int (length canonical)
               then Inr (take (nat len) canonical, out1\<lparr>ds_body_truncated := True, ds_signed_bytes := nat len\<rparr>)
               else Inr (canonical, out1)))"

definition check_body_hash ::
  "dkim_crypto \<Rightarrow> tag_map \<Rightarrow> string \<Rightarrow> dkim_signature \<Rightarrow> dkim_signature + dkim_signature" where
  "check_body_hash crypto tags canonical out =
     (case limit_body tags canonical out of
        Inl r \<Rightarrow> Inl r
      | Inr (covered, out1) \<Rightarrow>
          (case b64_decode (strip_whitespace (tag_value tags ''bh'')) of
             None \<Rightarrow> Inl (judged DKIMPermError ''bh= tag is not valid base64'' out1)
           | Some expected \<Rightarrow>
               if dc_sha256 crypto covered \<noteq> expected
               then Inl (judged DKIMFail ''body hash does not match the bh= tag; the body was modified in transit'' out1)
               else Inr out1))"

definition signature_verified :: "dkim_signature \<Rightarrow> dkim_signature" where
  "signature_verified out =
     judged DKIMPass
       (if ds_body_truncated out
        then ''signature verified but covers only '' @ show_nat (ds_signed_bytes out) @ '' of '' @
          show_nat (ds_body_bytes out) @ '' body bytes (l= tag); trailing content is unsigned''
        else ''signature verified'') out"

definition verify_signature ::
  "dkim_crypto \<Rightarrow> string \<Rightarrow> public_key \<Rightarrow> bytes \<Rightarrow> bytes \<Rightarrow> dkim_signature \<Rightarrow> dkim_signature" where
  "verify_signature crypto key_type key digest sig out =
     (if key_type = ''rsa'' then
        (case key of
           RsaPublic k \<Rightarrow>
             let out1 = out\<lparr>ds_key_bits := bit_len (rk_modulus k)\<rparr> in
             if ds_key_bits out1 < min_rsa_key_bits
             then judged DKIMPolicy (''RSA key is '' @ show_nat (ds_key_bits out1) @ '' bits, below the '' @
                    show_nat min_rsa_key_bits @ ''-bit minimum in RFC 8301'') out1
             else if \<not> dc_rsa_verify crypto k digest sig
             then judged DKIMFail ''signature does not verify against the published key'' out1
             else signature_verified out1
         | _ \<Rightarrow> judged DKIMPermError ''key record does not contain an RSA public key'' out)
      else if key_type = ''ed25519'' then
        (case key of
           Ed25519Public k \<Rightarrow>
             let out1 = out\<lparr>ds_key_bits := 256\<rparr> in
             if \<not> dc_ed_verify crypto k digest sig
             then judged DKIMFail ''signature does not verify against the published key'' out1
             else signature_verified out1
         | _ \<Rightarrow> judged DKIMPermError ''key record does not contain an Ed25519 public key'' out)
      else signature_verified out)"

definition check_key_and_signature ::
  "spf_dns \<Rightarrow> dkim_crypto \<Rightarrow> string \<Rightarrow> string \<Rightarrow> tag_map \<Rightarrow> dkim_signature \<Rightarrow> dkim_signature" where
  "check_key_and_signature dns crypto key_type header_input tags out =
     (case fetch_dkim_key dns crypto (ds_selector out) (ds_domain out) of
        Inl msg \<Rightarrow> judged DKIMPermError msg out
      | Inr key \<Rightarrow>
          if dk_type key \<noteq> [] \<and> dk_type key \<noteq> key_type
          then judged DKIMPermError (''key record declares k='' @ dk_type key @ '' but the signature uses '' @ key_type) out
          else (case b64_decode (strip_whitespace (tag_value tags ''b'')) of
              None \<Rightarrow> judged DKIMPermError ''b= tag is not valid base64'' out
            | Some sig \<Rightarrow> verify_signature crypto key_type (dk_key key) (dc_sha256 crypto header_input) sig out))"

definition verify_one_message_signature ::
  "spf_dns \<Rightarrow> dkim_crypto \<Rightarrow> header_field list \<Rightarrow> nat \<Rightarrow> string \<Rightarrow> go_time \<Rightarrow> string \<Rightarrow> bool \<Rightarrow> dkim_signature" where
  "verify_one_message_signature dns crypto headers sig_index body now field_name require_version =
     (let out = zero_signature\<lparr>ds_result := DKIMPermError\<rparr>; raw_sig = snd (headers ! sig_index) in
      case parse_strict_tags raw_sig of
        Inl e \<Rightarrow> judged DKIMPermError e out
      | Inr tags \<Rightarrow>
        (case required_tags tags require_version out of Inl r \<Rightarrow> r
         | Inr out1 \<Rightarrow>
        (case signing_key_type out1 of Inl r \<Rightarrow> r
         | Inr key_type \<Rightarrow>
        (case check_times tags now out1 of Inl r \<Rightarrow> r
         | Inr out2 \<Rightarrow>
        (case canon_names tags of (header_canon, body_canon) \<Rightarrow>
           if \<not> known_canon header_canon
           then judged DKIMPermError (''unsupported header canonicalisation '' @ go_quote header_canon) out2
           else if \<not> known_canon body_canon
           then judged DKIMPermError (''unsupported body canonicalisation '' @ go_quote body_canon) out2
           else
        (case check_body_hash crypto tags (canonicalize_body body body_canon) out2 of Inl r \<Rightarrow> r
         | Inr out3 \<Rightarrow>
           check_key_and_signature dns crypto key_type
             (build_signed_header_input headers sig_index (ds_headers_signed out3) raw_sig header_canon field_name)
             tags out3))))))"

definition verify_one_dkim ::
  "spf_dns \<Rightarrow> dkim_crypto \<Rightarrow> header_field list \<Rightarrow> nat \<Rightarrow> string \<Rightarrow> go_time \<Rightarrow> dkim_signature" where
  "verify_one_dkim dns crypto headers sig_index body now =
     verify_one_message_signature dns crypto headers sig_index body now ''DKIM-Signature'' True"

section \<open>The message\<close>

record dkim_outcome =
  do_result :: dkim_verdict
  do_signatures :: "dkim_signature list"
  do_passing_domains :: "string list"

definition signature_indices :: "header_field list \<Rightarrow> nat list" where
  "signature_indices headers =
     take max_signatures (filter (\<lambda>i. is_field ''DKIM-Signature'' (headers ! i)) [0..<length headers])"

definition overall_verdict :: "dkim_signature list \<Rightarrow> dkim_verdict" where
  "overall_verdict sigs =
     (if list_ex (\<lambda>s. ds_result s = DKIMPass) sigs then DKIMPass
      else (case sigs of [s] \<Rightarrow> ds_result s | _ \<Rightarrow> DKIMFail))"

text \<open>\<open>clock\<close> is \<^verbatim>\<open>time.Now()\<close>, used for the zero time.\<close>

definition verify_dkim ::
  "spf_dns \<Rightarrow> dkim_crypto \<Rightarrow> go_time \<Rightarrow> header_field list \<Rightarrow> string \<Rightarrow> go_time \<Rightarrow> dkim_outcome" where
  "verify_dkim dns crypto clock headers body now0 =
     (let now = (if is_zero_time now0 then clock else now0); idx = signature_indices headers;
          n = count_header headers ''From''
      in if idx = [] then \<lparr>do_result = DKIMNone, do_signatures = [], do_passing_domains = []\<rparr>
         else if \<not> sd_enabled dns
         then \<lparr>do_result = DKIMTempError,
                do_signatures = [judged DKIMTempError ''no DNS resolver configured; the public key cannot be retrieved'' zero_signature],
                do_passing_domains = []\<rparr>
         else if n > 1
         then \<lparr>do_result = DKIMPermError,
                do_signatures = [judged DKIMPermError (''message carries '' @ show_nat n @
                   '' From fields; RFC 5322 allows one, and the signed copy need not be the one displayed'') zero_signature],
                do_passing_domains = []\<rparr>
         else
           let sigs = map (\<lambda>i. verify_one_dkim dns crypto headers i body now) idx
           in \<lparr>do_result = overall_verdict sigs, do_signatures = sigs,
               do_passing_domains = map ds_domain (filter (\<lambda>s. ds_result s = DKIMPass) sigs)\<rparr>)"

end
