(* ===== verification/Dmarc.thy ===== *)
theory Dmarc
  imports Dkim
begin

text \<open>
  DMARC, \<^verbatim>\<open>pkg/authverify/dmarc.go\<close>: the policy record, its discovery, identifier alignment and
  the evaluation of SPF and DKIM results. \<^verbatim>\<open>publicsuffix.EffectiveTLDPlusOne\<close> of
  \<^verbatim>\<open>golang.org/x/net\<close> is the parameter \<open>org_domain\<close>, with \<^const>\<open>None\<close> for an error. A policy is the
  string of the code: \<^verbatim>\<open>none\<close>, \<^verbatim>\<open>quarantine\<close>, \<^verbatim>\<open>reject\<close>, or empty if the tag is missing or invalid.
\<close>

datatype dmarc_verdict = DMARCNone | DMARCPass | DMARCFail | DMARCTempError | DMARCPermError

fun dmarc_text :: "dmarc_verdict \<Rightarrow> string" where
  "dmarc_text DMARCNone = ''none''" | "dmarc_text DMARCPass = ''pass''" | "dmarc_text DMARCFail = ''fail''"
| "dmarc_text DMARCTempError = ''temperror''" | "dmarc_text DMARCPermError = ''permerror''"

fun spf_text :: "spf_verdict \<Rightarrow> string" where
  "spf_text SPFNone = ''none''" | "spf_text SPFNeutral = ''neutral''" | "spf_text SPFPass = ''pass''"
| "spf_text SPFFail = ''fail''" | "spf_text SPFSoftfail = ''softfail''"
| "spf_text SPFTempError = ''temperror''" | "spf_text SPFPermError = ''permerror''"

definition policy_none :: string where "policy_none = ''none''"
definition policy_quarantine :: string where "policy_quarantine = ''quarantine''"
definition policy_reject :: string where "policy_reject = ''reject''"

record dmarc_record =
  dm_version :: string
  dm_policy :: string
  dm_subdomain_policy :: string
  dm_adkim :: string
  dm_aspf :: string
  dm_percent :: int
  dm_rua :: "string list"
  dm_ruf :: "string list"
  dm_raw :: string
  dm_domain :: string
  dm_organizational :: bool

record dmarc_result =
  dr_result :: dmarc_verdict
  dr_disposition :: string
  dr_from_domain :: string
  dr_record :: "dmarc_record option"
  dr_spf_aligned :: bool
  dr_dkim_aligned :: bool
  dr_aligned_dkim_domains :: "string list"
  dr_explanation :: string

section \<open>The record\<close>

definition normalize_policy :: "string \<Rightarrow> string" where
  "normalize_policy v =
     (let p = to_lower (trim_space v) in
      if p = policy_reject then policy_reject
      else if p = policy_quarantine then policy_quarantine
      else if p = policy_none then policy_none else [])"

definition split_uri_list :: "string \<Rightarrow> string list" where
  "split_uri_list v = filter (\<lambda>i. i \<noteq> []) (map trim_space (split_on CHR '','' v))"

definition dmarc_tag :: "string \<Rightarrow> string \<Rightarrow> dmarc_record \<Rightarrow> dmarc_record" where
  "dmarc_tag key v rec =
     (if key = ''v'' then rec\<lparr>dm_version := v\<rparr>
      else if key = ''p'' then rec\<lparr>dm_policy := normalize_policy v\<rparr>
      else if key = ''sp'' then rec\<lparr>dm_subdomain_policy := normalize_policy v\<rparr>
      else if key = ''adkim'' then
        (if to_lower v = ''s'' \<or> to_lower v = ''r'' then rec\<lparr>dm_adkim := to_lower v\<rparr> else rec)
      else if key = ''aspf'' then
        (if to_lower v = ''s'' \<or> to_lower v = ''r'' then rec\<lparr>dm_aspf := to_lower v\<rparr> else rec)
      else if key = ''pct'' then
        (case atoi v of Some n \<Rightarrow> if n \<ge> 0 \<and> n \<le> 100 then rec\<lparr>dm_percent := n\<rparr> else rec | None \<Rightarrow> rec)
      else if key = ''rua'' then rec\<lparr>dm_rua := split_uri_list v\<rparr>
      else if key = ''ruf'' then rec\<lparr>dm_ruf := split_uri_list v\<rparr>
      else rec)"

definition dmarc_part :: "string \<Rightarrow> dmarc_record \<Rightarrow> dmarc_record" where
  "dmarc_part part rec =
     (case index_byte CHR ''='' part of
        None \<Rightarrow> rec
      | Some eq \<Rightarrow> dmarc_tag (to_lower (trim_space (take eq part))) (trim_space (drop (Suc eq) part)) rec)"

definition new_record :: "string \<Rightarrow> dmarc_record" where
  "new_record raw = \<lparr>dm_version = [], dm_policy = [], dm_subdomain_policy = [], dm_adkim = ''r'', dm_aspf = ''r'',
     dm_percent = 100, dm_rua = [], dm_ruf = [], dm_raw = raw, dm_domain = [], dm_organizational = False\<rparr>"

definition parse_dmarc_record :: "string \<Rightarrow> dmarc_record" where
  "parse_dmarc_record raw =
     (let rec = fold dmarc_part (split_on CHR '';'' raw) (new_record raw)
      in if dm_subdomain_policy rec = [] then rec\<lparr>dm_subdomain_policy := dm_policy rec\<rparr> else rec)"

text \<open>The first text that starts with \<^verbatim>\<open>v=DMARC1\<close> is taken.\<close>

definition is_dmarc_text :: "string \<Rightarrow> bool" where
  "is_dmarc_text txt \<longleftrightarrow> has_prefix (to_lower (trim_space txt)) ''v=dmarc1''"

definition fetch_dmarc_record :: "spf_dns \<Rightarrow> string \<Rightarrow> dmarc_record option" where
  "fetch_dmarc_record dns domain =
     (case filter is_dmarc_text (sd_txt dns (''_dmarc.'' @ domain)) of
        [] \<Rightarrow> None
      | txt # _ \<Rightarrow> Some ((parse_dmarc_record (trim_space txt))\<lparr>dm_domain := domain\<rparr>))"

definition normal_domain :: "string \<Rightarrow> string" where
  "normal_domain d = to_lower (trim_suffix (trim_space d) ''.'')"

definition lookup_dmarc ::
  "(string \<Rightarrow> string option) \<Rightarrow> spf_dns \<Rightarrow> string \<Rightarrow> string + dmarc_record option" where
  "lookup_dmarc org_domain dns from_domain =
     (let domain = normal_domain from_domain in
      if \<not> sd_enabled dns then Inl ''no DNS resolver configured''
      else if domain = [] then Inl ''empty From domain''
      else (case fetch_dmarc_record dns domain of
          Some rec \<Rightarrow> Inr (Some (rec\<lparr>dm_organizational := False\<rparr>))
        | None \<Rightarrow>
            (case org_domain domain of
               None \<Rightarrow> Inr None
             | Some org \<Rightarrow>
                 if org = domain then Inr None
                 else Inr (map_option (\<lambda>rec. rec\<lparr>dm_organizational := True\<rparr>) (fetch_dmarc_record dns org)))))"

section \<open>Alignment\<close>

definition domains_align :: "(string \<Rightarrow> string option) \<Rightarrow> string \<Rightarrow> string \<Rightarrow> bool \<Rightarrow> bool" where
  "domains_align org_domain a0 b0 strict =
     (let a = normal_domain a0; b = normal_domain b0 in
      if a = [] \<or> b = [] then False
      else if a = b then True
      else if strict then False
      else (case (org_domain a, org_domain b) of (Some x, Some y) \<Rightarrow> x = y | _ \<Rightarrow> False))"

section \<open>Evaluation\<close>

definition alignment_summary :: "dmarc_result \<Rightarrow> string" where
  "alignment_summary r =
     (if dr_spf_aligned r \<and> dr_dkim_aligned r then ''DMARC passed: both SPF and DKIM align with the From domain''
      else if dr_dkim_aligned r
      then ''DMARC passed: DKIM aligns ('' @ join '', '' (dr_aligned_dkim_domains r) @ '')''
      else ''DMARC passed: SPF aligns with the From domain'')"

definition spf_aligned :: "(string \<Rightarrow> string option) \<Rightarrow> dmarc_record \<Rightarrow> string \<Rightarrow> spf_result \<Rightarrow> bool" where
  "spf_aligned org_domain rec from_domain spf \<longleftrightarrow>
     sr_result spf = SPFPass \<and> sr_domain spf \<noteq> [] \<and>
     domains_align org_domain (sr_domain spf) from_domain (dm_aspf rec = ''s'')"

definition aligned_domains ::
  "(string \<Rightarrow> string option) \<Rightarrow> dmarc_record \<Rightarrow> string \<Rightarrow> dkim_outcome \<Rightarrow> string list" where
  "aligned_domains org_domain rec from_domain dkim =
     filter (\<lambda>d. domains_align org_domain d from_domain (dm_adkim rec = ''s'')) (do_passing_domains dkim)"

definition applicable_policy :: "dmarc_record \<Rightarrow> string" where
  "applicable_policy rec =
     (if dm_organizational rec \<and> dm_subdomain_policy rec \<noteq> [] then dm_subdomain_policy rec else dm_policy rec)"

definition show_bool :: "bool \<Rightarrow> string" where
  "show_bool b = (if b then ''true'' else ''false'')"

definition fail_dmarc :: "spf_result \<Rightarrow> dkim_outcome \<Rightarrow> dmarc_record \<Rightarrow> dmarc_result \<Rightarrow> dmarc_result" where
  "fail_dmarc spf dkim rec result =
     (let policy = applicable_policy rec; failed = result\<lparr>dr_result := DMARCFail, dr_disposition := policy\<rparr> in
      if dm_percent rec < 100 \<and> policy = policy_reject
      then failed\<lparr>dr_disposition := policy_quarantine,
             dr_explanation := ''DMARC failed; policy is reject at pct='' @ show_int (dm_percent rec) @
               '', so the sampled disposition is quarantine''\<rparr>
      else failed\<lparr>dr_explanation := ''DMARC failed: SPF '' @ spf_text (sr_result spf) @ '' ('' @ sr_domain spf @
             '', aligned='' @ show_bool (dr_spf_aligned result) @ ''), DKIM '' @ dkim_text (do_result dkim) @
             '' (aligned='' @ show_bool (dr_dkim_aligned result) @ ''); policy '' @ policy\<rparr>)"

definition evaluate_dmarc ::
  "(string \<Rightarrow> string option) \<Rightarrow> dmarc_record \<Rightarrow> spf_result \<Rightarrow> dkim_outcome \<Rightarrow> dmarc_result \<Rightarrow> dmarc_result" where
  "evaluate_dmarc org_domain rec spf dkim result0 =
     (let domains = aligned_domains org_domain rec (dr_from_domain result0) dkim;
          result = result0\<lparr>dr_record := Some rec,
            dr_spf_aligned := spf_aligned org_domain rec (dr_from_domain result0) spf,
            dr_dkim_aligned := domains \<noteq> [], dr_aligned_dkim_domains := domains\<rparr>
      in if dm_policy rec = []
         then result0\<lparr>dr_record := Some rec, dr_result := DMARCPermError, dr_explanation := ''DMARC record has no valid p= tag''\<rparr>
         else if dr_spf_aligned result \<or> dr_dkim_aligned result
         then result\<lparr>dr_result := DMARCPass, dr_explanation := alignment_summary result\<rparr>
         else fail_dmarc spf dkim rec result)"

definition verify_dmarc ::
  "(string \<Rightarrow> string option) \<Rightarrow> spf_dns \<Rightarrow> string \<Rightarrow> spf_result \<Rightarrow> dkim_outcome \<Rightarrow> dmarc_result" where
  "verify_dmarc org_domain dns from_domain spf dkim =
     (let domain = to_lower (trim_space from_domain);
          result = \<lparr>dr_result = DMARCNone, dr_disposition = policy_none, dr_from_domain = domain, dr_record = None,
            dr_spf_aligned = False, dr_dkim_aligned = False, dr_aligned_dkim_domains = [], dr_explanation = []\<rparr>
      in if domain = []
         then result\<lparr>dr_result := DMARCPermError, dr_explanation := ''message has no usable From domain''\<rparr>
         else (case lookup_dmarc org_domain dns domain of
             Inl e \<Rightarrow> result\<lparr>dr_result := DMARCTempError, dr_explanation := e\<rparr>
           | Inr None \<Rightarrow> result\<lparr>dr_result := DMARCNone,
               dr_explanation := ''no DMARC record published for '' @ go_quote domain\<rparr>
           | Inr (Some rec) \<Rightarrow> evaluate_dmarc org_domain rec spf dkim result))"

section \<open>Facts\<close>

lemma normal_domain_idem_lower: "to_lower (normal_domain d) = normal_domain d"
  by (simp add: normal_domain_def)

lemma align_sym: "domains_align org_domain a b strict = domains_align org_domain b a strict"
  by (auto simp: domains_align_def Let_def split: option.splits)

lemma align_strict: "domains_align org_domain a b True \<longleftrightarrow> normal_domain a = normal_domain b \<and> normal_domain a \<noteq> []"
  by (auto simp: domains_align_def Let_def)

lemma align_relaxed:
  "domains_align org_domain a b False \<longleftrightarrow> normal_domain a \<noteq> [] \<and> normal_domain b \<noteq> [] \<and>
     (normal_domain a = normal_domain b \<or>
      (\<exists>org. org_domain (normal_domain a) = Some org \<and> org_domain (normal_domain b) = Some org))"
  by (auto simp: domains_align_def Let_def split: option.splits)

lemma align_mono: "domains_align org_domain a b strict \<Longrightarrow> domains_align org_domain a b False"
  by (cases strict) (auto simp: align_strict align_relaxed)

lemma align_trans:
  "domains_align org_domain a b strict \<Longrightarrow> domains_align org_domain b c strict \<Longrightarrow> domains_align org_domain a c strict"
  by (cases strict) (auto simp: align_strict align_relaxed)

lemma aligned_domains_iff:
  "aligned_domains org_domain rec from_domain dkim \<noteq> [] \<longleftrightarrow>
     (\<exists>d \<in> set (do_passing_domains dkim). domains_align org_domain d from_domain (dm_adkim rec = ''s''))"
  by (auto simp: aligned_domains_def filter_empty_conv)

lemma fail_dmarc_simps [simp]:
  "dr_result (fail_dmarc spf dkim rec result) = DMARCFail"
  "dr_record (fail_dmarc spf dkim rec result) = dr_record result"
  by (simp_all add: fail_dmarc_def Let_def)

lemma fail_dmarc_disposition:
  "dr_disposition (fail_dmarc spf dkim rec result) =
     (if dm_percent rec < 100 \<and> applicable_policy rec = policy_reject then policy_quarantine else applicable_policy rec)"
  by (simp add: fail_dmarc_def Let_def)

text \<open>How severe a policy is, to compare a disposition with the published policy.\<close>

definition severity :: "string \<Rightarrow> nat" where
  "severity p = (if p = policy_reject then 2 else if p = policy_quarantine then 1 else 0)"

lemma policies_distinct [simp]:
  "policy_reject \<noteq> policy_quarantine" "policy_quarantine \<noteq> policy_reject" "policy_none \<noteq> policy_reject"
  "policy_none \<noteq> policy_quarantine" "policy_reject \<noteq> policy_none" "policy_quarantine \<noteq> policy_none"
  by (simp_all add: policy_reject_def policy_quarantine_def policy_none_def)

lemma normalize_policy_range: "normalize_policy v \<in> {[], policy_none, policy_quarantine, policy_reject}"
  by (simp add: normalize_policy_def Let_def)

end
