(* ===== verification/Arc.thy ===== *)
theory Arc
  imports Dkim "HOL-Library.AList"
begin

text \<open>
  ARC chains, \<^verbatim>\<open>pkg/authverify/arc.go\<close>: the collection of the sets, the seals and the chain. The
  Go map from instance numbers to sets is an association list with distinct keys; an index of -1
  in a set is \<^const>\<open>None\<close>. The result strings of the code are those of DKIM.
\<close>

record arc_set =
  aar_index :: "nat option"
  ams_index :: "nat option"
  as_index :: "nat option"

type_synonym arc_sets = "(int \<times> arc_set) list"

record arc_set_result =
  ar_instance :: int
  ar_domain :: string
  ar_selector :: string
  ar_chain_validation :: string
  ar_message_signature :: "dkim_verdict option"
  ar_seal :: "dkim_verdict option"
  ar_explanation :: string

record arc_result =
  arc_verdict :: dkim_verdict
  arc_results :: "arc_set_result list"
  arc_explanation :: string

section \<open>Collecting the sets\<close>

datatype arc_slot = AAR | AMS | AS

definition arc_slot_of :: "string \<Rightarrow> arc_slot option" where
  "arc_slot_of name =
     (let key = field_key name in
      if key = ''arc-authentication-results'' then Some AAR
      else if key = ''arc-message-signature'' then Some AMS
      else if key = ''arc-seal'' then Some AS else None)"

fun get_slot :: "arc_slot \<Rightarrow> arc_set \<Rightarrow> nat option" where
  "get_slot AAR s = aar_index s" | "get_slot AMS s = ams_index s" | "get_slot AS s = as_index s"

fun set_slot :: "arc_slot \<Rightarrow> nat \<Rightarrow> arc_set \<Rightarrow> arc_set" where
  "set_slot AAR i s = s\<lparr>aar_index := Some i\<rparr>"
| "set_slot AMS i s = s\<lparr>ams_index := Some i\<rparr>"
| "set_slot AS i s = s\<lparr>as_index := Some i\<rparr>"

definition empty_set :: arc_set where
  "empty_set = \<lparr>aar_index = None, ams_index = None, as_index = None\<rparr>"

definition set_of :: "arc_sets \<Rightarrow> int \<Rightarrow> arc_set" where
  "set_of sets instance = (case map_of sets instance of None \<Rightarrow> empty_set | Some s \<Rightarrow> s)"

definition arc_instance :: "string \<Rightarrow> int option" where
  "arc_instance v = atoi (trim_space (tag_value (parse_dkim_tags v) ''i''))"

fun collect_sets :: "nat \<Rightarrow> header_field list \<Rightarrow> arc_sets \<Rightarrow> string + arc_sets" where
  "collect_sets index [] sets = Inr sets"
| "collect_sets index (h # hs) sets =
     (case arc_slot_of (fst h) of
        None \<Rightarrow> collect_sets (Suc index) hs sets
      | Some slot \<Rightarrow>
          (case arc_instance (snd h) of
             None \<Rightarrow> Inl (''invalid ARC instance on '' @ fst h)
           | Some i \<Rightarrow>
               if i < 1 \<or> i > 50 then Inl (''invalid ARC instance on '' @ fst h)
               else if get_slot slot (set_of sets i) \<noteq> None
               then Inl (''duplicate '' @ fst h @ '' for ARC instance '' @ show_int i)
               else collect_sets (Suc index) hs (AList.update i (set_slot slot index (set_of sets i)) sets)))"

section \<open>Seals\<close>

definition field_at :: "header_field list \<Rightarrow> nat option \<Rightarrow> header_field" where
  "field_at headers i = (case i of Some n \<Rightarrow> headers ! n | None \<Rightarrow> ([], []))"

definition canonical_at :: "header_field list \<Rightarrow> nat option \<Rightarrow> string" where
  "canonical_at headers i = canonicalize_header (fst (field_at headers i)) (snd (field_at headers i)) ''relaxed''"

text \<open>The part of the seal input that set \<open>n\<close> contributes; the seal itself comes last, emptied.\<close>

definition seal_part :: "header_field list \<Rightarrow> arc_sets \<Rightarrow> int \<Rightarrow> int \<Rightarrow> string" where
  "seal_part headers sets instance n =
     (let s = set_of sets n; seal = field_at headers (as_index s) in
      canonical_at headers (aar_index s) @ canonical_at headers (ams_index s) @
      (if n = instance
       then trim_suffix (canonicalize_header (fst seal) (strip_signature_value (snd seal)) ''relaxed'') CRLF
       else canonicalize_header (fst seal) (snd seal) ''relaxed''))"

definition build_arc_seal_input :: "header_field list \<Rightarrow> arc_sets \<Rightarrow> int \<Rightarrow> string" where
  "build_arc_seal_input headers sets instance = concat (map (seal_part headers sets instance) [1..instance])"

definition seal_key_verdict ::
  "dkim_crypto \<Rightarrow> string \<Rightarrow> public_key \<Rightarrow> bytes \<Rightarrow> bytes \<Rightarrow> dkim_verdict \<times> string" where
  "seal_key_verdict crypto algorithm key digest sig =
     (if algorithm = ''rsa-sha256'' then
        (case key of
           RsaPublic k \<Rightarrow>
             if bit_len (rk_modulus k) < min_rsa_key_bits then (DKIMPolicy, ''ARC-Seal does not use an acceptable RSA key'')
             else if \<not> dc_rsa_verify crypto k digest sig then (DKIMFail, ''seal signature does not verify'')
             else (DKIMPass, ''message signature and seal verified'')
         | _ \<Rightarrow> (DKIMPolicy, ''ARC-Seal does not use an acceptable RSA key''))
      else if algorithm = ''ed25519-sha256'' then
        (case key of
           Ed25519Public k \<Rightarrow>
             if \<not> dc_ed_verify crypto k digest sig then (DKIMFail, ''seal signature does not verify'')
             else (DKIMPass, ''message signature and seal verified'')
         | _ \<Rightarrow> (DKIMFail, ''seal signature does not verify''))
      else (DKIMPass, ''message signature and seal verified''))"

definition verify_arc_seal ::
  "spf_dns \<Rightarrow> dkim_crypto \<Rightarrow> header_field list \<Rightarrow> arc_sets \<Rightarrow> int \<Rightarrow> dkim_verdict \<times> string" where
  "verify_arc_seal dns crypto headers sets instance =
     (case parse_strict_tags (snd (field_at headers (as_index (set_of sets instance)))) of
        Inl e \<Rightarrow> (DKIMPermError, e)
      | Inr tags \<Rightarrow>
          let domain = to_lower (tag_value tags ''d''); selector = trim_space (tag_value tags ''s'');
              algorithm = to_lower (tag_value tags ''a'')
          in if domain = [] \<or> selector = [] \<or> tag_value tags ''b'' = [] \<or> tag_value tags ''i'' = [] \<or> tag_value tags ''cv'' = []
             then (DKIMPermError, ''ARC-Seal is missing a required i, a, b, d, s, or cv tag'')
             else if algorithm \<noteq> ''rsa-sha256'' \<and> algorithm \<noteq> ''ed25519-sha256''
             then (DKIMPolicy, ''unsupported ARC-Seal algorithm '' @ go_quote algorithm)
             else (case b64_decode (strip_whitespace (tag_value tags ''b'')) of
                 None \<Rightarrow> (DKIMPermError, ''ARC-Seal b= is not valid base64'')
               | Some sig \<Rightarrow>
                   (case fetch_dkim_key dns crypto selector domain of
                      Inl msg \<Rightarrow> (DKIMPermError, msg)
                    | Inr key \<Rightarrow> seal_key_verdict crypto algorithm (dk_key key)
                        (dc_sha256 crypto (build_arc_seal_input headers sets instance)) sig)))"

section \<open>The chain\<close>

definition complete_set :: "arc_sets \<Rightarrow> int \<Rightarrow> bool" where
  "complete_set sets instance \<longleftrightarrow>
     (case map_of sets instance of
        None \<Rightarrow> False | Some s \<Rightarrow> aar_index s \<noteq> None \<and> ams_index s \<noteq> None \<and> as_index s \<noteq> None)"

definition forbidden_in_ams :: "string \<Rightarrow> bool" where
  "forbidden_in_ams name \<longleftrightarrow>
     to_lower name \<in> {''authentication-results'', ''arc-authentication-results'', ''arc-message-signature'', ''arc-seal''}"

definition verify_ams ::
  "spf_dns \<Rightarrow> dkim_crypto \<Rightarrow> header_field list \<Rightarrow> arc_sets \<Rightarrow> int \<Rightarrow> string \<Rightarrow> go_time \<Rightarrow> dkim_signature" where
  "verify_ams dns crypto headers sets instance body now =
     (let ams = verify_one_message_signature dns crypto headers (the (ams_index (set_of sets instance))) body now
            ''ARC-Message-Signature'' False
      in if list_ex forbidden_in_ams (ds_headers_signed ams)
         then judged DKIMPermError ''ARC-Message-Signature must not cover Authentication-Results or ARC fields'' ams
         else ams)"

definition expected_cv :: "int \<Rightarrow> string" where
  "expected_cv instance = (if instance = 1 then ''none'' else ''pass'')"

definition arc_stop :: "dkim_verdict \<Rightarrow> string \<Rightarrow> arc_set_result list \<Rightarrow> arc_result" where
  "arc_stop verdict msg done = \<lparr>arc_verdict = verdict, arc_results = done, arc_explanation = msg\<rparr>"

text \<open>One round of the loop over the instances: the final result or the detail of the set.\<close>

definition arc_round ::
  "spf_dns \<Rightarrow> dkim_crypto \<Rightarrow> header_field list \<Rightarrow> string \<Rightarrow> go_time \<Rightarrow> arc_sets \<Rightarrow> arc_set_result list \<Rightarrow> int \<Rightarrow>
     arc_result + arc_set_result" where
  "arc_round dns crypto headers body now sets done instance =
     (if \<not> complete_set sets instance
      then Inl (arc_stop DKIMPermError (''ARC sets must be consecutive and complete; instance '' @ show_int instance @
        '' is missing a field'') done)
      else (case parse_strict_tags (snd (field_at headers (as_index (set_of sets instance)))) of
          Inl e \<Rightarrow> Inl (arc_stop DKIMPermError e done)
        | Inr tags \<Rightarrow>
            let cv = to_lower (tag_value tags ''cv'');
                detail = \<lparr>ar_instance = instance, ar_domain = to_lower (tag_value tags ''d''),
                  ar_selector = tag_value tags ''s'', ar_chain_validation = cv, ar_message_signature = None,
                  ar_seal = None, ar_explanation = []\<rparr>;
                wrong_cv = ''ARC-Seal cv='' @ cv @ '', expected '' @ expected_cv instance;
                ams = verify_ams dns crypto headers sets instance body now;
                detail1 = detail\<lparr>ar_message_signature := Some (ds_result ams)\<rparr>
            in if cv \<noteq> expected_cv instance
               then Inl (arc_stop DKIMFail wrong_cv (done @ [detail\<lparr>ar_explanation := wrong_cv\<rparr>]))
               else if ds_result ams \<noteq> DKIMPass \<and> instance = int (length sets)
               then Inl (arc_stop (ds_result ams) (''ARC instance '' @ show_int instance @ '' message signature failed'')
                 (done @ [detail1\<lparr>ar_explanation := ''ARC-Message-Signature: '' @ ds_explanation ams\<rparr>]))
               else (case verify_arc_seal dns crypto headers sets instance of
                   (seal, msg) \<Rightarrow>
                     let detail2 = detail1\<lparr>ar_seal := Some seal, ar_explanation := msg\<rparr> in
                     if seal \<noteq> DKIMPass
                     then Inl (arc_stop seal (''ARC instance '' @ show_int instance @ '' seal failed: '' @ msg) (done @ [detail2]))
                     else Inr detail2)))"

fun arc_loop ::
  "(arc_set_result list \<Rightarrow> int \<Rightarrow> arc_result + arc_set_result) \<Rightarrow> arc_set_result list \<Rightarrow> int list \<Rightarrow> arc_result" where
  "arc_loop round done [] = arc_stop DKIMPass (''all '' @ show_nat (length done) @ '' ARC set(s) cryptographically verified'') done"
| "arc_loop round done (i # is) =
     (case round done i of Inl r \<Rightarrow> r | Inr detail \<Rightarrow> arc_loop round (done @ [detail]) is)"

definition verify_arc ::
  "spf_dns \<Rightarrow> dkim_crypto \<Rightarrow> go_time \<Rightarrow> header_field list \<Rightarrow> string \<Rightarrow> go_time \<Rightarrow> arc_result" where
  "verify_arc dns crypto clock headers body now0 =
     (let now = (if is_zero_time now0 then clock else now0); n = count_header headers ''From'' in
      case collect_sets 0 headers [] of
        Inl e \<Rightarrow> arc_stop DKIMPermError e []
      | Inr sets \<Rightarrow>
          if sets = [] then arc_stop DKIMNone ''no ARC chain present'' []
          else if n \<noteq> 1
          then arc_stop DKIMPermError (''ARC cannot authenticate a message with '' @ show_nat n @ '' From fields'') []
          else if \<not> sd_enabled dns
          then arc_stop DKIMTempError ''no DNS resolver configured; ARC keys cannot be retrieved'' []
          else arc_loop (arc_round dns crypto headers body now sets) [] [1..int (length sets)])"

end
