(* ===== verification/Dane.thy ===== *)
theory Dane
  imports Spf Base64
begin

text \<open>
  DANE, \<^verbatim>\<open>pkg/authverify/dane.go\<close>: the discovery of TLSA records for a host and for the MX hosts
  of a domain, and the match of a presented certificate chain. \<^verbatim>\<open>LookupTLSA\<close> of the resolver is a
  parameter \<open>tlsa\<close>; of a certificate the code reads the raw bytes and those of the public key; the
  two hash functions are parameters.
\<close>

datatype dane_verdict =
  DANENone | DANEAvailable | DANEPass | DANEFail | DANEInsecure | DANETempError | DANEPermError

fun dane_text :: "dane_verdict \<Rightarrow> string" where
  "dane_text DANENone = ''none''" | "dane_text DANEAvailable = ''available''" | "dane_text DANEPass = ''pass''"
| "dane_text DANEFail = ''fail''" | "dane_text DANEInsecure = ''insecure''"
| "dane_text DANETempError = ''temperror''" | "dane_text DANEPermError = ''permerror''"

record tlsa_record =
  tl_usage :: "8 word"
  tl_selector :: "8 word"
  tl_matching :: "8 word"
  tl_certificate :: string

record tlsa_lookup =
  lk_name :: string
  lk_records :: "tlsa_record list"
  lk_secure :: bool
  lk_found :: bool
  lk_error :: string

type_synonym tlsa_source = "string \<Rightarrow> int \<Rightarrow> tlsa_lookup"

record dane_result =
  dn_result :: dane_verdict
  dn_host :: string
  dn_port :: int
  dn_tlsa_found :: bool
  dn_dnssec :: bool
  dn_records :: "tlsa_record list"
  dn_usable :: nat
  dn_matched :: "nat option"
  dn_explanation :: string

definition show_byte :: "8 word \<Rightarrow> string" where
  "show_byte b = show_nat (unat b)"

definition usable_record :: "tlsa_record \<Rightarrow> bool" where
  "usable_record r \<longleftrightarrow> tl_usage r = 2 \<or> tl_usage r = 3"

section \<open>Discovery\<close>

definition check_dane :: "bool \<Rightarrow> tlsa_source \<Rightarrow> string \<Rightarrow> int \<Rightarrow> dane_result" where
  "check_dane enabled tlsa host port0 =
     (let result0 = \<lparr>dn_result = DANENone, dn_host = host, dn_port = port0, dn_tlsa_found = False, dn_dnssec = False,
            dn_records = [], dn_usable = 0, dn_matched = None, dn_explanation = []\<rparr>
      in if \<not> enabled then result0\<lparr>dn_result := DANETempError, dn_explanation := ''no DNS resolver configured''\<rparr>
         else
           let port = (if port0 \<le> 0 then 25 else port0); lookup = tlsa host port;
               result = result0\<lparr>dn_port := port, dn_dnssec := lk_secure lookup, dn_tlsa_found := lk_found lookup,
                 dn_records := lk_records lookup\<rparr>;
               n = length (lk_records lookup); usable = length (filter usable_record (lk_records lookup))
           in if lk_error lookup \<noteq> []
              then result\<lparr>dn_result := DANETempError,
                     dn_explanation := ''TLSA lookup for '' @ lk_name lookup @ '' failed: '' @ lk_error lookup\<rparr>
              else if \<not> lk_found lookup
              then result\<lparr>dn_result := DANENone, dn_explanation := ''no TLSA records published at '' @ lk_name lookup\<rparr>
              else if \<not> lk_secure lookup
              then result\<lparr>dn_usable := usable, dn_result := DANEInsecure,
                     dn_explanation := show_nat n @ '' TLSA record(s) at '' @ lk_name lookup @
                       '', but the answer was not DNSSEC-validated; point --dns-server at a validating resolver to use DANE''\<rparr>
              else if usable = 0
              then result\<lparr>dn_result := DANEPermError,
                     dn_explanation := show_nat n @
                       '' TLSA record(s) published but none use DANE-TA or DANE-EE, which RFC 7672 requires for SMTP''\<rparr>
              else result\<lparr>dn_usable := usable, dn_result := DANEAvailable,
                     dn_explanation := show_nat usable @ '' usable DNSSEC-validated TLSA record(s) at '' @ lk_name lookup\<rparr>)"

record dane_domain_result =
  dd_result :: dane_verdict
  dd_domain :: string
  dd_hosts :: "dane_result list"
  dd_secure_hosts :: nat
  dd_explanation :: string

definition count_verdict :: "dane_verdict \<Rightarrow> dane_result list \<Rightarrow> nat" where
  "count_verdict v rs = length (filter (\<lambda>r. dn_result r = v) rs)"

definition domain_verdict :: "dane_result list \<Rightarrow> dane_verdict \<times> string" where
  "domain_verdict rs =
     (let n = length rs; secure = count_verdict DANEAvailable rs; insecure = count_verdict DANEInsecure rs;
          temp = count_verdict DANETempError rs; perm = count_verdict DANEPermError rs
      in if secure = n then (DANEAvailable, ''all '' @ show_nat n @ '' MX host(s) publish validated TLSA records'')
         else if secure > 0
         then (DANEInsecure, ''only '' @ show_nat secure @ '' of '' @ show_nat n @
                '' MX host(s) publish validated TLSA records, so delivery can be downgraded'')
         else if insecure > 0
         then (DANEInsecure, show_nat insecure @ '' MX host(s) publish TLSA records that were not DNSSEC-validated'')
         else if temp > 0
         then (DANETempError, ''TLSA lookup failed for '' @ show_nat temp @ '' of '' @ show_nat n @ '' MX host(s)'')
         else if perm > 0 then (DANEPermError, show_nat perm @ '' MX host(s) publish unusable TLSA records'')
         else (DANENone, ''none of the '' @ show_nat n @ '' MX host(s) publish usable TLSA records''))"

definition check_dane_domain :: "spf_dns \<Rightarrow> tlsa_source \<Rightarrow> string \<Rightarrow> dane_domain_result" where
  "check_dane_domain dns tlsa domain =
     (let result = \<lparr>dd_result = DANENone, dd_domain = domain, dd_hosts = [], dd_secure_hosts = 0, dd_explanation = []\<rparr>;
          hosts = sd_mx dns domain
      in if \<not> sd_enabled dns
         then result\<lparr>dd_result := DANETempError, dd_explanation := ''no DNS resolver configured''\<rparr>
         else if hosts = [] then result\<lparr>dd_explanation := ''no MX records for '' @ go_quote domain\<rparr>
         else
           let rs = map (\<lambda>h. check_dane True tlsa h 25) hosts
           in result\<lparr>dd_hosts := rs, dd_secure_hosts := count_verdict DANEAvailable rs,
                dd_result := fst (domain_verdict rs), dd_explanation := snd (domain_verdict rs)\<rparr>)"

section \<open>Certificates\<close>

record certificate =
  ce_raw :: bytes
  ce_public_key :: bytes

record tlsa_hashes =
  th_sha256 :: "bytes \<Rightarrow> bytes"
  th_sha512 :: "bytes \<Rightarrow> bytes"

definition select_association_data :: "certificate \<Rightarrow> 8 word \<Rightarrow> bytes option" where
  "select_association_data cert selector =
     (if selector = 0 then Some (ce_raw cert) else if selector = 1 then Some (ce_public_key cert) else None)"

definition apply_matching_type :: "tlsa_hashes \<Rightarrow> bytes \<Rightarrow> 8 word \<Rightarrow> bytes option" where
  "apply_matching_type hashes dat matching =
     (if matching = 0 then Some dat else if matching = 1 then Some (th_sha256 hashes dat)
      else if matching = 2 then Some (th_sha512 hashes dat) else None)"

text \<open>\<^verbatim>\<open>hex.DecodeString\<close>.\<close>

fun hex_decode :: "string \<Rightarrow> bytes option" where
  "hex_decode [] = Some []"
| "hex_decode [c] = None"
| "hex_decode (a # b # s) =
     (case (hex_val a, hex_val b, hex_decode s) of
        (Some x, Some y, Some bs) \<Rightarrow> Some (byte_of (16 * x + y) # bs) | _ \<Rightarrow> None)"

definition tlsa_candidates :: "tlsa_record \<Rightarrow> certificate list \<Rightarrow> certificate list" where
  "tlsa_candidates r chain =
     (if tl_usage r = 3 then take 1 chain else if tl_usage r = 2 then chain else [])"

definition certificate_matches :: "tlsa_hashes \<Rightarrow> tlsa_record \<Rightarrow> certificate \<Rightarrow> bool" where
  "certificate_matches hashes r cert =
     (case select_association_data cert (tl_selector r) of
        None \<Rightarrow> False
      | Some association \<Rightarrow>
          (case (apply_matching_type hashes association (tl_matching r), hex_decode (tl_certificate r)) of
             (Some digest, Some expected) \<Rightarrow> digest = expected | _ \<Rightarrow> False))"

definition record_matches :: "tlsa_hashes \<Rightarrow> certificate list \<Rightarrow> tlsa_record \<Rightarrow> bool" where
  "record_matches hashes chain r = list_ex (certificate_matches hashes r) (tlsa_candidates r chain)"

text \<open>The index of the first record that matches.\<close>

fun first_match :: "(tlsa_record \<Rightarrow> bool) \<Rightarrow> nat \<Rightarrow> tlsa_record list \<Rightarrow> (nat \<times> tlsa_record) option" where
  "first_match p i [] = None"
| "first_match p i (r # rs) = (if p r then Some (i, r) else first_match p (Suc i) rs)"

definition verify_dane_certificate ::
  "bool \<Rightarrow> tlsa_source \<Rightarrow> tlsa_hashes \<Rightarrow> string \<Rightarrow> int \<Rightarrow> certificate list \<Rightarrow> dane_result" where
  "verify_dane_certificate enabled tlsa hashes host port chain =
     (let result = check_dane enabled tlsa host port in
      if dn_result result \<noteq> DANEAvailable then result
      else if chain = []
      then result\<lparr>dn_result := DANEFail, dn_explanation := ''no certificate was presented to match against the TLSA records''\<rparr>
      else (case first_match (record_matches hashes chain) 0 (dn_records result) of
          Some (i, r) \<Rightarrow> result\<lparr>dn_result := DANEPass, dn_matched := Some i,
            dn_explanation := ''certificate matched TLSA record '' @ show_nat i @ '' (usage '' @ show_byte (tl_usage r) @
              '', selector '' @ show_byte (tl_selector r) @ '', matching '' @ show_byte (tl_matching r) @ '')''\<rparr>
        | None \<Rightarrow> result\<lparr>dn_result := DANEFail, dn_matched := None,
            dn_explanation := ''presented certificate matched none of the '' @ show_nat (dn_usable result) @
              '' usable TLSA record(s)''\<rparr>))"

definition describe_tlsa :: "tlsa_record \<Rightarrow> string" where
  "describe_tlsa r =
     (let usage = (if tl_usage r = 0 then ''PKIX-TA'' else if tl_usage r = 1 then ''PKIX-EE''
            else if tl_usage r = 2 then ''DANE-TA'' else if tl_usage r = 3 then ''DANE-EE''
            else ''usage'' @ show_byte (tl_usage r));
          selector = (if tl_selector r = 0 then ''Cert'' else if tl_selector r = 1 then ''SPKI''
            else ''selector'' @ show_byte (tl_selector r));
          matching = (if tl_matching r = 0 then ''Full'' else if tl_matching r = 1 then ''SHA-256''
            else if tl_matching r = 2 then ''SHA-512'' else ''matching'' @ show_byte (tl_matching r));
          digest = (if length (tl_certificate r) > 16 then take 16 (tl_certificate r) @ ''...'' else tl_certificate r)
      in usage @ '' '' @ selector @ '' '' @ matching @ '' '' @ to_lower digest)"

section \<open>Facts\<close>

lemma first_match_Some:
  "first_match p i rs = Some (j, r) \<Longrightarrow> i \<le> j \<and> j < i + length rs \<and> rs ! (j - i) = r \<and> p r \<and> (\<forall>k < j - i. \<not> p (rs ! k))"
proof (induction rs arbitrary: i)
  case (Cons x xs)
  show ?case
  proof (cases "p x")
    case False
    with Cons.IH [of "Suc i"] Cons.prems have IH: "Suc i \<le> j \<and> j < Suc i + length xs \<and> xs ! (j - Suc i) = r \<and> p r \<and> (\<forall>k < j - Suc i. \<not> p (xs ! k))"
      by simp
    then have "j - i = Suc (j - Suc i)" by linarith
    with IH False show ?thesis by (auto simp: nth_Cons split: nat.splits)
  qed (use Cons in auto)
qed simp

lemma first_match_None: "first_match p i rs = None \<longleftrightarrow> (\<forall>r \<in> set rs. \<not> p r)"
  by (induction rs arbitrary: i) auto

lemma check_dane_available:
  "dn_result (check_dane enabled tlsa host port) = DANEAvailable \<longleftrightarrow>
     enabled \<and> (let l = tlsa host (if port \<le> 0 then 25 else port) in
       lk_error l = [] \<and> lk_found l \<and> lk_secure l \<and> (\<exists>r \<in> set (lk_records l). usable_record r))"
  by (auto simp: check_dane_def Let_def filter_empty_conv)

lemma check_dane_not_pass: "dn_result (check_dane enabled tlsa host port) \<noteq> DANEPass"
  by (simp add: check_dane_def Let_def)

lemma check_dane_records:
  "enabled \<Longrightarrow> dn_records (check_dane enabled tlsa host port) = lk_records (tlsa host (if port \<le> 0 then 25 else port))"
  by (simp add: check_dane_def Let_def)

lemma verify_dane_pass:
  "dn_result (verify_dane_certificate enabled tlsa hashes host port chain) = DANEPass \<longleftrightarrow>
     dn_result (check_dane enabled tlsa host port) = DANEAvailable \<and> chain \<noteq> [] \<and>
     (\<exists>r \<in> set (dn_records (check_dane enabled tlsa host port)). record_matches hashes chain r)"
proof (cases "dn_result (check_dane enabled tlsa host port) = DANEAvailable \<and> chain \<noteq> []")
  case True
  then show ?thesis
    using first_match_None [of "record_matches hashes chain" 0 "dn_records (check_dane enabled tlsa host port)"]
    by (auto simp: verify_dane_certificate_def Let_def split: option.splits)
next
  case False
  then show ?thesis using check_dane_not_pass [of enabled tlsa host port]
    by (auto simp: verify_dane_certificate_def Let_def)
qed

end
