(* ===== verification/AuthVerify.thy ===== *)
theory AuthVerify
  imports Dmarc Arc Dane
begin

text \<open>
  The consolidated verification, \<^verbatim>\<open>pkg/authverify/verify.go\<close>: SPF, DKIM, ARC, DMARC and
  optionally DANE for one message, the Authentication-Results text, the summary, the disposition
  and the warnings. What the verifiers take from outside is the record \<open>auth_env\<close>.
  The measured time (\<^verbatim>\<open>Elapsed\<close>) is left out.
\<close>

record auth_env =
  ae_dns :: spf_dns
  ae_crypto :: dkim_crypto
  ae_clock :: go_time
  ae_org_domain :: "string \<Rightarrow> string option"
  ae_tlsa :: tlsa_source

record auth_input =
  ai_headers :: "header_field list"
  ai_body :: string
  ai_client_ip :: string
  ai_mail_from :: string
  ai_helo :: string
  ai_from_domain :: string
  ai_now :: go_time
  ai_check_dane :: bool

record auth_result =
  au_spf :: spf_result
  au_dkim :: dkim_outcome
  au_dmarc :: dmarc_result
  au_dane :: "dane_domain_result option"
  au_arc :: arc_result
  au_from_domain :: string
  au_authenticated :: bool

fun header_value :: "header_field list \<Rightarrow> string \<Rightarrow> string" where
  "header_value [] name = []"
| "header_value (h # hs) name = (if is_field name h then snd h else header_value hs name)"

text \<open>The part in the last angle brackets, if the field has any.\<close>

definition angle_part :: "string \<Rightarrow> string" where
  "angle_part field =
     (case last_index CHR ''<'' field of
        None \<Rightarrow> field
      | Some open \<Rightarrow> (case index_byte CHR ''>'' (drop open field) of
            None \<Rightarrow> field | Some e \<Rightarrow> if e > 0 then take (e - 1) (drop (Suc open) field) else field))"

definition domain_trim :: string where
  "domain_trim = ''<>'' @ [DQ] @ [CHR 0x27] @ [SP, TAB] @ '';,''"

definition domain_of_address :: "string \<Rightarrow> string" where
  "domain_of_address field0 =
     (let field = angle_part (trim_space field0) in
      if trim_space field0 = [] then []
      else (case last_index CHR ''@'' field of
          None \<Rightarrow> []
        | Some at \<Rightarrow> to_lower (trim_suffix (trim_set (trim_space (drop (Suc at) field)) domain_trim) ''.'')))"

definition auth_from_domain :: "auth_input \<Rightarrow> string" where
  "auth_from_domain input =
     (let d = to_lower (trim_space (ai_from_domain input)) in
      if d = [] then domain_of_address (header_value (ai_headers input) ''From'') else d)"

text \<open>\<^const>\<open>None\<close> would mean that SPF does not return; \<open>verify_returns\<close> excludes it.\<close>

definition auth_spf :: "auth_env \<Rightarrow> auth_input \<Rightarrow> spf_result option" where
  "auth_spf env input =
     (if ai_client_ip input \<noteq> []
      then verify_spf (ae_dns env) (ai_client_ip input) (ai_mail_from input) (ai_helo input)
      else Some ((spf_answer SPFNone (domain_of_address (ai_mail_from input)) []
             (Some ''no client IP supplied; SPF cannot be evaluated''))))"

definition verify_auth :: "auth_env \<Rightarrow> auth_input \<Rightarrow> auth_result option" where
  "verify_auth env input =
     (case auth_spf env input of
        None \<Rightarrow> None
      | Some spf \<Rightarrow>
          let now = (if is_zero_time (ai_now input) then ae_clock env else ai_now input);
              domain = auth_from_domain input;
              dkim = verify_dkim (ae_dns env) (ae_crypto env) (ae_clock env) (ai_headers input) (ai_body input) now;
              arc = verify_arc (ae_dns env) (ae_crypto env) (ae_clock env) (ai_headers input) (ai_body input) now;
              dmarc = verify_dmarc (ae_org_domain env) (ae_dns env) domain spf dkim
          in Some \<lparr>au_spf = spf, au_dkim = dkim, au_dmarc = dmarc,
               au_dane = (if ai_check_dane input \<and> domain \<noteq> []
                          then Some (check_dane_domain (ae_dns env) (ae_tlsa env) domain) else None),
               au_arc = arc, au_from_domain = domain, au_authenticated = (dr_result dmarc = DMARCPass)\<rparr>)"

section \<open>Reports\<close>

definition authentication_parts :: "auth_result \<Rightarrow> string \<Rightarrow> string list" where
  "authentication_parts r authserv_id =
     [if authserv_id = [] then ''mailscript'' else authserv_id,
      ''spf='' @ spf_text (sr_result (au_spf r)) @
        (if sr_domain (au_spf r) \<noteq> [] then '' smtp.mailfrom='' @ sr_domain (au_spf r) else []),
      ''dkim='' @ dkim_text (do_result (au_dkim r)) @
        (case do_passing_domains (au_dkim r) of [] \<Rightarrow> [] | d # _ \<Rightarrow> '' header.d='' @ d),
      ''dmarc='' @ dmarc_text (dr_result (au_dmarc r)) @
        (case dr_record (au_dmarc r) of
           Some rec \<Rightarrow> if dm_policy rec \<noteq> [] then '' policy.dmarc='' @ dm_policy rec else []
         | None \<Rightarrow> []) @
        (if au_from_domain r \<noteq> [] then '' header.from='' @ au_from_domain r else [])] @
     (if arc_verdict (au_arc r) \<noteq> DKIMNone then [''arc='' @ dkim_text (arc_verdict (au_arc r))] else []) @
     (case au_dane r of Some d \<Rightarrow> [''dane='' @ dane_text (dd_result d)] | None \<Rightarrow> [])"

definition authentication_results :: "auth_result \<Rightarrow> string \<Rightarrow> string" where
  "authentication_results r authserv_id = join ''; '' (authentication_parts r authserv_id)"

definition auth_summary :: "auth_result \<Rightarrow> string" where
  "auth_summary r =
     (if au_authenticated r then ''authenticated'' else ''not authenticated'') @
     '' (spf='' @ spf_text (sr_result (au_spf r)) @ '' dkim='' @ dkim_text (do_result (au_dkim r)) @
     '' dmarc='' @ dmarc_text (dr_result (au_dmarc r)) @ '' arc='' @ dkim_text (arc_verdict (au_arc r)) @
     (case au_dane r of Some d \<Rightarrow> '' dane='' @ dane_text (dd_result d) | None \<Rightarrow> []) @ '')''"

definition auth_disposition :: "auth_result \<Rightarrow> string" where
  "auth_disposition r =
     (if au_authenticated r then policy_none
      else if dr_disposition (au_dmarc r) = [] then policy_none else dr_disposition (au_dmarc r))"

definition signature_warnings :: "dkim_signature \<Rightarrow> string list" where
  "signature_warnings sig =
     (let prefix = ''DKIM signature from '' @ ds_domain sig in
      (if ds_body_truncated sig
       then [prefix @ '' covers only '' @ show_nat (ds_signed_bytes sig) @ '' of '' @ show_nat (ds_body_bytes sig) @
              '' body bytes; the remainder is unsigned and can be replaced''] else []) @
      (if ds_timestamp_future sig then [prefix @ '' is timestamped in the future''] else []) @
      (if ds_result sig = DKIMPolicy then [prefix @ '' rejected on policy: '' @ ds_explanation sig] else []) @
      (if ds_result sig = DKIMPass \<and> ds_key_bits sig > 0 \<and> ds_key_bits sig < 2048 \<and> ds_key_bits sig \<noteq> 256
       then [prefix @ '' uses a '' @ show_nat (ds_key_bits sig) @ ''-bit key; RFC 8301 recommends at least 2048''] else []))"

definition auth_warnings :: "auth_result \<Rightarrow> string list" where
  "auth_warnings r =
     concat (map signature_warnings (do_signatures (au_dkim r))) @
     (if sr_result (au_spf r) = SPFPermError
      then [''SPF evaluation hit a permanent error: '' @ (case sr_error (au_spf r) of Some e \<Rightarrow> e | None \<Rightarrow> [])] else []) @
     (case dr_record (au_dmarc r) of
        Some rec \<Rightarrow> if dm_policy rec = policy_none
          then [dm_domain rec @ '' publishes DMARC p=none, so a failure carries no enforcement request''] else []
      | None \<Rightarrow> []) @
     (case au_dane r of
        Some d \<Rightarrow> if dd_result d = DANEInsecure then [''DANE: '' @ dd_explanation d] else [] | None \<Rightarrow> [])"

section \<open>Facts\<close>

lemma header_value_first:
  "header_value hs name = (case filter (is_field name) hs of [] \<Rightarrow> [] | h # _ \<Rightarrow> snd h)"
  by (induction hs name rule: header_value.induct) auto

lemma verify_auth_authenticated:
  "verify_auth env input = Some r \<Longrightarrow> au_authenticated r \<longleftrightarrow> dr_result (au_dmarc r) = DMARCPass"
  by (auto simp: verify_auth_def Let_def split: option.splits)

end
