(* ===== verification/DkimProps.thy ===== *)
theory DkimProps
  imports Dkim
begin

text \<open>
  What DKIM verification guarantees. The first part follows a passing signature back through the
  stages; the second describes the bytes a signature covers; the third is about the canonical
  form of a body.
\<close>

lemmas outcome_defs = judged_def signature_verified_def

section \<open>A passing signature\<close>

lemma judged_result [simp]: "ds_result (judged r msg out) = r"
  by (simp add: judged_def)

lemma judged_domain [simp]: "ds_domain (judged r msg out) = ds_domain out"
  "ds_selector (judged r msg out) = ds_selector out"
  by (simp_all add: judged_def)

text \<open>No stage that stops early reports a pass.\<close>

lemma required_tags_stop: "required_tags tags req out = Inl r \<Longrightarrow> ds_result r = DKIMPermError"
  by (auto simp: required_tags_def Let_def split: if_splits)

lemma signing_key_type_stop: "signing_key_type out = Inl r \<Longrightarrow> ds_result r \<noteq> DKIMPass"
  by (auto simp: signing_key_type_def split: if_splits)

lemma check_times_stop: "check_times tags now out = Inl r \<Longrightarrow> ds_result r \<noteq> DKIMPass"
  by (auto simp: check_times_def Let_def split: if_splits option.splits)

lemma limit_body_stop: "limit_body tags c out = Inl r \<Longrightarrow> ds_result r \<noteq> DKIMPass"
  by (auto simp: limit_body_def Let_def split: if_splits option.splits)

lemma check_body_hash_stop: "check_body_hash crypto tags c out = Inl r \<Longrightarrow> ds_result r \<noteq> DKIMPass"
  by (auto simp: check_body_hash_def limit_body_stop split: sum.splits prod.splits if_splits option.splits)

lemma required_tags_go:
  assumes "required_tags tags req out = Inr out1"
  shows "ds_domain out1 = to_lower (trim_space (tag_value tags ''d''))"
    and "ds_selector out1 = trim_space (tag_value tags ''s'')"
    and "ds_algorithm out1 = to_lower (trim_space (tag_value tags ''a''))"
    and "ds_headers_signed out1 = split_header_list (tag_value tags ''h'')"
    and "contains_fold (ds_headers_signed out1) ''from''" and "req \<Longrightarrow> tag_value tags ''v'' = ''1''"
    and "ds_domain out1 \<noteq> []" and "ds_selector out1 \<noteq> []"
  using assms by (auto simp: required_tags_def Let_def split: if_splits)

lemma check_times_go:
  assumes "check_times tags now out = Inr out1"
  shows "out1 = out\<lparr>ds_timestamp_future := timestamp_future tags now\<rparr>"
  using assms by (auto simp: check_times_def Let_def split: if_splits option.splits)

lemma limit_body_go:
  assumes "limit_body tags c out = Inr (covered, out1)"
  shows "covered = take (ds_signed_bytes out1) c" and "ds_body_bytes out1 = length c"
    and "ds_body_truncated out \<or> ds_body_truncated out1 = (ds_signed_bytes out1 < length c)"
    and "ds_domain out1 = ds_domain out" and "ds_selector out1 = ds_selector out"
    and "ds_headers_signed out1 = ds_headers_signed out" and "ds_signed_bytes out1 \<le> length c"
  using assms by (auto simp: limit_body_def Let_def split: if_splits option.splits)

text \<open>
  What a verifier must have seen of the signature in field \<open>i\<close> to vouch for \<open>domain\<close>: the tags,
  the hash of the covered body and a key published by the domain that is strong enough and
  accepts the signature of the signed header fields.
\<close>

definition vouched ::
  "spf_dns \<Rightarrow> dkim_crypto \<Rightarrow> header_field list \<Rightarrow> nat \<Rightarrow> string \<Rightarrow> string \<Rightarrow> tag_map \<Rightarrow> nat \<Rightarrow> string \<Rightarrow> bool" where
  "vouched dns crypto headers i field body tags n domain \<longleftrightarrow>
     parse_strict_tags (snd (headers ! i)) = Inr tags \<and>
     domain = to_lower (trim_space (tag_value tags ''d'')) \<and> domain \<noteq> [] \<and>
     contains_fold (split_header_list (tag_value tags ''h'')) ''from'' \<and>
     n \<le> length (canonicalize_body body (snd (canon_names tags))) \<and>
     b64_decode (strip_whitespace (tag_value tags ''bh'')) =
       Some (dc_sha256 crypto (take n (canonicalize_body body (snd (canon_names tags))))) \<and>
     (\<exists>sig key. b64_decode (strip_whitespace (tag_value tags ''b'')) = Some sig \<and>
        fetch_dkim_key dns crypto (trim_space (tag_value tags ''s'')) domain = Inr key \<and>
        (let digest = dc_sha256 crypto (build_signed_header_input headers i
               (split_header_list (tag_value tags ''h'')) (snd (headers ! i)) (fst (canon_names tags)) field)
         in (\<exists>k. dk_key key = RsaPublic k \<and> dk_type key = ''rsa'' \<and> bit_len (rk_modulus k) \<ge> 1024 \<and>
               dc_rsa_verify crypto k digest sig) \<or>
            (\<exists>k. dk_key key = Ed25519Public k \<and> dk_type key = ''ed25519'' \<and> dc_ed_verify crypto k digest sig)))"

lemma fetch_key_type: "fetch_dkim_key dns crypto s d = Inr key \<Longrightarrow> dk_type key \<noteq> []"
  by (auto simp: fetch_dkim_key_def Let_def split: if_splits sum.splits option.splits)

lemma verify_signature_pass:
  assumes "ds_result (verify_signature crypto kt key digest sig out) = DKIMPass" and "kt = ''rsa'' \<or> kt = ''ed25519''"
  shows "kt = ''rsa'' \<and> (\<exists>k. key = RsaPublic k \<and> bit_len (rk_modulus k) \<ge> 1024 \<and> dc_rsa_verify crypto k digest sig) \<or>
    kt = ''ed25519'' \<and> (\<exists>k. key = Ed25519Public k \<and> dc_ed_verify crypto k digest sig)"
  using assms(2)
proof
  assume "kt = ''rsa''"
  then show ?thesis using assms(1)
    by (cases key) (auto simp: verify_signature_def Let_def min_rsa_key_bits_def split: if_splits)
next
  assume "kt = ''ed25519''"
  then show ?thesis using assms(1)
    by (cases key) (auto simp: verify_signature_def Let_def split: if_splits)
qed

lemma verify_signature_keeps:
  "ds_domain (verify_signature crypto kt key digest sig out) = ds_domain out"
  "ds_signed_bytes (verify_signature crypto kt key digest sig out) = ds_signed_bytes out"
  "ds_body_bytes (verify_signature crypto kt key digest sig out) = ds_body_bytes out"
  "ds_body_truncated (verify_signature crypto kt key digest sig out) = ds_body_truncated out"
  "ds_headers_signed (verify_signature crypto kt key digest sig out) = ds_headers_signed out"
  by (simp_all add: verify_signature_def Let_def outcome_defs split: public_key.splits)

lemma check_key_pass:
  assumes "ds_result (check_key_and_signature dns crypto kt input tags out) = DKIMPass"
    and "kt = ''rsa'' \<or> kt = ''ed25519''"
  obtains key sig where "fetch_dkim_key dns crypto (ds_selector out) (ds_domain out) = Inr key"
    "b64_decode (strip_whitespace (tag_value tags ''b'')) = Some sig" "dk_type key = kt"
    "(\<exists>k. dk_key key = RsaPublic k \<and> kt = ''rsa'' \<and> bit_len (rk_modulus k) \<ge> 1024 \<and>
        dc_rsa_verify crypto k (dc_sha256 crypto input) sig) \<or>
     (\<exists>k. dk_key key = Ed25519Public k \<and> kt = ''ed25519'' \<and> dc_ed_verify crypto k (dc_sha256 crypto input) sig)"
    "check_key_and_signature dns crypto kt input tags out =
       verify_signature crypto kt (dk_key key) (dc_sha256 crypto input) sig out"
proof -
  from assms(1) obtain key where k: "fetch_dkim_key dns crypto (ds_selector out) (ds_domain out) = Inr key"
    by (auto simp: check_key_and_signature_def split: sum.splits)
  from fetch_key_type [OF k] assms(1) k have t: "dk_type key = kt"
    by (auto simp: check_key_and_signature_def split: if_splits)
  from assms(1) k t obtain sig where s: "b64_decode (strip_whitespace (tag_value tags ''b'')) = Some sig"
    by (auto simp: check_key_and_signature_def split: option.splits)
  have v: "check_key_and_signature dns crypto kt input tags out =
      verify_signature crypto kt (dk_key key) (dc_sha256 crypto input) sig out"
    using k t s by (simp add: check_key_and_signature_def)
  from verify_signature_pass [OF assms(1) [unfolded v] assms(2)] have
    "(\<exists>k. dk_key key = RsaPublic k \<and> kt = ''rsa'' \<and> bit_len (rk_modulus k) \<ge> 1024 \<and>
        dc_rsa_verify crypto k (dc_sha256 crypto input) sig) \<or>
     (\<exists>k. dk_key key = Ed25519Public k \<and> kt = ''ed25519'' \<and> dc_ed_verify crypto k (dc_sha256 crypto input) sig)"
    by blast
  with k s t v show thesis using that by blast
qed

lemma signature_pass:
  assumes pass: "ds_result (verify_one_message_signature dns crypto headers i body now field req) = DKIMPass"
  obtains tags n where
    "vouched dns crypto headers i field body tags n
       (ds_domain (verify_one_message_signature dns crypto headers i body now field req))"
    "req \<Longrightarrow> tag_value tags ''v'' = ''1''"
    "n = ds_signed_bytes (verify_one_message_signature dns crypto headers i body now field req)"
    "ds_body_truncated (verify_one_message_signature dns crypto headers i body now field req) \<longleftrightarrow>
       n < length (canonicalize_body body (snd (canon_names tags)))"
    "ds_headers_signed (verify_one_message_signature dns crypto headers i body now field req) =
       split_header_list (tag_value tags ''h'')"
proof -
  let ?v = "verify_one_message_signature dns crypto headers i body now field req"
  let ?out = "zero_signature\<lparr>ds_result := DKIMPermError\<rparr>"
  note D = verify_one_message_signature_def
  obtain tags where tags: "parse_strict_tags (snd (headers ! i)) = Inr tags"
    using pass by (cases "parse_strict_tags (snd (headers ! i))") (auto simp: D Let_def)
  obtain out1 where out1: "required_tags tags req ?out = Inr out1"
    using pass tags required_tags_stop by (cases "required_tags tags req ?out") (fastforce simp: D Let_def)+
  obtain kt where kt: "signing_key_type out1 = Inr kt"
    using pass tags out1 signing_key_type_stop by (cases "signing_key_type out1") (fastforce simp: D Let_def)+
  obtain out2 where out2: "check_times tags now out1 = Inr out2"
    using pass tags out1 kt check_times_stop by (cases "check_times tags now out1") (fastforce simp: D Let_def)+
  obtain hc bc where canon: "canon_names tags = (hc, bc)" by (cases "canon_names tags")
  have known: "known_canon hc" "known_canon bc"
    using pass tags out1 kt out2 canon by (auto simp: D Let_def split: if_splits)
  obtain out3 where out3: "check_body_hash crypto tags (canonicalize_body body bc) out2 = Inr out3"
    using pass tags out1 kt out2 canon known check_body_hash_stop
    by (cases "check_body_hash crypto tags (canonicalize_body body bc) out2") (fastforce simp: D Let_def)+
  let ?input = "build_signed_header_input headers i (ds_headers_signed out3) (snd (headers ! i)) hc field"
  have v: "?v = check_key_and_signature dns crypto kt ?input tags out3"
    using tags out1 kt out2 canon known out3 by (simp add: D Let_def)
  have kts: "kt = ''rsa'' \<or> kt = ''ed25519''" using kt by (auto simp: signing_key_type_def split: if_splits)
  from check_key_pass [OF pass [unfolded v] kts] obtain key sig where
    key: "fetch_dkim_key dns crypto (ds_selector out3) (ds_domain out3) = Inr key"
    and sig: "b64_decode (strip_whitespace (tag_value tags ''b'')) = Some sig" and type: "dk_type key = kt"
    and good: "(\<exists>k. dk_key key = RsaPublic k \<and> kt = ''rsa'' \<and> bit_len (rk_modulus k) \<ge> 1024 \<and>
        dc_rsa_verify crypto k (dc_sha256 crypto ?input) sig) \<or>
      (\<exists>k. dk_key key = Ed25519Public k \<and> kt = ''ed25519'' \<and> dc_ed_verify crypto k (dc_sha256 crypto ?input) sig)"
    and v': "check_key_and_signature dns crypto kt ?input tags out3 =
       verify_signature crypto kt (dk_key key) (dc_sha256 crypto ?input) sig out3" .
  obtain covered where lim: "limit_body tags (canonicalize_body body bc) out2 = Inr (covered, out3)"
    and bh: "b64_decode (strip_whitespace (tag_value tags ''bh'')) = Some (dc_sha256 crypto covered)"
    using out3 by (auto simp: check_body_hash_def split: sum.splits prod.splits option.splits if_splits)
  note L = limit_body_go [OF lim] and R = required_tags_go [OF out1] and T = check_times_go [OF out2]
  have trunc: "\<not> ds_body_truncated out2"
    using out1 T by (auto simp: required_tags_def zero_signature_def Let_def split: if_splits)
  have f: "ds_domain out3 = ds_domain out1" "ds_selector out3 = ds_selector out1"
    "ds_headers_signed out3 = ds_headers_signed out1"
    using L(4-6) T by simp_all
  have d: "ds_domain out3 = to_lower (trim_space (tag_value tags ''d''))"
    "ds_selector out3 = trim_space (tag_value tags ''s'')"
    "ds_headers_signed out3 = split_header_list (tag_value tags ''h'')"
    using f R(1,2,4) by simp_all
  have c: "fst (canon_names tags) = hc" "snd (canon_names tags) = bc" using canon by simp_all
  have n: "ds_domain out3 \<noteq> []" "contains_fold (split_header_list (tag_value tags ''h'')) ''from''"
    using f(1) R(7) R(5) R(4) by simp_all
  have V: "vouched dns crypto headers i field body tags (ds_signed_bytes out3) (ds_domain out3)"
    unfolding vouched_def Let_def c
  proof (intro conjI exI [of _ sig] exI [of _ key])
    show "fetch_dkim_key dns crypto (trim_space (tag_value tags ''s'')) (ds_domain out3) = Inr key"
      using key d(2) by simp
    show "b64_decode (strip_whitespace (tag_value tags ''bh'')) =
        Some (dc_sha256 crypto (take (ds_signed_bytes out3) (canonicalize_body body bc)))"
      using bh L(1) by simp
  qed (rule tags sig d(1) n L(7) good [unfolded d(3), folded type])+
  moreover have e: "ds_domain ?v = ds_domain out3" "ds_signed_bytes ?v = ds_signed_bytes out3"
    "ds_body_truncated ?v = ds_body_truncated out3" "ds_headers_signed ?v = ds_headers_signed out3"
    by (simp_all only: v v' verify_signature_keeps)
  moreover have "ds_body_truncated out3 = (ds_signed_bytes out3 < length (canonicalize_body body bc))"
    using L(3) trunc by blast
  ultimately show thesis
    using that [of tags "ds_signed_bytes out3", unfolded e c] R(6) d(3) by blast
qed

lemma overall_pass: "overall_verdict sigs = DKIMPass \<longleftrightarrow> (\<exists>s \<in> set sigs. ds_result s = DKIMPass)"
  by (auto simp: overall_verdict_def list_ex_iff split: list.splits)

text \<open>The only way to a pass of the message.\<close>

lemma verify_dkim_passing:
  assumes "d \<in> set (do_passing_domains (verify_dkim dns crypto clock headers body now))"
  obtains i t where "sd_enabled dns" "count_header headers ''From'' \<le> 1" "i \<in> set (signature_indices headers)"
    "ds_result (verify_one_dkim dns crypto headers i body t) = DKIMPass"
    "ds_domain (verify_one_dkim dns crypto headers i body t) = d"
  using assms that by (auto simp: verify_dkim_def Let_def split: if_splits)

lemma verify_dkim_result:
  "do_result (verify_dkim dns crypto clock headers body now) = DKIMPass \<longleftrightarrow>
     do_passing_domains (verify_dkim dns crypto clock headers body now) \<noteq> []"
  by (auto simp: verify_dkim_def Let_def overall_pass filter_empty_conv)

lemma signature_count: "length (do_signatures (verify_dkim dns crypto clock headers body now)) \<le> 10"
  by (auto simp: verify_dkim_def Let_def signature_indices_def max_signatures_def)

lemma dkim_passing_vouched:
  assumes d: "d \<in> set (do_passing_domains (verify_dkim dns crypto clock headers body now))"
  shows "sd_enabled dns \<and> count_header headers ''From'' \<le> 1 \<and>
    (\<exists>i \<in> set (signature_indices headers). \<exists>tags n. tag_value tags ''v'' = ''1'' \<and>
       vouched dns crypto headers i ''DKIM-Signature'' body tags n d)"
proof -
  from verify_dkim_passing [OF d] obtain i t where
    s: "sd_enabled dns" "count_header headers ''From'' \<le> 1" "i \<in> set (signature_indices headers)"
    "ds_result (verify_one_dkim dns crypto headers i body t) = DKIMPass"
    "ds_domain (verify_one_dkim dns crypto headers i body t) = d" .
  from signature_pass [OF s(4) [unfolded verify_one_dkim_def]] obtain tags n where
    "vouched dns crypto headers i ''DKIM-Signature'' body tags n d" "tag_value tags ''v'' = ''1''"
    using s(5) unfolding verify_one_dkim_def by blast
  with s(1-3) show ?thesis by blast
qed

text \<open>A signed message, checked with stand-ins for the hash and the signature scheme.\<close>

definition demo_crypto :: dkim_crypto where
  "demo_crypto = \<lparr>dc_sha256 = (\<lambda>b. [byte_of (sum_list (map char_code b) mod 256), byte_of (length b mod 256)]),
     dc_pkix = (\<lambda>_. Inl ''no RSA here''), dc_pkcs1 = (\<lambda>_. None), dc_rsa_verify = (\<lambda>_ _ _. False),
     dc_ed_verify = (\<lambda>k d s. s = d @ take 2 k)\<rparr>"

definition demo_dkim_dns :: spf_dns where
  "demo_dkim_dns = \<lparr>sd_enabled = True,
     sd_txt = (\<lambda>n. if n = ''s1._domainkey.a.test''
        then [''v=DKIM1; k=ed25519; p='', b64_encode (replicate 32 CHR ''K'')] else []),
     sd_host = (\<lambda>_. []), sd_mx = (\<lambda>_. []), sd_ptr = (\<lambda>_. [])\<rparr>"

definition demo_body :: string where "demo_body = ''hello  world '' @ [LF] @ CRLF"

definition demo_unsigned :: string where
  "demo_unsigned = '' v=1; a=ed25519-sha256; c=relaxed/relaxed; d=A.test; s=s1; h=from : subject; bh='' @
     b64_encode (dc_sha256 demo_crypto (canonicalize_body demo_body ''relaxed'')) @ ''; b=''"

definition demo_headers :: "string \<Rightarrow> header_field list" where
  "demo_headers sig = [(''From'', '' Ann <ann@a.test>''), (''DKIM-Signature'', sig), (''Subject'', '' hi '')]"

definition demo_signed :: "header_field list" where
  "demo_signed = demo_headers (demo_unsigned @ b64_encode (dc_sha256 demo_crypto
     (build_signed_header_input (demo_headers demo_unsigned) 1 [''from'', ''subject''] demo_unsigned ''relaxed''
       ''DKIM-Signature'') @ ''KK''))"

definition demo_now :: go_time where "demo_now = time_unix 1700000000"

text \<open>
  C17: DKIM reports a pass exactly if some domain passed, and it lists a domain as passing only
  if the resolver works, the message has no second From field, and one of the first ten
  DKIM-Signature fields is vouched for: version 1, From among the signed fields, the body hash
  of the covered part of the canonical body, and a signature of the signed fields that verifies
  under a key which that very domain publishes below the selector, RSA of 1024 bits or more, or
  Ed25519. SHA-1 and weaker keys never pass.
\<close>

theorem dkim_pass_sound:
  "(do_result (verify_dkim dns crypto clock headers body now) = DKIMPass \<longleftrightarrow>
      do_passing_domains (verify_dkim dns crypto clock headers body now) \<noteq> []) \<and>
   length (do_signatures (verify_dkim dns crypto clock headers body now)) \<le> 10 \<and>
   (d \<in> set (do_passing_domains (verify_dkim dns crypto clock headers body now)) \<longrightarrow>
      sd_enabled dns \<and> count_header headers ''From'' \<le> 1 \<and>
      (\<exists>i \<in> set (signature_indices headers). \<exists>tags n. tag_value tags ''v'' = ''1'' \<and>
         vouched dns crypto headers i ''DKIM-Signature'' body tags n d))"
proof (intro conjI [OF _ conjI] impI)
  show "do_result (verify_dkim dns crypto clock headers body now) = DKIMPass \<longleftrightarrow>
      do_passing_domains (verify_dkim dns crypto clock headers body now) \<noteq> []" by (rule verify_dkim_result)
qed (rule signature_count, (drule dkim_passing_vouched, blast)+)

theorem dkim_pass_sound_witness:
  "do_passing_domains (verify_dkim demo_dkim_dns demo_crypto demo_now demo_signed demo_body demo_now) = [''a.test''] \<and>
   (\<exists>tags n. vouched demo_dkim_dns demo_crypto demo_signed 1 ''DKIM-Signature'' demo_body tags n ''a.test'')"
proof -
  have p: "do_passing_domains (verify_dkim demo_dkim_dns demo_crypto demo_now demo_signed demo_body demo_now) = [''a.test'']"
    by code_simp
  have "signature_indices demo_signed = [1]" by code_simp
  with p dkim_pass_sound [of demo_dkim_dns demo_crypto demo_now demo_signed demo_body demo_now "''a.test''"]
  show ?thesis by auto
qed

section \<open>The signed bytes\<close>

text \<open>How often \<^verbatim>\<open>h=\<close> names a field, and the instances after a field was put in front.\<close>

definition named :: "string \<Rightarrow> string list \<Rightarrow> nat" where
  "named key names = length (filter (\<lambda>n. field_key n = key) names)"

definition shifted :: "string \<Rightarrow> (string \<Rightarrow> nat list) \<Rightarrow> string \<Rightarrow> nat list" where
  "shifted key occ k = (if k = key then 0 # map Suc (occ k) else map Suc (occ k))"

lemma occurrences_prepend: "occurrences (h # hs) (Suc i) = shifted (field_key (fst h)) (occurrences hs i)"
proof
  fix k
  have "[0..<length (h # hs)] = 0 # map Suc [0..<length hs]"
    by (simp only: length_Cons upt_rec [of 0 "Suc _"] map_Suc_upt) simp
  then show "occurrences (h # hs) (Suc i) k = shifted (field_key (fst h)) (occurrences hs i) k"
    by (auto simp: occurrences_def shifted_def filter_map comp_def)
qed

lemma shifted_use:
  assumes "occ k \<noteq> []"
  shows "(shifted key occ)(k := butlast (shifted key occ k)) = shifted key (occ(k := butlast (occ k)))"
proof
  fix x
  show "((shifted key occ)(k := butlast (shifted key occ k))) x = shifted key (occ(k := butlast (occ k))) x"
  proof (cases "k = key")
    case True
    with assms have "occ key \<noteq> []" by simp
    with True show ?thesis by (simp add: shifted_def map_butlast)
  qed (auto simp: shifted_def map_butlast)
qed

lemma shifted_Nil: "shifted key occ k = [] \<longleftrightarrow> k \<noteq> key \<and> occ k = []"
  by (simp add: shifted_def)

definition lifted :: "(string \<Rightarrow> nat list) \<Rightarrow> string \<Rightarrow> nat list" where
  "lifted occ k = map Suc (occ k)"

lemma lifted_use: "(lifted occ)(k := butlast (lifted occ k)) = lifted (occ(k := butlast (occ k)))"
  by (auto simp: lifted_def map_butlast fun_eq_iff)

lemma lifted_last: "occ k \<noteq> [] \<Longrightarrow> last (lifted occ k) = Suc (last (occ k))"
  by (simp add: lifted_def last_map)

lemma lifted_Nil: "lifted occ k = [] \<longleftrightarrow> occ k = []"
  by (simp add: lifted_def)

lemma shifted_last: "occ k \<noteq> [] \<Longrightarrow> last (shifted key occ k) = Suc (last (occ k))"
  by (auto simp: shifted_def last_map)

lemma signed_fields_skip:
  "field_key n = [] \<or> occ (field_key n) = [] \<Longrightarrow> signed_fields hs canon occ (n # names) = signed_fields hs canon occ names"
  by (simp add: Let_def)

lemma signed_fields_take:
  "field_key n \<noteq> [] \<Longrightarrow> occ (field_key n) \<noteq> [] \<Longrightarrow> signed_fields hs canon occ (n # names) =
     canonicalize_header (fst (hs ! last (occ (field_key n)))) (snd (hs ! last (occ (field_key n)))) canon @
     signed_fields hs canon (occ(field_key n := butlast (occ (field_key n)))) names"
  by (simp add: Let_def)

lemmas signed_fields_Cons = signed_fields_skip signed_fields_take

declare signed_fields.simps(2) [simp del]

lemma signed_fields_lifted: "signed_fields (h # hs) canon (lifted occ) names = signed_fields hs canon occ names"
proof (induction names arbitrary: occ)
  case (Cons m ns)
  show ?case
  proof (cases "field_key m = [] \<or> occ (field_key m) = []")
    case True
    with Cons show ?thesis by (auto simp: signed_fields_skip lifted_Nil)
  next
    case False
    moreover have "signed_fields (h # hs) canon (lifted (occ(k := v))) ns = signed_fields hs canon (occ(k := v)) ns" for k v
      by (rule Cons)
    ultimately show ?thesis by (simp add: signed_fields_take lifted_Nil lifted_last lifted_use)
  qed
qed simp

text \<open>When all instances of the new field's name were used up, the next name takes it.\<close>

lemma signed_fields_used:
  assumes "occ key = []" and "key \<noteq> []" and "key = field_key (fst h)"
  shows "length (signed_fields (h # hs) canon (shifted key occ) names) =
     length (signed_fields hs canon occ names) +
     (if named key names > 0 then length (canonicalize_header (fst h) (snd h) canon) else 0)"
  using assms(1)
proof (induction names arbitrary: occ)
  case (Cons n names)
  let ?k = "field_key n"
  consider "?k = key" | "?k = []" | "?k \<noteq> key" "?k \<noteq> []" "occ ?k = []" | "?k \<noteq> key" "?k \<noteq> []" "occ ?k \<noteq> []" by blast
  then show ?case
  proof cases
    case 1
    then have "(shifted key occ)(key := []) = lifted occ" using Cons.prems by (auto simp: shifted_def lifted_def)
    moreover have "shifted key occ key = [0]" using Cons.prems by (simp add: shifted_def)
    ultimately show ?thesis using 1 Cons.prems assms(2)
      by (simp add: signed_fields_Cons signed_fields_lifted named_def)
  next
    case 2
    with Cons assms(2) show ?thesis by (simp add: signed_fields_skip named_def)
  next
    case 3
    with Cons show ?thesis by (simp add: signed_fields_skip named_def shifted_Nil)
  next
    case 4
    define occ' where "occ' = occ(?k := butlast (occ ?k))"
    from 4 Cons.prems have "occ' key = []" by (simp add: occ'_def)
    with Cons.IH [of occ'] 4 show ?thesis
      using shifted_use [of occ ?k key] shifted_last [of occ ?k key] 4(3)
      by (simp add: signed_fields_take shifted_Nil named_def occ'_def [symmetric])
  qed
qed (simp add: named_def)

lemma signed_fields_prepend:
  assumes "key = field_key (fst h)" and "key \<noteq> []"
  shows "named key names \<le> length (occ key) \<and>
       signed_fields (h # hs) canon (shifted key occ) names = signed_fields hs canon occ names \<or>
     named key names > length (occ key) \<and>
       length (signed_fields (h # hs) canon (shifted key occ) names) > length (signed_fields hs canon occ names)"
proof (induction names arbitrary: occ)
  case (Cons n names)
  let ?k = "field_key n"
  show ?case
  proof (cases "?k = [] \<or> occ ?k = [] \<and> ?k \<noteq> key")
    case True
    with Cons.IH [of occ] assms(2) show ?thesis
      by (auto simp: signed_fields_skip named_def shifted_Nil)
  next
    case False
    show ?thesis
    proof (cases "occ ?k = []")
      case True
      with False have "?k = key" by blast
      with True have "occ key = []" "named key (n # names) > 0" by (simp_all add: named_def)
      with signed_fields_used [of occ key h hs canon "n # names", OF _ assms(2,1)] show ?thesis
        by (simp add: canonicalize_header_def)
    next
      case occ: False
      define occ' where "occ' = occ(?k := butlast (occ ?k))"
      have "named key (n # names) \<le> length (occ key) \<longleftrightarrow> named key names \<le> length (occ' key)"
        using occ by (cases "occ key") (auto simp: named_def occ'_def)
      with Cons.IH [of occ'] False occ show ?thesis
        using shifted_use [of occ ?k key] shifted_last [of occ ?k key]
        by (auto simp: signed_fields_take shifted_Nil occ'_def [symmetric])
    qed
  qed
qed (simp add: named_def)

text \<open>
  C18: A field that is put in front of the message changes the bytes a signature covers
  if and only if \<^verbatim>\<open>h=\<close> names the field more often than the message had it. A signature that names
  a field once therefore still verifies after a second instance was added on top, contrary to
  the comment on the consumption of instances; naming it once more (oversigning) prevents that.
\<close>

theorem prepended_field_unsigned:
  "build_signed_header_input (h # headers) (Suc i) names raw canon field = build_signed_header_input headers i names raw canon field
     \<longleftrightarrow> field_key (fst h) = [] \<or> named (field_key (fst h)) names \<le> length (occurrences headers i (field_key (fst h)))"
proof (cases "field_key (fst h) = []")
  case True
  have "signed_fields (h # headers) canon (shifted [] occ) names = signed_fields headers canon occ names" for occ
  proof (induction names arbitrary: occ)
    case (Cons n names)
    show ?case
    proof (cases "field_key n = [] \<or> occ (field_key n) = []")
      case True
      with Cons show ?thesis by (cases "field_key n = []") (auto simp: signed_fields_skip shifted_Nil)
    next
      case False
      moreover have "signed_fields (h # headers) canon (shifted [] (occ(k := v))) names = signed_fields headers canon (occ(k := v)) names" for k v
        by (rule Cons)
      ultimately show ?thesis
        using shifted_use [of occ "field_key n" "[]"] shifted_last [of occ "field_key n" "[]"]
        by (auto simp: signed_fields_take shifted_Nil)
    qed
  qed simp
  then show ?thesis using True by (simp add: build_signed_header_input_def occurrences_prepend)
next
  case False
  show ?thesis
    using signed_fields_prepend [OF refl False, of names "occurrences headers i" headers canon] False
    by (auto simp: build_signed_header_input_def occurrences_prepend)
qed

section \<open>The canonical body\<close>

text \<open>\<open>crlf z\<close>: the text \<open>z\<close> with every LF written as CRLF.\<close>

abbreviation crlf :: "string \<Rightarrow> string" where "crlf z \<equiv> replace_char LF CRLF z"

lemma crlf_simps [simp]: "crlf [] = []" "crlf (c # z) = (if c = LF then CRLF else [c]) @ crlf z"
  "crlf (y @ z) = crlf y @ crlf z"
  by (simp_all add: replace_char_def)

lemma crlf_hd: "crlf z \<noteq> LF # s"
  by (cases z) auto

lemma crlf_clean: "LF \<notin> set z \<Longrightarrow> crlf z = z"
  by (induction z) auto

lemma replace_crlf_Cons: "\<not> (c = CR \<and> s \<noteq> [] \<and> hd s = LF) \<Longrightarrow> replace_crlf t (c # s) = c # replace_crlf t s"
  by (cases s) auto

lemma replace_crlf_crlf: "replace_crlf [LF] (crlf z) = z"
proof (induction z)
  case (Cons c z)
  show ?case
  proof (cases "c = LF")
    case False
    have "crlf z = [] \<or> hd (crlf z) \<noteq> LF" using crlf_hd [of z] by (cases "crlf z") auto
    with Cons False show ?thesis by (auto simp: replace_crlf_Cons)
  qed (use Cons in simp)
qed simp

lemma normalize_crlf: "normalize_breaks (crlf z) = crlf z"
  by (simp add: normalize_breaks_def replace_crlf_crlf)

lemma crlf_prefix: "crlf z = a @ b \<Longrightarrow> a = [] \<or> last a \<noteq> CR \<Longrightarrow> \<exists>y. a = crlf y"
proof (induction z arbitrary: a)
  case (Cons c z)
  show ?case
  proof (cases a)
    case Nil
    then show ?thesis by (intro exI [of _ "[]"]) simp
  next
    case (Cons d a')
    show ?thesis
    proof (cases "c = LF")
      case True
      with Cons Cons.prems obtain a2 where a2: "a' = LF # a2" by (cases a') auto
      with True Cons Cons.prems have "crlf z = a2 @ b" "a2 = [] \<or> last a2 \<noteq> CR" by (auto split: if_splits)
      with Cons.IH obtain y where "a2 = crlf y" by blast
      moreover have "d = CR" using True Cons Cons.prems by simp
      ultimately show ?thesis using Cons a2 by (intro exI [of _ "LF # y"]) simp
    next
      case False
      with Cons Cons.prems have "crlf z = a' @ b" "a' = [] \<or> last a' \<noteq> CR" by (auto split: if_splits)
      with Cons.IH obtain y where "a' = crlf y" by blast
      with False Cons Cons.prems show ?thesis by (intro exI [of _ "c # y"]) auto
    qed
  qed
qed (auto intro: exI [of _ "[]"])

lemma trim_right_split: "\<exists>q. s = trim_right_set s cs @ q \<and> set q \<subseteq> set cs"
proof (intro exI conjI)
  let ?q = "rev (takeWhile (\<lambda>c. c \<in> set cs) (rev s))"
  show "s = trim_right_set s cs @ ?q"
    unfolding trim_right_set_def by (simp only: rev_append [symmetric] takeWhile_dropWhile_id rev_rev_ident)
  show "set ?q \<subseteq> set cs" by (auto dest: set_takeWhileD)
qed

lemma trim_right_last: "trim_right_set s cs \<noteq> [] \<Longrightarrow> last (trim_right_set s cs) \<notin> set cs"
  using hd_dropWhile_not [of "\<lambda>c. c \<in> set cs" "rev s"]
  unfolding trim_right_set_def by (simp only: last_rev rev_is_Nil_conv not_False_eq_True)

lemma trim_right_append: "set q \<subseteq> set cs \<Longrightarrow> trim_right_set (s @ q) cs = trim_right_set s cs"
  unfolding trim_right_set_def by (subst rev_append, subst dropWhile_append2) auto

lemma trim_right_id: "s = [] \<or> last s \<notin> set cs \<Longrightarrow> trim_right_set s cs = s"
  by (cases s rule: rev_cases) (auto simp: trim_right_set_def)

lemma trim_right_idem [simp]: "trim_right_set (trim_right_set s cs) cs = trim_right_set s cs"
  using trim_right_id trim_right_last by blast

lemma trimmed_crlf: "\<exists>y. trim_right_set (crlf z) CRLF = crlf y"
proof -
  obtain q where "crlf z = trim_right_set (crlf z) CRLF @ q" using trim_right_split by blast
  moreover have "trim_right_set (crlf z) CRLF = [] \<or> last (trim_right_set (crlf z) CRLF) \<noteq> CR"
    using trim_right_last [of "crlf z" CRLF] by auto
  ultimately show ?thesis using crlf_prefix by blast
qed

subsection \<open>Lines\<close>

definition clean_line :: "string \<Rightarrow> bool" where
  "clean_line w \<longleftrightarrow> CR \<notin> set w \<and> LF \<notin> set w"

lemma split_crlf_ne [simp]: "split_crlf s \<noteq> []"
  by (induction s rule: split_crlf.induct) (auto split: list.splits)

lemma split_crlf_clean: "clean_line w \<Longrightarrow> split_crlf w = [w]"
  by (induction w rule: split_crlf.induct) (auto simp: clean_line_def)

lemma split_crlf_line: "clean_line w \<Longrightarrow> split_crlf (w @ CR # LF # s) = w # split_crlf s"
proof (induction w)
  case (Cons c w)
  then show ?case by (cases w) (auto simp: clean_line_def)
qed (simp add: clean_line_def)

lemma split_join_crlf: "ws \<noteq> [] \<Longrightarrow> list_all clean_line ws \<Longrightarrow> split_crlf (join CRLF ws) = ws"
  by (induction CRLF ws rule: join.induct) (simp_all add: split_crlf_clean split_crlf_line)

lemma join_crlf: "list_all clean_line ws \<Longrightarrow> join CRLF ws = crlf (join [LF] ws)"
  by (induction CRLF ws rule: join.induct) (auto simp: clean_line_def crlf_clean)

lemma split_crlf_snoc: "split_crlf (s @ CRLF) = split_crlf s @ [[]]"
proof (induction s rule: split_crlf.induct)
  case (1 c d s)
  then show ?case by (cases s) (auto split: list.splits)
qed simp_all

lemma split_crlf_tail: "split_crlf s = w # ws \<Longrightarrow> s = join CRLF (w # ws)"
proof (induction s arbitrary: w ws rule: split_crlf.induct)
  case (1 c d s)
  then show ?case by (cases ws) (auto split: if_splits list.splits)
qed auto

lemma join_split_crlf: "join CRLF (split_crlf s) = s"
  using split_crlf_tail [of s] by (cases "split_crlf s") auto

subsection \<open>Relaxed lines\<close>

lemma collapse_append: "\<exists>b'. collapse_from b (x @ y) = collapse_from b x @ collapse_from b' y"
proof (induction b x rule: collapse_from.induct)
  case (2 b c cs)
  then show ?case by (auto split: if_splits)
qed auto

lemma length_collapse: "length (collapse_from b s) \<le> length s"
  by (induction b s rule: collapse_from.induct) auto

lemma collapse_prefix:
  assumes "collapse_whitespace (x @ y) = x @ y"
  shows "collapse_whitespace x = x"
proof -
  obtain b' where b: "collapse_from False (x @ y) = collapse_from False x @ collapse_from b' y"
    using collapse_append by blast
  with assms have e: "x @ y = collapse_from False x @ collapse_from b' y" by (simp add: collapse_whitespace_def)
  then have "length x + length y = length (collapse_from False x) + length (collapse_from b' y)"
    by (metis length_append)
  then have "length x = length (collapse_from False x)"
    using length_collapse [of False x] length_collapse [of b' y] by linarith
  with e show ?thesis by (simp add: collapse_whitespace_def)
qed

lemma relax_line_clean: "clean_line (relax_line w)"
  using set_trim_right_set [of "collapse_whitespace w" "[SP, TAB]"] collapse_no_break [of _ w]
  by (auto simp: clean_line_def relax_line_def)

lemma relax_line_idem [simp]: "relax_line (relax_line w) = relax_line w"
proof -
  obtain q where q: "collapse_whitespace w = relax_line w @ q"
    unfolding relax_line_def using trim_right_split by blast
  then have "collapse_whitespace (relax_line w @ q) = relax_line w @ q" by (metis collapse_idem)
  then have c: "collapse_whitespace (relax_line w) = relax_line w" by (rule collapse_prefix)
  show ?thesis unfolding relax_line_def [of "relax_line w"] c by (simp add: relax_line_def)
qed

text \<open>Dropping the empty lines at the end.\<close>

definition drop_empty :: "string list \<Rightarrow> string list" where
  "drop_empty ws = rev (dropWhile (\<lambda>w. w = []) (rev ws))"

lemma join_snoc: "ws \<noteq> [] \<Longrightarrow> join sep (ws @ [w]) = join sep ws @ sep @ w"
  by (induction sep ws rule: join.induct) auto

lemma trim_join: "list_all clean_line ws \<Longrightarrow> trim_right_set (join CRLF ws) CRLF = join CRLF (drop_empty ws)"
proof (induction ws rule: rev_induct)
  case (snoc w ws)
  show ?case
  proof (cases "w = []")
    case True
    have "trim_right_set (join CRLF (ws @ [w])) CRLF = trim_right_set (join CRLF ws) CRLF"
      using True trim_right_append [of CRLF CRLF "join CRLF ws"] by (cases "ws = []") (simp_all add: join_snoc)
    with snoc True show ?thesis by (simp add: drop_empty_def)
  next
    case False
    with snoc.prems have "last w \<notin> set CRLF" by (auto simp: clean_line_def dest: last_in_set)
    with False have "trim_right_set (join CRLF (ws @ [w])) CRLF = join CRLF (ws @ [w])"
      by (intro trim_right_id) (cases "ws = []"; simp add: join_snoc)
    with False show ?thesis by (simp add: drop_empty_def)
  qed
qed (simp add: drop_empty_def trim_right_set_def)

lemma drop_empty_all: "list_all P ws \<Longrightarrow> list_all P (drop_empty ws)"
  by (auto simp: drop_empty_def list_all_iff dest: set_dropWhileD)

lemma drop_empty_last: "drop_empty ws \<noteq> [] \<Longrightarrow> last (drop_empty ws) \<noteq> []"
  using hd_dropWhile_not [of "\<lambda>w. w = []" "rev ws"] by (simp add: drop_empty_def last_rev)

lemma drop_empty_snoc [simp]: "drop_empty (ws @ [[]]) = drop_empty ws"
  by (simp add: drop_empty_def)

lemma drop_empty_id: "ws = [] \<or> last ws \<noteq> [] \<Longrightarrow> drop_empty ws = ws"
  by (cases ws rule: rev_cases) (auto simp: drop_empty_def)

definition relaxed_lines :: "string \<Rightarrow> string list" where
  "relaxed_lines body = drop_empty (map relax_line (split_crlf (normalize_breaks body)))"

lemma relaxed_lines_clean: "list_all clean_line (relaxed_lines body)"
  unfolding relaxed_lines_def by (rule drop_empty_all) (simp add: list_all_iff relax_line_clean)

lemma relaxed_lines_fixed: "map relax_line (relaxed_lines body) = relaxed_lines body"
proof -
  have "list_all (\<lambda>w. relax_line w = w) (relaxed_lines body)"
    unfolding relaxed_lines_def by (rule drop_empty_all) (simp add: list_all_iff)
  then show ?thesis by (simp add: list_all_iff map_idI)
qed

lemma join_Nil_iff: "ws = [] \<or> last ws \<noteq> [] \<Longrightarrow> join CRLF ws = [] \<longleftrightarrow> ws = []"
  by (cases ws rule: rev_cases; cases "butlast ws = []") (auto simp: join_snoc)

lemma canonicalize_relaxed:
  "canonicalize_body body ''relaxed'' =
     (if relaxed_lines body = [] then [] else join CRLF (relaxed_lines body @ [[]]))"
proof -
  let ?ws = "map relax_line (split_crlf (normalize_breaks body))"
  have "trim_right_set (join CRLF ?ws) CRLF = join CRLF (relaxed_lines body)"
    unfolding relaxed_lines_def by (rule trim_join) (simp add: list_all_iff relax_line_clean)
  moreover have "join CRLF (relaxed_lines body) = [] \<longleftrightarrow> relaxed_lines body = []"
    using drop_empty_last by (intro join_Nil_iff) (auto simp: relaxed_lines_def)
  ultimately show ?thesis by (simp add: canonicalize_body_def Let_def join_snoc)
qed

lemma canonicalize_simple:
  "canon \<noteq> ''relaxed'' \<Longrightarrow> canonicalize_body body canon = trim_right_set (normalize_breaks body) CRLF @ CRLF"
  by (simp add: canonicalize_body_def Let_def)

lemma relaxed_idem: "canonicalize_body (canonicalize_body body ''relaxed'') ''relaxed'' = canonicalize_body body ''relaxed''"
proof (cases "relaxed_lines body = []")
  case True
  then show ?thesis by (simp add: canonicalize_relaxed) code_simp
next
  case False
  let ?ls = "relaxed_lines body @ [[]]"
  have clean: "list_all clean_line ?ls" using relaxed_lines_clean by (simp add: clean_line_def)
  have "normalize_breaks (join CRLF ?ls) = join CRLF ?ls"
    using join_crlf [OF clean] normalize_crlf by simp
  then have "relaxed_lines (join CRLF ?ls) = drop_empty (map relax_line ?ls)"
    using split_join_crlf [OF _ clean] by (simp add: relaxed_lines_def)
  also have "\<dots> = relaxed_lines body"
  proof -
    have "relax_line [] = []" by code_simp
    moreover have "drop_empty (relaxed_lines body) = relaxed_lines body"
      using drop_empty_last by (intro drop_empty_id) (auto simp: relaxed_lines_def)
    ultimately show ?thesis by (simp add: relaxed_lines_fixed)
  qed
  finally show ?thesis using False by (simp add: canonicalize_relaxed)
qed

lemma normalize_CRLF: "normalize_breaks (body @ CRLF) = normalize_breaks body @ CRLF"
proof -
  have "replace_crlf [LF] (body @ CRLF) = replace_crlf [LF] body @ [LF]"
    by (induction "[LF]" body rule: replace_crlf.induct) auto
  then show ?thesis by (simp add: normalize_breaks_def)
qed

text \<open>
  The canonical body does not depend on how the message reached the verifier: bare LF and
  CRLF line ends give the same bytes, so do added line ends behind the body, and canonicalising
  a canonical body changes nothing, in both modes.
\<close>

theorem body_canonical_form:
  "canonicalize_body (normalize_breaks body) canon = canonicalize_body body canon \<and>
   canonicalize_body (canonicalize_body body canon) canon = canonicalize_body body canon \<and>
   canonicalize_body (body @ CRLF) canon = canonicalize_body body canon"
proof (intro conjI)
  have n: "normalize_breaks (normalize_breaks body) = normalize_breaks body"
    using normalize_crlf by (simp add: normalize_breaks_def)
  then show "canonicalize_body (normalize_breaks body) canon = canonicalize_body body canon"
    by (simp add: canonicalize_body_def)
  show "canonicalize_body (canonicalize_body body canon) canon = canonicalize_body body canon"
  proof (cases "canon = ''relaxed''")
    case False
    obtain y where y: "trim_right_set (normalize_breaks body) CRLF = crlf y"
      unfolding normalize_breaks_def using trimmed_crlf by blast
    have "normalize_breaks (crlf y @ CRLF) = crlf y @ CRLF" using normalize_crlf [of "y @ [LF]"] by simp
    moreover have "trim_right_set (crlf y @ CRLF) CRLF = crlf y"
      using trim_right_append [of CRLF CRLF "crlf y"] y [symmetric] by simp
    ultimately show ?thesis using False y by (simp add: canonicalize_simple)
  qed (simp add: relaxed_idem)
  show "canonicalize_body (body @ CRLF) canon = canonicalize_body body canon"
  proof (cases "canon = ''relaxed''")
    case True
    have "relax_line [] = []" by code_simp
    then have "relaxed_lines (body @ CRLF) = relaxed_lines body"
      by (simp add: relaxed_lines_def normalize_CRLF split_crlf_snoc)
    with True show ?thesis by (simp add: canonicalize_relaxed)
  next
    case False
    then show ?thesis
      using trim_right_append [of CRLF CRLF "normalize_breaks body"] by (simp add: canonicalize_simple normalize_CRLF)
  qed
qed

section \<open>Expiry\<close>

text \<open>
  A signature is refused as expired exactly if the clock is past its \<^verbatim>\<open>x=\<close> time, or if
  that time is so far in the future (from 2 to the 63 minus 62135596800 seconds on) that
  \<^verbatim>\<open>time.Unix\<close> wraps: a signature that practically never expires is then reported as expired.
\<close>

theorem expiry_exact:
  assumes "atoi (trim_space (tag_value tags ''x'')) = Some s" and "unix_ok n" and "n \<ge> 0"
  shows "(\<exists>r. check_times tags ((time_unix n)\<lparr>gt_nsec := ns\<rparr>) out = Inl r \<and> ds_expired r \<and> ds_result r = DKIMFail) \<longleftrightarrow>
     n > s \<or> n = s \<and> ns > 0 \<or> s \<ge> 2 ^ 63 - 62135596800"
proof -
  let ?now = "(time_unix n)\<lparr>gt_nsec := ns\<rparr>"
  have ne: "trim_space (tag_value tags ''x'') \<noteq> []" using assms(1) by (auto simp: atoi_def)
  have "(\<exists>r. check_times tags ?now out = Inl r \<and> ds_expired r \<and> ds_result r = DKIMFail) \<longleftrightarrow>
      time_after ?now (time_unix s)"
    using assms(1) ne by (auto simp: check_times_def Let_def judged_def)
  also have "\<dots> \<longleftrightarrow> n > s \<or> n = s \<and> ns > 0 \<or> s \<ge> 2 ^ 63 - 62135596800"
  proof (cases "unix_ok s")
    case True
    have now: "?now = \<lparr>gt_sec = gt_sec (time_unix n), gt_nsec = ns\<rparr>" by (simp add: time_unix_def)
    have "s < 2 ^ 63 - 62135596800" using True by (simp add: unix_ok_def unix_to_internal_def)
    then show ?thesis unfolding now using time_after_unix [OF True assms(2), of ns] by simp
  next
    case False
    with atoi_bound [OF assms(1)] have s: "2 ^ 63 \<le> s + unix_to_internal" "s < 2 ^ 63"
      by (auto simp: unix_ok_def int64_ok_def unix_to_internal_def)
    have "sint (gt_sec (time_unix s)) < sint (gt_sec ?now)"
      using time_unix_wraps [OF s] sint_time_unix [OF assms(2)] s(2) assms(3) by (simp add: unix_to_internal_def)
    then show ?thesis using s(1) by (simp add: time_after_def unix_to_internal_def)
  qed
  finally show ?thesis .
qed

theorem expiry_exact_witness:
  "\<exists>r. check_times [''x'' \<mapsto> ''9223372036854775807''] demo_now zero_signature = Inl r \<and> ds_expired r \<and> ds_result r = DKIMFail"
proof -
  have a: "atoi (trim_space (tag_value [''x'' \<mapsto> ''9223372036854775807''] ''x'')) = Some 9223372036854775807" by code_simp
  have "unix_ok 1700000000" by (simp add: unix_ok_def unix_to_internal_def)
  moreover have "demo_now = (time_unix 1700000000)\<lparr>gt_nsec := 0\<rparr>" by (simp add: demo_now_def time_unix_def)
  ultimately show ?thesis using expiry_exact [OF a, of 1700000000 0 zero_signature] by simp
qed

end
