(* ===== verification/ArcProps.thy ===== *)
theory ArcProps
  imports Arc DkimProps
begin

text \<open>What a verified ARC chain guarantees: complete sets, authentic seals and a current message signature.\<close>

section \<open>The sets\<close>

text \<open>Every slot that is filled points to a field of its name and instance.\<close>

definition slots_ok :: "header_field list \<Rightarrow> arc_sets \<Rightarrow> bool" where
  "slots_ok headers sets \<longleftrightarrow> distinct (map fst sets) \<and>
     (\<forall>i s. map_of sets i = Some s \<longrightarrow> 1 \<le> i \<and> i \<le> 50 \<and>
        (\<forall>slot n. get_slot slot s = Some n \<longrightarrow> n < length headers \<and> arc_slot_of (fst (headers ! n)) = Some slot \<and>
            arc_instance (snd (headers ! n)) = Some i))"

lemma get_set_slot: "get_slot slot (set_slot slot' n s) = (if slot = slot' then Some n else get_slot slot s)"
  by (cases slot; cases slot') auto

lemma get_slot_empty [simp]: "get_slot slot empty_set = None"
  by (cases slot) (simp_all add: empty_set_def)

lemma collect_sets_ok:
  "collect_sets (length ps) hs sets = Inr sets' \<Longrightarrow> slots_ok (ps @ hs) sets \<Longrightarrow> slots_ok (ps @ hs) sets'"
proof (induction hs arbitrary: ps sets)
  case (Cons h hs)
  have app: "ps @ h # hs = (ps @ [h]) @ hs" by simp
  show ?case
  proof (cases "arc_slot_of (fst h)")
    case None
    with Cons.prems(1) have "collect_sets (length (ps @ [h])) hs sets = Inr sets'" by simp
    from Cons.IH [OF this] Cons.prems(2) show ?thesis unfolding app by blast
  next
    case (Some slot)
    with Cons.prems(1) obtain i where i: "arc_instance (snd h) = Some i" "1 \<le> i" "i \<le> 50"
      and go: "collect_sets (length (ps @ [h])) hs
          (AList.update i (set_slot slot (length ps) (set_of sets i)) sets) = Inr sets'"
      by (auto split: option.splits if_splits)
    have "slots_ok (ps @ h # hs) (AList.update i (set_slot slot (length ps) (set_of sets i)) sets)"
      using Cons.prems(2) Some i
      by (auto simp: slots_ok_def update_conv' distinct_update get_set_slot set_of_def split: if_splits option.splits)
    with Cons.IH [OF go] show ?thesis unfolding app by blast
  qed
qed simp

lemma slots_ok_Nil [simp]: "slots_ok headers []"
  by (simp add: slots_ok_def)

lemma slots_ok_length:
  assumes "slots_ok headers sets"
  shows "length sets \<le> 50"
proof -
  have "set (map fst sets) \<subseteq> {1..50}"
  proof
    fix i assume "i \<in> set (map fst sets)"
    then obtain s where "map_of sets i = Some s" by (auto simp: weak_map_of_SomeI) (metis weak_map_of_SomeI)
    with assms show "i \<in> {1..50}" by (auto simp: slots_ok_def)
  qed
  then have "card (set (map fst sets)) \<le> card {1..50 :: int}" by (intro card_mono) auto
  moreover have "card (set (map fst sets)) = length sets"
    using assms distinct_card [of "map fst sets"] by (simp add: slots_ok_def)
  ultimately show ?thesis by simp
qed

section \<open>The rounds\<close>

text \<open>What a verified seal of set \<open>i\<close> means.\<close>

definition seal_vouched ::
  "spf_dns \<Rightarrow> dkim_crypto \<Rightarrow> header_field list \<Rightarrow> arc_sets \<Rightarrow> int \<Rightarrow> bool" where
  "seal_vouched dns crypto headers sets i \<longleftrightarrow>
     (\<exists>tags sig key. parse_strict_tags (snd (field_at headers (as_index (set_of sets i)))) = Inr tags \<and>
        to_lower (tag_value tags ''cv'') = expected_cv i \<and> to_lower (tag_value tags ''d'') \<noteq> [] \<and>
        b64_decode (strip_whitespace (tag_value tags ''b'')) = Some sig \<and>
        fetch_dkim_key dns crypto (trim_space (tag_value tags ''s'')) (to_lower (tag_value tags ''d'')) = Inr key \<and>
        (let digest = dc_sha256 crypto (build_arc_seal_input headers sets i) in
           (\<exists>k. dk_key key = RsaPublic k \<and> to_lower (tag_value tags ''a'') = ''rsa-sha256'' \<and>
              bit_len (rk_modulus k) \<ge> 1024 \<and> dc_rsa_verify crypto k digest sig) \<or>
           (\<exists>k. dk_key key = Ed25519Public k \<and> to_lower (tag_value tags ''a'') = ''ed25519-sha256'' \<and>
              dc_ed_verify crypto k digest sig)))"

lemma seal_key_pass:
  assumes "fst (seal_key_verdict crypto alg key digest sig) = DKIMPass"
    and "alg = ''rsa-sha256'' \<or> alg = ''ed25519-sha256''"
  shows "(\<exists>k. key = RsaPublic k \<and> alg = ''rsa-sha256'' \<and> bit_len (rk_modulus k) \<ge> 1024 \<and> dc_rsa_verify crypto k digest sig) \<or>
    (\<exists>k. key = Ed25519Public k \<and> alg = ''ed25519-sha256'' \<and> dc_ed_verify crypto k digest sig)"
  using assms(2)
proof
  assume "alg = ''rsa-sha256''"
  then show ?thesis using assms(1)
    by (cases key) (auto simp: seal_key_verdict_def min_rsa_key_bits_def split: if_splits)
next
  assume "alg = ''ed25519-sha256''"
  then show ?thesis using assms(1) by (cases key) (auto simp: seal_key_verdict_def split: if_splits)
qed

lemma verify_arc_seal_pass:
  assumes "fst (verify_arc_seal dns crypto headers sets i) = DKIMPass"
    and tags: "parse_strict_tags (snd (field_at headers (as_index (set_of sets i)))) = Inr tags"
    and cv: "to_lower (tag_value tags ''cv'') = expected_cv i"
  shows "seal_vouched dns crypto headers sets i"
proof -
  let ?alg = "to_lower (tag_value tags ''a'')" and ?d = "to_lower (tag_value tags ''d'')"
  let ?digest = "dc_sha256 crypto (build_arc_seal_input headers sets i)"
  obtain sig key where s: "b64_decode (strip_whitespace (tag_value tags ''b'')) = Some sig"
    "fetch_dkim_key dns crypto (trim_space (tag_value tags ''s'')) ?d = Inr key" "?d \<noteq> []"
    "?alg = ''rsa-sha256'' \<or> ?alg = ''ed25519-sha256''"
    "fst (seal_key_verdict crypto ?alg (dk_key key) ?digest sig) = DKIMPass"
    using assms(1) tags by (auto simp: verify_arc_seal_def Let_def split: if_splits option.splits sum.splits)
  from seal_key_pass [OF s(5,4)] s(1-3) tags cv show ?thesis
    unfolding seal_vouched_def Let_def by blast
qed

lemma arc_stop_verdict [simp]: "arc_verdict (arc_stop v msg done) = v"
  by (simp add: arc_stop_def)

lemma arc_round_stop: "arc_round dns crypto headers body now sets done i = Inl r \<Longrightarrow> arc_verdict r \<noteq> DKIMPass"
  by (auto simp: arc_round_def Let_def split: if_splits sum.splits prod.splits)

lemma arc_round_go:
  assumes "arc_round dns crypto headers body now sets done i = Inr detail"
  shows "complete_set sets i" and "seal_vouched dns crypto headers sets i"
    and "i = int (length sets) \<Longrightarrow> ds_result (verify_ams dns crypto headers sets i body now) = DKIMPass"
proof -
  show "complete_set sets i" using assms by (auto simp: arc_round_def split: if_splits)
  then obtain tags where tags: "parse_strict_tags (snd (field_at headers (as_index (set_of sets i)))) = Inr tags"
    using assms by (cases "parse_strict_tags (snd (field_at headers (as_index (set_of sets i))))") (auto simp: arc_round_def)
  have cv: "to_lower (tag_value tags ''cv'') = expected_cv i"
    and ams: "i = int (length sets) \<Longrightarrow> ds_result (verify_ams dns crypto headers sets i body now) = DKIMPass"
    using assms tags by (auto simp: arc_round_def Let_def split: if_splits)
  have "fst (verify_arc_seal dns crypto headers sets i) = DKIMPass"
    using assms tags by (auto simp: arc_round_def Let_def split: if_splits prod.splits)
  from verify_arc_seal_pass [OF this tags cv] show "seal_vouched dns crypto headers sets i" .
  show "i = int (length sets) \<Longrightarrow> ds_result (verify_ams dns crypto headers sets i body now) = DKIMPass" by (rule ams)
qed

lemma arc_loop_pass:
  assumes "\<And>done i r. round done i = Inl r \<Longrightarrow> arc_verdict r \<noteq> DKIMPass"
  shows "arc_verdict (arc_loop round done is) = DKIMPass \<Longrightarrow> i \<in> set is \<Longrightarrow> \<exists>done detail. round done i = Inr detail"
proof (induction "is" arbitrary: "done")
  case (Cons j js)
  show ?case
  proof (cases "round done j")
    case (Inl r)
    with Cons.prems(1) assms [OF Inl] show ?thesis by simp
  next
    case (Inr d)
    with Cons show ?thesis by auto
  qed
qed simp

text \<open>A chain over the demonstration message.\<close>

definition arc_ams_text :: "string \<Rightarrow> string" where
  "arc_ams_text b = '' i=1; a=ed25519-sha256; c=relaxed/relaxed; d=a.test; s=s1; h=from:subject; bh='' @
     b64_encode (dc_sha256 demo_crypto (canonicalize_body demo_body ''relaxed'')) @ ''; b='' @ b"

definition arc_seal_text :: "string \<Rightarrow> string" where
  "arc_seal_text b = '' i=1; a=ed25519-sha256; cv=none; d=a.test; s=s1; b='' @ b"

definition arc_headers :: "string \<Rightarrow> string \<Rightarrow> header_field list" where
  "arc_headers ams seal = [(''ARC-Seal'', arc_seal_text seal), (''ARC-Message-Signature'', arc_ams_text ams),
     (''ARC-Authentication-Results'', '' i=1; mx.a.test; spf=pass''), (''From'', '' Ann <ann@a.test>''), (''Subject'', '' hi '')]"

definition demo_sign :: "string \<Rightarrow> string" where
  "demo_sign input = b64_encode (dc_sha256 demo_crypto input @ ''KK'')"

definition arc_ams_value :: string where
  "arc_ams_value = demo_sign (build_signed_header_input (arc_headers [] []) 1 [''from'', ''subject''] (arc_ams_text []) ''relaxed''
     ''ARC-Message-Signature'')"

definition demo_arc_sets :: arc_sets where
  "demo_arc_sets = [(1, \<lparr>aar_index = Some 2, ams_index = Some 1, as_index = Some 0\<rparr>)]"

definition arc_message :: "header_field list" where
  "arc_message = arc_headers arc_ams_value (demo_sign (build_arc_seal_input (arc_headers arc_ams_value []) demo_arc_sets 1))"

lemma arc_message_pass: "arc_verdict (verify_arc demo_dkim_dns demo_crypto demo_now arc_message demo_body demo_now) = DKIMPass"
  by code_simp

text \<open>
  C22: A verified ARC chain has between 1 and 50 sets, numbered consecutively and complete, each
  part in a field of its own name and instance, on a message with exactly one From field. The
  seal of every set declares the right chain status and verifies over all sets up to its own
  under a strong enough key of its signer, and the newest message signature vouches for From and
  the body and covers no ARC or Authentication-Results field.
\<close>

theorem arc_pass_sound:
  assumes "arc_verdict (verify_arc dns crypto clock headers body now) = DKIMPass"
  shows "\<exists>sets. collect_sets 0 headers [] = Inr sets \<and> 1 \<le> length sets \<and> length sets \<le> 50 \<and>
    count_header headers ''From'' = 1 \<and> sd_enabled dns \<and>
    (\<forall>i. 1 \<le> i \<and> i \<le> int (length sets) \<longrightarrow> seal_vouched dns crypto headers sets i \<and>
       (\<forall>slot. \<exists>n < length headers. get_slot slot (set_of sets i) = Some n \<and>
          arc_slot_of (fst (headers ! n)) = Some slot \<and> arc_instance (snd (headers ! n)) = Some i)) \<and>
    (\<exists>tags n d. vouched dns crypto headers (the (ams_index (set_of sets (int (length sets))))) ''ARC-Message-Signature''
       body tags n d \<and> \<not> list_ex forbidden_in_ams (split_header_list (tag_value tags ''h'')))"
proof -
  let ?now = "if is_zero_time now then clock else now"
  obtain sets where sets: "collect_sets 0 headers [] = Inr sets" "sets \<noteq> []" "count_header headers ''From'' = 1" "sd_enabled dns"
    and loop: "arc_verdict (arc_loop (arc_round dns crypto headers body ?now sets) [] [1..int (length sets)]) = DKIMPass"
    using assms by (auto simp: verify_arc_def Let_def split: sum.splits if_splits)
  have ok: "slots_ok headers sets" using collect_sets_ok [of "[]" headers "[]" sets] sets(1) by simp
  have round: "\<exists>done detail. arc_round dns crypto headers body ?now sets done i = Inr detail" if "1 \<le> i" "i \<le> int (length sets)" for i
    using arc_loop_pass [OF arc_round_stop loop] that by simp
  have each: "seal_vouched dns crypto headers sets i \<and> (\<forall>slot. \<exists>n < length headers. get_slot slot (set_of sets i) = Some n \<and>
      arc_slot_of (fst (headers ! n)) = Some slot \<and> arc_instance (snd (headers ! n)) = Some i)"
    if i: "1 \<le> i" "i \<le> int (length sets)" for i
  proof
    from round [OF i] obtain dn detail where r: "arc_round dns crypto headers body ?now sets dn i = Inr detail" by blast
    show "seal_vouched dns crypto headers sets i" using arc_round_go(2) [OF r] .
    from arc_round_go(1) [OF r] obtain s where s: "map_of sets i = Some s" "\<forall>slot. get_slot slot s \<noteq> None"
      by (auto simp: complete_set_def split: option.splits) (metis get_slot.elims option.distinct(1))
    show "\<forall>slot. \<exists>n < length headers. get_slot slot (set_of sets i) = Some n \<and>
        arc_slot_of (fst (headers ! n)) = Some slot \<and> arc_instance (snd (headers ! n)) = Some i"
    proof
      fix slot
      from s(2) obtain n where "get_slot slot s = Some n" by blast
      then show "\<exists>n < length headers. get_slot slot (set_of sets i) = Some n \<and>
          arc_slot_of (fst (headers ! n)) = Some slot \<and> arc_instance (snd (headers ! n)) = Some i"
        using ok s(1) by (auto simp: slots_ok_def set_of_def)
    qed
  qed
  let ?n = "int (length sets)"
  have n: "1 \<le> ?n" using sets(2) by (cases sets) auto
  from round [OF n] obtain dn detail where r: "arc_round dns crypto headers body ?now sets dn ?n = Inr detail" by blast
  have ams: "ds_result (verify_ams dns crypto headers sets ?n body ?now) = DKIMPass" using arc_round_go(3) [OF r refl] .
  let ?sig = "verify_one_message_signature dns crypto headers (the (ams_index (set_of sets ?n))) body ?now ''ARC-Message-Signature'' False"
  have f: "\<not> list_ex forbidden_in_ams (ds_headers_signed ?sig)" "ds_result ?sig = DKIMPass"
    using ams by (auto simp: verify_ams_def Let_def split: if_splits)
  from signature_pass [OF f(2)] f(1) have "\<exists>tags m d. vouched dns crypto headers (the (ams_index (set_of sets ?n)))
      ''ARC-Message-Signature'' body tags m d \<and> \<not> list_ex forbidden_in_ams (split_header_list (tag_value tags ''h''))"
    by metis
  with sets each n slots_ok_length [OF ok] show ?thesis by auto
qed

theorem arc_pass_sound_witness:
  "\<exists>sets. collect_sets 0 arc_message [] = Inr sets \<and> length sets \<ge> 1 \<and> seal_vouched demo_dkim_dns demo_crypto arc_message sets 1"
proof -
  from arc_pass_sound [OF arc_message_pass] obtain sets where s: "collect_sets 0 arc_message [] = Inr sets" "1 \<le> length sets"
    "\<forall>i. 1 \<le> i \<and> i \<le> int (length sets) \<longrightarrow> seal_vouched demo_dkim_dns demo_crypto arc_message sets i \<and>
       (\<forall>slot. \<exists>n < length arc_message. get_slot slot (set_of sets i) = Some n \<and>
          arc_slot_of (fst (arc_message ! n)) = Some slot \<and> arc_instance (snd (arc_message ! n)) = Some i)"
    by blast
  from s(2) have "(1 :: int) \<le> 1 \<and> 1 \<le> int (length sets)" by simp
  with s(3) have "seal_vouched demo_dkim_dns demo_crypto arc_message sets 1" by blast
  with s(1,2) show ?thesis by blast
qed

end
