(* ===== verification/AuthProps.thy ===== *)
theory AuthProps
  imports AuthVerify SpfProps ArcProps
begin

text \<open>DMARC, the consolidated verdict, its rendering, and DANE.\<close>

section \<open>DMARC\<close>

lemma evaluate_dmarc_pass:
  "dr_result (evaluate_dmarc org rec spf dkim res) = DMARCPass \<longleftrightarrow>
     dm_policy rec \<noteq> [] \<and> (spf_aligned org rec (dr_from_domain res) spf \<or> aligned_domains org rec (dr_from_domain res) dkim \<noteq> [])"
  by (simp add: evaluate_dmarc_def Let_def)

lemma evaluate_dmarc_disposition:
  "dr_disposition res = policy_none \<Longrightarrow> dr_disposition (evaluate_dmarc org rec spf dkim res) =
     (if dm_policy rec = [] \<or> dr_result (evaluate_dmarc org rec spf dkim res) = DMARCPass then policy_none
      else if dm_percent rec < 100 \<and> applicable_policy rec = policy_reject then policy_quarantine
      else applicable_policy rec)"
  by (simp add: evaluate_dmarc_def Let_def fail_dmarc_disposition)

lemma verify_dmarc_pass:
  "dr_result (verify_dmarc org dns from spf dkim) = DMARCPass \<longleftrightarrow>
     to_lower (trim_space from) \<noteq> [] \<and>
     (\<exists>rec. lookup_dmarc org dns (to_lower (trim_space from)) = Inr (Some rec) \<and> dm_policy rec \<noteq> [] \<and>
        (sr_result spf = SPFPass \<and> sr_domain spf \<noteq> [] \<and>
           domains_align org (sr_domain spf) (to_lower (trim_space from)) (dm_aspf rec = ''s'') \<or>
         (\<exists>d \<in> set (do_passing_domains dkim).
            domains_align org d (to_lower (trim_space from)) (dm_adkim rec = ''s''))))"
  by (auto simp: verify_dmarc_def Let_def evaluate_dmarc_pass aligned_domains_iff spf_aligned_def
      split: sum.split option.split)

text \<open>
  C21: DMARC passes exactly if the From domain or its organizational domain publishes a record
  with a valid policy, and SPF passed for a domain aligned with the From domain or some DKIM
  domain that passed is aligned, in the modes of the record. A message that passes, or that
  has no usable record, gets the disposition none; a failing one gets the policy, which the
  percentage softens only from reject to quarantine, so that a partial quarantine policy is
  applied to all messages.
\<close>

theorem dmarc_pass_iff:
  "(dr_result (verify_dmarc org dns from spf dkim) = DMARCPass \<longleftrightarrow>
     to_lower (trim_space from) \<noteq> [] \<and>
     (\<exists>rec. lookup_dmarc org dns (to_lower (trim_space from)) = Inr (Some rec) \<and> dm_policy rec \<noteq> [] \<and>
        (sr_result spf = SPFPass \<and> sr_domain spf \<noteq> [] \<and>
           domains_align org (sr_domain spf) (to_lower (trim_space from)) (dm_aspf rec = ''s'') \<or>
         (\<exists>d \<in> set (do_passing_domains dkim).
            domains_align org d (to_lower (trim_space from)) (dm_adkim rec = ''s''))))) \<and>
   dr_disposition (verify_dmarc org dns from spf dkim) =
     (case dr_record (verify_dmarc org dns from spf dkim) of
        None \<Rightarrow> policy_none
      | Some rec \<Rightarrow>
          if dr_result (verify_dmarc org dns from spf dkim) \<noteq> DMARCFail then policy_none
          else if dm_percent rec < 100 \<and> applicable_policy rec = policy_reject then policy_quarantine
          else applicable_policy rec)"
proof
  show "dr_disposition (verify_dmarc org dns from spf dkim) =
     (case dr_record (verify_dmarc org dns from spf dkim) of
        None \<Rightarrow> policy_none
      | Some rec \<Rightarrow>
          if dr_result (verify_dmarc org dns from spf dkim) \<noteq> DMARCFail then policy_none
          else if dm_percent rec < 100 \<and> applicable_policy rec = policy_reject then policy_quarantine
          else applicable_policy rec)"
    by (auto simp: verify_dmarc_def Let_def evaluate_dmarc_def fail_dmarc_disposition split: sum.split option.split)
qed (rule verify_dmarc_pass)

section \<open>The verdict\<close>

lemma verify_spf_returns: "verify_spf dns ip from helo \<noteq> None"
proof -
  have returns: "(check_spf spf_fuel dns ev domain fresh_state = None) = False" for ev domain
    using check_returns [of dns ev domain] by (auto simp: sound_check_def)
  show ?thesis by (auto simp: verify_spf_def Let_def returns simp del: not_None_eq split: option.split)
qed

lemma verify_auth_returns: "\<exists>r. verify_auth env input = Some r"
proof -
  have "auth_spf env input \<noteq> None" using verify_spf_returns by (simp add: auth_spf_def)
  then show ?thesis by (auto simp: verify_auth_def Let_def)
qed

definition demo_env :: auth_env where
  "demo_env = \<lparr>ae_dns = demo_dkim_dns\<lparr>sd_txt := (\<lambda>n. if n = ''_dmarc.a.test'' then [''v=DMARC1; p=reject''] else sd_txt demo_dkim_dns n)\<rparr>,
     ae_crypto = demo_crypto, ae_clock = demo_now, ae_org_domain = (\<lambda>_. None),
     ae_tlsa = (\<lambda>_ _. \<lparr>lk_name = [], lk_records = [], lk_secure = False, lk_found = False, lk_error = []\<rparr>)\<rparr>"

definition demo_input :: "header_field list \<Rightarrow> auth_input" where
  "demo_input headers = \<lparr>ai_headers = headers, ai_body = demo_body, ai_client_ip = [], ai_mail_from = [], ai_helo = [],
     ai_from_domain = [], ai_now = demo_now, ai_check_dane = False\<rparr>"

text \<open>The two kinds of evidence for the domain of the From field, under the record \<open>rec\<close>.\<close>

definition from_identity :: "auth_input \<Rightarrow> string" where
  "from_identity input = to_lower (trim_space (auth_from_domain input))"

definition spf_evidence :: "auth_env \<Rightarrow> auth_input \<Rightarrow> dmarc_record \<Rightarrow> spf_result \<Rightarrow> bool" where
  "spf_evidence env input rec spf \<longleftrightarrow> auth_spf env input = Some spf \<and> sr_result spf = SPFPass \<and>
     domains_align (ae_org_domain env) (sr_domain spf) (from_identity input) (dm_aspf rec = ''s'')"

definition dkim_evidence :: "auth_env \<Rightarrow> auth_input \<Rightarrow> dmarc_record \<Rightarrow> bool" where
  "dkim_evidence env input rec \<longleftrightarrow> count_header (ai_headers input) ''From'' \<le> 1 \<and>
     (\<exists>i \<in> set (signature_indices (ai_headers input)). \<exists>tags n d.
        vouched (ae_dns env) (ae_crypto env) (ai_headers input) i ''DKIM-Signature'' (ai_body input) tags n d \<and>
        domains_align (ae_org_domain env) d (from_identity input) (dm_adkim rec = ''s''))"

lemma authenticated_evidence:
  assumes "verify_auth env input = Some r" and "au_authenticated r"
  shows "\<exists>rec. lookup_dmarc (ae_org_domain env) (ae_dns env) (from_identity input) = Inr (Some rec) \<and>
    (spf_evidence env input rec (au_spf r) \<or> dkim_evidence env input rec)"
proof -
  from assms(1) obtain now where
    dkim: "au_dkim r = verify_dkim (ae_dns env) (ae_crypto env) (ae_clock env) (ai_headers input) (ai_body input) now"
    and dmarc: "au_dmarc r = verify_dmarc (ae_org_domain env) (ae_dns env) (auth_from_domain input) (au_spf r) (au_dkim r)"
    and spf: "auth_spf env input = Some (au_spf r)"
    by (auto simp: verify_auth_def Let_def split: option.splits)
  have "dr_result (au_dmarc r) = DMARCPass" using assms verify_auth_authenticated by blast
  with spf obtain rec where rec: "lookup_dmarc (ae_org_domain env) (ae_dns env) (from_identity input) = Inr (Some rec)"
    and ev: "spf_evidence env input rec (au_spf r) \<or>
      (\<exists>d \<in> set (do_passing_domains (au_dkim r)). domains_align (ae_org_domain env) d (from_identity input) (dm_adkim rec = ''s''))"
    unfolding dmarc verify_dmarc_pass spf_evidence_def from_identity_def by blast
  from ev show ?thesis
  proof
    assume "\<exists>d \<in> set (do_passing_domains (au_dkim r)). domains_align (ae_org_domain env) d (from_identity input) (dm_adkim rec = ''s'')"
    then have "dkim_evidence env input rec"
      using dkim_passing_vouched unfolding dkim dkim_evidence_def by blast
    with rec show ?thesis by blast
  qed (use rec in blast)
qed

lemma verify_auth_domain: "verify_auth env input = Some r \<Longrightarrow> au_from_domain r = auth_from_domain input"
  by (auto simp: verify_auth_def Let_def split: option.splits)

text \<open>
  C19: Verification returns for every message and every answer of the network, and it reports a
  message as authenticated only if the domain of the From field publishes a DMARC policy and
  either SPF passed for an aligned domain, or the message has at most one From field and one
  of its DKIM signatures is vouched for by an aligned domain. Such a message has disposition
  none.
\<close>

theorem authenticated_sound:
  "\<exists>r. verify_auth env input = Some r \<and> au_from_domain r = auth_from_domain input \<and>
     (au_authenticated r \<longrightarrow> auth_disposition r = policy_none \<and>
       (\<exists>rec. lookup_dmarc (ae_org_domain env) (ae_dns env) (from_identity input) = Inr (Some rec) \<and>
          (spf_evidence env input rec (au_spf r) \<or> dkim_evidence env input rec)))"
proof -
  obtain r where r: "verify_auth env input = Some r" using verify_auth_returns by blast
  have "au_authenticated r \<Longrightarrow> auth_disposition r = policy_none" by (simp add: auth_disposition_def)
  with r authenticated_evidence [OF r] verify_auth_domain [OF r] show ?thesis by blast
qed

theorem authenticated_sound_witness:
  "\<exists>rec. lookup_dmarc (ae_org_domain demo_env) (ae_dns demo_env) ''a.test'' = Inr (Some rec) \<and>
     dkim_evidence demo_env (demo_input demo_signed) rec"
proof -
  have a: "map_option au_authenticated (verify_auth demo_env (demo_input demo_signed)) = Some True"
    "map_option (\<lambda>r. sr_result (au_spf r)) (verify_auth demo_env (demo_input demo_signed)) = Some SPFNone"
    "from_identity (demo_input demo_signed) = ''a.test''"
    by code_simp+
  from authenticated_sound [of demo_env "demo_input demo_signed"] a show ?thesis
    by (auto simp: spf_evidence_def)
qed

section \<open>The Authentication-Results text\<close>

text \<open>What a sender may append to its address so that it becomes part of the reported domain.\<close>

definition smuggled_text :: "string \<Rightarrow> bool" where
  "smuggled_text f \<longleftrightarrow> f \<noteq> [] \<and> CHR ''@'' \<notin> set f \<and> CHR ''<'' \<notin> set f \<and> to_lower f = f \<and>
     \<not> is_space (last f) \<and> last f \<notin> set domain_trim \<and> last f \<noteq> CHR ''.''"

lemma trim_set_id: "s \<noteq> [] \<Longrightarrow> hd s \<notin> set cs \<Longrightarrow> last s \<notin> set cs \<Longrightarrow> trim_set s cs = s"
  by (cases s) (simp_all add: trim_set_def trim_left_set_def trim_right_id)

lemma last_index_first: "c \<notin> set t \<Longrightarrow> last_index c (a # c # t) = Some 1"
  using last_index_None [of c t] by (auto split: option.splits)

lemma domain_of_smuggled:
  assumes "smuggled_text f"
  shows "domain_of_address (''x@a.test; '' @ f) = ''a.test; '' @ f"
proof -
  let ?v = "''x@a.test; '' @ f" and ?d = "''a.test; '' @ f"
  note f = assms [unfolded smuggled_text_def]
  have nospace: "\<not> is_space CHR ''x''" "\<not> is_space CHR ''a''" by code_simp+
  have tv: "trim_space ?v = ?v" using f nospace by (intro trim_space_id) auto
  have td: "trim_space ?d = ?d" using f nospace by (intro trim_space_id) auto
  have "last_index CHR ''<'' ?v = None" using f by (subst last_index_None) auto
  then have ang: "angle_part ?v = ?v" by (simp add: angle_part_def)
  have at: "last_index CHR ''@'' ?v = Some 1" using last_index_first [of "CHR ''@''" ?d "CHR ''x''"] f by simp
  have "CHR ''a'' \<notin> set domain_trim" by code_simp
  then have ts: "trim_set ?d domain_trim = ?d" using f by (intro trim_set_id) auto
  have "\<not> has_suffix ?d ''.''"
  proof
    assume "has_suffix ?d ''.''"
    then obtain s where "?d = s @ ''.''" unfolding has_suffix_iff by blast
    then have "last ?d = last (s @ ''.'')" by (rule arg_cong)
    then show False using f by simp
  qed
  then have sf: "trim_suffix ?d ''.'' = ?d" by (simp add: trim_suffix_def)
  have low: "to_lower ?d = ?d"
  proof -
    have "to_lower ''a.test; '' = ''a.test; ''" by code_simp
    with f show ?thesis by (simp only: to_lower_append)
  qed
  have "drop (Suc 1) ?v = ?d" by simp
  with tv td ang at ts sf low show ?thesis by (simp add: domain_of_address_def Let_def)
qed

lemma plain_from_no_arc:
  "arc_verdict (verify_arc dns crypto clock [(''From'', v)] body now) = DKIMNone"
proof -
  have "arc_slot_of ''From'' = None" by code_simp
  then show ?thesis by (simp add: verify_arc_def Let_def arc_stop_def)
qed

lemma plain_from_field: "is_field ''From'' (''From'', v)"
  by (simp add: is_field_def) code_simp

text \<open>
  C20: Defect: the domain taken from the From field is written into the Authentication-Results
  text as it is. Whatever a sender appends to its address after a semicolon, such as a verdict
  \<^verbatim>\<open>dmarc=pass\<close> for a domain of its choice, becomes an entry of its own in the text that
  downstream systems are to trust, with no signature on the message at all.
\<close>

theorem authres_forged:
  assumes "smuggled_text f" and "ai_headers input = [(''From'', ''x@a.test; '' @ f)]"
    and "ai_from_domain input = []" and "\<not> ai_check_dane input"
  shows "\<exists>r pre. verify_auth env input = Some r \<and> authentication_results r authserv_id = pre @ ''; '' @ f"
proof -
  obtain r where r: "verify_auth env input = Some r" using verify_auth_returns by blast
  have "auth_from_domain input = ''a.test; '' @ f"
    using assms domain_of_smuggled by (simp add: auth_from_domain_def plain_from_field)
  then have dom: "au_from_domain r = ''a.test; '' @ f" using verify_auth_domain [OF r] by simp
  have "arc_verdict (au_arc r) = DKIMNone" "au_dane r = None"
    using r assms(2,4) by (auto simp: verify_auth_def Let_def plain_from_no_arc split: option.splits)
  then have "\<exists>pre. authentication_results r authserv_id = pre @ au_from_domain r"
    using dom by (simp add: authentication_results_def authentication_parts_def)
  then obtain pre where "authentication_results r authserv_id = pre @ ''a.test; '' @ f" using dom by auto
  then have "authentication_results r authserv_id = (pre @ ''a.test'') @ ''; '' @ f" by simp
  with r show ?thesis by blast
qed

theorem authres_forged_witness:
  "\<exists>r pre. verify_auth demo_env (demo_input [(''From'', ''x@a.test; dmarc=pass header.from=bank.test'')]) = Some r \<and>
     \<not> au_authenticated r \<and>
     authentication_results r ''mx.b.test'' = pre @ ''; dmarc=pass header.from=bank.test''"
proof -
  let ?in = "demo_input [(''From'', ''x@a.test; '' @ ''dmarc=pass header.from=bank.test'')]"
  have "smuggled_text ''dmarc=pass header.from=bank.test''" by code_simp
  moreover have "ai_headers ?in = [(''From'', ''x@a.test; '' @ ''dmarc=pass header.from=bank.test'')]"
    "ai_from_domain ?in = []" "\<not> ai_check_dane ?in"
    by (simp_all add: demo_input_def)
  ultimately obtain r pre where r: "verify_auth demo_env ?in = Some r"
    "authentication_results r ''mx.b.test'' = pre @ ''; '' @ ''dmarc=pass header.from=bank.test''"
    using authres_forged by blast
  moreover have "map_option au_authenticated (verify_auth demo_env ?in) = Some False" by code_simp
  ultimately show ?thesis by simp
qed

section \<open>DANE\<close>

lemma check_dane_domain_available:
  "dd_result (check_dane_domain dns tlsa domain) = DANEAvailable \<longleftrightarrow>
     sd_enabled dns \<and> sd_mx dns domain \<noteq> [] \<and>
     (\<forall>h \<in> set (sd_mx dns domain). dn_result (check_dane True tlsa h 25) = DANEAvailable)"
proof -
  have "length (filter P xs) = length xs \<longleftrightarrow> (\<forall>x \<in> set xs. P x)" for P and xs :: "dane_result list"
    using filter_id_conv [of P xs] length_filter_less [of _ xs P] by (metis order_less_irrefl)
  then show ?thesis
    by (auto simp: check_dane_domain_def domain_verdict_def count_verdict_def Let_def)
qed

text \<open>
  C23: A certificate chain passes DANE exactly if the lookup succeeded with a validated answer, a
  chain was presented, and some record of type DANE-EE matches the first certificate or some
  record of type DANE-TA matches any certificate of the chain. For a domain, all MX hosts must
  publish usable validated records. Defect: for DANE-TA nothing relates the leaf to the
  matching certificate, so a server that merely appends the published trust anchor to a leaf of
  its own passes.
\<close>

theorem dane_pass_exact:
  "(dn_result (verify_dane_certificate enabled tlsa hashes host port chain) = DANEPass \<longleftrightarrow>
      enabled \<and> chain \<noteq> [] \<and>
      (let l = tlsa host (if port \<le> 0 then 25 else port) in
         lk_error l = [] \<and> lk_found l \<and> lk_secure l \<and>
         (\<exists>r \<in> set (lk_records l).
            tl_usage r = 3 \<and> certificate_matches hashes r (hd chain) \<or>
            tl_usage r = 2 \<and> (\<exists>c \<in> set chain. certificate_matches hashes r c)))) \<and>
   (dd_result (check_dane_domain dns tlsa domain) = DANEAvailable \<longleftrightarrow>
      sd_enabled dns \<and> sd_mx dns domain \<noteq> [] \<and>
      (\<forall>h \<in> set (sd_mx dns domain). dn_result (check_dane True tlsa h 25) = DANEAvailable))"
proof
  have rm: "record_matches hashes chain r \<longleftrightarrow> tl_usage r = 3 \<and> certificate_matches hashes r (hd chain) \<or>
      tl_usage r = 2 \<and> (\<exists>c \<in> set chain. certificate_matches hashes r c)" if "chain \<noteq> []" for r
    using that by (cases chain) (auto simp: record_matches_def tlsa_candidates_def list_ex_iff)
  show "dn_result (verify_dane_certificate enabled tlsa hashes host port chain) = DANEPass \<longleftrightarrow>
      enabled \<and> chain \<noteq> [] \<and>
      (let l = tlsa host (if port \<le> 0 then 25 else port) in
         lk_error l = [] \<and> lk_found l \<and> lk_secure l \<and>
         (\<exists>r \<in> set (lk_records l).
            tl_usage r = 3 \<and> certificate_matches hashes r (hd chain) \<or>
            tl_usage r = 2 \<and> (\<exists>c \<in> set chain. certificate_matches hashes r c)))"
    unfolding verify_dane_pass check_dane_available Let_def
    using rm check_dane_records [of enabled tlsa host port]
    by (cases "enabled \<and> chain \<noteq> []") (auto simp: usable_record_def)
qed (rule check_dane_domain_available)

definition demo_chain :: "certificate list" where
  "demo_chain = [\<lparr>ce_raw = ''leaf'', ce_public_key = ''k''\<rparr>, \<lparr>ce_raw = ''ca'', ce_public_key = ''AB''\<rparr>]"

theorem dane_pass_exact_witness:
  "dn_result (verify_dane_certificate True
     (\<lambda>_ _. \<lparr>lk_name = [], lk_records = [\<lparr>tl_usage = 2, tl_selector = 1, tl_matching = 0, tl_certificate = ''4142''\<rparr>],
        lk_secure = True, lk_found = True, lk_error = []\<rparr>)
     \<lparr>th_sha256 = id, th_sha512 = id\<rparr> ''mx.a.test'' 0 demo_chain) = DANEPass"
proof -
  have "certificate_matches \<lparr>th_sha256 = id, th_sha512 = id\<rparr>
      \<lparr>tl_usage = 2, tl_selector = 1, tl_matching = 0, tl_certificate = ''4142''\<rparr> \<lparr>ce_raw = ''ca'', ce_public_key = ''AB''\<rparr>"
    by code_simp
  then show ?thesis
    by (subst dane_pass_exact [THEN conjunct1]) (simp add: demo_chain_def Let_def)
qed

end
