(* ===== verification/Transport.thy ===== *)
theory Transport
  imports GoStrings
begin

text \<open>
  MTA-STS and TLS reporting policies, \<^verbatim>\<open>pkg/authverify/transport.go\<close>. \<^verbatim>\<open>LookupTXTAuthenticated\<close>
  of the resolver, \<^verbatim>\<open>url.Parse\<close> (the scheme and the text of a parsed URL) and the policy fetcher are
  parameters. The default fetcher, an HTTPS client, is not modelled.
\<close>

record txt_lookup =
  tx_name :: string
  tx_records :: "string list"
  tx_secure :: bool
  tx_found :: bool
  tx_error :: string

record url_parts =
  url_scheme :: string
  url_text :: string

datatype policy_verdict = PolicyNone | PolicyValid | PolicyTempError | PolicyPermError

record tls_report_policy =
  tr_result :: policy_verdict
  tr_domain :: string
  tr_record :: string
  tr_report_uris :: "string list"
  tr_dnssec :: bool
  tr_explanation :: string

record mta_sts_policy =
  st_result :: policy_verdict
  st_domain :: string
  st_id :: string
  st_mode :: string
  st_mx :: "string list"
  st_max_age :: int
  st_dnssec :: bool
  st_explanation :: string

definition max_mta_sts_policy_bytes :: nat where "max_mta_sts_policy_bytes = 65536"

definition label_char :: "char \<Rightarrow> bool" where
  "label_char c \<longleftrightarrow> is_lower c \<or> is_digit c \<or> c = CHR ''-''"

definition label_ok :: "string \<Rightarrow> bool" where
  "label_ok label \<longleftrightarrow> label \<noteq> [] \<and> length label \<le> 63 \<and> hd label \<noteq> CHR ''-'' \<and> last label \<noteq> CHR ''-'' \<and>
     list_all label_char label"

definition normalize_policy_domain :: "string \<Rightarrow> string" where
  "normalize_policy_domain domain0 =
     (let domain = to_lower (trim_suffix (trim_space domain0) ''.'') in
      if domain = [] \<or> length domain > 253 \<or> contains domain ''..'' then []
      else if list_all label_ok (split_on CHR ''.'' domain) then domain else [])"

text \<open>The last value of a tag counts.\<close>

fun policy_tags :: "(string \<rightharpoonup> string) \<Rightarrow> string list \<Rightarrow> (string \<rightharpoonup> string)" where
  "policy_tags tags [] = tags"
| "policy_tags tags (part # parts) =
     (case split2 CHR ''='' part of
        [k, v] \<Rightarrow> policy_tags (tags(to_lower (trim_space k) \<mapsto> trim_space v)) parts
      | _ \<Rightarrow> policy_tags tags parts)"

definition parse_policy_tags :: "string \<Rightarrow> (string \<rightharpoonup> string)" where
  "parse_policy_tags record_text = policy_tags (\<lambda>_. None) (split_on CHR '';'' record_text)"

definition policy_tag :: "(string \<rightharpoonup> string) \<Rightarrow> string \<Rightarrow> string" where
  "policy_tag tags k = (case tags k of None \<Rightarrow> [] | Some v \<Rightarrow> v)"

definition policy_candidates :: "string \<Rightarrow> string list \<Rightarrow> string list" where
  "policy_candidates version records = filter (\<lambda>r. has_prefix (to_lower (trim_space r)) version) records"

section \<open>TLS reporting\<close>

definition report_uri_ok :: "(string \<Rightarrow> url_parts option) \<Rightarrow> string \<Rightarrow> bool" where
  "report_uri_ok parse_url uri =
     (case parse_url uri of
        None \<Rightarrow> False | Some u \<Rightarrow> (url_scheme u = ''mailto'' \<or> url_scheme u = ''https'') \<and> url_text u \<noteq> [])"

fun collect_uris :: "(string \<Rightarrow> url_parts option) \<Rightarrow> string list \<Rightarrow> string list \<Rightarrow> (string \<times> string list) + string list" where
  "collect_uris parse_url acc [] = Inr acc"
| "collect_uris parse_url acc (raw # raws) =
     (let uri = trim_space raw in
      if \<not> report_uri_ok parse_url uri then Inl (''invalid TLS-RPT report URI '' @ go_quote uri, acc)
      else collect_uris parse_url (acc @ [uri]) raws)"

definition check_tls_reporting ::
  "bool \<Rightarrow> (string \<Rightarrow> txt_lookup) \<Rightarrow> (string \<Rightarrow> url_parts option) \<Rightarrow> string \<Rightarrow> tls_report_policy" where
  "check_tls_reporting enabled lookup parse_url domain0 =
     (let domain = normalize_policy_domain domain0;
          out = \<lparr>tr_result = PolicyNone, tr_domain = domain, tr_record = [], tr_report_uris = [], tr_dnssec = False, tr_explanation = []\<rparr>
      in if domain = [] \<or> \<not> enabled
         then out\<lparr>tr_result := PolicyTempError, tr_explanation := ''no DNS resolver configured''\<rparr>
         else
           let answer = lookup (''_smtp._tls.'' @ domain); out1 = out\<lparr>tr_dnssec := tx_secure answer\<rparr> in
           if tx_error answer \<noteq> []
           then out1\<lparr>tr_result := PolicyTempError, tr_explanation := tx_error answer\<rparr>
           else (case policy_candidates ''v=tlsrptv1'' (tx_records answer) of
               [] \<Rightarrow> out1\<lparr>tr_explanation := ''no TLS-RPT record published''\<rparr>
             | [rec] \<Rightarrow>
                 let out2 = out1\<lparr>tr_record := rec\<rparr>; tags = parse_policy_tags rec in
                 if \<not> equal_fold (policy_tag tags ''v'') ''TLSRPTv1'' \<or> policy_tag tags ''rua'' = []
                 then out2\<lparr>tr_result := PolicyPermError, tr_explanation := ''TLS-RPT record must contain v=TLSRPTv1 and rua=''\<rparr>
                 else (case collect_uris parse_url [] (split_on CHR '','' (policy_tag tags ''rua'')) of
                     Inl (msg, uris) \<Rightarrow> out2\<lparr>tr_report_uris := uris, tr_result := PolicyPermError, tr_explanation := msg\<rparr>
                   | Inr uris \<Rightarrow> out2\<lparr>tr_report_uris := uris, tr_result := PolicyValid,
                       tr_explanation := ''TLS-RPT sends aggregate reports to '' @ show_nat (length uris) @ '' URI(s)''\<rparr>)
             | _ \<Rightarrow> out1\<lparr>tr_result := PolicyPermError, tr_explanation := ''multiple TLS-RPT records published''\<rparr>))"

section \<open>The MTA-STS policy\<close>

text \<open>The fields of a policy in order; \<open>field_values\<close> are those of one key.\<close>

fun policy_fields :: "string list \<Rightarrow> string + (string \<times> string) list" where
  "policy_fields [] = Inr []"
| "policy_fields (raw # lines) =
     (let line = trim_space raw in
      if line = [] then policy_fields lines
      else (case split2 CHR '':'' line of
          [k, v] \<Rightarrow> map_sum id (Cons (to_lower (trim_space k), trim_space v)) (policy_fields lines)
        | _ \<Rightarrow> Inl (''malformed MTA-STS policy line '' @ go_quote line)))"

definition field_values :: "(string \<times> string) list \<Rightarrow> string \<Rightarrow> string list" where
  "field_values entries k = map snd (filter (\<lambda>f. fst f = k) entries)"

definition bad_pattern :: "string \<Rightarrow> bool" where
  "bad_pattern pattern =
     (if has_prefix pattern ''*.'' then normalize_policy_domain (drop 2 pattern) = []
      else CHR ''*'' \<in> set pattern \<or> normalize_policy_domain pattern = [])"

text \<open>The fields the code has filled in when it returns stay, with or without an error.\<close>

definition policy_max_age :: "(string \<times> string) list \<Rightarrow> mta_sts_policy \<Rightarrow> string option \<times> mta_sts_policy" where
  "policy_max_age entries out =
     (case field_values entries ''max_age'' of
        [a] \<Rightarrow> (case atoi a of
            None \<Rightarrow> (Some ''MTA-STS max_age must be a non-negative integer'', out)
          | Some age \<Rightarrow> if age < 0 then (Some ''MTA-STS max_age must be a non-negative integer'', out)
              else (None, out\<lparr>st_max_age := age\<rparr>))
      | _ \<Rightarrow> (Some ''MTA-STS policy must contain exactly one max_age'', out))"

definition policy_mx :: "(string \<times> string) list \<Rightarrow> mta_sts_policy \<Rightarrow> string option \<times> mta_sts_policy" where
  "policy_mx entries out0 =
     (let out = out0\<lparr>st_mx := field_values entries ''mx''\<rparr> in
      if st_mode out \<noteq> ''none'' \<and> st_mx out = []
      then (Some (''MTA-STS '' @ st_mode out @ '' policy requires at least one mx entry''), out)
      else (case filter bad_pattern (st_mx out) of
          p # _ \<Rightarrow> (Some (''invalid MTA-STS mx pattern '' @ go_quote p), out)
        | [] \<Rightarrow> policy_max_age entries out))"

definition policy_mode :: "(string \<times> string) list \<Rightarrow> mta_sts_policy \<Rightarrow> string option \<times> mta_sts_policy" where
  "policy_mode entries out0 =
     (if field_values entries ''version'' \<noteq> [''STSv1'']
      then (Some ''MTA-STS policy must contain exactly one version: STSv1'', out0)
      else (case field_values entries ''mode'' of
          [m] \<Rightarrow>
            let out = out0\<lparr>st_mode := to_lower m\<rparr> in
            if st_mode out \<noteq> ''none'' \<and> st_mode out \<noteq> ''testing'' \<and> st_mode out \<noteq> ''enforce''
            then (Some (''invalid MTA-STS mode '' @ go_quote (st_mode out)), out)
            else policy_mx entries out
        | _ \<Rightarrow> (Some ''MTA-STS policy must contain exactly one mode'', out0)))"

definition parse_mta_sts_policy :: "string \<Rightarrow> mta_sts_policy \<Rightarrow> string option \<times> mta_sts_policy" where
  "parse_mta_sts_policy body out =
     (if length body > max_mta_sts_policy_bytes
      then (Some (''MTA-STS policy exceeds '' @ show_nat max_mta_sts_policy_bytes @ '' bytes''), out)
      else (case policy_fields (split_on LF (replace_crlf [LF] body)) of
          Inl e \<Rightarrow> (Some e, out) | Inr entries \<Rightarrow> policy_mode entries out))"

definition check_mta_sts ::
  "bool \<Rightarrow> (string \<Rightarrow> txt_lookup) \<Rightarrow> (string \<Rightarrow> string + string) \<Rightarrow> string \<Rightarrow> mta_sts_policy" where
  "check_mta_sts enabled lookup fetch domain0 =
     (let domain = normalize_policy_domain domain0;
          out = \<lparr>st_result = PolicyNone, st_domain = domain, st_id = [], st_mode = [], st_mx = [], st_max_age = 0,
            st_dnssec = False, st_explanation = []\<rparr>
      in if domain = [] \<or> \<not> enabled
         then out\<lparr>st_result := PolicyTempError, st_explanation := ''no DNS resolver configured''\<rparr>
         else
           let answer = lookup (''_mta-sts.'' @ domain); out1 = out\<lparr>st_dnssec := tx_secure answer\<rparr> in
           if tx_error answer \<noteq> []
           then out1\<lparr>st_result := PolicyTempError, st_explanation := tx_error answer\<rparr>
           else (case policy_candidates ''v=stsv1'' (tx_records answer) of
               [] \<Rightarrow> out1\<lparr>st_explanation := ''no MTA-STS record published''\<rparr>
             | [rec] \<Rightarrow>
                 let tags = parse_policy_tags rec; out2 = out1\<lparr>st_id := trim_space (policy_tag tags ''id'')\<rparr> in
                 if \<not> equal_fold (policy_tag tags ''v'') ''STSv1'' \<or> st_id out2 = []
                 then out2\<lparr>st_result := PolicyPermError,
                        st_explanation := ''MTA-STS DNS record must contain v=STSv1 and a non-empty id=''\<rparr>
                 else (case fetch (''https://mta-sts.'' @ domain @ ''/.well-known/mta-sts.txt'') of
                     Inl e \<Rightarrow> out2\<lparr>st_result := PolicyTempError, st_explanation := ''MTA-STS policy fetch failed: '' @ e\<rparr>
                   | Inr body \<Rightarrow>
                       (case parse_mta_sts_policy body out2 of
                          (Some e, out3) \<Rightarrow> out3\<lparr>st_result := PolicyPermError, st_explanation := e\<rparr>
                        | (None, out3) \<Rightarrow> out3\<lparr>st_result := PolicyValid,
                            st_explanation := ''MTA-STS policy mode='' @ st_mode out3 @ '' covers '' @
                              show_nat (length (st_mx out3)) @ '' MX pattern(s)''\<rparr>))
             | _ \<Rightarrow> out1\<lparr>st_result := PolicyPermError, st_explanation := ''multiple MTA-STS records published''\<rparr>))"

definition pattern_allows :: "string \<Rightarrow> string \<Rightarrow> bool" where
  "pattern_allows host pattern0 =
     (let pattern = to_lower (trim_suffix pattern0 ''.'') in
      host = pattern \<or> has_prefix pattern ''*.'' \<and> has_suffix host (drop 1 pattern) \<and> host \<noteq> drop 2 pattern)"

definition allows_mx :: "mta_sts_policy \<Rightarrow> string \<Rightarrow> bool" where
  "allows_mx p host0 =
     (let host = normalize_policy_domain host0 in
      if st_result p \<noteq> PolicyValid \<or> host = [] then False else list_ex (pattern_allows host) (st_mx p))"

section \<open>Facts\<close>

lemma normalize_policy_domain_ok:
  assumes "normalize_policy_domain d \<noteq> []"
  shows "list_all label_ok (split_on CHR ''.'' (normalize_policy_domain d))" and "length (normalize_policy_domain d) \<le> 253"
  using assms by (auto simp: normalize_policy_domain_def Let_def split: if_splits)

text \<open>A wildcard covers every name below its base, at any depth.\<close>

lemma pattern_allows_wildcard:
  assumes "to_lower (trim_suffix pattern ''.'') = ''*.'' @ base" and "host \<noteq> ''*.'' @ base"
  shows "pattern_allows host pattern \<longleftrightarrow> (\<exists>labels. host = labels @ ''.'' @ base)"
  using assms by (auto simp: pattern_allows_def Let_def has_suffix_iff has_prefix_def)

lemma pattern_allows_exact:
  assumes "\<not> has_prefix (to_lower (trim_suffix pattern ''.'')) ''*.''"
  shows "pattern_allows host pattern \<longleftrightarrow> host = to_lower (trim_suffix pattern ''.'')"
  using assms by (simp add: pattern_allows_def Let_def)

lemma policy_max_age_ok:
  "policy_max_age entries out = (None, out') \<Longrightarrow> st_max_age out' \<ge> 0 \<and> st_mode out' = st_mode out \<and> st_mx out' = st_mx out"
  by (auto simp: policy_max_age_def split: list.splits option.splits if_splits)

lemma policy_mx_ok:
  assumes "policy_mx entries out = (None, out')"
  shows "st_max_age out' \<ge> 0 \<and> st_mode out' = st_mode out \<and> (st_mode out' \<noteq> ''none'' \<longrightarrow> st_mx out' \<noteq> []) \<and>
    (\<forall>p \<in> set (st_mx out'). \<not> bad_pattern p)"
proof -
  let ?out = "out\<lparr>st_mx := field_values entries ''mx''\<rparr>"
  from assms have m: "policy_max_age entries ?out = (None, out')" and
    b: "filter bad_pattern (field_values entries ''mx'') = []" and
    n: "st_mode out \<noteq> ''none'' \<longrightarrow> field_values entries ''mx'' \<noteq> []"
    by (auto simp: policy_mx_def Let_def split: if_splits list.splits)
  from policy_max_age_ok [OF m] b n show ?thesis by (auto simp: filter_empty_conv)
qed

lemma policy_mode_ok:
  assumes "policy_mode entries out = (None, out')"
  shows "st_max_age out' \<ge> 0 \<and> st_mode out' \<in> {''none'', ''testing'', ''enforce''} \<and>
    (st_mode out' \<noteq> ''none'' \<longrightarrow> st_mx out' \<noteq> []) \<and> (\<forall>p \<in> set (st_mx out'). \<not> bad_pattern p)"
proof -
  from assms obtain m where m: "field_values entries ''mode'' = [m]"
    by (auto simp: policy_mode_def split: if_splits list.splits)
  let ?out = "out\<lparr>st_mode := to_lower m\<rparr>"
  from assms m have k: "to_lower m = ''none'' \<or> to_lower m = ''testing'' \<or> to_lower m = ''enforce''"
    and x: "policy_mx entries ?out = (None, out')"
    by (auto simp: policy_mode_def Let_def split: if_splits)
  from policy_mx_ok [OF x] k show ?thesis by auto
qed

lemma parse_policy_ok:
  assumes "parse_mta_sts_policy body out = (None, out')"
  shows "length body \<le> 65536 \<and> st_max_age out' \<ge> 0 \<and> st_mode out' \<in> {''none'', ''testing'', ''enforce''} \<and>
    (st_mode out' \<noteq> ''none'' \<longrightarrow> st_mx out' \<noteq> []) \<and> (\<forall>p \<in> set (st_mx out'). \<not> bad_pattern p)"
proof -
  have len: "length body \<le> 65536" using assms by (auto simp: parse_mta_sts_policy_def max_mta_sts_policy_bytes_def split: if_splits)
  obtain entries where "policy_mode entries out = (None, out')"
    using assms by (auto simp: parse_mta_sts_policy_def split: if_splits sum.splits)
  from policy_mode_ok [OF this] len show ?thesis by blast
qed

lemma check_mta_sts_valid:
  assumes "st_result (check_mta_sts enabled lookup fetch domain) = PolicyValid"
  obtains body out out' where "fetch (''https://mta-sts.'' @ normalize_policy_domain domain @ ''/.well-known/mta-sts.txt'') = Inr body"
    "parse_mta_sts_policy body out = (None, out')"
    "st_mode (check_mta_sts enabled lookup fetch domain) = st_mode out'"
    "st_mx (check_mta_sts enabled lookup fetch domain) = st_mx out'"
    "st_max_age (check_mta_sts enabled lookup fetch domain) = st_max_age out'"
    "normalize_policy_domain domain \<noteq> []" "st_id (check_mta_sts enabled lookup fetch domain) = st_id out'"
  using assms that
  by (auto simp: check_mta_sts_def Let_def split: if_splits list.splits sum.splits prod.splits option.splits)

section \<open>What a valid policy allows\<close>

lemma pattern_allows_iff:
  "pattern_allows host pattern \<longleftrightarrow> host = to_lower (trim_suffix pattern ''.'') \<or>
     (\<exists>labels base. to_lower (trim_suffix pattern ''.'') = ''*.'' @ base \<and> host = labels @ ''.'' @ base)"
proof (cases "has_prefix (to_lower (trim_suffix pattern ''.'')) ''*.''")
  case True
  then obtain base where "to_lower (trim_suffix pattern ''.'') = ''*.'' @ base" by (auto simp: has_prefix_iff)
  then show ?thesis by (auto simp: pattern_allows_def Let_def has_suffix_iff has_prefix_def)
next
  case False
  then show ?thesis using pattern_allows_exact by (auto simp: has_prefix_def)
qed

lemma allows_mx_iff:
  "st_result p = PolicyValid \<Longrightarrow> allows_mx p host \<longleftrightarrow> normalize_policy_domain host \<noteq> [] \<and>
     (\<exists>pattern \<in> set (st_mx p). pattern_allows (normalize_policy_domain host) pattern)"
  by (simp add: allows_mx_def Let_def list_ex_iff)

text \<open>
  C24: An MTA-STS policy is valid only if it was fetched for the normalized domain in at most
  64 KiB, has one of the three modes, an \<^verbatim>\<open>mx\<close> entry unless the mode is \<^verbatim>\<open>none\<close>, only well-formed
  patterns and a non-negative age. It then allows exactly the hosts that equal a pattern or lie
  below the base of a wildcard. A defect is in the last part: the labels in front of the base
  are arbitrarily many, while RFC 8461 lets the wildcard stand for one label only.
\<close>

theorem sts_policy_exact:
  assumes "st_result (check_mta_sts enabled lookup fetch domain) = PolicyValid"
  shows "\<exists>body policy. policy = check_mta_sts enabled lookup fetch domain \<and>
    fetch (''https://mta-sts.'' @ normalize_policy_domain domain @ ''/.well-known/mta-sts.txt'') = Inr body \<and>
    length body \<le> 65536 \<and> normalize_policy_domain domain \<noteq> [] \<and>
    st_mode policy \<in> {''none'', ''testing'', ''enforce''} \<and> (st_mode policy \<noteq> ''none'' \<longrightarrow> st_mx policy \<noteq> []) \<and>
    (\<forall>pattern \<in> set (st_mx policy). \<not> bad_pattern pattern) \<and> 0 \<le> st_max_age policy \<and>
    (allows_mx policy host \<longleftrightarrow> normalize_policy_domain host \<noteq> [] \<and>
       (\<exists>pattern \<in> set (st_mx policy).
          normalize_policy_domain host = to_lower (trim_suffix pattern ''.'') \<or>
          (\<exists>labels base. to_lower (trim_suffix pattern ''.'') = ''*.'' @ base \<and>
             normalize_policy_domain host = labels @ ''.'' @ base)))"
proof -
  from check_mta_sts_valid [OF assms] obtain body out out' where
    f: "fetch (''https://mta-sts.'' @ normalize_policy_domain domain @ ''/.well-known/mta-sts.txt'') = Inr body"
    "parse_mta_sts_policy body out = (None, out')" "normalize_policy_domain domain \<noteq> []" and
    eq: "st_mode (check_mta_sts enabled lookup fetch domain) = st_mode out'"
    "st_mx (check_mta_sts enabled lookup fetch domain) = st_mx out'"
    "st_max_age (check_mta_sts enabled lookup fetch domain) = st_max_age out'" by blast
  note policy = parse_policy_ok [OF f(2), folded eq] and allowed = allows_mx_iff [OF assms, of host, unfolded pattern_allows_iff]
  show ?thesis
    by (intro exI [of _ body] exI [of _ "check_mta_sts enabled lookup fetch domain"] conjI allowed f(1,3) refl)
      (use policy in blast)+
qed

definition demo_sts_lookup :: "string \<Rightarrow> txt_lookup" where
  "demo_sts_lookup n = \<lparr>tx_name = n, tx_records = [''v=STSv1; id=20240101;''], tx_secure = True, tx_found = True, tx_error = []\<rparr>"

definition demo_sts_body :: string where
  "demo_sts_body = ''version: STSv1'' @ [LF] @ ''mode: enforce'' @ [LF] @ ''mx: *.a.test'' @ [LF] @ ''max_age: 86400'' @ [LF]"

theorem sts_policy_exact_witness:
  "allows_mx (check_mta_sts True demo_sts_lookup (\<lambda>_. Inr demo_sts_body) ''A.test.'') ''deep.below.a.test'' \<and>
   \<not> allows_mx (check_mta_sts True demo_sts_lookup (\<lambda>_. Inr demo_sts_body) ''A.test.'') ''a.test''"
proof -
  let ?p = "check_mta_sts True demo_sts_lookup (\<lambda>_. Inr demo_sts_body) ''A.test.''"
  have v: "st_result ?p = PolicyValid" "st_mx ?p = [''*.a.test'']" by code_simp+
  have n: "normalize_policy_domain ''deep.below.a.test'' = ''deep.below'' @ ''.'' @ ''a.test''"
    "normalize_policy_domain ''a.test'' = ''a.test''" "to_lower (trim_suffix ''*.a.test'' ''.'') = ''*.'' @ ''a.test''" by code_simp+
  have "allows_mx ?p ''deep.below.a.test''"
    using sts_policy_exact [OF v(1), of "''deep.below.a.test''"] n v(2) by auto
  moreover have "\<not> allows_mx ?p ''a.test''"
    using sts_policy_exact [OF v(1), of "''a.test''"] n v(2) by auto
  ultimately show ?thesis ..
qed

end
