(* ===== verification/DnsCache.thy ===== *)
theory DnsCache
  imports Dane Transport
begin

text \<open>
  The caching resolver, \<^verbatim>\<open>pkg/dnsx/resolver.go\<close>, over a backend of \<^verbatim>\<open>pkg/dnsx/backend.go\<close>. The
  network is a parameter: \<open>dns_backend\<close> holds the answers of \<^verbatim>\<open>Backend\<close> (\<^const>\<open>None\<close> for an error),
  \<open>dns_exchange\<close> those of \<^verbatim>\<open>Client.Exchange\<close> of \<^verbatim>\<open>github.com/miekg/dns\<close> over UDP and TCP. The clock is
  read twice by a lookup, when it consults the cache and when it stores an answer; both readings
  are arguments, in nanoseconds; the TXT query that \<^verbatim>\<open>CheckRBL\<close> makes for the comment of a listing takes
  the two readings of the query it is part of. A nil resolver is \<^const>\<open>None\<close>; a failing type assertion on a
  cached value, which would panic, is the outer \<^const>\<open>None\<close> of a step. The mutex makes get and put
  atomic; the test hook \<^verbatim>\<open>staticTLSA\<close> is left out.
\<close>

record rbl_result =
  rb_zone :: string
  rb_listed :: bool
  rb_codes :: "string list"
  rb_comment :: string

datatype cached = CStrings "string list" | CRbl rbl_result | CTlsa tlsa_lookup | CTxt txt_lookup

record resolver =
  rs_ttl :: int
  rs_rbls :: "string list"
  rs_cache :: "string \<rightharpoonup> cached \<times> int"
  rs_lookups :: nat
  rs_hits :: nat

record dns_backend =
  bk_host :: "string \<Rightarrow> string list option"
  bk_mx :: "string \<Rightarrow> string list option"
  bk_txt :: "string \<Rightarrow> string list option"
  bk_ptr :: "string \<Rightarrow> string list option"

text \<open>The clock at the two readings.\<close>

type_synonym clock = "int \<times> int"

definition default_rbls :: "string list" where
  "default_rbls = [''zen.spamhaus.org'', ''bl.spamcop.net'', ''b.barracudacentral.org'']"

definition new_resolver :: resolver where
  "new_resolver = \<lparr>rs_ttl = 300000000000, rs_rbls = default_rbls, rs_cache = (\<lambda>_. None), rs_lookups = 0, rs_hits = 0\<rparr>"

definition with_cache_ttl :: "int \<Rightarrow> resolver \<Rightarrow> resolver" where
  "with_cache_ttl d r = (if d > 0 then r\<lparr>rs_ttl := d\<rparr> else r)"

definition with_rbls :: "string list \<Rightarrow> resolver \<Rightarrow> resolver" where
  "with_rbls zones r = (if zones \<noteq> [] then r\<lparr>rs_rbls := zones\<rparr> else r)"

definition resolver_stats :: "resolver option \<Rightarrow> nat \<times> nat" where
  "resolver_stats r = (case r of None \<Rightarrow> (0, 0) | Some r \<Rightarrow> (rs_lookups r, rs_hits r))"

section \<open>The cache\<close>

definition cache_get :: "string \<Rightarrow> int \<Rightarrow> resolver \<Rightarrow> cached option \<times> resolver" where
  "cache_get key now r =
     (case rs_cache r key of
        None \<Rightarrow> (None, r)
      | Some (v, expires) \<Rightarrow> if now > expires then (None, r) else (Some v, r\<lparr>rs_hits := rs_hits r + 1\<rparr>))"

definition cache_put :: "string \<Rightarrow> cached \<Rightarrow> int \<Rightarrow> resolver \<Rightarrow> resolver" where
  "cache_put key v now r = r\<lparr>rs_cache := (rs_cache r)(key \<mapsto> (v, now + rs_ttl r)), rs_lookups := rs_lookups r + 1\<rparr>"

type_synonym 'a lookup_step = "('a \<times> resolver) option"

text \<open>The type assertions \<^verbatim>\<open>v.([]string)\<close>, \<^verbatim>\<open>v.(RBLResult)\<close>, \<^verbatim>\<open>v.(TLSAResult)\<close> and \<^verbatim>\<open>v.(TXTResult)\<close>.\<close>

fun as_strings :: "cached \<Rightarrow> string list option" where
  "as_strings (CStrings xs) = Some xs" | "as_strings _ = None"

fun as_rbl :: "cached \<Rightarrow> rbl_result option" where
  "as_rbl (CRbl x) = Some x" | "as_rbl _ = None"

fun as_tlsa :: "cached \<Rightarrow> tlsa_lookup option" where
  "as_tlsa (CTlsa x) = Some x" | "as_tlsa _ = None"

fun as_txt :: "cached \<Rightarrow> txt_lookup option" where
  "as_txt (CTxt x) = Some x" | "as_txt _ = None"

text \<open>A lookup through the cache: a hit, or the query, which is stored whatever it found.\<close>

definition through_cache ::
  "(cached \<Rightarrow> 'a option) \<Rightarrow> ('a \<Rightarrow> cached) \<Rightarrow> string \<Rightarrow> clock \<Rightarrow> (resolver \<Rightarrow> 'a lookup_step) \<Rightarrow> resolver \<Rightarrow> 'a lookup_step" where
  "through_cache unwrap wrap key clock query_net r =
     (case cache_get key (fst clock) r of
        (Some v, r1) \<Rightarrow> map_option (\<lambda>x. (x, r1)) (unwrap v)
      | (None, r1) \<Rightarrow>
          (case query_net r1 of
             None \<Rightarrow> None | Some (x, r2) \<Rightarrow> Some (x, cache_put key (wrap x) (snd clock) r2)))"

definition answer_or_nil :: "string list option \<Rightarrow> string list" where
  "answer_or_nil a = (case a of None \<Rightarrow> [] | Some xs \<Rightarrow> xs)"

definition lift_nil :: "'a \<Rightarrow> bool \<Rightarrow> (resolver \<Rightarrow> 'a lookup_step) \<Rightarrow> resolver option \<Rightarrow> ('a \<times> resolver option) option" where
  "lift_nil dflt skip step r =
     (case r of
        None \<Rightarrow> Some (dflt, None)
      | Some r1 \<Rightarrow> if skip then Some (dflt, Some r1)
          else (case step r1 of None \<Rightarrow> None | Some (x, r2) \<Rightarrow> Some (x, Some r2)))"

section \<open>Names and addresses\<close>

definition host_answer :: "dns_backend \<Rightarrow> string \<Rightarrow> string list" where
  "host_answer b host = sort (answer_or_nil (bk_host b host))"

definition ptr_answer :: "dns_backend \<Rightarrow> string \<Rightarrow> string list" where
  "ptr_answer b ip = map (\<lambda>n. trim_suffix n ''.'') (answer_or_nil (bk_ptr b ip))"

definition host_step :: "dns_backend \<Rightarrow> clock \<Rightarrow> string \<Rightarrow> resolver \<Rightarrow> string list lookup_step" where
  "host_step b clock host =
     through_cache as_strings CStrings (''host:'' @ to_lower host) clock (\<lambda>r. Some (host_answer b host, r))"

definition mx_step :: "dns_backend \<Rightarrow> clock \<Rightarrow> string \<Rightarrow> resolver \<Rightarrow> string list lookup_step" where
  "mx_step b clock domain =
     through_cache as_strings CStrings (''mx:'' @ to_lower domain) clock (\<lambda>r. Some (answer_or_nil (bk_mx b domain), r))"

definition txt_step :: "dns_backend \<Rightarrow> clock \<Rightarrow> string \<Rightarrow> resolver \<Rightarrow> string list lookup_step" where
  "txt_step b clock name =
     through_cache as_strings CStrings (''txt:'' @ to_lower name) clock (\<lambda>r. Some (answer_or_nil (bk_txt b name), r))"

definition ptr_step :: "dns_backend \<Rightarrow> clock \<Rightarrow> string \<Rightarrow> resolver \<Rightarrow> string list lookup_step" where
  "ptr_step b clock ip =
     through_cache as_strings CStrings (''ptr:'' @ ip) clock (\<lambda>r. Some (ptr_answer b ip, r))"

definition lookup_host :: "dns_backend \<Rightarrow> clock \<Rightarrow> string \<Rightarrow> resolver option \<Rightarrow> (string list \<times> resolver option) option" where
  "lookup_host b clock host = lift_nil [] (host = []) (host_step b clock host)"

definition lookup_mx :: "dns_backend \<Rightarrow> clock \<Rightarrow> string \<Rightarrow> resolver option \<Rightarrow> (string list \<times> resolver option) option" where
  "lookup_mx b clock domain = lift_nil [] (domain = []) (mx_step b clock domain)"

definition lookup_txt :: "dns_backend \<Rightarrow> clock \<Rightarrow> string \<Rightarrow> resolver option \<Rightarrow> (string list \<times> resolver option) option" where
  "lookup_txt b clock name = lift_nil [] (name = []) (txt_step b clock name)"

definition lookup_ptr :: "dns_backend \<Rightarrow> clock \<Rightarrow> string \<Rightarrow> resolver option \<Rightarrow> (string list \<times> resolver option) option" where
  "lookup_ptr b clock ip = lift_nil [] (ip = []) (ptr_step b clock ip)"

definition has_mx :: "dns_backend \<Rightarrow> clock \<Rightarrow> string \<Rightarrow> resolver option \<Rightarrow> (bool \<times> resolver option) option" where
  "has_mx b clock domain r = map_option (map_prod (\<lambda>hosts. hosts \<noteq> []) id) (lookup_mx b clock domain r)"

section \<open>Block lists\<close>

definition reverse_ip_for_dnsbl :: "string \<Rightarrow> string" where
  "reverse_ip_for_dnsbl ip =
     (case parse_ip ip of
        None \<Rightarrow> []
      | Some a \<Rightarrow> if is_v4 a then join ''.'' (rev (map show_nat (v4_octets a)))
          else join ''.'' (rev (map (\<lambda>c. [c]) (ip_nibbles a))))"

definition rbl_name :: "string \<Rightarrow> string \<Rightarrow> string" where
  "rbl_name ip zone = reverse_ip_for_dnsbl ip @ ''.'' @ trim_suffix zone ''.''"

definition rbl_query :: "dns_backend \<Rightarrow> clock \<Rightarrow> string \<Rightarrow> string \<Rightarrow> resolver \<Rightarrow> rbl_result lookup_step" where
  "rbl_query b clock zone name r =
     (let result = \<lparr>rb_zone = zone, rb_listed = False, rb_codes = [], rb_comment = []\<rparr> in
      case bk_host b name of
        Some (a # addrs) \<Rightarrow>
          (case txt_step b clock name r of
             None \<Rightarrow> None
           | Some (txts, r1) \<Rightarrow> Some (result\<lparr>rb_listed := True, rb_codes := a # addrs,
               rb_comment := (case txts of [] \<Rightarrow> [] | t # _ \<Rightarrow> t)\<rparr>, r1))
      | _ \<Rightarrow> Some (result, r))"

definition check_rbl ::
  "dns_backend \<Rightarrow> clock \<Rightarrow> string \<Rightarrow> string \<Rightarrow> resolver option \<Rightarrow> (rbl_result \<times> resolver option) option" where
  "check_rbl b clock ip zone =
     lift_nil \<lparr>rb_zone = zone, rb_listed = False, rb_codes = [], rb_comment = []\<rparr>
       (ip = [] \<or> zone = [] \<or> reverse_ip_for_dnsbl ip = [])
       (through_cache as_rbl CRbl (''rbl:'' @ rbl_name ip zone) clock (rbl_query b clock zone (rbl_name ip zone)))"

fun check_zones ::
  "dns_backend \<Rightarrow> clock \<Rightarrow> string \<Rightarrow> string list \<Rightarrow> resolver option \<Rightarrow> (rbl_result list \<times> resolver option) option" where
  "check_zones b clock ip [] r = Some ([], r)"
| "check_zones b clock ip (zone # zones) r =
     (case check_rbl b clock ip zone r of
        None \<Rightarrow> None
      | Some (res, r1) \<Rightarrow> map_option (map_prod (Cons res) id) (check_zones b clock ip zones r1))"

definition check_rbls ::
  "dns_backend \<Rightarrow> clock \<Rightarrow> string \<Rightarrow> resolver option \<Rightarrow> ((bool \<times> rbl_result list) \<times> resolver option) option" where
  "check_rbls b clock ip r =
     (case r of
        None \<Rightarrow> Some ((False, []), None)
      | Some r1 \<Rightarrow> map_option (map_prod (\<lambda>results. (list_ex rb_listed results, results)) id)
          (check_zones b clock ip (rs_rbls r1) (Some r1)))"

definition resolver_zones :: "resolver option \<Rightarrow> string list" where
  "resolver_zones r = (case r of None \<Rightarrow> [] | Some r1 \<Rightarrow> rs_rbls r1)"

section \<open>Raw queries\<close>

datatype dns_answer = TlsaAnswer tlsa_record | TxtAnswer "string list" | OtherAnswer

record dns_response =
  rp_truncated :: bool
  rp_authenticated :: bool
  rp_answers :: "dns_answer list"

text \<open>\<open>exchange tcp name\<close>: the error text or the response.\<close>

type_synonym dns_exchange = "bool \<Rightarrow> string \<Rightarrow> string + dns_response"

fun tlsa_of :: "dns_answer \<Rightarrow> tlsa_record list" where
  "tlsa_of (TlsaAnswer t) = [t\<lparr>tl_certificate := to_lower (tl_certificate t)\<rparr>]" | "tlsa_of _ = []"

fun txt_of :: "dns_answer \<Rightarrow> string list" where
  "txt_of (TxtAnswer parts) = [concat parts]" | "txt_of _ = []"

definition tlsa_name :: "string \<Rightarrow> int \<Rightarrow> string" where
  "tlsa_name host port = ''_'' @ show_int port @ ''._tcp.'' @ trim_suffix host ''.''"

text \<open>An error over UDP is retried over TCP, and so is a truncated response.\<close>

definition tlsa_exchange :: "dns_exchange \<Rightarrow> string \<Rightarrow> string + dns_response" where
  "tlsa_exchange exchange name =
     (case (case exchange False name of Inl e \<Rightarrow> exchange True name | Inr p \<Rightarrow> Inr p) of
        Inl e \<Rightarrow> Inl e
      | Inr p \<Rightarrow> if rp_truncated p then (case exchange True name of Inl e \<Rightarrow> Inr p | Inr q \<Rightarrow> Inr q) else Inr p)"

definition tlsa_query :: "dns_exchange \<Rightarrow> string \<Rightarrow> tlsa_lookup" where
  "tlsa_query exchange name =
     (case tlsa_exchange exchange name of
        Inl e \<Rightarrow> \<lparr>lk_name = name, lk_records = [], lk_secure = False, lk_found = False, lk_error = e\<rparr>
      | Inr p \<Rightarrow>
          let records = concat (map tlsa_of (rp_answers p)) in
          \<lparr>lk_name = name, lk_records = records, lk_secure = rp_authenticated p, lk_found = records \<noteq> [], lk_error = []\<rparr>)"

definition lookup_tlsa ::
  "dns_exchange \<Rightarrow> clock \<Rightarrow> string \<Rightarrow> int \<Rightarrow> resolver option \<Rightarrow> (tlsa_lookup \<times> resolver option) option" where
  "lookup_tlsa exchange clock host port =
     (let name = tlsa_name host port in
      lift_nil \<lparr>lk_name = name, lk_records = [], lk_secure = False, lk_found = False, lk_error = ''resolver disabled''\<rparr>
        (host = [])
        (through_cache as_tlsa CTlsa (''tlsa:'' @ name) clock (\<lambda>r. Some (tlsa_query exchange name, r))))"

text \<open>Here only a truncated response is retried.\<close>

definition txt_query :: "dns_exchange \<Rightarrow> string \<Rightarrow> txt_lookup" where
  "txt_query exchange name =
     (case (case exchange False name of
              Inl e \<Rightarrow> Inl e | Inr p \<Rightarrow> if rp_truncated p then exchange True name else Inr p) of
        Inl e \<Rightarrow> \<lparr>tx_name = name, tx_records = [], tx_secure = False, tx_found = False, tx_error = e\<rparr>
      | Inr p \<Rightarrow>
          let records = concat (map txt_of (rp_answers p)) in
          \<lparr>tx_name = name, tx_records = records, tx_secure = rp_authenticated p, tx_found = records \<noteq> [], tx_error = []\<rparr>)"

definition lookup_txt_authenticated ::
  "dns_exchange \<Rightarrow> clock \<Rightarrow> string \<Rightarrow> resolver option \<Rightarrow> (txt_lookup \<times> resolver option) option" where
  "lookup_txt_authenticated exchange clock name0 =
     (let name = trim_suffix (trim_space name0) ''.'' in
      lift_nil \<lparr>tx_name = name, tx_records = [], tx_secure = False, tx_found = False, tx_error = ''resolver disabled''\<rparr> (name = [])
        (through_cache as_txt CTxt (''txt-auth:'' @ to_lower name) clock (\<lambda>r. Some (txt_query exchange name, r))))"

section \<open>Private addresses\<close>

definition v4_number :: "ip_addr \<Rightarrow> nat" where
  "v4_number a = unat (take_bit 32 a)"

definition is_private_ip :: "string \<Rightarrow> bool" where
  "is_private_ip ip =
     (case parse_ip ip of
        None \<Rightarrow> False
      | Some a \<Rightarrow>
          if is_v4 a then
            (let n = v4_number a in
             n div 2 ^ 24 = 127 \<or> n div 2 ^ 24 = 10 \<or> n div 2 ^ 20 = 0xAC1 \<or> n div 2 ^ 16 = 0xC0A8 \<or>
             n div 2 ^ 16 = 0xA9FE \<or> n div 2 ^ 8 = 0xE00000 \<or> n = 0)
          else
            (let n = unat a in
             n = 1 \<or> n div 2 ^ 121 = 0x7E \<or> n div 2 ^ 118 = 0x3FA \<or>
             n div 2 ^ 120 = 0xFF \<and> n div 2 ^ 112 mod 16 = 2 \<or> n = 0))"

section \<open>The in-memory backend\<close>

text \<open>
  \<^verbatim>\<open>StaticBackend\<close> as a function of its zone. The code hands out the slices of the zone itself, and the
  resolver trims the final dot of PTR names and sorts the codes of a listing in them in place; later answers of the code then
  carry the trimmed names and the sorted codes. The definition keeps the zone as it was given, which differs for
  names that end in several dots and for codes given out of order only.
\<close>

record static_zone =
  sz_hosts :: "string \<rightharpoonup> string list"
  sz_mx :: "string \<rightharpoonup> string list"
  sz_txt :: "string \<rightharpoonup> string list"
  sz_ptr :: "string \<rightharpoonup> string list"

definition static_lookup :: "(string \<rightharpoonup> string list) \<Rightarrow> string \<Rightarrow> string list option" where
  "static_lookup table name = Some (answer_or_nil (table (to_lower (trim_suffix name ''.''))))"

definition static_backend :: "static_zone \<Rightarrow> dns_backend" where
  "static_backend z = \<lparr>bk_host = static_lookup (sz_hosts z), bk_mx = static_lookup (sz_mx z),
     bk_txt = static_lookup (sz_txt z), bk_ptr = static_lookup (sz_ptr z)\<rparr>"

end
