(* ===== verification/DnsCacheProps.thy ===== *)
theory DnsCacheProps
  imports DnsCache
begin

text \<open>
  The cache of the resolver is safe: the kinds of entries never mix, an answer is never older than
  the time to live, and over a backend whose answers do not change the cached resolver gives
  the answers of the backend. The last fact is proved for every backend with the laws of the
  locale \<open>stable_backend\<close>, which the in-memory backend has.
\<close>

section \<open>Kinds of entries\<close>

text \<open>The text before the colon of a cache key tells what is stored under it.\<close>

definition key_kind :: "string \<Rightarrow> string" where
  "key_kind key = takeWhile (\<lambda>c. c \<noteq> CHR '':'') key"

definition well_kinded :: "string \<Rightarrow> cached \<Rightarrow> bool" where
  "well_kinded key v \<longleftrightarrow>
     (case v of
        CStrings _ \<Rightarrow> key_kind key \<in> {''host'', ''mx'', ''txt'', ''ptr''}
      | CRbl _ \<Rightarrow> key_kind key = ''rbl''
      | CTlsa _ \<Rightarrow> key_kind key = ''tlsa''
      | CTxt _ \<Rightarrow> key_kind key = ''txt-auth'')"

definition cache_ok :: "resolver \<Rightarrow> bool" where
  "cache_ok r \<longleftrightarrow> (\<forall>key v e. rs_cache r key = Some (v, e) \<longrightarrow> well_kinded key v)"

lemma key_kind_Cons [simp]: "key_kind (c # s) = (if c = CHR '':'' then [] else c # key_kind s)"
  by (simp add: key_kind_def)

text \<open>A step neither panics nor breaks the invariant.\<close>

definition good_step :: "(resolver \<Rightarrow> 'a lookup_step) \<Rightarrow> bool" where
  "good_step step \<longleftrightarrow> (\<forall>r. cache_ok r \<longrightarrow> (\<exists>x r'. step r = Some (x, r') \<and> cache_ok r'))"

lemma cache_ok_put: "cache_ok r \<Longrightarrow> well_kinded key v \<Longrightarrow> cache_ok (cache_put key v now r)"
  by (simp add: cache_ok_def cache_put_def)

lemma cache_get_ok:
  assumes "cache_ok r" and "cache_get key now r = (v, r')"
  shows "cache_ok r'" and "v = Some x \<Longrightarrow> well_kinded key x"
  using assms by (auto simp: cache_get_def cache_ok_def split: option.splits if_splits)

lemma good_through_cache:
  assumes "\<And>v. well_kinded key v \<Longrightarrow> unwrap v \<noteq> None" and "\<And>x. well_kinded key (wrap x)" and "good_step query_net"
  shows "good_step (through_cache unwrap wrap key clock query_net)"
  unfolding good_step_def
proof (intro allI impI)
  fix r assume r: "cache_ok r"
  obtain v r1 where g: "cache_get key (fst clock) r = (v, r1)" by (cases "cache_get key (fst clock) r")
  note ok = cache_get_ok [OF r g]
  show "\<exists>x r'. through_cache unwrap wrap key clock query_net r = Some (x, r') \<and> cache_ok r'"
  proof (cases v)
    case None
    from assms(3) ok(1) obtain x r2 where "query_net r1 = Some (x, r2)" "cache_ok r2" by (auto simp: good_step_def)
    with None g assms(2) show ?thesis by (simp add: through_cache_def cache_ok_put)
  next
    case (Some y)
    with ok(2) assms(1) obtain x where "unwrap y = Some x" by blast
    with Some g ok(1) show ?thesis by (simp add: through_cache_def)
  qed
qed

lemma good_pure: "good_step (\<lambda>r. Some (x, r))"
  by (simp add: good_step_def)

lemma good_strings:
  "key_kind key \<in> {''host'', ''mx'', ''txt'', ''ptr''} \<Longrightarrow> good_step (through_cache as_strings CStrings key clock (\<lambda>r. Some (x, r)))"
  by (rule good_through_cache [OF _ _ good_pure]) (auto simp: well_kinded_def split: cached.splits)

lemma good_steps:
  "good_step (host_step b clock h)" "good_step (mx_step b clock h)" "good_step (txt_step b clock h)" "good_step (ptr_step b clock h)"
  by (simp_all add: host_step_def mx_step_def txt_step_def ptr_step_def good_strings)

lemma good_rbl: "good_step (through_cache as_rbl CRbl (''rbl:'' @ n) clock (rbl_query b clock zone n))"
proof (rule good_through_cache)
  show "good_step (rbl_query b clock zone n)"
    using good_steps(3) [of b clock n]
    by (fastforce simp: good_step_def rbl_query_def Let_def split: option.split list.split)
qed (auto simp: well_kinded_def split: cached.splits)

lemma good_tlsa: "good_step (through_cache as_tlsa CTlsa (''tlsa:'' @ n) clock (\<lambda>r. Some (x, r)))"
  by (rule good_through_cache [OF _ _ good_pure]) (auto simp: well_kinded_def split: cached.splits)

lemma good_txt: "good_step (through_cache as_txt CTxt (''txt-auth:'' @ n) clock (\<lambda>r. Some (x, r)))"
  by (rule good_through_cache [OF _ _ good_pure]) (auto simp: well_kinded_def split: cached.splits)

definition state_ok :: "resolver option \<Rightarrow> bool" where
  "state_ok r \<longleftrightarrow> (case r of None \<Rightarrow> True | Some r1 \<Rightarrow> cache_ok r1)"

lemma good_lift:
  assumes "good_step step" and "state_ok r"
  shows "\<exists>x r'. lift_nil dflt skip step r = Some (x, r') \<and> state_ok r'"
proof (cases r)
  case (Some r1)
  with assms obtain x r2 where "step r1 = Some (x, r2)" "cache_ok r2" by (auto simp: good_step_def state_ok_def)
  with Some assms(2) show ?thesis by (simp add: lift_nil_def state_ok_def)
qed (simp add: lift_nil_def state_ok_def)

lemma good_check_rbl: "state_ok r \<Longrightarrow> \<exists>x r'. check_rbl b clock ip zone r = Some (x, r') \<and> state_ok r'"
  unfolding check_rbl_def by (rule good_lift [OF good_rbl])

lemma good_check_zones: "state_ok r \<Longrightarrow> \<exists>x r'. check_zones b clock ip zones r = Some (x, r') \<and> state_ok r'"
proof (induction zones arbitrary: r)
  case (Cons z zs)
  from good_check_rbl [OF Cons.prems] obtain x r1 where "check_rbl b clock ip z r = Some (x, r1)" "state_ok r1" by blast
  with Cons.IH [of r1] show ?case by auto
qed simp

text \<open>The operations of the resolver, in any order, with any answers of the network.\<close>

datatype resolver_call =
  CallHost dns_backend clock string | CallMx dns_backend clock string | CallTxt dns_backend clock string
| CallPtr dns_backend clock string | CallHasMx dns_backend clock string | CallRbls dns_backend clock string
| CallTlsa dns_exchange clock string int | CallTxtAuth dns_exchange clock string

fun call :: "resolver_call \<Rightarrow> resolver option \<Rightarrow> resolver option option" where
  "call (CallHost b t n) r = map_option snd (lookup_host b t n r)"
| "call (CallMx b t n) r = map_option snd (lookup_mx b t n r)"
| "call (CallTxt b t n) r = map_option snd (lookup_txt b t n r)"
| "call (CallPtr b t n) r = map_option snd (lookup_ptr b t n r)"
| "call (CallHasMx b t n) r = map_option snd (has_mx b t n r)"
| "call (CallRbls b t n) r = map_option snd (check_rbls b t n r)"
| "call (CallTlsa x t n p) r = map_option snd (lookup_tlsa x t n p r)"
| "call (CallTxtAuth x t n) r = map_option snd (lookup_txt_authenticated x t n r)"

fun calls :: "resolver_call list \<Rightarrow> resolver option \<Rightarrow> resolver option option" where
  "calls [] r = Some r"
| "calls (c # cs) r = (case call c r of None \<Rightarrow> None | Some r1 \<Rightarrow> calls cs r1)"

lemma good_call: "state_ok r \<Longrightarrow> \<exists>r'. call c r = Some r' \<and> state_ok r'"
proof (cases c)
  case (CallRbls b t n)
  assume "state_ok r"
  with good_check_zones [of r b t n] CallRbls show ?thesis
    by (cases r) (fastforce simp: check_rbls_def state_ok_def)+
next
  case (CallHasMx b t n)
  assume "state_ok r"
  from good_lift [OF good_steps(2) this] CallHasMx show ?thesis by (fastforce simp: has_mx_def lookup_mx_def)
next
  case (CallTlsa x t n p)
  assume "state_ok r"
  from good_lift [OF good_tlsa this] CallTlsa show ?thesis by (fastforce simp: lookup_tlsa_def Let_def)
next
  case (CallTxtAuth x t n)
  assume "state_ok r"
  from good_lift [OF good_txt this] CallTxtAuth show ?thesis by (fastforce simp: lookup_txt_authenticated_def Let_def)
qed (use good_lift [OF good_steps(1)] good_lift [OF good_steps(2)] good_lift [OF good_steps(3)] good_lift [OF good_steps(4)] in
  \<open>fastforce simp: lookup_host_def lookup_mx_def lookup_txt_def lookup_ptr_def\<close>)+

lemma good_calls: "state_ok r \<Longrightarrow> \<exists>r'. calls cs r = Some r' \<and> state_ok r'"
proof (induction cs arbitrary: r)
  case (Cons c cs)
  from good_call [OF Cons.prems, of c] obtain r1 where "call c r = Some r1" "state_ok r1" by blast
  with Cons.IH show ?case by simp
qed simp

lemma cache_ok_new: "cache_ok (with_rbls zones (with_cache_ttl d new_resolver))"
  by (simp add: cache_ok_def with_rbls_def with_cache_ttl_def new_resolver_def)

text \<open>A nil resolver stays nil, and no other becomes nil.\<close>

lemma lift_nil_nil: "lift_nil dflt skip step r = Some (x, r') \<Longrightarrow> (r = None) = (r' = None)"
  by (auto simp: lift_nil_def split: option.splits if_splits)

lemma check_zones_nil: "check_zones b clock ip zones r = Some (x, r') \<Longrightarrow> (r = None) = (r' = None)"
proof (induction zones arbitrary: r x)
  case (Cons z zs)
  then obtain y r1 x1 where z: "check_rbl b clock ip z r = Some (y, r1)" "check_zones b clock ip zs r1 = Some (x1, r')"
    by (auto split: option.splits)
  show ?case using lift_nil_nil [OF z(1) [unfolded check_rbl_def]] Cons.IH [OF z(2)] by simp
qed simp

lemma lookup_nil:
  "lookup_host b t n r = Some (x, r') \<Longrightarrow> (r = None) = (r' = None)"
  "lookup_mx b t n r = Some (x, r') \<Longrightarrow> (r = None) = (r' = None)"
  "lookup_txt b t n r = Some (x, r') \<Longrightarrow> (r = None) = (r' = None)"
  "lookup_ptr b t n r = Some (x, r') \<Longrightarrow> (r = None) = (r' = None)"
  "lookup_tlsa e t n p r = Some (y, r') \<Longrightarrow> (r = None) = (r' = None)"
  "lookup_txt_authenticated e t n r = Some (z, r') \<Longrightarrow> (r = None) = (r' = None)"
  unfolding lookup_host_def lookup_mx_def lookup_txt_def lookup_ptr_def lookup_tlsa_def lookup_txt_authenticated_def Let_def
  by (erule lift_nil_nil)+

lemma map_snd_Some: "map_option snd m = Some r' \<Longrightarrow> \<exists>x. m = Some (x, r')"
  by (cases m) auto

lemma call_nil: "call c r = Some r' \<Longrightarrow> (r = None) = (r' = None)"
proof (cases c)
  case (CallHasMx b t n)
  assume "call c r = Some r'"
  with CallHasMx obtain x where "lookup_mx b t n r = Some (x, r')" by (auto simp: has_mx_def)
  then show ?thesis unfolding lookup_mx_def by (rule lift_nil_nil)
next
  case (CallRbls b t n)
  assume a: "call c r = Some r'"
  show ?thesis
  proof (cases r)
    case (Some r1)
    with a CallRbls obtain x where "check_zones b t n (rs_rbls r1) (Some r1) = Some (x, r')" by (auto simp: check_rbls_def)
    from check_zones_nil [OF this] Some show ?thesis by simp
  qed (use a CallRbls in \<open>simp add: check_rbls_def\<close>)
qed (simp_all only: call.simps, (drule map_snd_Some, erule exE, erule lookup_nil)+)

lemma calls_nil: "calls cs r = Some r' \<Longrightarrow> (r = None) = (r' = None)"
proof (induction cs arbitrary: r)
  case (Cons c cs)
  from Cons.prems obtain r1 where "call c r = Some r1" "calls cs r1 = Some r'" by (auto split: option.splits)
  with call_nil Cons.IH show ?case by blast
qed simp

text \<open>
  C25: A resolver, nil or created with any options, survives every sequence of lookups with any
  answers of the network: each returns, because an entry of the cache always has the type that
  the operation which finds it expects.
\<close>

theorem resolver_never_panics:
  "\<exists>r. calls cs (Some (with_rbls zones (with_cache_ttl d new_resolver))) = Some (Some r) \<and> cache_ok r \<and>
     calls cs None = Some None"
proof -
  have "state_ok (Some (with_rbls zones (with_cache_ttl d new_resolver)))" by (simp add: state_ok_def cache_ok_new)
  from good_calls [OF this, of cs] obtain r' where
    r': "calls cs (Some (with_rbls zones (with_cache_ttl d new_resolver))) = Some r'" "state_ok r'" by blast
  moreover from good_calls [of None cs] obtain r2 where r2: "calls cs None = Some r2" by (auto simp: state_ok_def)
  ultimately show ?thesis using calls_nil [OF r'(1)] calls_nil [OF r2] by (auto simp: state_ok_def)
qed

section \<open>Age of the answers\<close>

datatype name_query = HostQuery string | MxQuery string | TxtQuery string | PtrQuery string

fun query_name :: "name_query \<Rightarrow> string" where
  "query_name (HostQuery n) = n" | "query_name (MxQuery n) = n" | "query_name (TxtQuery n) = n" | "query_name (PtrQuery n) = n"

fun query_key :: "name_query \<Rightarrow> string" where
  "query_key (HostQuery n) = ''host:'' @ to_lower n" | "query_key (MxQuery n) = ''mx:'' @ to_lower n"
| "query_key (TxtQuery n) = ''txt:'' @ to_lower n" | "query_key (PtrQuery n) = ''ptr:'' @ n"

text \<open>What the backend answers, without a cache.\<close>

fun backend_answer :: "dns_backend \<Rightarrow> name_query \<Rightarrow> string list" where
  "backend_answer b (HostQuery n) = host_answer b n" | "backend_answer b (MxQuery n) = answer_or_nil (bk_mx b n)"
| "backend_answer b (TxtQuery n) = answer_or_nil (bk_txt b n)" | "backend_answer b (PtrQuery n) = ptr_answer b n"

definition direct_answer :: "dns_backend \<Rightarrow> name_query \<Rightarrow> string list" where
  "direct_answer b q = (if query_name q = [] then [] else backend_answer b q)"

fun ask :: "dns_backend \<Rightarrow> clock \<Rightarrow> name_query \<Rightarrow> resolver option \<Rightarrow> (string list \<times> resolver option) option" where
  "ask b t (HostQuery n) r = lookup_host b t n r" | "ask b t (MxQuery n) r = lookup_mx b t n r"
| "ask b t (TxtQuery n) r = lookup_txt b t n r" | "ask b t (PtrQuery n) r = lookup_ptr b t n r"

text \<open>A history of lookups: the backend as it was at each, the clock and the question.\<close>

type_synonym lookup_event = "dns_backend \<times> clock \<times> name_query"

fun ask_all :: "lookup_event list \<Rightarrow> resolver option \<Rightarrow> (string list list \<times> resolver option) option" where
  "ask_all [] r = Some ([], r)"
| "ask_all ((b, t, q) # es) r =
     (case ask b t q r of
        None \<Rightarrow> None
      | Some (x, r1) \<Rightarrow> (case ask_all es r1 of None \<Rightarrow> None | Some (xs, r2) \<Rightarrow> Some (x # xs, r2)))"

lemma ask_unfold:
  "ask b t q (Some r) =
     (if query_name q = [] then Some ([], Some r)
      else map_option (map_prod id Some)
        (through_cache as_strings CStrings (query_key q) t (\<lambda>r. Some (backend_answer b q, r)) r))"
  by (cases q) (auto simp: lookup_host_def lookup_mx_def lookup_txt_def lookup_ptr_def lift_nil_def
      host_step_def mx_step_def txt_step_def ptr_step_def split: option.split)

text \<open>\<open>backed past ttl r\<close>: every entry for a name is an answer of the history with its expiry.\<close>

definition backed :: "lookup_event list \<Rightarrow> int \<Rightarrow> resolver \<Rightarrow> bool" where
  "backed past ttl r \<longleftrightarrow> rs_ttl r = ttl \<and>
     (\<forall>key v e. rs_cache r key = Some (v, e) \<longrightarrow>
        (\<exists>b t q. (b, t, q) \<in> set past \<and> query_name q \<noteq> [] \<and> query_key q = key \<and>
           v = CStrings (backend_answer b q) \<and> e = snd t + ttl))"

lemma backed_more: "backed past ttl r \<Longrightarrow> backed (past @ es) ttl r"
  unfolding backed_def set_append by blast

lemma backed_ask:
  assumes "backed past ttl r"
  obtains x r' where "ask b t q (Some r) = Some (x, Some r')" "backed (past @ [(b, t, q)]) ttl r'"
    "x = direct_answer b q \<or> (\<exists>b' t' q'. (b', t', q') \<in> set past \<and> query_key q' = query_key q \<and>
       x = direct_answer b' q' \<and> fst t \<le> snd t' + ttl)"
proof (cases "query_name q = []")
  case True
  then show thesis using that [of "[]" r] backed_more [OF assms] by (simp add: ask_unfold direct_answer_def)
next
  case False
  obtain v r1 where g: "cache_get (query_key q) (fst t) r = (v, r1)" by (cases "cache_get (query_key q) (fst t) r")
  have same: "rs_ttl r1 = rs_ttl r" "rs_cache r1 = rs_cache r"
    using g by (auto simp: cache_get_def split: option.splits if_splits)
  show thesis
  proof (cases v)
    case None
    let ?r = "cache_put (query_key q) (CStrings (backend_answer b q)) (snd t) r1"
    have "ask b t q (Some r) = Some (backend_answer b q, Some ?r)"
      using False None g by (simp add: ask_unfold through_cache_def)
    moreover have "backed (past @ [(b, t, q)]) ttl ?r"
      using assms same False unfolding backed_def cache_put_def by (fastforce split: if_splits)
    ultimately show thesis using that False by (simp add: direct_answer_def)
  next
    case (Some y)
    then obtain e where e: "rs_cache r (query_key q) = Some (y, e)" "fst t \<le> e"
      using g by (auto simp: cache_get_def split: option.splits if_splits)
    with assms obtain b' t' q' where o: "(b', t', q') \<in> set past" "query_name q' \<noteq> []" "query_key q' = query_key q"
      "y = CStrings (backend_answer b' q')" "e = snd t' + ttl"
      unfolding backed_def by blast
    have "ask b t q (Some r) = Some (backend_answer b' q', Some r1)"
      using False Some g o(4) by (simp add: ask_unfold through_cache_def)
    moreover have "backed (past @ [(b, t, q)]) ttl r1"
      using backed_more [OF assms, of "[(b, t, q)]"] same unfolding backed_def by simp
    moreover have "backend_answer b' q' = direct_answer b' q'" using o(2) by (simp add: direct_answer_def)
    ultimately show thesis using that o e(2) by metis
  qed
qed

lemma backed_ask_all:
  "backed past ttl r \<Longrightarrow> \<exists>xs r'. ask_all es (Some r) = Some (xs, Some r') \<and> length xs = length es \<and>
     (\<forall>i < length es. case es ! i of (b, t, q) \<Rightarrow> xs ! i = direct_answer b q \<or>
        (\<exists>b' t' q'. (b', t', q') \<in> set past \<union> set (take i es) \<and> query_key q' = query_key q \<and>
           xs ! i = direct_answer b' q' \<and> fst t \<le> snd t' + ttl))"
proof (induction es arbitrary: past r)
  case (Cons ev es)
  obtain b t q where ev: "ev = (b, t, q)" by (cases ev)
  from backed_ask [OF Cons.prems, of b t q] obtain x r1 where
    x: "ask b t q (Some r) = Some (x, Some r1)" "backed (past @ [(b, t, q)]) ttl r1"
    "x = direct_answer b q \<or> (\<exists>b' t' q'. (b', t', q') \<in> set past \<and> query_key q' = query_key q \<and>
       x = direct_answer b' q' \<and> fst t \<le> snd t' + ttl)" .
  from Cons.IH [OF x(2)] obtain xs r2 where xs: "ask_all es (Some r1) = Some (xs, Some r2)" "length xs = length es"
    "\<forall>i < length es. case es ! i of (b1, t1, q1) \<Rightarrow> xs ! i = direct_answer b1 q1 \<or>
        (\<exists>b' t' q'. (b', t', q') \<in> set (past @ [(b, t, q)]) \<union> set (take i es) \<and> query_key q' = query_key q1 \<and>
           xs ! i = direct_answer b' q' \<and> fst t1 \<le> snd t' + ttl)"
    by blast
  show ?case
  proof (intro exI conjI allI impI)
    show "ask_all (ev # es) (Some r) = Some (x # xs, Some r2)" using ev x(1) xs(1) by simp
    show "length (x # xs) = length (ev # es)" using xs(2) by simp
    fix i assume i: "i < length (ev # es)"
    show "case (ev # es) ! i of (b, t, q) \<Rightarrow> (x # xs) ! i = direct_answer b q \<or>
        (\<exists>b' t' q'. (b', t', q') \<in> set past \<union> set (take i (ev # es)) \<and> query_key q' = query_key q \<and>
           (x # xs) ! i = direct_answer b' q' \<and> fst t \<le> snd t' + ttl)"
    proof (cases i)
      case 0
      with ev x(3) show ?thesis by simp
    next
      case (Suc j)
      with i have j: "j < length es" by simp
      have "case es ! j of (b1, t1, q1) \<Rightarrow> xs ! j = direct_answer b1 q1 \<or>
        (\<exists>b' t' q'. (b', t', q') \<in> set (past @ [(b, t, q)]) \<union> set (take j es) \<and> query_key q' = query_key q1 \<and>
           xs ! j = direct_answer b' q' \<and> fst t1 \<le> snd t' + ttl)"
        by (rule xs(3) [rule_format, OF j])
      with Suc ev show ?thesis by (auto split: prod.splits)
    qed
  qed
qed simp

section \<open>Stable backends\<close>

text \<open>
  A backend that does not distinguish the case of a name. Over such a backend, as long as its
  answers do not change, the cache is invisible.
\<close>

locale stable_backend =
  fixes b :: dns_backend
  assumes host_fold: "to_lower x = to_lower y \<Longrightarrow> bk_host b x = bk_host b y"
    and mx_fold: "to_lower x = to_lower y \<Longrightarrow> bk_mx b x = bk_mx b y"
    and txt_fold: "to_lower x = to_lower y \<Longrightarrow> bk_txt b x = bk_txt b y"
begin

lemma same_key_same_answer:
  assumes "query_key q = query_key q'"
  shows "direct_answer b q = direct_answer b q'"
proof -
  have ne: "(x = []) = (y = [])" if "to_lower x = to_lower y" for x y
    using that by (metis to_lower_eq_Nil)
  show ?thesis
    using assms
    by (cases q; cases q')
      (simp_all add: direct_answer_def host_answer_def, (metis ne host_fold mx_fold txt_fold)+)
qed

lemma cache_invisible:
  assumes "rs_cache r = (\<lambda>_. None)"
  shows "\<exists>r'. ask_all (map (\<lambda>(t, q). (b, t, q)) tqs) (Some r) = Some (map (\<lambda>(t, q). direct_answer b q) tqs, Some r')"
proof -
  let ?es = "map (\<lambda>(t, q). (b, t, q)) tqs"
  have "backed [] (rs_ttl r) r" using assms by (simp add: backed_def)
  from backed_ask_all [OF this, of ?es] obtain xs r' where xs: "ask_all ?es (Some r) = Some (xs, Some r')" "length xs = length ?es"
    "\<And>i. i < length ?es \<Longrightarrow> case ?es ! i of (b1, t1, q1) \<Rightarrow> xs ! i = direct_answer b1 q1 \<or>
        (\<exists>b' t' q'. (b', t', q') \<in> set [] \<union> set (take i ?es) \<and> query_key q' = query_key q1 \<and>
           xs ! i = direct_answer b' q' \<and> fst t1 \<le> snd t' + rs_ttl r)"
    by blast
  have "xs = map (\<lambda>(t, q). direct_answer b q) tqs"
  proof (rule nth_equalityI)
    fix i assume "i < length xs"
    with xs(2) have i: "i < length ?es" by simp
    obtain t q where tq: "tqs ! i = (t, q)" by (cases "tqs ! i")
    with i have e: "?es ! i = (b, t, q)" by simp
    from xs(3) [OF i] e have "xs ! i = direct_answer b q \<or>
        (\<exists>b' t' q'. (b', t', q') \<in> set (take i ?es) \<and> query_key q' = query_key q \<and> xs ! i = direct_answer b' q')"
      by auto
    then have "xs ! i = direct_answer b q"
    proof
      assume "\<exists>b' t' q'. (b', t', q') \<in> set (take i ?es) \<and> query_key q' = query_key q \<and> xs ! i = direct_answer b' q'"
      then obtain b' t' q' where o: "(b', t', q') \<in> set (take i ?es)" "query_key q' = query_key q" "xs ! i = direct_answer b' q'"
        by blast
      then have "b' = b" by (auto dest!: in_set_takeD)
      with o same_key_same_answer show ?thesis by metis
    qed
    with i tq show "xs ! i = map (\<lambda>(t, q). direct_answer b q) tqs ! i" by simp
  qed (use xs(2) in simp)
  with xs(1) show ?thesis by blast
qed

end

lemma to_lower_trim_dot: "to_lower (trim_suffix s ''.'') = trim_suffix (to_lower s) ''.''"
proof (cases s rule: rev_cases)
  case (snoc t c)
  have "lower_char c = CHR ''.'' \<longleftrightarrow> c = CHR ''.''"
    by (rule lower_char_eq_nonletter) code_simp+
  with snoc show ?thesis by (auto simp: trim_suffix_def has_suffix_def to_lower_def)
qed (simp add: trim_suffix_def has_suffix_def)

interpretation static: stable_backend "static_backend z" for z
  by unfold_locales (simp_all add: static_backend_def static_lookup_def to_lower_trim_dot)

text \<open>
  C26: Every lookup through the cache returns, and its answer is what the backend says now, or
  what it said to the same question, up to the case of the name, no longer than the time to
  live ago. Over the in-memory backend the cached resolver gives exactly the answers of the
  backend.
\<close>

theorem cached_answers_fresh:
  "(\<exists>xs r'. ask_all es (Some (with_cache_ttl d new_resolver)) = Some (xs, Some r') \<and> length xs = length es \<and>
     (\<forall>i < length es. case es ! i of (b, t, q) \<Rightarrow> xs ! i = direct_answer b q \<or>
        (\<exists>b' t' q'. (b', t', q') \<in> set (take i es) \<and> query_key q' = query_key q \<and>
           xs ! i = direct_answer b' q' \<and> fst t \<le> snd t' + (if d > 0 then d else 300000000000)))) \<and>
   (\<exists>r'. ask_all (map (\<lambda>(t, q). (static_backend z, t, q)) tqs) (Some (with_cache_ttl d new_resolver)) =
     Some (map (\<lambda>(t, q). direct_answer (static_backend z) q) tqs, Some r'))"
proof
  have "backed [] (if d > 0 then d else 300000000000) (with_cache_ttl d new_resolver)"
    by (simp add: backed_def with_cache_ttl_def new_resolver_def)
  from backed_ask_all [OF this, of es] show "\<exists>xs r'. ask_all es (Some (with_cache_ttl d new_resolver)) = Some (xs, Some r') \<and>
     length xs = length es \<and>
     (\<forall>i < length es. case es ! i of (b, t, q) \<Rightarrow> xs ! i = direct_answer b q \<or>
        (\<exists>b' t' q'. (b', t', q') \<in> set (take i es) \<and> query_key q' = query_key q \<and>
           xs ! i = direct_answer b' q' \<and> fst t \<le> snd t' + (if d > 0 then d else 300000000000)))"
    by simp
  show "\<exists>r'. ask_all (map (\<lambda>(t, q). (static_backend z, t, q)) tqs) (Some (with_cache_ttl d new_resolver)) =
     Some (map (\<lambda>(t, q). direct_answer (static_backend z) q) tqs, Some r')"
    by (rule static.cache_invisible) (simp add: with_cache_ttl_def new_resolver_def)
qed

theorem cached_answers_fresh_witness:
  "\<exists>xs r'. ask_all [(static_backend \<lparr>sz_hosts = [''a.test'' \<mapsto> [''192.0.2.1'']], sz_mx = (\<lambda>_. None), sz_txt = (\<lambda>_. None),
       sz_ptr = (\<lambda>_. None)\<rparr>, (0, 1), HostQuery ''A.test'')] (Some (with_cache_ttl 0 new_resolver)) = Some (xs, Some r') \<and>
     xs = [[''192.0.2.1'']]"
proof -
  let ?b = "static_backend \<lparr>sz_hosts = [''a.test'' \<mapsto> [''192.0.2.1'']], sz_mx = (\<lambda>_. None), sz_txt = (\<lambda>_. None), sz_ptr = (\<lambda>_. None)\<rparr>"
  have "direct_answer ?b (HostQuery ''A.test'') = [''192.0.2.1'']" by code_simp
  with cached_answers_fresh [of "[(?b, (0, 1), HostQuery ''A.test'')]" 0 _ "[]"] show ?thesis
    by (auto simp: length_Suc_conv)
qed

end
