(* ===== verification/Message.thy ===== *)
theory Message
  imports GoStrings
begin

text \<open>
  The header section of a message as \<^verbatim>\<open>pkg/rules/message.go\<close> and \<^verbatim>\<open>verify.go\<close> keep it: splitting
  a message, parsing and unfolding the fields, the case-insensitive index with its accessors
  (\<open>msg_get\<close>, \<open>msg_get_all\<close>, \<open>msg_count\<close>) and the raw fields handed to DKIM verification
  (\<open>raw_header_pairs\<close>). Of \<^verbatim>\<open>MessageContext\<close> the record \<open>message\<close> holds the header list, the index,
  the compatibility map \<^verbatim>\<open>Headers\<close>, the trace fields and the removed names.

  A Go map is an association list in the order of insertion. Where the code ranges over
  \<^verbatim>\<open>Headers\<close> to find a key up to case, at most one key fits, since all keys are canonical.
\<close>

record header =
  hf_name :: string
  hf_value :: string
  hf_raw :: string
  hf_line :: nat
  hf_folded :: bool
  hf_octets :: nat

record message =
  ms_headers :: "header list"
  ms_index :: "(string \<times> nat list) list"
  ms_compat :: "(string \<times> string) list"
  ms_received :: "string list"
  ms_removed :: "string list"

section \<open>Splitting and parsing\<close>

definition split_message :: "string \<Rightarrow> string \<times> string" where
  "split_message raw =
     (case index_str (CRLF @ CRLF) raw of
        Some i \<Rightarrow> (take i raw, drop (i + 4) raw)
      | None \<Rightarrow>
          (case index_str [LF, LF] raw of
             Some i \<Rightarrow> (take i raw, drop (i + 2) raw)
           | None \<Rightarrow> (raw, [])))"

definition split_lines :: "string \<Rightarrow> string list" where
  "split_lines b =
     (if b = [] then []
      else let lines = split_on LF (replace_crlf [LF] b) in
           if last lines = [] then butlast lines else lines)"

definition flush_field :: "header list \<Rightarrow> header option \<Rightarrow> header list" where
  "flush_field hs cur = (case cur of None \<Rightarrow> hs | Some h \<Rightarrow> hs @ [h\<lparr>hf_value := trim_space (hf_value h)\<rparr>])"

definition continues :: "string \<Rightarrow> bool" where
  "continues line \<longleftrightarrow> has_prefix line '' '' \<or> has_prefix line [TAB]"

definition extend_field :: "string \<Rightarrow> header \<Rightarrow> header" where
  "extend_field t h = h\<lparr>hf_value := hf_value h @ '' '' @ trim_space t, hf_raw := hf_raw h @ CRLF @ t,
     hf_folded := True, hf_octets := max (hf_octets h) (length t)\<rparr>"

text \<open>A line without a colon, or with an empty name, becomes a field without a name.\<close>

definition start_field :: "nat \<Rightarrow> string \<Rightarrow> header" where
  "start_field n t =
     (let (name, v) = (case index_byte CHR '':'' t of
            None \<Rightarrow> ([], t) | Some i \<Rightarrow> if i = 0 then ([], t) else (take i t, drop (Suc i) t))
      in \<lparr>hf_name = name, hf_value = v, hf_raw = t, hf_line = n, hf_folded = False, hf_octets = length t\<rparr>)"

fun parse_fields :: "header list \<Rightarrow> header option \<Rightarrow> string list \<Rightarrow> header list" where
  "parse_fields hs cur [] = flush_field hs cur"
| "parse_fields hs cur (line # lines) =
     (let t = trim_right_set line CRLF in
      case (if continues line then cur else None) of
        Some h \<Rightarrow> parse_fields hs (Some (extend_field t h)) lines
      | None \<Rightarrow>
          let hs1 = flush_field hs cur in
          if t = [] then parse_fields hs1 None lines
          else parse_fields hs1 (Some (start_field (length hs1 + 1) t)) lines)"

definition parse_header_block :: "string \<Rightarrow> header list" where
  "parse_header_block block = parse_fields [] None (split_lines block)"

section \<open>The index\<close>

definition canonical_part :: "string \<Rightarrow> string" where
  "canonical_part p = (if p = [] then p else to_upper (take 1 p) @ drop 1 p)"

definition canonical_header_name :: "string \<Rightarrow> string" where
  "canonical_header_name name = join ''-'' (map canonical_part (split_on CHR ''-'' (to_lower (trim_space name))))"

definition index_add :: "string \<Rightarrow> nat \<Rightarrow> (string \<times> nat list) list \<Rightarrow> (string \<times> nat list) list" where
  "index_add key i idx =
     (case map_of idx key of
        None \<Rightarrow> idx @ [(key, [i])]
      | Some is \<Rightarrow> map (\<lambda>(k, js). (k, if k = key then js @ [i] else js)) idx)"

fun index_fields :: "nat \<Rightarrow> header list \<Rightarrow> (string \<times> nat list) list \<Rightarrow> (string \<times> nat list) list" where
  "index_fields i [] idx = idx"
| "index_fields i (h # hs) idx = index_fields (Suc i) hs (index_add (to_lower (hf_name h)) i idx)"

fun compat_fields :: "header list \<Rightarrow> (string \<times> string) list \<Rightarrow> (string \<times> string) list" where
  "compat_fields [] cm = cm"
| "compat_fields (h # hs) cm =
     compat_fields hs
       (if map_of cm (canonical_header_name (hf_name h)) = None
        then cm @ [(canonical_header_name (hf_name h), hf_value h)] else cm)"

definition compat_lookup :: "(string \<times> string) list \<Rightarrow> string \<Rightarrow> string" where
  "compat_lookup cm name = (case find (\<lambda>(k, v). equal_fold k name) cm of None \<Rightarrow> [] | Some (k, v) \<Rightarrow> v)"

definition msg_get :: "message \<Rightarrow> string \<Rightarrow> string" where
  "msg_get m name =
     (case map_of (ms_index m) (to_lower name) of
        Some (i # is) \<Rightarrow> hf_value (ms_headers m ! i)
      | _ \<Rightarrow> compat_lookup (ms_compat m) name)"

definition msg_get_all :: "message \<Rightarrow> string \<Rightarrow> string list" where
  "msg_get_all m name =
     (case map_of (ms_index m) (to_lower name) of
        Some is \<Rightarrow> map (\<lambda>i. hf_value (ms_headers m ! i)) is
      | None \<Rightarrow> if msg_get m name \<noteq> [] then [msg_get m name] else [])"

definition msg_count :: "message \<Rightarrow> string \<Rightarrow> nat" where
  "msg_count m name =
     (case map_of (ms_index m) (to_lower name) of
        Some is \<Rightarrow> length is
      | None \<Rightarrow> if msg_get m name \<noteq> [] then 1 else 0)"

definition msg_has :: "message \<Rightarrow> string \<Rightarrow> bool" where
  "msg_has m name \<longleftrightarrow> msg_count m name > 0"

definition reindex :: "message \<Rightarrow> message" where
  "reindex m =
     (let m1 = m\<lparr>ms_index := index_fields 0 (ms_headers m) [],
            ms_compat := compat_fields (ms_headers m) (ms_compat m)\<rparr>
      in m1\<lparr>ms_received := msg_get_all m1 ''Received''\<rparr>)"

definition set_headers :: "header list \<Rightarrow> message \<Rightarrow> message" where
  "set_headers hs m = reindex (m\<lparr>ms_headers := hs, ms_compat := []\<rparr>)"

definition add_header_line :: "string \<Rightarrow> string \<Rightarrow> message \<Rightarrow> message" where
  "add_header_line name v m =
     reindex (m\<lparr>ms_headers := ms_headers m @
       [\<lparr>hf_name = name, hf_value = v, hf_raw = name @ '': '' @ v, hf_line = length (ms_headers m) + 1,
         hf_folded = False, hf_octets = 0\<rparr>]\<rparr>)"

definition remove_header :: "string \<Rightarrow> message \<Rightarrow> message" where
  "remove_header name0 m =
     (let name = trim_space name0 in
      if name = [] \<or> list_ex (\<lambda>x. equal_fold x name) (ms_removed m) then m
      else m\<lparr>ms_removed := ms_removed m @ [name]\<rparr>)"

definition new_message :: message where
  "new_message = \<lparr>ms_headers = [], ms_index = [], ms_compat = [], ms_received = [], ms_removed = []\<rparr>"

definition parse_message_headers :: "string \<Rightarrow> message" where
  "parse_message_headers raw = set_headers (parse_header_block (fst (split_message raw))) new_message"

section \<open>The raw fields\<close>

definition raw_value :: "header \<Rightarrow> string" where
  "raw_value h =
     (if hf_raw h = [] then hf_value h
      else (case index_byte CHR '':'' (hf_raw h) of None \<Rightarrow> hf_value h | Some i \<Rightarrow> drop (Suc i) (hf_raw h)))"

definition raw_header_pairs :: "message \<Rightarrow> (string \<times> string) list" where
  "raw_header_pairs m = map (\<lambda>h. (hf_name h, raw_value h)) (filter (\<lambda>h. hf_name h \<noteq> []) (ms_headers m))"

section \<open>Addresses\<close>

definition split_address :: "string \<Rightarrow> string \<times> string" where
  "split_address addr =
     (case last_index CHR ''@'' addr of
        None \<Rightarrow> (addr, []) | Some i \<Rightarrow> (take i addr, to_lower (drop (Suc i) addr)))"

fun address_chunks :: "string \<Rightarrow> bool \<Rightarrow> bool \<Rightarrow> string \<Rightarrow> string list" where
  "address_chunks cur q a [] = (if trim_space cur \<noteq> [] then [cur] else [])"
| "address_chunks cur q a (c # s) =
     (if c = DQ then address_chunks (cur @ [c]) (\<not> q) a s
      else if c = CHR ''<'' \<and> \<not> q then address_chunks (cur @ [c]) q True s
      else if c = CHR ''>'' \<and> \<not> q then address_chunks (cur @ [c]) q False s
      else if c = CHR '','' \<and> \<not> q \<and> \<not> a then cur # address_chunks [] q a s
      else address_chunks (cur @ [c]) q a s)"

definition split_address_list :: "string \<Rightarrow> string list" where
  "split_address_list s = address_chunks [] False False s"

end
