(* ===== verification/MessageProps.thy ===== *)
theory MessageProps
  imports Message
begin

text \<open>What the parser and the index of a message's header section keep and tell.\<close>

section \<open>Raw bytes\<close>

lemma continues_trimmed: "continues line \<Longrightarrow> trim_right_set line CRLF \<noteq> []"
proof
  assume c: "continues line" and e: "trim_right_set line CRLF = []"
  from e have "\<forall>x \<in> set line. x \<in> set CRLF" by (simp add: trim_right_set_def dropWhile_eq_Nil_conv)
  with c show False by (cases line) (auto simp: continues_def has_prefix_def)
qed

definition fields_of :: "header list \<Rightarrow> header option \<Rightarrow> header list" where
  "fields_of hs cur = hs @ (case cur of None \<Rightarrow> [] | Some h \<Rightarrow> [h])"

definition content_lines :: "string list \<Rightarrow> string list" where
  "content_lines lines = filter (\<lambda>t. t \<noteq> []) (map (\<lambda>l. trim_right_set l CRLF) lines)"

lemma content_lines_simps [simp]:
  "content_lines [] = []"
  "content_lines (l # ls) = (if trim_right_set l CRLF = [] then content_lines ls else trim_right_set l CRLF # content_lines ls)"
  by (simp_all add: content_lines_def)

lemma raw_flush [simp]: "map hf_raw (flush_field hs cur) = map hf_raw (fields_of hs cur)"
  by (cases cur) (simp_all add: flush_field_def fields_of_def)

lemma start_field_raw [simp]: "hf_raw (start_field n t) = t"
  by (simp add: start_field_def split: prod.splits)

lemma join_extend: "join sep (xs @ [x @ sep @ y]) = join sep (xs @ [x, y])"
proof (induction xs)
  case (Cons a xs)
  then show ?case by (cases xs) simp_all
qed simp

lemma join_append_tail: "join sep xs = join sep ys \<Longrightarrow> xs \<noteq> [] \<Longrightarrow> ys \<noteq> [] \<Longrightarrow> join sep (xs @ zs) = join sep (ys @ zs)"
proof -
  have j: "zs \<noteq> [] \<Longrightarrow> us \<noteq> [] \<Longrightarrow> join sep (us @ zs) = join sep us @ sep @ join sep zs" for us :: "string list"
  proof (induction us)
    case (Cons u us)
    then show ?case by (cases us; cases zs) simp_all
  qed simp
  show "join sep xs = join sep ys \<Longrightarrow> xs \<noteq> [] \<Longrightarrow> ys \<noteq> [] \<Longrightarrow> join sep (xs @ zs) = join sep (ys @ zs)"
    using j by (cases "zs = []") simp_all
qed

lemma parse_fields_raw:
  "join CRLF (map hf_raw (parse_fields hs cur lines)) = join CRLF (map hf_raw (fields_of hs cur) @ content_lines lines)"
proof (induction hs cur lines rule: parse_fields.induct)
  case (2 hs cur line lines)
  let ?t = "trim_right_set line CRLF"
  show ?case
  proof (cases "if continues line then cur else None")
    case None
    with "2.IH"(1,2) [OF refl None refl] show ?thesis
      by (simp add: Let_def fields_of_def [of _ None] fields_of_def [of _ "Some _"])
  next
    case (Some h)
    then have c: "continues line" "cur = Some h" by (auto split: if_splits)
    from "2.IH"(3) [OF refl Some] Some have "join CRLF (map hf_raw (parse_fields hs cur (line # lines))) =
        join CRLF ((map hf_raw hs @ [hf_raw h @ CRLF @ ?t]) @ content_lines lines)"
      by (simp add: Let_def fields_of_def extend_field_def)
    also have "\<dots> = join CRLF ((map hf_raw hs @ [hf_raw h, ?t]) @ content_lines lines)"
      by (rule join_append_tail [OF join_extend]) simp_all
    finally show ?thesis using c continues_trimmed [OF c(1)] by (simp add: fields_of_def)
  qed
qed simp

definition raw_ok :: "header \<Rightarrow> bool" where
  "raw_ok h \<longleftrightarrow> hf_name h = [] \<or> CHR '':'' \<notin> set (hf_name h) \<and> (\<exists>v. hf_raw h = hf_name h @ CHR '':'' # v)"

lemma raw_ok_start: "raw_ok (start_field n t)"
  using index_byte_Some [of "CHR '':''" t] by (auto simp: raw_ok_def start_field_def split: option.splits)

lemma raw_ok_extend: "raw_ok h \<Longrightarrow> raw_ok (extend_field t h)"
  by (auto simp: raw_ok_def extend_field_def)

lemma raw_ok_flush: "\<forall>h \<in> set (fields_of hs cur). raw_ok h \<Longrightarrow> \<forall>h \<in> set (flush_field hs cur). raw_ok h"
  by (cases cur) (auto simp: fields_of_def flush_field_def raw_ok_def)

lemma parse_fields_raw_ok:
  "\<forall>h \<in> set (fields_of hs cur). raw_ok h \<Longrightarrow> \<forall>h \<in> set (parse_fields hs cur lines). raw_ok h"
proof (induction hs cur lines rule: parse_fields.induct)
  case (2 hs cur line lines)
  show ?case
  proof (cases "if continues line then cur else None")
    case None
    note flushed = raw_ok_flush [OF "2.prems"]
    with None "2.IH"(1,2) [OF refl None refl] raw_ok_start show ?thesis by (simp add: Let_def fields_of_def)
  next
    case (Some h)
    then have "continues line" "cur = Some h" by (auto split: if_splits)
    with "2.IH"(3) [OF refl Some] "2.prems" raw_ok_extend show ?thesis by (simp add: Let_def fields_of_def)
  qed
qed (use raw_ok_flush in simp)

lemma raw_ok_value: "raw_ok h \<Longrightarrow> hf_name h \<noteq> [] \<Longrightarrow> hf_name h @ CHR '':'' # raw_value h = hf_raw h"
  by (auto simp: raw_ok_def raw_value_def index_byte_append)

lemma set_headers_list [simp]: "ms_headers (set_headers hs m) = hs"
  by (simp add: set_headers_def reindex_def Let_def)

text \<open>
  Parsing loses no byte that a signature can cover: the raw fields, joined by CRLF, are the
  non-empty lines of the header section joined by CRLF, folding and white space included, and
  the fields handed to DKIM verification are, name and value, exactly the raw fields with a
  colon, in their order.
\<close>

theorem raw_fields_exact:
  "join CRLF (map hf_raw (parse_header_block block)) =
     join CRLF (filter (\<lambda>t. t \<noteq> []) (map (\<lambda>l. trim_right_set l CRLF) (split_lines block))) \<and>
   map (\<lambda>(n, v). n @ CHR '':'' # v) (raw_header_pairs (set_headers (parse_header_block block) m)) =
     map hf_raw (filter (\<lambda>h. hf_name h \<noteq> []) (parse_header_block block))"
proof
  show "join CRLF (map hf_raw (parse_header_block block)) =
     join CRLF (filter (\<lambda>t. t \<noteq> []) (map (\<lambda>l. trim_right_set l CRLF) (split_lines block)))"
    using parse_fields_raw [of "[]" None "split_lines block"]
    by (simp add: parse_header_block_def fields_of_def content_lines_def)
  have "\<forall>h \<in> set (parse_header_block block). raw_ok h"
    using parse_fields_raw_ok [of "[]" None "split_lines block"] by (simp add: parse_header_block_def fields_of_def)
  then show "map (\<lambda>(n, v). n @ CHR '':'' # v) (raw_header_pairs (set_headers (parse_header_block block) m)) =
     map hf_raw (filter (\<lambda>h. hf_name h \<noteq> []) (parse_header_block block))"
    using raw_ok_value by (simp add: raw_header_pairs_def)
qed

section \<open>The index\<close>

text \<open>The positions of a lower-case name, counted from \<open>i\<close>.\<close>

fun key_positions :: "nat \<Rightarrow> header list \<Rightarrow> string \<Rightarrow> nat list" where
  "key_positions i [] k = []"
| "key_positions i (h # hs) k = (if to_lower (hf_name h) = k then [i] else []) @ key_positions (Suc i) hs k"

definition listed :: "'a list option \<Rightarrow> 'a list" where
  "listed x = (case x of None \<Rightarrow> [] | Some is \<Rightarrow> is)"

lemma map_of_keyed: "map_of (map (\<lambda>(k, v). (k, f k v)) xs) x = map_option (f x) (map_of xs x)"
  by (induction xs) auto

lemma map_of_index_add:
  "map_of (index_add key i idx) k = (if k = key then Some (listed (map_of idx key) @ [i]) else map_of idx k)"
  by (auto simp: index_add_def listed_def map_of_keyed map_add_def split: option.splits)

lemma map_of_index_fields:
  "map_of (index_fields i hs idx) k =
     (if key_positions i hs k = [] then map_of idx k else Some (listed (map_of idx k) @ key_positions i hs k))"
  by (induction i hs idx rule: index_fields.induct) (auto simp: map_of_index_add listed_def)

lemma key_positions_nth:
  "map (\<lambda>j. f ((pre @ hs) ! j)) (key_positions (length pre) hs k) = map f (filter (\<lambda>h. to_lower (hf_name h) = k) hs)"
proof (induction hs arbitrary: pre)
  case (Cons h hs)
  from Cons.IH [of "pre @ [h]"] show ?case by simp
qed simp

lemma length_key_positions: "length (key_positions i hs k) = length (filter (\<lambda>h. to_lower (hf_name h) = k) hs)"
  by (induction i hs k rule: key_positions.induct) auto

text \<open>The values of the fields with a name up to case.\<close>

definition named_values :: "header list \<Rightarrow> string \<Rightarrow> string list" where
  "named_values hs name = map hf_value (filter (\<lambda>h. equal_fold (hf_name h) name) hs)"

lemma named_positions: "map (\<lambda>j. hf_value (hs ! j)) (key_positions 0 hs (to_lower name)) = named_values hs name"
  using key_positions_nth [of hf_value "[]" hs "to_lower name"] by (simp add: named_values_def equal_fold_def)

lemma reindex_fields [simp]:
  "ms_headers (reindex m) = ms_headers m" "ms_index (reindex m) = index_fields 0 (ms_headers m) []"
  "ms_compat (reindex m) = compat_fields (ms_headers m) (ms_compat m)"
  by (simp_all add: reindex_def Let_def)

lemma reindex_lookup:
  "map_of (ms_index (reindex m)) (to_lower name) =
     (if named_values (ms_headers m) name = [] then None else Some (key_positions 0 (ms_headers m) (to_lower name)))"
  using named_positions [of "ms_headers m" name] by (auto simp: map_of_index_fields listed_def)

lemma reindex_present:
  assumes "named_values (ms_headers m) name \<noteq> []"
  shows "msg_get (reindex m) name = hd (named_values (ms_headers m) name)"
    and "msg_get_all (reindex m) name = named_values (ms_headers m) name"
    and "msg_count (reindex m) name = length (named_values (ms_headers m) name)"
proof -
  let ?p = "key_positions 0 (ms_headers m) (to_lower name)"
  note look = reindex_lookup [of m name] and vals = named_positions [of "ms_headers m" name]
  from vals assms obtain i "is" where p: "?p = i # is" by (cases ?p) auto
  with vals have "hd (named_values (ms_headers m) name) = hf_value (ms_headers m ! i)" by (metis list.map(2) list.sel(1))
  with look assms p show "msg_get (reindex m) name = hd (named_values (ms_headers m) name)"
    by (simp add: msg_get_def)
  from look vals assms show "msg_get_all (reindex m) name = named_values (ms_headers m) name"
    by (simp add: msg_get_all_def)
  from look vals assms show "msg_count (reindex m) name = length (named_values (ms_headers m) name)"
    using length_map [of "\<lambda>j. hf_value (ms_headers m ! j)" ?p] by (simp add: msg_count_def)
qed

lemma reindex_absent:
  assumes "named_values (ms_headers m) name = []"
  shows "msg_get (reindex m) name = compat_lookup (compat_fields (ms_headers m) (ms_compat m)) name"
    and "msg_get_all (reindex m) name = (if msg_get (reindex m) name = [] then [] else [msg_get (reindex m) name])"
    and "msg_count (reindex m) name = (if msg_get (reindex m) name = [] then 0 else 1)"
  using reindex_lookup [of m name] assms by (simp_all add: msg_get_def msg_get_all_def msg_count_def)

section \<open>The compatibility map\<close>

lemma upper_lower_char: "lower_char (upper_char c) = lower_char c"
proof (cases "is_lower c")
  case True
  then have b: "97 \<le> char_code c" "char_code c \<le> 122" by (auto simp: is_lower_def)
  have u: "char_code (upper_char c) = char_code c - 32"
    using True b by (simp add: upper_char_def char_code_def)
  have "is_upper (upper_char c)" unfolding is_upper_def u using b by arith
  with b u have "lower_char (upper_char c) = char_of (char_code c)" by (simp add: lower_char_def)
  moreover have "lower_char c = c" using b by (simp add: lower_char_def is_upper_def)
  ultimately show ?thesis by (simp add: char_code_def)
qed (simp add: upper_char_def)

lemma to_lower_canonical_part: "to_lower (canonical_part p) = to_lower p"
  by (cases p) (simp_all add: canonical_part_def to_lower_def to_upper_def upper_lower_char)

lemma to_lower_join: "to_lower (join sep ws) = join (to_lower sep) (map to_lower ws)"
  by (induction sep ws rule: join.induct) (simp_all add: to_lower_append)

lemma to_lower_canonical: "to_lower (canonical_header_name n) = to_lower (trim_space n)"
proof -
  have d: "to_lower ''-'' = ''-''" by code_simp
  have "to_lower (canonical_header_name n) = join (to_lower ''-'') (map to_lower (split_on CHR ''-'' (to_lower (trim_space n))))"
    by (simp add: canonical_header_name_def to_lower_join to_lower_canonical_part comp_def)
  also have "\<dots> = to_lower (join ''-'' (split_on CHR ''-'' (to_lower (trim_space n))))"
    by (simp add: to_lower_join)
  finally show ?thesis by (simp add: join_split_on)
qed

lemma canonical_same: "to_lower (trim_space a) = to_lower (trim_space b) \<Longrightarrow> canonical_header_name a = canonical_header_name b"
  by (simp add: canonical_header_name_def)

definition canonical_key :: "string \<Rightarrow> bool" where
  "canonical_key k \<longleftrightarrow> (\<exists>n. k = canonical_header_name n)"

lemma compat_lookup_fields:
  assumes "\<forall>(k, v) \<in> set cm. canonical_key k"
  shows "compat_lookup (compat_fields hs cm) name =
    (case find (\<lambda>(k, v). equal_fold k name) cm of
       Some (k, v) \<Rightarrow> v
     | None \<Rightarrow> (case find (\<lambda>h. equal_fold (trim_space (hf_name h)) name) hs of None \<Rightarrow> [] | Some h \<Rightarrow> hf_value h))"
  using assms
proof (induction hs cm rule: compat_fields.induct)
  case (1 cm)
  then show ?case by (auto simp: compat_lookup_def split: option.split)
next
  case (2 h hs cm)
  let ?k = "canonical_header_name (hf_name h)"
  have fold: "equal_fold ?k name = equal_fold (trim_space (hf_name h)) name"
    by (simp add: equal_fold_def to_lower_canonical)
  have app: "find P (xs @ [x]) = (case find P xs of Some y \<Rightarrow> Some y | None \<Rightarrow> if P x then Some x else None)"
    for P and xs :: "(string \<times> string) list" and x
    by (induction xs) auto
  show ?case
  proof (cases "map_of cm ?k")
    case None
    have "\<forall>(k, v) \<in> set (cm @ [(?k, hf_value h)]). canonical_key k"
      using "2.prems" by (auto simp: canonical_key_def)
    with "2.IH" None have "compat_lookup (compat_fields (h # hs) cm) name =
      (case find (\<lambda>(k, v). equal_fold k name) (cm @ [(?k, hf_value h)]) of
         Some (k, v) \<Rightarrow> v
       | None \<Rightarrow> (case find (\<lambda>h. equal_fold (trim_space (hf_name h)) name) hs of None \<Rightarrow> [] | Some h \<Rightarrow> hf_value h))"
      by simp
    then show ?thesis by (simp add: app fold split: option.split)
  next
    case (Some v)
    then have "(?k, v) \<in> set cm" by (rule map_of_SomeD)
    then have "equal_fold ?k name \<Longrightarrow> find (\<lambda>(k, v). equal_fold k name) cm \<noteq> None"
      by (auto simp: find_None_iff)
    with "2.IH" "2.prems" Some fold show ?thesis by (auto split: option.split)
  qed
qed

lemma set_headers_get:
  "msg_get (set_headers hs m) name =
     (if named_values hs name \<noteq> [] then hd (named_values hs name)
      else (case find (\<lambda>h. equal_fold (trim_space (hf_name h)) name) hs of None \<Rightarrow> [] | Some h \<Rightarrow> hf_value h))"
  using reindex_present(1) [of "m\<lparr>ms_headers := hs, ms_compat := []\<rparr>" name]
    reindex_absent(1) [of "m\<lparr>ms_headers := hs, ms_compat := []\<rparr>" name] compat_lookup_fields [of "[]" hs name]
  by (simp add: set_headers_def)

text \<open>
  After the header list of a message was set or extended, the accessors agree with the list:
  a name matched up to case has all its values, in order, its first value and its number of
  occurrences; a name without an exact match is looked up with the white space around the
  names ignored, and then counts at most once, however often it occurs.
\<close>

theorem header_index_exact:
  assumes "m = set_headers hs m0 \<or> m = add_header_line n v m0"
  shows "msg_get_all m name =
      (if named_values (ms_headers m) name \<noteq> [] then named_values (ms_headers m) name
       else if msg_get m name = [] then [] else [msg_get m name]) \<and>
    msg_count m name = length (msg_get_all m name) \<and>
    (named_values (ms_headers m) name \<noteq> [] \<longrightarrow> msg_get m name = hd (named_values (ms_headers m) name)) \<and>
    (named_values (ms_headers m) name = [] \<and> m = set_headers hs m0 \<longrightarrow>
       msg_get m name =
         (case find (\<lambda>h. equal_fold (trim_space (hf_name h)) name) hs of None \<Rightarrow> [] | Some h \<Rightarrow> hf_value h))"
proof -
  from assms obtain m1 where m: "m = reindex m1" by (auto simp: set_headers_def add_header_line_def)
  show ?thesis
  proof (cases "named_values (ms_headers m) name = []")
    case True
    have h: "ms_headers m1 = ms_headers m" using m by simp
    note absent = reindex_absent(2,3) [of m1 name, unfolded h, OF True, folded m]
    have "m = set_headers hs m0 \<Longrightarrow> named_values hs name = []" using True by simp
    with True absent set_headers_get [of hs m0 name] show ?thesis by auto
  next
    case False
    with m reindex_present [of m1 name] show ?thesis by simp
  qed
qed

definition demo_headers :: "header list" where
  "demo_headers = parse_header_block (''Subject: a'' @ CRLF @ ''SUBJECT:  b'' @ CRLF @ ''From : c'' @ CRLF @ ''From : d'' @ CRLF @ '' e'' @ CRLF)"

theorem header_index_exact_witness:
  "msg_get_all (set_headers demo_headers new_message) ''subject'' = [''a'', ''b''] \<and>
   msg_count (set_headers demo_headers new_message) ''From'' = 1"
proof -
  have v: "named_values demo_headers ''subject'' = [''a'', ''b'']" "named_values demo_headers ''From'' = []"
    "find (\<lambda>h. equal_fold (trim_space (hf_name h)) ''From'') demo_headers = Some (demo_headers ! 2)" "hf_value (demo_headers ! 2) = ''c''"
    by code_simp+
  show ?thesis
    using header_index_exact [of _ demo_headers new_message, OF disjI1 [OF refl], of "''subject''"]
      header_index_exact [of _ demo_headers new_message, OF disjI1 [OF refl], of "''From''"] v
    by simp
qed

section \<open>Splitting and printing\<close>

lemma index_str_skip:
  assumes "c \<notin> set l"
  shows "index_str (c # p) (l @ s) = map_option ((+) (length l)) (index_str (c # p) s)"
  using assms
proof (induction l)
  case (Cons x l)
  then have "\<not> has_prefix (x # l @ s) (c # p)" by (auto simp: has_prefix_def)
  with Cons show ?case by (cases "index_str (c # p) s") auto
qed (cases "index_str (c # p) s", simp_all)

definition header_line_ok :: "string \<Rightarrow> bool" where
  "header_line_ok l \<longleftrightarrow> l \<noteq> [] \<and> CR \<notin> set l \<and> LF \<notin> set l"

definition crlf_lines :: "string list \<Rightarrow> string" where
  "crlf_lines ls = concat (map (\<lambda>l. l @ CRLF) ls)"

lemma index_header_end:
  assumes "list_all header_line_ok ls" and "ls \<noteq> []"
  shows "index_str (CRLF @ CRLF) (crlf_lines ls @ CRLF @ body) = Some (length (crlf_lines ls) - 2)"
  using assms
proof (induction ls)
  case (Cons l ls)
  then have l: "CR \<notin> set l" "header_line_ok l" by (simp_all add: header_line_ok_def)
  show ?case
  proof (cases ls)
    case Nil
    then show ?thesis using index_str_skip [OF l(1), of "[LF, CR, LF]" "CRLF @ CRLF @ body"]
      by (simp add: crlf_lines_def has_prefix_def)
  next
    case (Cons l2 ls2)
    then have l2: "header_line_ok l2" and tl: "list_all header_line_ok ls" using Cons.prems by simp_all
    then obtain c t where c: "l2 = c # t" "c \<noteq> CR" by (cases l2) (auto simp: header_line_ok_def)
    let ?rest = "crlf_lines ls @ CRLF @ body"
    from Cons.IH tl Cons have IH: "index_str (CRLF @ CRLF) ?rest = Some (length (crlf_lines ls) - 2)" by simp
    have two: "length (crlf_lines ls) \<ge> 2" using Cons by (simp add: crlf_lines_def)
    have "\<not> has_prefix (CR # LF # ?rest) (CRLF @ CRLF)" "\<not> has_prefix (LF # ?rest) (CRLF @ CRLF)"
      using Cons c by (simp_all add: crlf_lines_def has_prefix_def)
    with IH have "index_str (CRLF @ CRLF) (CRLF @ ?rest) = Some (2 + (length (crlf_lines ls) - 2))" by simp
    with index_str_skip [OF l(1), of "[LF, CR, LF]" "CRLF @ ?rest"] two show ?thesis by (simp add: crlf_lines_def)
  qed
qed simp

lemma split_message_crlf:
  assumes "list_all header_line_ok ls" and "ls \<noteq> []"
  shows "split_message (crlf_lines ls @ CRLF @ body) = (join CRLF ls, body)"
proof -
  have j: "crlf_lines ls = join CRLF ls @ CRLF" using assms(2)
  proof (induction ls)
    case (Cons l ls)
    then show ?case by (cases ls) (simp_all add: crlf_lines_def)
  qed simp
  with index_header_end [OF assms, of body] show ?thesis by (simp add: split_message_def)
qed

lemma replace_crlf_line:
  "CR \<notin> set l \<Longrightarrow> replace_crlf t (l @ CRLF @ s) = l @ t @ replace_crlf t s"
  "CR \<notin> set l \<Longrightarrow> replace_crlf t l = l"
proof (induction l)
  case (Cons x l)
  {
    case 1
    with Cons.IH(1) show ?case by (cases l) auto
  next
    case 2
    with Cons.IH(2) show ?case by (cases l) auto
  }
qed simp_all

lemma split_lines_join:
  assumes "list_all header_line_ok ls"
  shows "split_lines (join CRLF ls) = ls"
proof (cases "ls = []")
  case False
  have s: "split_on LF (replace_crlf [LF] (join CRLF ls)) = ls" using assms False
  proof (induction ls)
    case (Cons l ls)
    then have l: "CR \<notin> set l" "LF \<notin> set l" by (simp_all add: header_line_ok_def)
    then have no: "\<forall>c \<in> set l. \<not> c = LF" by auto
    show ?case
    proof (cases ls)
      case Nil
      with replace_crlf_line(2) [OF l(1)] no show ?thesis by (simp add: split_on_def split_where_no)
    next
      case (Cons l2 ls2)
      with Cons.IH Cons.prems have "split_on LF (replace_crlf [LF] (join CRLF ls)) = ls" by simp
      with Cons replace_crlf_line(1) [OF l(1), of "[LF]" "join CRLF ls"] split_where_append [OF no refl]
      show ?thesis by (simp add: split_on_def)
    qed
  qed simp
  have "last ls \<noteq> []" using assms False by (induction ls) (auto simp: header_line_ok_def split: if_splits)
  moreover have "join CRLF ls \<noteq> []" using assms False by (cases ls; cases "tl ls") (auto simp: header_line_ok_def)
  ultimately show ?thesis using s False by (simp add: split_lines_def Let_def)
qed (simp add: split_lines_def)

definition field_ok :: "string \<times> string \<Rightarrow> bool" where
  "field_ok f \<longleftrightarrow> fst f \<noteq> [] \<and> CHR '':'' \<notin> set (fst f) \<and> \<not> continues (fst f) \<and> line_ok (fst f) \<and> line_ok (snd f)"

definition field_line :: "string \<times> string \<Rightarrow> string" where
  "field_line f = fst f @ '': '' @ snd f"

lemma field_line_ok: "field_ok f \<Longrightarrow> header_line_ok (field_line f)"
  by (auto simp: field_ok_def field_line_def header_line_ok_def line_ok_def)

lemma trim_right_end_id:
  assumes "last t \<notin> set cs"
  shows "trim_right_set t cs = t"
proof (cases t rule: rev_cases)
  case (snoc u c)
  with assms show ?thesis by (simp add: trim_right_set_def)
qed (simp add: trim_right_set_def)

lemma trim_header_line: "header_line_ok l \<Longrightarrow> trim_right_set l CRLF = l"
  by (rule trim_right_end_id) (metis header_line_ok_def last_in_set empty_iff insert_iff list.set)

lemma field_line_starts: "field_ok f \<Longrightarrow> \<not> continues (field_line f)"
  by (cases "fst f") (auto simp: field_ok_def field_line_def continues_def has_prefix_def)

lemma start_field_line:
  "field_ok f \<Longrightarrow> hf_name (start_field n (field_line f)) = fst f \<and> hf_value (start_field n (field_line f)) = '' '' @ snd f"
  using index_byte_append [of "CHR '':''" "fst f" "'' '' @ snd f"]
  by (auto simp: field_ok_def field_line_def start_field_def)

lemma trim_space_sp: "trim_space (SP # v) = trim_space v"
  by (simp add: trim_space_def is_space_def)

abbreviation name_value :: "header \<Rightarrow> string \<times> string" where
  "name_value h \<equiv> (hf_name h, hf_value h)"

lemma parse_printed:
  "list_all field_ok fs \<Longrightarrow> map name_value (parse_fields hs cur (map field_line fs)) =
     map name_value (flush_field hs cur) @ map (\<lambda>f. (fst f, trim_space (snd f))) fs"
proof (induction fs arbitrary: hs cur)
  case (Cons f fs)
  then have f: "field_ok f" by simp
  let ?hs = "flush_field hs cur"
  have "parse_fields hs cur (map field_line (f # fs)) =
      parse_fields ?hs (Some (start_field (length ?hs + 1) (field_line f))) (map field_line fs)"
    using field_line_ok [OF f] by (simp add: Let_def trim_header_line field_line_starts [OF f] header_line_ok_def)
  with Cons start_field_line [OF f] show ?case by (simp add: flush_field_def [of _ "Some _"] trim_space_sp)
qed simp

lemma header_roundtrip_lemma:
  assumes "list_all field_ok fs" and "fs \<noteq> []"
  shows "map (\<lambda>h. (hf_name h, hf_value h)) (ms_headers (parse_message_headers (crlf_lines (map field_line fs) @ CRLF @ body))) =
       map (\<lambda>f. (fst f, trim_space (snd f))) fs \<and>
     snd (split_message (crlf_lines (map field_line fs) @ CRLF @ body)) = body"
proof -
  have ok: "list_all header_line_ok (map field_line fs)" using assms(1) field_line_ok by (auto simp: list_all_iff)
  from split_message_crlf [OF ok] assms(2)
  have s: "split_message (crlf_lines (map field_line fs) @ CRLF @ body) = (join CRLF (map field_line fs), body)" by simp
  with split_lines_join [OF ok] parse_printed [OF assms(1), of "[]" None] show ?thesis
    by (simp add: parse_message_headers_def parse_header_block_def flush_field_def)
qed

text \<open>
  C29: What is written as a header section is read back: a message of fields with a name free of
  colons, line breaks and leading white space, and one-line values, is split at its first empty
  line, and its fields are parsed to the same names and values, up to white space around the
  values.
\<close>

theorem header_roundtrip:
  assumes "list_all field_ok fs" and "fs \<noteq> []"
  shows "map (\<lambda>h. (hf_name h, hf_value h)) (ms_headers (parse_message_headers (crlf_lines (map field_line fs) @ CRLF @ body))) =
       map (\<lambda>f. (fst f, trim_space (snd f))) fs \<and>
     snd (split_message (crlf_lines (map field_line fs) @ CRLF @ body)) = body"
  by (rule header_roundtrip_lemma [OF assms])

theorem header_roundtrip_witness:
  "map (\<lambda>h. (hf_name h, hf_value h)) (ms_headers (parse_message_headers
     (crlf_lines [''From: a@b.test'', ''Subject:  hi ''] @ CRLF @ ''x'' @ CRLF @ CRLF @ ''y''))) =
   [(''From'', ''a@b.test''), (''Subject'', ''hi'')]"
proof -
  let ?fs = "[(''From'', ''a@b.test''), (''Subject'', '' hi '')]"
  have "list_all field_ok ?fs" by code_simp
  from header_roundtrip [OF this, of "''x'' @ CRLF @ CRLF @ ''y''"]
  have "map (\<lambda>h. (hf_name h, hf_value h)) (ms_headers (parse_message_headers
      (crlf_lines (map field_line ?fs) @ CRLF @ ''x'' @ CRLF @ CRLF @ ''y''))) = map (\<lambda>f. (fst f, trim_space (snd f))) ?fs"
    by simp
  moreover have "map field_line ?fs = [''From: a@b.test'', ''Subject:  hi '']" "trim_space ''a@b.test'' = ''a@b.test''"
    "trim_space '' hi '' = ''hi''" by code_simp+
  ultimately show ?thesis by simp
qed

lemma split_first_crlf:
  assumes "CR \<notin> set pre"
  shows "split_message (pre @ CRLF @ CRLF @ rest) = (pre, rest)"
  using index_str_skip [OF assms, of "[LF, CR, LF]" "CRLF @ CRLF @ rest"]
  by (simp add: split_message_def has_prefix_def)

text \<open>
  Defect: the separator of headers and body is the first empty line only among CRLF lines. A
  message whose header section ends with LF line ends is split at the first CRLF empty line of
  its body instead, so that the lines of the body before it are taken for header fields.
\<close>

theorem body_taken_for_headers:
  assumes "CR \<notin> set hdrs" and "CR \<notin> set part"
  shows "split_message (hdrs @ [LF, LF] @ part @ CRLF @ CRLF @ rest) = (hdrs @ [LF, LF] @ part, rest)"
  using split_first_crlf [of "hdrs @ [LF, LF] @ part" rest] assms by simp

theorem body_taken_for_headers_witness:
  "msg_get (parse_message_headers (''Subject: hi'' @ [LF, LF] @ ''From: ceo@bank.test'' @ CRLF @ CRLF @ ''pay'')) ''From'' = ''ceo@bank.test''"
proof -
  have "fst (split_message (''Subject: hi'' @ [LF, LF] @ ''From: ceo@bank.test'' @ CRLF @ CRLF @ ''pay'')) =
      ''Subject: hi'' @ [LF, LF] @ ''From: ceo@bank.test''"
    by (subst body_taken_for_headers) simp_all
  moreover have "msg_get (set_headers (parse_header_block (''Subject: hi'' @ [LF, LF] @ ''From: ceo@bank.test'')) new_message) ''From'' = ''ceo@bank.test''"
    by code_simp
  ultimately show ?thesis unfolding parse_message_headers_def by simp
qed

end
