(* ===== verification/GrpcServer.thy ===== *)
theory GrpcServer
  imports SessionLog NetIp MessageProps
begin

text \<open>
  The gRPC front end, \<^verbatim>\<open>cmd/mailscript/grpc_server.go\<close>: building the message of a request,
  filtering it, forwarding it through \<^const>\<open>deliver\<close>, the statistics, and the bearer-token guard of
  the listener. The policy engine is the field \<^const>\<open>w_policy\<close> of the world, as in an SMTP session;
  the messages of the generated protobuf code are the records below. The log lines and the
  processing time of a response are left out.
\<close>

section \<open>Requests\<close>

text \<open>The headers are a Go map: of several entries with one key the first counts.\<close>

record grpc_request =
  gq_raw :: string
  gq_headers :: "(string \<times> string) list"
  gq_body :: string
  gq_from :: string
  gq_to :: "string list"
  gq_helo :: string
  gq_client_ip :: string
  gq_forward :: bool

definition header_map :: "(string \<times> string) list \<Rightarrow> string \<Rightarrow> string" where
  "header_map headers name = (case map_of headers name of None \<Rightarrow> [] | Some v \<Rightarrow> v)"

definition header_names :: "(string \<times> string) list \<Rightarrow> string list" where
  "header_names headers = sort (remdups (map fst headers))"

definition prohibited_header :: "string \<Rightarrow> string \<Rightarrow> bool" where
  "prohibited_header name v \<longleftrightarrow>
     name = [] \<or> contains_any name [CR, LF, CHR '':'', NUL] \<or> contains_any v [CR, LF, NUL]"

fun request_header_lines :: "(string \<Rightarrow> string) \<Rightarrow> string list \<Rightarrow> string + string" where
  "request_header_lines hm [] = Inr []"
| "request_header_lines hm (name # names) =
     (if prohibited_header name (hm name) then Inl (''header '' @ go_quote name @ '' contains prohibited characters'')
      else map_sum id (\<lambda>rest. name @ '': '' @ hm name @ CRLF @ rest) (request_header_lines hm names))"

definition grpc_message :: "grpc_request option \<Rightarrow> string + string" where
  "grpc_message req =
     (case req of
        None \<Rightarrow> Inl ''missing request''
      | Some q \<Rightarrow>
          if gq_client_ip q \<noteq> [] \<and> parse_ip (gq_client_ip q) = None then Inl ''invalid client IP''
          else if gq_raw q \<noteq> []
          then if gq_headers q \<noteq> [] \<or> gq_body q \<noteq> []
               then Inl ''raw_message cannot be combined with headers or body'' else Inr (gq_raw q)
          else map_sum id (\<lambda>hs. hs @ CRLF @ gq_body q)
                 (request_header_lines (header_map (gq_headers q)) (header_names (gq_headers q))))"

section \<open>Processing\<close>

record grpc_response =
  gr_removed :: "string list"
  gr_message :: string
  gr_code :: int
  gr_forwarded :: bool
  gr_accepted :: bool
  gr_reason :: string
  gr_actions :: "string list"
  gr_modified :: "(string \<times> string) list"

record server_stats =
  sv_processed :: int
  sv_accepted :: int
  sv_rejected :: int
  sv_bytes :: int

definition refusal :: "int \<Rightarrow> string \<Rightarrow> grpc_response" where
  "refusal code reason = \<lparr>gr_removed = [], gr_message = [], gr_code = code, gr_forwarded = False, gr_accepted = False,
     gr_reason = reason, gr_actions = [], gr_modified = []\<rparr>"

text \<open>The session that delivers for a request; it has no client connection.\<close>

definition api_session :: "grpc_request \<Rightarrow> string list \<Rightarrow> string \<Rightarrow> session" where
  "api_session q actions raw = (new_session (gq_client_ip q) [])\<lparr>s_open := False, s_actions := actions,
     s_helo := gq_helo q, s_from := gq_from q, s_recipients := gq_to q, s_data := raw\<rparr>"

definition forward_code :: "go_error \<Rightarrow> int" where
  "forward_code err =
     (case err of
        UpstreamError code _ _ \<Rightarrow> if 400 \<le> code \<and> code \<le> 599 then code else 451
      | PlainError _ \<Rightarrow> 451)"

text \<open>The outcome of the forwarding step: accepted, reason, code, forwarded, the message and the session.\<close>

definition forward_request ::
  "world \<Rightarrow> proxy \<Rightarrow> grpc_request \<Rightarrow> delivery_disposition \<Rightarrow> string list \<Rightarrow> string \<Rightarrow>
     (bool \<times> string \<times> int \<times> bool) \<times> string \<times> session option" where
  "forward_request w px q d actions raw0 =
     (if px_server px = [] then
        ((False, ''Upstream forwarding requested but no upstream is configured'', dd_code d, False), raw0, None)
      else
        let raw = (if dd_quarantine d then prepend_header raw0 quarantine_header ''true'' else raw0);
            s = api_session q actions raw
        in if validate_envelope (s_from s) (s_recipients s) \<noteq> None
           then ((False, ''Invalid upstream envelope'', dd_code d, False), raw, Some s)
           else (case deliver w px s of
               (Some err, s1) \<Rightarrow>
                 ((False, ''Upstream forward failed: '' @ go_error_text err, forward_code err, False), raw, Some s1)
             | (None, s1) \<Rightarrow> ((True, dd_reason d, dd_code d, True), raw, Some s1)))"

definition count_request :: "string \<Rightarrow> bool \<Rightarrow> server_stats \<Rightarrow> server_stats" where
  "count_request raw accepted st =
     st\<lparr>sv_processed := sv_processed st + 1, sv_bytes := sv_bytes st + int (length raw),
        sv_accepted := sv_accepted st + (if accepted then 1 else 0),
        sv_rejected := sv_rejected st + (if accepted then 0 else 1)\<rparr>"

definition decide_request ::
  "world \<Rightarrow> proxy \<Rightarrow> grpc_request \<Rightarrow> policy_output \<Rightarrow> string \<Rightarrow> (bool \<times> string \<times> int \<times> bool) \<times> string \<times> session option" where
  "decide_request w px q out raw =
     (let d = policy_disposition (po_actions out) (px_forward_quarantine px \<or> px_adapter px \<noteq> None);
          unsupported = unsupported_delivery_action (po_actions out);
          blocked = (gq_forward q \<and> dd_code d = 250 \<and> unsupported \<noteq> [] \<and> px_adapter px = None);
          accepted = (dd_code d = 250 \<and> \<not> blocked);
          reason = (if blocked then ''Delivery action requires a host adapter: '' @ unsupported else dd_reason d)
      in if accepted \<and> gq_forward q then forward_request w px q d (po_actions out) raw
         else ((accepted, reason, dd_code d, False), raw, None))"

definition process_message ::
  "world \<Rightarrow> proxy \<Rightarrow> grpc_request option \<Rightarrow> server_stats \<Rightarrow> grpc_response \<times> session option \<times> server_stats" where
  "process_message w px req st =
     (case grpc_message req of
        Inl e \<Rightarrow> (refusal 550 (''Invalid message: '' @ e), None, st)
      | Inr raw0 \<Rightarrow>
          (case req of
             None \<Rightarrow> (refusal 550 [], None, st)
           | Some q \<Rightarrow>
               let raw = strip_header raw0 quarantine_header in
               (case w_policy w \<lparr>pi_message = raw, pi_from = gq_from q, pi_to = gq_to q,
                                pi_helo = gq_helo q, pi_client_ip = gq_client_ip q\<rparr> of
                  PolicyParseError \<Rightarrow> (refusal 550 ''Invalid RFC 822 message'', None, st)
                | PolicyScriptError \<Rightarrow> (refusal 451 ''Script error'', None, st)
                | PolicyDone out \<Rightarrow>
                    (case decide_request w px q out (apply_header_changes raw (po_removed out) (po_added out)) of
                       ((accepted, reason, code, forwarded), raw1, so) \<Rightarrow>
                         (\<lparr>gr_removed = po_removed out, gr_message = raw1,
                           gr_code = (if \<not> accepted \<and> code = 250 then 451 else code), gr_forwarded = forwarded,
                           gr_accepted = accepted, gr_reason = reason, gr_actions = po_actions out,
                           gr_modified = po_added out\<rparr>, so, count_request raw1 accepted st)))))"

section \<open>The guard of the listener\<close>

definition is_loopback_addr :: "string \<Rightarrow> bool" where
  "is_loopback_addr addr \<longleftrightarrow> addr = ''127.0.0.1'' \<or> addr = ''::1'' \<or> addr = ''localhost'' \<or>
     (case parse_ip addr of None \<Rightarrow> False | Some ip \<Rightarrow> is_loopback ip)"

text \<open>
  A listener that was opened has the token its interceptors check, or none. \<open>listens\<close> is the result
  of \<^verbatim>\<open>net.Listen\<close>.
\<close>

definition new_grpc_server :: "string \<Rightarrow> int \<Rightarrow> string \<Rightarrow> bool \<Rightarrow> string + string option" where
  "new_grpc_server listen_addr port auth_token listens =
     (if auth_token = [] \<and> \<not> is_loopback_addr listen_addr
      then Inl (''refusing to start gRPC server on '' @ listen_addr @ '':'' @ show_int port @
        '': no auth token configured (--grpc-auth-token or MAILSCRIPT_GRPC_TOKEN) and the address is not loopback-only'')
      else if \<not> listens then Inl ''failed to start gRPC listener''
      else Inr (if auth_token \<noteq> [] then Some auth_token else None))"

text \<open>\<open>md\<close>: the values of the metadata key \<^verbatim>\<open>authorization\<close>, \<^const>\<open>None\<close> without any metadata.\<close>

definition authorize :: "string \<Rightarrow> string list option \<Rightarrow> string option" where
  "authorize token md =
     (case md of
        None \<Rightarrow> Some ''missing authorization metadata''
      | Some [] \<Rightarrow> Some ''missing authorization header''
      | Some (presented # _) \<Rightarrow>
          if \<not> has_prefix presented ''Bearer '' then Some ''authorization header must use the Bearer scheme''
          else if trim_prefix presented ''Bearer '' \<noteq> token then Some ''invalid token'' else None)"

text \<open>Both interceptors: the handler runs only if the call is authorized.\<close>

definition intercept :: "string \<Rightarrow> string list option \<Rightarrow> 'a \<Rightarrow> string + 'a" where
  "intercept token md handler = (case authorize token md of Some e \<Rightarrow> Inl e | None \<Rightarrow> Inr handler)"

definition grpc_call :: "string option \<Rightarrow> string list option \<Rightarrow> 'a \<Rightarrow> string + 'a" where
  "grpc_call server md handler = (case server of None \<Rightarrow> Inr handler | Some token \<Rightarrow> intercept token md handler)"

end
