(* ===== verification/GrpcProps.thy ===== *)
theory GrpcProps
  imports GrpcServer SessionProps
begin

text \<open>
  The gRPC front end forwards at most once and reports it, builds messages that are parsed back, and
  answers unauthenticated calls on loopback listeners only.
\<close>

section \<open>Requests are forwarded once\<close>

definition api_commits :: "world \<Rightarrow> session option \<Rightarrow> nat" where
  "api_commits w so = (case so of None \<Rightarrow> 0 | Some s \<Rightarrow> commits w s)"

lemma api_session_ledger: "ledger 0 w (api_session q acts raw)" "open_ok (api_session q acts raw)"
  "s_accepted (api_session q acts raw) = 0" "commits w (api_session q acts raw) = 0"
  by (simp_all add: api_session_def new_session_def ledger_def open_ok_def commits_def)

lemma api_deliver:
  assumes "deliver w px (api_session q acts raw) = (err, s)"
  shows "commits w s = (if err = None then 1 else 0)"
proof -
  have "ledger (owed err) w s" using deliver_books [OF assms] api_session_ledger by blast
  moreover have "s_accepted s = 0"
    using deliver_frame [OF assms] api_session_ledger(3) by (simp add: same_message_def)
  ultimately show ?thesis by (simp add: ledger_def owed_def)
qed

lemma forward_code_range: "400 \<le> forward_code e" "forward_code e \<le> 599"
  by (auto simp: forward_code_def split: go_error.split)

definition outcome_ok :: "world \<Rightarrow> bool \<Rightarrow> (bool \<times> string \<times> int \<times> bool) \<times> string \<times> session option \<Rightarrow> bool" where
  "outcome_ok w wanted o1 \<longleftrightarrow> (case o1 of ((accepted, reason, code, forwarded), raw, so) \<Rightarrow>
     (accepted \<longrightarrow> code = 250) \<and> (code = 250 \<or> 400 \<le> code \<and> code \<le> 599) \<and>
     forwarded = (accepted \<and> wanted) \<and> api_commits w so = (if forwarded then 1 else 0))"

lemma forward_request_ok: "dd_code d = 250 \<Longrightarrow> outcome_ok w True (forward_request w px q d acts raw)"
  using api_deliver forward_code_range
  by (auto simp: forward_request_def outcome_ok_def Let_def api_commits_def api_session_ledger(4)
      split: prod.split option.split)

lemma policy_code: "dd_code (policy_disposition acts fq) = 250 \<or>
    400 \<le> dd_code (policy_disposition acts fq) \<and> dd_code (policy_disposition acts fq) \<le> 599"
  by (cases "List.map_filter (decides fq) acts")
    (auto simp: policy_disposition_def policy_loop_decides dest!: map_filter_head decides_code)

lemma decide_request_ok: "outcome_ok w (gq_forward q) (decide_request w px q out raw)"
proof -
  define d where "d = policy_disposition (po_actions out) (px_forward_quarantine px \<or> px_adapter px \<noteq> None)"
  define blocked where "blocked = (gq_forward q \<and> dd_code d = 250 \<and> unsupported_delivery_action (po_actions out) \<noteq> [] \<and> px_adapter px = None)"
  have code: "dd_code d = 250 \<or> 400 \<le> dd_code d \<and> dd_code d \<le> 599" unfolding d_def by (rule policy_code)
  show ?thesis
  proof (cases "dd_code d = 250 \<and> \<not> blocked \<and> gq_forward q")
    case True
    then have "decide_request w px q out raw = forward_request w px q d (po_actions out) raw"
      unfolding decide_request_def Let_def d_def [symmetric] blocked_def [symmetric] by simp
    with True forward_request_ok [of d w px q "po_actions out" raw] show ?thesis by simp
  next
    case False
    then have "decide_request w px q out raw = ((dd_code d = 250 \<and> \<not> blocked,
        if blocked then ''Delivery action requires a host adapter: '' @ unsupported_delivery_action (po_actions out) else dd_reason d,
        dd_code d, False), raw, None)"
      unfolding decide_request_def Let_def d_def [symmetric] blocked_def [symmetric] by auto
    with False code show ?thesis by (auto simp: outcome_ok_def api_commits_def)
  qed
qed

text \<open>A call is decided if its message could be built and the policy ran to its end on it.\<close>

definition decided_by :: "world \<Rightarrow> grpc_request option \<Rightarrow> policy_output option" where
  "decided_by w req =
     (case (req, grpc_message req) of
        (Some q, Inr raw) \<Rightarrow>
          (case w_policy w \<lparr>pi_message = strip_header raw quarantine_header, pi_from = gq_from q, pi_to = gq_to q,
               pi_helo = gq_helo q, pi_client_ip = gq_client_ip q\<rparr> of
             PolicyDone out \<Rightarrow> Some out | _ \<Rightarrow> None)
      | _ \<Rightarrow> None)"

text \<open>
  C27: Every answer of the service is consistent: accepted exactly with code 250, otherwise with a code
  from 400 to 599; reported as forwarded exactly if it was accepted and forwarding was asked for,
  and then, and only then, exactly one backend transaction was committed or one adapter request
  acknowledged. A call the policy decided is counted once as processed with the bytes of the message in the answer, and
  once as accepted or else once as rejected, as the answer says; any other call is refused, forwards nothing and is not counted.
\<close>

theorem grpc_answers_consistent:
  "case process_message w px req st of (r, so, st') \<Rightarrow>
     (gr_accepted r \<longleftrightarrow> gr_code r = 250) \<and> gr_code r \<in> {250} \<union> {400..599} \<and>
     (gr_forwarded r \<longleftrightarrow> gr_accepted r \<and> (case req of None \<Rightarrow> False | Some q \<Rightarrow> gq_forward q)) \<and>
     api_commits w so = (if gr_forwarded r then 1 else 0) \<and>
     (case decided_by w req of
        Some out \<Rightarrow> gr_actions r = po_actions out \<and> sv_processed st' = sv_processed st + 1 \<and>
          sv_bytes st' = sv_bytes st + int (length (gr_message r)) \<and>
          sv_accepted st' = sv_accepted st + (if gr_accepted r then 1 else 0) \<and>
          sv_rejected st' = sv_rejected st + (if gr_accepted r then 0 else 1)
      | None \<Rightarrow> \<not> gr_accepted r \<and> so = None \<and> st' = st)"
proof -
  have none: "api_commits w None = 0" by (simp add: api_commits_def)
  show ?thesis
  proof (cases "grpc_message req")
    case (Inl e)
    then show ?thesis by (simp add: process_message_def refusal_def none decided_by_def split: option.split)
  next
    case (Inr raw)
    then obtain q where q: "req = Some q" by (cases req) (auto simp: grpc_message_def)
    let ?raw = "strip_header raw quarantine_header"
    let ?in = "\<lparr>pi_message = ?raw, pi_from = gq_from q, pi_to = gq_to q, pi_helo = gq_helo q, pi_client_ip = gq_client_ip q\<rparr>"
    show ?thesis
    proof (cases "w_policy w ?in")
      case (PolicyDone out)
      obtain a reason code f r1 so where
        d: "decide_request w px q out (apply_header_changes ?raw (po_removed out) (po_added out)) = ((a, reason, code, f), r1, so)"
        by (metis prod.exhaust)
      with decide_request_ok [of w q px out "apply_header_changes ?raw (po_removed out) (po_added out)"]
      have "a \<longrightarrow> code = 250" "code = 250 \<or> 400 \<le> code \<and> code \<le> 599" "f = (a \<and> gq_forward q)" "api_commits w so = (if f then 1 else 0)"
        by (simp_all add: outcome_ok_def)
      with Inr q PolicyDone d show ?thesis by (auto simp: process_message_def Let_def count_request_def decided_by_def)
    qed (use Inr q in \<open>simp_all add: process_message_def refusal_def none Let_def decided_by_def\<close>)
  qed
qed

section \<open>Messages built from a request\<close>

lemma request_lines:
  "request_header_lines hm names = Inr hs \<Longrightarrow>
     hs = crlf_lines (map (\<lambda>n. field_line (n, hm n)) names) \<and> (\<forall>n \<in> set names. \<not> prohibited_header n (hm n))"
proof (induction names arbitrary: hs)
  case (Cons n names)
  then show ?case
    by (cases "request_header_lines hm names") (auto simp: crlf_lines_def field_line_def split: if_splits)
qed (simp add: crlf_lines_def)

lemma allowed_field_ok: "\<not> prohibited_header n v \<Longrightarrow> \<not> continues n \<Longrightarrow> field_ok (n, v)"
  by (auto simp: prohibited_header_def contains_any_iff field_ok_def line_ok_def)

text \<open>
  A message the service builds from the headers of a request contains exactly these header fields,
  sorted by name: parsing it yields every name of the request once with its value, up to the white
  space around it, and the body of the request. No value can open a field of its own. Names that
  start with white space, which the service does not refuse, are excluded.
\<close>

theorem grpc_message_roundtrip:
  assumes "grpc_message (Some q) = Inr raw" and "gq_raw q = []" and "gq_headers q \<noteq> []"
    and "list_all (\<lambda>n. \<not> continues n) (map fst (gq_headers q))"
  shows "map (\<lambda>h. (hf_name h, hf_value h)) (ms_headers (parse_message_headers raw)) =
      map (\<lambda>n. (n, trim_space (header_map (gq_headers q) n))) (header_names (gq_headers q)) \<and>
    set (header_names (gq_headers q)) = set (map fst (gq_headers q)) \<and> distinct (header_names (gq_headers q)) \<and>
    snd (split_message raw) = gq_body q"
proof -
  let ?names = "header_names (gq_headers q)" and ?hm = "header_map (gq_headers q)"
  let ?fs = "map (\<lambda>n. (n, ?hm n)) ?names"
  have set: "set ?names = set (map fst (gq_headers q))" "distinct ?names" by (simp_all add: header_names_def)
  from assms(1,2) have "map_sum id (\<lambda>hs. hs @ CRLF @ gq_body q) (request_header_lines ?hm ?names) = Inr raw"
    by (simp add: grpc_message_def split: if_splits)
  then obtain hs where hs: "request_header_lines ?hm ?names = Inr hs" "raw = hs @ CRLF @ gq_body q"
    by (cases "request_header_lines ?hm ?names") simp_all
  note lines = request_lines [OF hs(1)]
  with set(1) assms(4) have ok: "list_all field_ok ?fs" by (auto simp: list_all_iff intro!: allowed_field_ok)
  have "set ?names \<noteq> {}" using set(1) assms(3) by simp
  then have ne: "?fs \<noteq> []" by auto
  have "raw = crlf_lines (map field_line ?fs) @ CRLF @ gq_body q" using hs(2) lines by (simp add: comp_def)
  with header_roundtrip_lemma [OF ok ne, of "gq_body q"] set show ?thesis by (simp add: comp_def)
qed

definition demo_request :: grpc_request where
  "demo_request = \<lparr>gq_raw = [], gq_headers = [(''To'', '' b@b.test''), (''From'', ''a@a.test''), (''To'', ''x'')], gq_body = ''hi'',
     gq_from = ''a@a.test'', gq_to = [''b@b.test''], gq_helo = ''h'', gq_client_ip = [], gq_forward = True\<rparr>"

theorem grpc_message_roundtrip_witness:
  "map (\<lambda>h. (hf_name h, hf_value h)) (ms_headers (parse_message_headers
     (''From: a@a.test'' @ CRLF @ ''To:  b@b.test'' @ CRLF @ CRLF @ ''hi''))) = [(''From'', ''a@a.test''), (''To'', ''b@b.test'')]"
proof -
  have "grpc_message (Some demo_request) = Inr (''From: a@a.test'' @ CRLF @ ''To:  b@b.test'' @ CRLF @ CRLF @ ''hi'')"
    "gq_raw demo_request = []" "gq_headers demo_request \<noteq> []" "list_all (\<lambda>n. \<not> continues n) (map fst (gq_headers demo_request))"
    by code_simp+
  from grpc_message_roundtrip [OF this] have "map (\<lambda>h. (hf_name h, hf_value h)) (ms_headers (parse_message_headers
      (''From: a@a.test'' @ CRLF @ ''To:  b@b.test'' @ CRLF @ CRLF @ ''hi''))) =
      map (\<lambda>n. (n, trim_space (header_map (gq_headers demo_request) n))) (header_names (gq_headers demo_request))"
    by simp
  moreover have "map (\<lambda>n. (n, trim_space (header_map (gq_headers demo_request) n))) (header_names (gq_headers demo_request)) =
      [(''From'', ''a@a.test''), (''To'', ''b@b.test'')]" by code_simp
  ultimately show ?thesis by simp
qed

section \<open>The guard\<close>

lemma authorize_ok: "authorize token md = None \<longleftrightarrow> (\<exists>rest. md = Some ((''Bearer '' @ token) # rest))"
  by (auto simp: authorize_def trim_prefix_def has_prefix_iff split: option.splits list.splits)

text \<open>
  C28: A call reaches a handler exactly if the listener could be opened and either a token is
  configured and the first authorization value of the call is the bearer token, byte for byte, or
  none is configured and the listener is bound to a loopback address.
\<close>

theorem grpc_calls_guarded:
  "(\<exists>server. new_grpc_server addr port token listens = Inr server \<and> grpc_call server md handler = Inr reply) \<longleftrightarrow>
     listens \<and> reply = handler \<and>
     (if token = [] then is_loopback_addr addr else \<exists>rest. md = Some ((''Bearer '' @ token) # rest))"
proof (cases "token = []")
  case False
  have "grpc_call (Some token) md handler = Inr reply \<longleftrightarrow> reply = handler \<and> (\<exists>rest. md = Some ((''Bearer '' @ token) # rest))"
    using authorize_ok [of token md] by (auto simp: grpc_call_def intercept_def split: option.splits)
  with False show ?thesis by (auto simp: new_grpc_server_def)
qed (auto simp: new_grpc_server_def grpc_call_def)

end
