(* ===== verification/Clamd.thy ===== *)
theory Clamd
  imports GoStrings "HOL-Library.Word"
begin

text \<open>
  The client of the virus scanner, \<^verbatim>\<open>cmd/mailscript/clamav.go\<close>: the INSTREAM command with its
  length-prefixed chunks, and the reply. The connection is a parameter: whether it could be
  opened and written to, and the bytes the scanner sends before it closes the connection.
\<close>

record clam_response =
  cl_virus_found :: bool
  cl_signature :: string
  cl_status :: string

definition clamd_chunk_size :: nat where "clamd_chunk_size = 8192"

section \<open>Sending\<close>

text \<open>\<^verbatim>\<open>binary.BigEndian.PutUint32\<close>.\<close>

definition be32 :: "32 word \<Rightarrow> string" where
  "be32 w = map (\<lambda>k. char_of (unat (take_bit 8 (drop_bit k w)))) [24, 16, 8, 0]"

function chunks_from :: "string \<Rightarrow> string list" where
  "chunks_from message =
     (if message = [] then [] else take clamd_chunk_size message # chunks_from (drop clamd_chunk_size message))"
  by pat_completeness auto
termination by (relation "measure length") (auto simp: clamd_chunk_size_def)

declare chunks_from.simps [simp del]

lemma chunks_from_Nil [simp]: "chunks_from [] = []"
  by (subst chunks_from.simps) simp

text \<open>The writes, in order; the first that fails ends the sending.\<close>

definition instream_writes :: "string \<Rightarrow> string list" where
  "instream_writes message =
     (''zINSTREAM'' @ [NUL]) # concat (map (\<lambda>chunk. [be32 (word_of_nat (length chunk)), chunk]) (chunks_from message)) @ [be32 0]"

section \<open>The reply\<close>

text \<open>
  \<^verbatim>\<open>ReadString\<close> collects bytes until the delimiter, however many; the size of the buffered reader
  is no limit.
\<close>

definition read_clamd_reply :: "string \<Rightarrow> string option" where
  "read_clamd_reply sent =
     (case index_byte NUL sent of
        None \<Rightarrow> None | Some i \<Rightarrow> Some (trim_right_set (take (Suc i) sent) [NUL, CR, LF]))"

definition parse_clamd_reply :: "string \<Rightarrow> string + clam_response" where
  "parse_clamd_reply line =
     (if \<not> has_prefix line ''stream: '' then Inl (''unrecognized clamd reply: '' @ go_quote line)
      else
        let body = trim_space (trim_prefix line ''stream: '') in
        if body = ''OK'' then Inr \<lparr>cl_virus_found = False, cl_signature = [], cl_status = ''OK''\<rparr>
        else if has_suffix body ''FOUND'' then
          let signature = trim_space (trim_suffix body ''FOUND'') in
          if signature = [] then Inl (''clamd FOUND reply had no signature name: '' @ go_quote line)
          else Inr \<lparr>cl_virus_found = True, cl_signature = signature, cl_status = ''FOUND''\<rparr>
        else if has_suffix body ''ERROR'' then Inl (''clamd error: '' @ trim_space (trim_suffix body ''ERROR''))
        else Inl (''unrecognized clamd reply: '' @ go_quote line))"

record clamd =
  cd_dials :: bool
  cd_accepts :: "string list \<Rightarrow> bool"
  cd_reply :: "string \<Rightarrow> string"

definition clamav_scan :: "clamd \<Rightarrow> int \<Rightarrow> string \<Rightarrow> string + clam_response" where
  "clamav_scan peer max_bytes message =
     (if max_bytes > 0 \<and> int (length message) > max_bytes
      then Inl (''message exceeds clamav limit of '' @ show_int max_bytes @ '' bytes'')
      else if \<not> cd_dials peer then Inl ''dial clamd''
      else if \<not> cd_accepts peer (instream_writes message) then Inl ''send to clamd''
      else (case read_clamd_reply (cd_reply peer message) of
          None \<Rightarrow> Inl ''read clamd reply''
        | Some line \<Rightarrow> parse_clamd_reply line))"

section \<open>What the scanner receives\<close>

text \<open>A reader of the INSTREAM protocol: the scanned bytes and what follows the final zero-length chunk.\<close>

definition be32_value :: "string \<Rightarrow> nat" where
  "be32_value s = foldl (\<lambda>a c. 256 * a + char_code c) 0 s"

function instream_decode :: "string \<Rightarrow> (string \<times> string) option" where
  "instream_decode s =
     (if length s < 4 then None
      else let n = be32_value (take 4 s); rest = drop 4 s in
        if n = 0 then Some ([], rest)
        else if length rest < n then None
        else map_option (map_prod ((@) (take n rest)) id) (instream_decode (drop n rest)))"
  by pat_completeness auto
termination by (relation "measure length") auto

declare instream_decode.simps [simp del]

lemma be32_value_be32:
  assumes "n < 2 ^ 32"
  shows "be32_value (be32 (word_of_nat n)) = n"
proof -
  have d: "unat (take_bit 8 (drop_bit k (word_of_nat n :: 32 word))) = n div 2 ^ k mod 256" for k
  proof -
    have "unat (word_of_nat n :: 32 word) = n" using assms by (simp add: unsigned_of_nat take_bit_nat_eq_self)
    moreover have "n mod 4294967296 = n" using assms by simp
    ultimately show ?thesis by (simp add: unsigned_take_bit_eq unsigned_drop_bit_eq take_bit_nat_def drop_bit_nat_def)
  qed
  have "be32_value (be32 (word_of_nat n)) =
      256 * (256 * (256 * (n div 2 ^ 24 mod 256) + n div 2 ^ 16 mod 256) + n div 2 ^ 8 mod 256) + n mod 256"
    by (simp add: be32_value_def be32_def d [of 24] d [of 16] d [of 8] d [of 0, simplified] char_code_def)
  also have "\<dots> = n"
  proof -
    define a where "a = n div 2 ^ 8" define b where "b = a div 2 ^ 8" define c where "c = b div 2 ^ 8"
    have "n div 2 ^ 16 = b" "n div 2 ^ 24 = c" by (simp_all add: a_def b_def c_def div_mult2_eq [symmetric])
    moreover have "c < 256" using assms by (simp add: a_def b_def c_def div_mult2_eq [symmetric] less_mult_imp_div_less)
    moreover have "n = 256 * a + n mod 256" "a = 256 * b + a mod 256" "b = 256 * c + b mod 256"
      by (simp_all add: a_def b_def c_def)
    ultimately show ?thesis unfolding a_def [symmetric] by simp
  qed
  finally show ?thesis .
qed

lemma length_be32 [simp]: "length (be32 w) = 4"
  by (simp add: be32_def)

definition chunk_bytes :: "string \<Rightarrow> string" where
  "chunk_bytes message = concat (concat (map (\<lambda>chunk. [be32 (word_of_nat (length chunk)), chunk]) (chunks_from message)))"

lemma decode_chunk:
  assumes "chunk \<noteq> []" and "length chunk < 2 ^ 32"
  shows "instream_decode (be32 (word_of_nat (length chunk)) @ chunk @ s) =
    map_option (map_prod ((@) chunk) id) (instream_decode s)"
  using assms by (subst instream_decode.simps) (simp add: be32_value_be32)

lemma decode_end: "instream_decode (be32 0 @ s) = Some ([], s)"
  using be32_value_be32 [of 0] by (subst instream_decode.simps) simp

lemma decode_message: "instream_decode (chunk_bytes message @ be32 0 @ s) = Some (message, s)"
proof (induction message rule: chunks_from.induct)
  case (1 message)
  show ?case
  proof (cases "message = []")
    case True
    then show ?thesis by (simp add: chunk_bytes_def decode_end)
  next
    case False
    let ?c = "take clamd_chunk_size message" and ?r = "drop clamd_chunk_size message"
    have c: "?c \<noteq> []" "length ?c < 2 ^ 32" using False by (simp_all add: clamd_chunk_size_def)
    have "chunk_bytes message = be32 (word_of_nat (length ?c)) @ ?c @ chunk_bytes ?r"
      using False by (subst chunk_bytes_def, subst chunks_from.simps) (simp add: chunk_bytes_def)
    with decode_chunk [OF c] 1 [OF False] show ?thesis by simp
  qed
qed

text \<open>
  What is written to the scanner is the INSTREAM command and then exactly the message, whatever
  its length, in chunks whose prefixes give their lengths, ended by one empty chunk.
\<close>

theorem instream_roundtrip:
  "\<exists>stream. concat (instream_writes message) = ''zINSTREAM'' @ [NUL] @ stream \<and>
     (\<forall>s. instream_decode (stream @ s) = Some (message, s)) \<and> list_all (\<lambda>c. length c \<le> 8192) (chunks_from message)"
proof (intro exI conjI)
  show "concat (instream_writes message) = ''zINSTREAM'' @ [NUL] @ (chunk_bytes message @ be32 0)"
    by (simp add: instream_writes_def chunk_bytes_def)
  show "\<forall>s. instream_decode ((chunk_bytes message @ be32 0) @ s) = Some (message, s)"
    using decode_message by simp
  show "list_all (\<lambda>c. length c \<le> 8192) (chunks_from message)"
    by (induction message rule: chunks_from.induct) (subst chunks_from.simps, simp add: clamd_chunk_size_def)
qed

text \<open>
  The scan fails closed: a message is reported clean exactly if it is within the limit, was sent
  completely, and the reply up to its first NUL is \<^verbatim>\<open>stream: OK\<close> up to white space; every
  other reply is an error or a detection with a signature name. Defect: the size of the reply is
  not bounded, as the comments of the code claim: any number of bytes in front of the NUL is
  collected.
\<close>

theorem clamav_fails_closed:
  "((\<exists>r. clamav_scan peer max_bytes message = Inr r \<and> \<not> cl_virus_found r) \<longleftrightarrow>
     (max_bytes \<le> 0 \<or> int (length message) \<le> max_bytes) \<and> cd_dials peer \<and> cd_accepts peer (instream_writes message) \<and>
     (\<exists>line. read_clamd_reply (cd_reply peer message) = Some line \<and> has_prefix line ''stream: '' \<and>
        trim_space (drop 8 line) = ''OK'')) \<and>
   read_clamd_reply (replicate n CHR ''x'' @ [NUL]) = Some (replicate n CHR ''x'')"
proof
  have p: "(\<exists>r. parse_clamd_reply line = Inr r \<and> \<not> cl_virus_found r) \<longleftrightarrow>
      has_prefix line ''stream: '' \<and> trim_space (drop 8 line) = ''OK''" for line
    by (auto simp: parse_clamd_reply_def Let_def trim_prefix_def eval_nat_numeral)
  show "(\<exists>r. clamav_scan peer max_bytes message = Inr r \<and> \<not> cl_virus_found r) \<longleftrightarrow>
     (max_bytes \<le> 0 \<or> int (length message) \<le> max_bytes) \<and> cd_dials peer \<and> cd_accepts peer (instream_writes message) \<and>
     (\<exists>line. read_clamd_reply (cd_reply peer message) = Some line \<and> has_prefix line ''stream: '' \<and>
        trim_space (drop 8 line) = ''OK'')"
    using p by (auto simp: clamav_scan_def split: option.split)
  have "index_byte NUL (replicate n CHR ''x'' @ NUL # []) = Some n"
    using index_byte_append [of NUL "replicate n CHR ''x''" "[]"] by simp
  moreover have "trim_right_set (replicate n CHR ''x'' @ [NUL]) [NUL, CR, LF] = replicate n CHR ''x''"
    by (cases n) (simp_all add: trim_right_set_def rev_replicate replicate_append_same)
  ultimately show "read_clamd_reply (replicate n CHR ''x'' @ [NUL]) = Some (replicate n CHR ''x'')"
    by (simp add: read_clamd_reply_def)
qed

end
