(* ===== verification/DomainNames.thy ===== *)
theory DomainNames
  imports GoStrings
begin

text \<open>
  Domain names as policies compare them, \<^verbatim>\<open>pkg/rules/domain.go\<close>: organizational domains, subdomains,
  the folding of look-alike characters and the edit distance. The public suffix list is the
  parameter \<open>org\<close> (\<^const>\<open>None\<close> where \<^verbatim>\<open>EffectiveTLDPlusOne\<close> has an error) and \<open>suffix\<close>. Look-alikes are compared
  rune by rune, so there a string is the list of its code points; the case mapping and the white
  space of Go's \<^verbatim>\<open>unicode\<close> tables are the parameters \<open>lower\<close> and \<open>space\<close>. The scripts of a name are in
  the theory \<open>Advice\<close>; the conversions of \<^verbatim>\<open>idna\<close> are not modelled.
\<close>

section \<open>Organizational domains\<close>

definition plain_host :: "string \<Rightarrow> string" where
  "plain_host host = to_lower (trim_suffix (trim_space host) ''.'')"

definition registered_domain :: "(string \<Rightarrow> string option) \<Rightarrow> string \<Rightarrow> string" where
  "registered_domain org host0 =
     (let host = plain_host host0 in
      if host = [] then [] else (case org host of None \<Rightarrow> host | Some etld1 \<Rightarrow> etld1))"

definition public_suffix :: "(string \<Rightarrow> string) \<Rightarrow> string \<Rightarrow> string" where
  "public_suffix suffix host0 = (let host = plain_host host0 in if host = [] then [] else suffix host)"

definition same_org_domain :: "(string \<Rightarrow> string option) \<Rightarrow> string \<Rightarrow> string \<Rightarrow> bool" where
  "same_org_domain org a b \<longleftrightarrow> registered_domain org a \<noteq> [] \<and> registered_domain org a = registered_domain org b"

definition is_subdomain_of :: "string \<Rightarrow> string \<Rightarrow> bool" where
  "is_subdomain_of host0 parent0 =
     (let host = plain_host host0; parent = plain_host parent0 in
      if host = [] \<or> parent = [] then False else host = parent \<or> has_suffix host (''.'' @ parent))"

section \<open>Look-alikes\<close>

type_synonym runes = "nat list"

definition confusables :: "(nat \<times> nat) list" where
  "confusables = [
    (0x0430, 0x61), (0x1D00, 0x61), (0x0251, 0x61), (0x03B1, 0x61), (0xFF41, 0x61),
    (0x044C, 0x62), (0x042C, 0x62), (0xFF42, 0x62), (0x1E05, 0x62),
    (0x0441, 0x63), (0x03F2, 0x63), (0x1D04, 0x63), (0xFF43, 0x63),
    (0x0501, 0x64), (0x217E, 0x64), (0xFF44, 0x64),
    (0x0435, 0x65), (0x04BD, 0x65), (0x1D07, 0x65), (0xFF45, 0x65), (0x0451, 0x65),
    (0xFF46, 0x66), (0x1E1F, 0x66),
    (0x0261, 0x67), (0x0581, 0x67), (0xFF47, 0x67),
    (0x04BB, 0x68), (0xFF48, 0x68), (0x1E25, 0x68),
    (0x0456, 0x69), (0x0131, 0x69), (0x0269, 0x69), (0xFF49, 0x69), (0x2170, 0x69),
    (0x006C, 0x69), (0x217C, 0x69), (0xFF4C, 0x69), (0x04CF, 0x69), (0x0196, 0x69), (0x0031, 0x69), (0x007C, 0x69),
    (0x03F3, 0x6A), (0x0458, 0x6A), (0xFF4A, 0x6A),
    (0x03BA, 0x6B), (0xFF4B, 0x6B),
    (0x043C, 0x6D), (0xFF4D, 0x6D), (0x217F, 0x6D),
    (0x043F, 0x6E), (0xFF4E, 0x6E), (0x0274, 0x6E),
    (0x043E, 0x6F), (0x03BF, 0x6F), (0x03C3, 0x6F), (0xFF4F, 0x6F), (0x1D0F, 0x6F), (0x0030, 0x6F),
    (0x0440, 0x70), (0x03C1, 0x70), (0xFF50, 0x70),
    (0x051B, 0x71), (0xFF51, 0x71),
    (0x0433, 0x72), (0xFF52, 0x72), (0xAB47, 0x72),
    (0x0455, 0x73), (0xFF53, 0x73), (0xA731, 0x73),
    (0x0442, 0x74), (0x03C4, 0x74), (0xFF54, 0x74),
    (0x03C5, 0x75), (0x1D1C, 0x75), (0xFF55, 0x75), (0x057D, 0x75),
    (0x03BD, 0x76), (0x0475, 0x76), (0xFF56, 0x76), (0x2174, 0x76),
    (0x051D, 0x77), (0x0461, 0x77), (0xFF57, 0x77),
    (0x0445, 0x78), (0x03C7, 0x78), (0xFF58, 0x78), (0x2179, 0x78),
    (0x0443, 0x79), (0x03B3, 0x79), (0xFF59, 0x79),
    (0x1D22, 0x7A), (0xFF5A, 0x7A)]"

definition fold_rune :: "nat \<Rightarrow> nat" where
  "fold_rune r = (case map_of confusables r of None \<Rightarrow> r | Some x \<Rightarrow> x)"

definition skeleton :: "(nat \<Rightarrow> nat) \<Rightarrow> runes \<Rightarrow> runes" where
  "skeleton lower s = map fold_rune (map lower s)"

text \<open>One row of the table: \<open>lev_row a b prev left\<close> goes on at the column behind the entry \<open>left\<close>.\<close>

fun lev_row :: "'a \<Rightarrow> 'a list \<Rightarrow> nat list \<Rightarrow> nat \<Rightarrow> nat list" where
  "lev_row a (b # bs) (p0 # p1 # ps) left =
     (let cost = (if a = b then 0 else 1) in
      left # lev_row a bs (p1 # ps) (min (left + 1) (min (p1 + 1) (p0 + cost))))"
| "lev_row a bs ps left = [left]"

fun lev_rows :: "nat \<Rightarrow> 'a list \<Rightarrow> 'a list \<Rightarrow> nat list \<Rightarrow> nat list" where
  "lev_rows i [] rb prev = prev"
| "lev_rows i (a # ra) rb prev = lev_rows (i + 1) ra rb (lev_row a rb prev i)"

definition levenshtein :: "'a list \<Rightarrow> 'a list \<Rightarrow> nat" where
  "levenshtein ra rb =
     (if ra = [] then length rb else if rb = [] then length ra
      else lev_rows 1 ra rb [0..<length rb + 1] ! length rb)"

text \<open>The bytes of a code point in UTF-8.\<close>

definition rune_len :: "nat \<Rightarrow> nat" where
  "rune_len r = (if r < 0x80 then 1 else if r < 0x800 then 2 else if r < 0x10000 then 3 else 4)"

definition utf8_len :: "runes \<Rightarrow> nat" where
  "utf8_len s = sum_list (map rune_len s)"

definition trim_runes :: "(nat \<Rightarrow> bool) \<Rightarrow> runes \<Rightarrow> runes" where
  "trim_runes space s = rev (dropWhile space (rev (dropWhile space s)))"

definition looks_like :: "(nat \<Rightarrow> nat) \<Rightarrow> (nat \<Rightarrow> bool) \<Rightarrow> runes \<Rightarrow> runes \<Rightarrow> bool" where
  "looks_like lower space candidate0 target0 =
     (let candidate = map lower (trim_runes space candidate0); target = map lower (trim_runes space target0) in
      if candidate = [] \<or> target = [] \<or> candidate = target then False
      else if skeleton lower candidate = skeleton lower target then True
      else levenshtein (skeleton lower candidate) (skeleton lower target) \<le> (if utf8_len target > 12 then 2 else 1))"

section \<open>The table computes the edit distance\<close>

text \<open>The distance by recursion, and the row of the table for a word.\<close>

fun edit_dist :: "'a list \<Rightarrow> 'a list \<Rightarrow> nat" where
  "edit_dist [] ys = length ys"
| "edit_dist (x # xs) [] = Suc (length xs)"
| "edit_dist (x # xs) (y # ys) =
     min (edit_dist (x # xs) ys + 1) (min (edit_dist xs (y # ys) + 1) (edit_dist xs ys + (if x = y then 0 else 1)))"

lemma edit_dist_Nil [simp]: "edit_dist xs [] = length xs"
  by (cases xs) simp_all

text \<open>The entries from a prefix \<open>q\<close> (reversed) of the second word on.\<close>

fun dist_row :: "'a list \<Rightarrow> 'a list \<Rightarrow> 'a list \<Rightarrow> nat list" where
  "dist_row xs q [] = [edit_dist xs q]"
| "dist_row xs q (b # bs) = edit_dist xs q # dist_row xs (b # q) bs"

lemma dist_row_cons: "\<exists>r. dist_row xs q bs = edit_dist xs q # r"
  by (cases bs) simp_all

lemma lev_row_dist: "lev_row a bs (dist_row xs q bs) (edit_dist (a # xs) q) = dist_row (a # xs) q bs"
proof (induction bs arbitrary: q)
  case (Cons b bs)
  obtain r where r: "dist_row xs (b # q) bs = edit_dist xs (b # q) # r" using dist_row_cons by blast
  have "lev_row a (b # bs) (dist_row xs q (b # bs)) (edit_dist (a # xs) q) =
      edit_dist (a # xs) q # lev_row a bs (dist_row xs (b # q) bs) (edit_dist (a # xs) (b # q))"
    using r by (simp add: Let_def)
  also have "\<dots> = edit_dist (a # xs) q # dist_row (a # xs) (b # q) bs" by (simp only: Cons.IH [of "b # q"])
  finally show ?case by simp
qed simp

lemma lev_rows_dist: "lev_rows (length xs + 1) ra rb (dist_row xs [] rb) = dist_row (rev ra @ xs) [] rb"
proof (induction ra arbitrary: xs)
  case (Cons a ra)
  have "lev_rows (length xs + 1) (a # ra) rb (dist_row xs [] rb) = lev_rows (length xs + 2) ra rb (lev_row a rb (dist_row xs [] rb) (length xs + 1))"
    by simp
  also have "\<dots> = lev_rows (length xs + 2) ra rb (dist_row (a # xs) [] rb)"
    using lev_row_dist [of a rb xs "[]"] by simp
  also have "\<dots> = dist_row (rev (a # ra) @ xs) [] rb" using Cons.IH [of "a # xs"] by simp
  finally show ?case .
qed simp

lemma dist_row_Nil: "dist_row [] q bs = [length q..<length q + length bs + 1]"
proof (induction bs arbitrary: q)
  case (Cons b bs)
  have "[length q..<length q + length (b # bs) + 1] = length q # [Suc (length q)..<length q + length (b # bs) + 1]"
    by (rule upt_conv_Cons) simp
  with Cons.IH [of "b # q"] show ?case by (simp del: upt_Suc)
qed simp

lemma dist_row_last: "dist_row xs q bs ! length bs = edit_dist xs (rev bs @ q)"
  by (induction bs arbitrary: q) simp_all

lemma levenshtein_dist: "levenshtein ra rb = edit_dist (rev ra) (rev rb)"
proof -
  have "lev_rows 1 ra rb [0..<length rb + 1] = dist_row (rev ra) [] rb"
    using lev_rows_dist [of "[]" ra rb] dist_row_Nil [of "[]" rb] by simp
  then show ?thesis by (simp add: levenshtein_def dist_row_last)
qed

section \<open>Edits\<close>

text \<open>One insertion, deletion or substitution anywhere; and aligned words with their number of edits.\<close>

inductive edit_step :: "'a list \<Rightarrow> 'a list \<Rightarrow> bool" where
  ins: "edit_step xs (x # xs)"
| del: "edit_step (x # xs) xs"
| sub: "edit_step (x # xs) (y # xs)"
| keep: "edit_step xs ys \<Longrightarrow> edit_step (x # xs) (x # ys)"

inductive script :: "nat \<Rightarrow> 'a list \<Rightarrow> 'a list \<Rightarrow> bool" where
  done_: "script 0 [] []"
| same: "script n xs ys \<Longrightarrow> script n (x # xs) (x # ys)"
| insert: "script n xs ys \<Longrightarrow> script (Suc n) xs (y # ys)"
| delete: "script n xs ys \<Longrightarrow> script (Suc n) (x # xs) ys"
| change: "script n xs ys \<Longrightarrow> script (Suc n) (x # xs) (y # ys)"

inductive_simps step_from_Nil: "edit_step [] zs"
inductive_simps step_from_Cons: "edit_step (y # ys) zs"

lemma script_refl: "script 0 xs xs"
  by (induction xs) (auto intro: script.intros)

lemma script_step: "script n xs ys \<Longrightarrow> edit_step ys zs \<Longrightarrow> \<exists>m \<le> Suc n. script m xs zs"
proof (induction arbitrary: zs rule: script.induct)
  case done_
  then show ?case by (auto simp: step_from_Nil intro: script.intros)
next
  case (same n xs ys x)
  from same.prems consider z where "zs = z # x # ys" | "zs = ys" | z where "zs = z # ys"
    | zs' where "zs = x # zs'" "edit_step ys zs'" unfolding step_from_Cons by blast
  then show ?case
    by cases (use same in \<open>metis script.same script.insert script.delete script.change le_refl\<close>)+
next
  case (insert n xs ys y)
  from insert.prems consider z where "zs = z # y # ys" | "zs = ys" | z where "zs = z # ys"
    | zs' where "zs = y # zs'" "edit_step ys zs'" unfolding step_from_Cons by blast
  then show ?case
    by cases (use insert in \<open>metis script.insert le_refl le_SucI Suc_le_mono\<close>)+
next
  case (delete n xs ys x)
  then show ?case by (metis script.delete Suc_le_mono)
next
  case (change n xs ys x y)
  from change.prems consider z where "zs = z # y # ys" | "zs = ys" | z where "zs = z # ys"
    | zs' where "zs = y # zs'" "edit_step ys zs'" unfolding step_from_Cons by blast
  then show ?case
    by cases (use change in \<open>metis script.insert script.delete script.change le_refl le_SucI Suc_le_mono\<close>)+
qed

lemma steps_script: "(edit_step ^^ k) xs ys \<Longrightarrow> \<exists>m \<le> k. script m xs ys"
proof (induction k arbitrary: ys)
  case (Suc k)
  then obtain us where us: "(edit_step ^^ k) xs us" "edit_step us ys" by auto
  from Suc.IH [OF us(1)] obtain m where "m \<le> k" "script m xs us" by blast
  with script_step [OF this(2) us(2)] show ?case by (meson Suc_le_mono le_trans)
qed (use script_refl in auto)

lemma steps_keep: "(edit_step ^^ k) xs ys \<Longrightarrow> (edit_step ^^ k) (x # xs) (x # ys)"
proof (induction k arbitrary: ys)
  case (Suc k)
  then obtain us where us: "(edit_step ^^ k) xs us" "edit_step us ys" by auto
  from Suc.IH [OF us(1)] edit_step.keep [OF us(2), of x] show ?case by auto
qed simp

lemma script_steps: "script n xs ys \<Longrightarrow> (edit_step ^^ n) xs ys"
proof (induction rule: script.induct)
  case (same n xs ys x)
  from same.IH show ?case by (rule steps_keep)
next
  case (insert n xs ys y)
  then show ?case using edit_step.ins [of ys y] by auto
next
  case (delete n xs ys x)
  then show ?case using edit_step.del [of x xs] by (metis relpowp_Suc_I2)
next
  case (change n xs ys x y)
  from change.IH have "(edit_step ^^ n) (y # xs) (y # ys)" by (rule steps_keep)
  with edit_step.sub [of x xs y] show ?case by (metis relpowp_Suc_I2)
qed simp

lemma script_edit_dist: "script (edit_dist xs ys) xs ys"
proof (induction xs ys rule: edit_dist.induct)
  case (1 ys)
  then show ?case by (induction ys) (auto intro: script.intros)
next
  case (2 x xs)
  have "script (length zs) zs []" for zs :: "'a list" by (induction zs) (auto intro: script.intros)
  from this [of "x # xs"] show ?case by simp
next
  case (3 x xs y ys)
  have "script (edit_dist (x # xs) ys + 1) (x # xs) (y # ys)" using script.insert [OF 3(1)] by simp
  moreover have "script (edit_dist xs (y # ys) + 1) (x # xs) (y # ys)" using script.delete [OF 3(2)] by simp
  moreover have "script (edit_dist xs ys + (if x = y then 0 else 1)) (x # xs) (y # ys)"
    using script.same [OF 3(3)] script.change [OF 3(3)] by simp
  ultimately show ?case by (simp only: edit_dist.simps min_def split: if_split) simp
qed

lemma edit_dist_Cons:
  "edit_dist (x # xs) ys \<le> Suc (edit_dist xs ys)" "edit_dist xs (y # ys) \<le> Suc (edit_dist xs ys)"
  "edit_dist (x # xs) (y # ys) \<le> edit_dist xs ys + (if x = y then 0 else 1)"
  by (cases ys; simp) (cases xs; simp)+

lemma edit_dist_script: "script n xs ys \<Longrightarrow> edit_dist xs ys \<le> n"
proof (induction rule: script.induct)
  case (same n xs ys x)
  with edit_dist_Cons(3) [of x xs x ys] show ?case by simp
next
  case (insert n xs ys y)
  with edit_dist_Cons(2) [of xs y ys] show ?case by simp
next
  case (delete n xs ys x)
  with edit_dist_Cons(1) [of x xs ys] show ?case by simp
next
  case (change n xs ys x y)
  with edit_dist_Cons(3) [of x xs y ys] show ?case by (simp split: if_splits)
qed simp

lemma edit_step_append: "edit_step xs ys \<Longrightarrow> edit_step (us @ xs) (us @ ys)"
  by (induction us) (auto intro: edit_step.keep)

lemma edit_step_rev: "edit_step xs ys \<Longrightarrow> edit_step (rev xs) (rev ys)"
proof (induction rule: edit_step.induct)
  case (keep xs ys x)
  have "edit_step us vs \<Longrightarrow> edit_step (us @ [x]) (vs @ [x])" for us vs
    by (induction rule: edit_step.induct) (auto intro: edit_step.intros)
  with keep show ?case by simp
next
  case (ins xs x)
  show ?case using edit_step_append [OF edit_step.ins [of "[]" x], of "rev xs"] by simp
next
  case (del x xs)
  show ?case using edit_step_append [OF edit_step.del [of x "[]"], of "rev xs"] by simp
next
  case (sub x xs y)
  show ?case using edit_step_append [OF edit_step.sub [of x "[]" y], of "rev xs"] by simp
qed

lemma steps_rev: "(edit_step ^^ k) xs ys \<Longrightarrow> (edit_step ^^ k) (rev xs) (rev ys)"
  by (induction k arbitrary: ys) (auto intro: edit_step_rev)

text \<open>
  The single-row table of \<^verbatim>\<open>levenshtein\<close> computes the edit distance: the least number of
  insertions, deletions and substitutions that turn the one string into the other. The table of
  look-alikes is consistent, as its comment demands: no target is a key, so that folding twice is
  folding once.
\<close>

theorem levenshtein_least:
  "levenshtein a b = (LEAST k. (edit_step ^^ k) a b) \<and>
   list_all (\<lambda>(k, v). map_of confusables v = None) confusables \<and> fold_rune (fold_rune r) = fold_rune r"
proof (intro conjI)
  have some: "(edit_step ^^ levenshtein a b) a b"
    using steps_rev [OF script_steps [OF script_edit_dist [of "rev a" "rev b"]]] by (simp add: levenshtein_dist)
  have least: "levenshtein a b \<le> k" if "(edit_step ^^ k) a b" for k
  proof -
    from steps_script [OF steps_rev [OF that]] obtain m where "m \<le> k" "script m (rev a) (rev b)" by blast
    with edit_dist_script show ?thesis by (fastforce simp: levenshtein_dist)
  qed
  show "levenshtein a b = (LEAST k. (edit_step ^^ k) a b)"
    by (rule sym, rule Least_equality) (use some least in blast)+
  show table: "list_all (\<lambda>(k, v). map_of confusables v = None) confusables" by code_simp
  show "fold_rune (fold_rune r) = fold_rune r"
  proof (cases "map_of confusables r")
    case (Some v)
    then have "(r, v) \<in> set confusables" by (rule map_of_SomeD)
    with table have "map_of confusables v = None" by (auto simp: list_all_iff)
    with Some show ?thesis by (simp add: fold_rune_def)
  qed (simp add: fold_rune_def)
qed

end
