(* ===== verification/Address.thy ===== *)
theory Address
  imports Message AuthVerify DomainNames
begin

text \<open>
  Mailboxes, \<^verbatim>\<open>ParseAddress\<close> and \<^verbatim>\<open>ParseAddressList\<close> of \<^verbatim>\<open>pkg/rules/message.go\<close>. The RFC 5322 parsers of
  \<^verbatim>\<open>net/mail\<close> and the encoded-word decoder of \<^verbatim>\<open>mime\<close> are parameters: a parsed mailbox is its
  name and address, and \<^const>\<open>None\<close> is the error return. What the code does with mailboxes these
  parsers refuse is modelled in full.
\<close>

record mail_lib =
  ml_address :: "string \<Rightarrow> (string \<times> string) option"
  ml_list :: "string \<Rightarrow> (string \<times> string) list option"
  ml_word :: "string \<Rightarrow> string option"

record address =
  ad_name :: string
  ad_address :: string
  ad_local :: string
  ad_domain :: string
  ad_valid :: bool

definition empty_address :: address where
  "empty_address = \<lparr>ad_name = [], ad_address = [], ad_local = [], ad_domain = [], ad_valid = False\<rparr>"

definition decode_word :: "mail_lib \<Rightarrow> string \<Rightarrow> string" where
  "decode_word lib s =
     (if s = [] \<or> \<not> contains s ''=?'' then s else (case ml_word lib s of None \<Rightarrow> s | Some d \<Rightarrow> d))"

definition make_address :: "mail_lib \<Rightarrow> string \<Rightarrow> string \<Rightarrow> bool \<Rightarrow> address" where
  "make_address lib name addr valid =
     \<lparr>ad_name = decode_word lib name, ad_address = addr, ad_local = fst (split_address addr),
      ad_domain = snd (split_address addr), ad_valid = valid\<rparr>"

text \<open>The name in front of the last angle bracket.\<close>

definition display_part :: "string \<Rightarrow> string" where
  "display_part s =
     (case last_index CHR ''<'' s of
        None \<Rightarrow> [] | Some i \<Rightarrow> if i > 0 then trim_set (trim_space (take i s)) [DQ] else [])"

definition parse_address :: "mail_lib \<Rightarrow> string \<Rightarrow> address" where
  "parse_address lib s0 =
     (let s = trim_space s0 in
      if s = [] then empty_address
      else (case ml_address lib s of
          Some (name, addr) \<Rightarrow> make_address lib name addr True
        | None \<Rightarrow>
            make_address lib (display_part s) (trim_set (trim_space (angle_part s)) [DQ, CHR 0x27]) False))"

definition parse_address_list :: "mail_lib \<Rightarrow> string \<Rightarrow> address list" where
  "parse_address_list lib s =
     (if trim_space s = [] then []
      else (case ml_list lib s of
          Some parsed \<Rightarrow> map (\<lambda>(name, addr). make_address lib name addr True) parsed
        | None \<Rightarrow> map (parse_address lib) (filter (\<lambda>chunk. trim_space chunk \<noteq> []) (split_address_list s))))"

definition domain_of :: "mail_lib \<Rightarrow> string \<Rightarrow> string" where
  "domain_of lib s = ad_domain (parse_address lib s)"

section \<open>Facts\<close>

lemma split_address_domain: "CHR ''@'' \<notin> set (snd (split_address a)) \<and> to_lower (snd (split_address a)) = snd (split_address a)"
proof (cases "last_index CHR ''@'' a")
  case (Some i)
  have "CHR ''@'' \<notin> set (to_lower s)" if "CHR ''@'' \<notin> set s" for s
  proof
    assume "CHR ''@'' \<in> set (to_lower s)"
    then obtain c where c: "c \<in> set s" "lower_char c = CHR ''@''" unfolding to_lower_def by (metis imageE set_map)
    have "lower_char c = CHR ''@'' \<longleftrightarrow> c = CHR ''@''" by (rule lower_char_eq_nonletter) code_simp+
    with c that show False by blast
  qed
  moreover have "CHR ''@'' \<notin> set (drop (Suc i) a)" using last_index_Some [OF Some] by blast
  ultimately show ?thesis using Some by (simp add: split_address_def)
qed (simp add: split_address_def)

end
