(* ===== verification/AuthReported.thy ===== *)
theory AuthReported
  imports Address
begin

text \<open>
  The authentication state a message \<^emph>\<open>reports\<close>, \<^verbatim>\<open>pkg/rules/auth.go\<close>: Authentication-Results,
  Received-SPF and DKIM-Signature fields, read through the accessors of the header index. The
  scanners for comments and quoted strings work on bytes; on valid UTF-8 they agree with the
  code's scan over runes, as all the characters they look for are ASCII.
\<close>

record auth_results =
  ar_serv_id :: string
  ar_spf :: string
  ar_dkim :: string
  ar_dmarc :: string
  ar_arc :: string
  ar_spf_domain :: string
  ar_dkim_domains :: "string list"
  ar_dkim_all :: "string list"
  ar_dmarc_policy :: string
  ar_present :: bool
  ar_trusted :: bool
  ar_untrusted :: "string list"
  ar_signed :: bool

definition empty_results :: auth_results where
  "empty_results = \<lparr>ar_serv_id = [], ar_spf = [], ar_dkim = [], ar_dmarc = [], ar_arc = [], ar_spf_domain = [],
     ar_dkim_domains = [], ar_dkim_all = [], ar_dmarc_policy = [], ar_present = False, ar_trusted = False,
     ar_untrusted = [], ar_signed = False\<rparr>"

section \<open>Scanning\<close>

fun strip_comments_from :: "bool \<Rightarrow> nat \<Rightarrow> string \<Rightarrow> string" where
  "strip_comments_from q depth [] = []"
| "strip_comments_from q depth (c # s) =
     (if c = DQ \<and> depth = 0 then c # strip_comments_from (\<not> q) depth s
      else if c = CHR ''('' \<and> \<not> q then strip_comments_from q (depth + 1) s
      else if c = CHR '')'' \<and> \<not> q then
        (if depth > 0 then SP # strip_comments_from q (depth - 1) s else c # strip_comments_from q depth s)
      else (if depth = 0 then [c] else []) @ strip_comments_from q depth s)"

definition strip_comments :: "string \<Rightarrow> string" where
  "strip_comments s = strip_comments_from False 0 s"

fun split_unquoted :: "char \<Rightarrow> bool \<Rightarrow> string \<Rightarrow> string \<Rightarrow> string list" where
  "split_unquoted sep q cur [] = [cur]"
| "split_unquoted sep q cur (c # s) =
     (let q1 = (if c = DQ then \<not> q else q) in
      if c = sep \<and> \<not> q1 then cur # split_unquoted sep q1 [] s else split_unquoted sep q1 (cur @ [c]) s)"

definition split_outside_quotes :: "string \<Rightarrow> char \<Rightarrow> string list" where
  "split_outside_quotes s sep = split_unquoted sep False [] (strip_comments s)"

definition split_kv :: "string \<Rightarrow> string \<times> string" where
  "split_kv s =
     (case index_byte CHR ''='' s of None \<Rightarrow> (s, []) | Some i \<Rightarrow> (trim_space (take i s), trim_space (drop (Suc i) s)))"

definition domain_part :: "string \<Rightarrow> string" where
  "domain_part s = (case last_index CHR ''@'' s of None \<Rightarrow> s | Some i \<Rightarrow> drop (Suc i) s)"

definition append_unique :: "string list \<Rightarrow> string \<Rightarrow> string list" where
  "append_unique xs v = (if v \<in> set xs then xs else xs @ [v])"

definition first_non_empty :: "string list \<Rightarrow> string" where
  "first_non_empty vs = (case find (\<lambda>v. v \<noteq> []) vs of None \<Rightarrow> [] | Some v \<Rightarrow> v)"

definition extract_tag :: "string \<Rightarrow> string \<Rightarrow> string" where
  "extract_tag sig tag =
     (case find (\<lambda>part. has_prefix part (tag @ ''='')) (map trim_space (split_on CHR '';'' sig)) of
        None \<Rightarrow> [] | Some part \<Rightarrow> trim_space (drop (length tag + 1) part))"

fun index_any :: "string \<Rightarrow> string \<Rightarrow> nat option" where
  "index_any cs [] = None"
| "index_any cs (x # xs) = (if x \<in> set cs then Some 0 else map_option Suc (index_any cs xs))"

definition auth_serv_id_of :: "string \<Rightarrow> string" where
  "auth_serv_id_of header =
     (let clean = trim_space (strip_comments header) in
      if clean = [] then []
      else
        let clean1 = (case index_any ('';'' @ [SP, TAB]) clean of
              Some i \<Rightarrow> if i > 0 then take i clean else clean | None \<Rightarrow> clean)
        in trim_suffix (trim_space clean1) ''.'')"

section \<open>One field\<close>

definition result_rank :: "string \<Rightarrow> nat" where
  "result_rank s =
     (if s = ''fail'' then 4 else if s = ''pass'' then 3
      else if s = ''softfail'' \<or> s = ''permerror'' \<or> s = ''temperror'' then 2
      else if s = ''neutral'' \<or> s = ''none'' then 1 else 0)"

definition stronger_result :: "string \<Rightarrow> string \<Rightarrow> string" where
  "stronger_result existing incoming =
     (if existing = [] then incoming
      else if result_rank incoming > result_rank existing then incoming else existing)"

text \<open>The properties of a clause; the last value of a key counts.\<close>

definition clause_props :: "string list \<Rightarrow> (string \<times> string) list" where
  "clause_props fs =
     map (\<lambda>f. (to_lower (fst (split_kv f)), trim_set (snd (split_kv f)) [DQ]))
       (filter (\<lambda>f. fst (split_kv f) \<noteq> [] \<and> snd (split_kv f) \<noteq> []) fs)"

definition prop_value :: "(string \<times> string) list \<Rightarrow> string \<Rightarrow> string" where
  "prop_value props k = (case map_of (rev props) k of None \<Rightarrow> [] | Some v \<Rightarrow> v)"

definition record_method :: "string \<Rightarrow> string \<Rightarrow> (string \<times> string) list \<Rightarrow> auth_results \<Rightarrow> auth_results" where
  "record_method meth result props ar =
     (if meth = ''spf'' then
        let d = first_non_empty [prop_value props ''smtp.mailfrom'', prop_value props ''smtp.helo''] in
        ar\<lparr>ar_spf := stronger_result (ar_spf ar) result,
           ar_spf_domain := (if d \<noteq> [] then to_lower (domain_part d) else ar_spf_domain ar)\<rparr>
      else if meth = ''dkim'' then
        let d = to_lower (prop_value props ''header.d'');
            ar1 = ar\<lparr>ar_dkim := stronger_result (ar_dkim ar) result\<rparr>
        in if d = [] then ar1
           else ar1\<lparr>ar_dkim_all := append_unique (ar_dkim_all ar) d,
                  ar_dkim_domains := (if result = ''pass'' then append_unique (ar_dkim_domains ar) d else ar_dkim_domains ar)\<rparr>
      else if meth = ''dmarc'' then
        let p = first_non_empty [prop_value props ''policy.dmarc'', prop_value props ''p''] in
        ar\<lparr>ar_dmarc := stronger_result (ar_dmarc ar) result,
           ar_dmarc_policy := (if p \<noteq> [] then to_lower p else ar_dmarc_policy ar)\<rparr>
      else if meth = ''arc'' then ar\<lparr>ar_arc := stronger_result (ar_arc ar) result\<rparr>
      else ar)"

definition parse_clause :: "bool \<Rightarrow> string \<Rightarrow> auth_results \<Rightarrow> auth_results" where
  "parse_clause is_first clause0 ar =
     (let clause = trim_space clause0 in
      if clause = [] then ar
      else if is_first \<and> \<not> contains clause ''='' then
        (if ar_serv_id ar = [] then ar\<lparr>ar_serv_id := hd (str_fields clause)\<rparr> else ar)
      else (case str_fields clause of
          [] \<Rightarrow> ar
        | f # fs \<Rightarrow>
            let result = to_lower (trim_set (snd (split_kv f)) [DQ]) in
            if result = [] then ar
            else record_method (to_lower (fst (split_kv f))) result (clause_props fs) ar))"

fun parse_clauses :: "bool \<Rightarrow> string list \<Rightarrow> auth_results \<Rightarrow> auth_results" where
  "parse_clauses is_first [] ar = ar"
| "parse_clauses is_first (c # cs) ar = parse_clauses False cs (parse_clause is_first c ar)"

definition parse_auth_result_header :: "string \<Rightarrow> auth_results \<Rightarrow> auth_results" where
  "parse_auth_result_header header ar = parse_clauses True (split_outside_quotes header CHR '';'') ar"

section \<open>The message\<close>

definition note_authority :: "string list \<Rightarrow> string \<Rightarrow> auth_results \<Rightarrow> auth_results" where
  "note_authority trusted ident ar =
     (if trusted = [] then ar
      else if ident \<in> set trusted then ar\<lparr>ar_trusted := True\<rparr>
      else ar\<lparr>ar_untrusted := append_unique (ar_untrusted ar) ident\<rparr>)"

fun parse_reports :: "string list \<Rightarrow> string list \<Rightarrow> auth_results \<Rightarrow> auth_results" where
  "parse_reports trusted [] ar = ar"
| "parse_reports trusted (h # hs) ar =
     (if trim_space h = [] then parse_reports trusted hs ar
      else parse_reports trusted hs
        (parse_auth_result_header h
          (note_authority trusted (to_lower (auth_serv_id_of h)) (ar\<lparr>ar_present := True\<rparr>))))"

definition spf_results :: "string list" where
  "spf_results = [''pass'', ''fail'', ''softfail'', ''neutral'', ''none'', ''temperror'', ''permerror'']"

fun received_spf_domain :: "string \<Rightarrow> string list \<Rightarrow> string" where
  "received_spf_domain domain [] = domain"
| "received_spf_domain domain (f # fs) =
     (let (k, v) = split_kv (trim_set f '';'') in
      received_spf_domain
        (if equal_fold k ''envelope-from'' \<or> equal_fold k ''smtp.mailfrom''
         then to_lower (domain_part (trim_set v (''<>'' @ [DQ]))) else domain) fs)"

definition parse_received_spf :: "string \<Rightarrow> string \<times> string" where
  "parse_received_spf header =
     (case str_fields (trim_space header) of
        [] \<Rightarrow> ([], [])
      | f # fs \<Rightarrow>
          let result = to_lower (trim_set f '';'') in
          if result \<notin> set spf_results then ([], []) else (result, received_spf_domain [] fs))"

fun first_received_spf :: "string list \<Rightarrow> auth_results \<Rightarrow> auth_results" where
  "first_received_spf [] ar = ar"
| "first_received_spf (h # hs) ar =
     (case parse_received_spf h of
        (result, domain) \<Rightarrow>
          if result = [] then first_received_spf hs ar
          else ar\<lparr>ar_spf := result, ar_spf_domain := (if ar_spf_domain ar = [] then domain else ar_spf_domain ar)\<rparr>)"

definition note_signature :: "string \<Rightarrow> auth_results \<Rightarrow> auth_results" where
  "note_signature sig ar =
     (let d = extract_tag sig ''d''; ar1 = ar\<lparr>ar_signed := True\<rparr> in
      if d = [] then ar1 else ar1\<lparr>ar_dkim_all := append_unique (ar_dkim_all ar1) (to_lower d)\<rparr>)"

definition report_fields :: "message \<Rightarrow> string list" where
  "report_fields m = msg_get_all m ''Authentication-Results'' @ msg_get_all m ''ARC-Authentication-Results'' @
     msg_get_all m ''X-Authentication-Results''"

definition parse_auth_results :: "string list \<Rightarrow> message \<Rightarrow> auth_results" where
  "parse_auth_results trusted_servs m =
     (let ar = fold note_signature (msg_get_all m ''DKIM-Signature'') empty_results;
          ar1 = parse_reports (map (\<lambda>i. to_lower (trim_space i)) trusted_servs) (report_fields m) ar
      in if ar_spf ar1 = [] then first_received_spf (msg_get_all m ''Received-SPF'') ar1 else ar1)"

section \<open>Alignment\<close>

definition reported_align :: "(string \<Rightarrow> string option) \<Rightarrow> string \<Rightarrow> string \<Rightarrow> bool \<Rightarrow> bool" where
  "reported_align org a0 b0 strict =
     (let a = to_lower (trim_suffix a0 ''.''); b = to_lower (trim_suffix b0 ''.'') in
      if a = [] \<or> b = [] then False else if a = b then True else if strict then False
      else registered_domain org a = registered_domain org b)"

definition reported_spf_aligned :: "mail_lib \<Rightarrow> (string \<Rightarrow> string option) \<Rightarrow> auth_results \<Rightarrow> message \<Rightarrow> bool \<Rightarrow> bool" where
  "reported_spf_aligned lib org ar m strict =
     (if ar_spf ar \<noteq> ''pass'' \<or> ar_spf_domain ar = [] then False
      else reported_align org (ar_spf_domain ar) (domain_of lib (msg_get m ''From'')) strict)"

definition reported_dkim_aligned :: "mail_lib \<Rightarrow> (string \<Rightarrow> string option) \<Rightarrow> auth_results \<Rightarrow> message \<Rightarrow> bool \<Rightarrow> bool" where
  "reported_dkim_aligned lib org ar m strict =
     (if ar_dkim ar \<noteq> ''pass'' then False
      else list_ex (\<lambda>d. reported_align org d (domain_of lib (msg_get m ''From'')) strict) (ar_dkim_domains ar))"

definition reported_dmarc_pass :: "mail_lib \<Rightarrow> (string \<Rightarrow> string option) \<Rightarrow> string list \<Rightarrow> message \<Rightarrow> bool" where
  "reported_dmarc_pass lib org trusted_servs m =
     (let ar = parse_auth_results trusted_servs m in
      if ar_dmarc ar = ''pass'' then True else if ar_dmarc ar = ''fail'' then False
      else reported_spf_aligned lib org ar m False \<or> reported_dkim_aligned lib org ar m False)"

section \<open>Trust has no effect\<close>

text \<open>What the trust list changes.\<close>

definition same_verdicts :: "auth_results \<Rightarrow> auth_results \<Rightarrow> bool" where
  same_verdicts_fields: "same_verdicts a b \<longleftrightarrow> ar_serv_id a = ar_serv_id b \<and> ar_spf a = ar_spf b \<and> ar_dkim a = ar_dkim b \<and>
     ar_dmarc a = ar_dmarc b \<and> ar_arc a = ar_arc b \<and> ar_spf_domain a = ar_spf_domain b \<and>
     ar_dkim_domains a = ar_dkim_domains b \<and> ar_dkim_all a = ar_dkim_all b \<and>
     ar_dmarc_policy a = ar_dmarc_policy b \<and> ar_present a = ar_present b \<and> ar_signed a = ar_signed b"

lemma same_verdicts_refl: "same_verdicts a a"
  by (simp add: same_verdicts_fields)

lemma same_verdicts_method:
  assumes "same_verdicts a b"
  shows "same_verdicts (record_method mt r ps a) (record_method mt r ps b)"
proof -
  consider "mt = ''spf''" | "mt = ''dkim''" | "mt = ''dmarc''" | "mt = ''arc''"
    | "mt \<noteq> ''spf''" "mt \<noteq> ''dkim''" "mt \<noteq> ''dmarc''" "mt \<noteq> ''arc''" by blast
  then show ?thesis
  proof cases
    case 5
    then have "record_method mt r ps x = x" for x by (simp only: record_method_def if_False)
    with assms show ?thesis by simp
  qed (use assms in \<open>simp add: same_verdicts_fields record_method_def Let_def\<close>)+
qed

lemma same_verdicts_clause:
  assumes "same_verdicts a b"
  shows "same_verdicts (parse_clause f c a) (parse_clause f c b)"
proof -
  have id_eq: "ar_serv_id a = ar_serv_id b" using assms by (simp add: same_verdicts_fields)
  have upd: "same_verdicts (a\<lparr>ar_serv_id := i\<rparr>) (b\<lparr>ar_serv_id := i\<rparr>)" for i
    using assms by (simp add: same_verdicts_fields)
  from assms same_verdicts_method [OF assms] upd id_eq show ?thesis
    by (simp add: parse_clause_def Let_def split: list.split)
qed

lemma same_verdicts_clauses: "same_verdicts a b \<Longrightarrow> same_verdicts (parse_clauses f cs a) (parse_clauses f cs b)"
  by (induction f cs a arbitrary: b rule: parse_clauses.induct) (simp_all add: same_verdicts_clause)

lemma same_verdicts_authority: "same_verdicts a b \<Longrightarrow> same_verdicts (note_authority t i a) (note_authority t' i b)"
  by (auto simp: note_authority_def same_verdicts_fields)

lemma same_verdicts_reports: "same_verdicts a b \<Longrightarrow> same_verdicts (parse_reports t hs a) (parse_reports t' hs b)"
proof (induction hs arbitrary: a b)
  case (Cons h hs)
  then have "same_verdicts (a\<lparr>ar_present := True\<rparr>) (b\<lparr>ar_present := True\<rparr>)" by (simp add: same_verdicts_fields)
  from same_verdicts_clauses [OF same_verdicts_authority [OF this]] Cons show ?case
    by (simp add: parse_auth_result_header_def)
qed simp

lemma same_verdicts_received: "same_verdicts a b \<Longrightarrow> same_verdicts (first_received_spf hs a) (first_received_spf hs b)"
  by (induction hs) (auto simp: same_verdicts_fields split: prod.split)

lemma same_verdicts_parse: "same_verdicts (parse_auth_results t m) (parse_auth_results t' m)"
proof -
  let ?r = "\<lambda>t. parse_reports (map (\<lambda>i. to_lower (trim_space i)) t) (report_fields m)
      (fold note_signature (msg_get_all m ''DKIM-Signature'') empty_results)"
  have r: "same_verdicts (?r t) (?r t')" by (rule same_verdicts_reports) (rule same_verdicts_refl)
  then have "ar_spf (?r t) = ar_spf (?r t')" by (simp add: same_verdicts_fields)
  with r same_verdicts_received [OF r] show ?thesis by (simp add: parse_auth_results_def Let_def)
qed

text \<open>
  Defect: the list of trusted authentication servers has no influence on any reported verdict.
  Whatever an Authentication-Results field of an unknown server claims is merged into the verdicts
  exactly as the claims of a trusted one, although the documentation of the list says that such a
  field is recorded but never treated as a verdict; only the two fields that tell about trust
  differ.
\<close>

theorem trust_has_no_effect:
  "ar_spf (parse_auth_results servs m) = ar_spf (parse_auth_results servs' m) \<and>
   ar_dkim (parse_auth_results servs m) = ar_dkim (parse_auth_results servs' m) \<and>
   ar_dkim_domains (parse_auth_results servs m) = ar_dkim_domains (parse_auth_results servs' m) \<and>
   ar_dmarc (parse_auth_results servs m) = ar_dmarc (parse_auth_results servs' m) \<and>
   ar_arc (parse_auth_results servs m) = ar_arc (parse_auth_results servs' m) \<and>
   reported_dmarc_pass lib org servs m = reported_dmarc_pass lib org servs' m"
proof -
  have v: "same_verdicts (parse_auth_results servs m) (parse_auth_results servs' m)" by (rule same_verdicts_parse)
  then have "reported_dmarc_pass lib org servs m = reported_dmarc_pass lib org servs' m"
    by (simp add: same_verdicts_fields reported_dmarc_pass_def reported_spf_aligned_def reported_dkim_aligned_def Let_def)
  with v show ?thesis by (simp add: same_verdicts_fields)
qed

end
