(* ===== verification/ScriptActions.thy ===== *)
theory ScriptActions
  imports SmtpSession MessageProps "HOL-Library.AList"
begin

text \<open>
  The builtins with which a policy script acts on a message, \<^verbatim>\<open>pkg/rules/engine.go\<close>, and the run of
  a script. The Starlark interpreter is not part of the repository: a run of a script is the list
  of the builtin calls it makes, at module level and in its \<^verbatim>\<open>evaluate\<close> function, and whether the
  interpreter stopped it with an error (step limit, time limit, a type error). The theorems hold for
  every such run, so whatever a script computes between its calls. Builtins that neither change
  the message nor read the parts modelled here are left out, and so is the score, a floating-point number.
\<close>

section \<open>Values\<close>

datatype script_value =
    VNone
  | VBool bool
  | VInt int
  | VString string
  | VList "script_value list"

definition string_list :: "string list \<Rightarrow> script_value" where
  "string_list items = VList (map VString items)"

fun strings_of_items :: "script_value list \<Rightarrow> string list option" where
  "strings_of_items [] = Some []"
| "strings_of_items (VString s # vs) = map_option ((#) s) (strings_of_items vs)"
| "strings_of_items (v # vs) = None"

definition strings_from_value :: "script_value \<Rightarrow> string list option" where
  "strings_from_value v =
     (case v of
        VNone \<Rightarrow> Some []
      | VString s \<Rightarrow> Some [s]
      | VList vs \<Rightarrow> strings_of_items vs
      | _ \<Rightarrow> None)"

section \<open>The builtins\<close>

text \<open>
  \<open>CallAction\<close> stands for the builtins without operand that only record their name (\<open>plain_actions\<close>
  below), \<open>CallActionArg\<close> and \<open>CallActionPair\<close> for those with one and two operands. The three queries of
  \<^verbatim>\<open>builtins_analysis.go\<close> that record an action carry the answer of the network as their last operand; \<open>ScriptQueries\<close> has
  the queries themselves.
\<close>

datatype builtin_call =
    CallAction string
  | CallActionArg string string
  | CallActionPair string string string
  | AddToNextDigest
  | LogEntry string
  | ReplyWithSmtpError int string
  | GetActions
  | HasAction string
  | ClearActions
  | GetHeader string
  | GetHeaders string
  | HasHeader string
  | HeaderCount string
  | HeaderNames
  | SearchHeaders string
  | AddHeader string string
  | RemoveHeader string
  | ProtectMetadata string script_value
  | SetContentFilterRules string
  | RblCheck string string bool
  | MxInRbl string string bool
  | DomainResolution string bool bool

definition plain_actions :: "string list" where
  "plain_actions = [''accept'', ''discard'', ''drop'', ''bounce'', ''quarantine'', ''reject'', ''defer'']"

definition operand_actions :: "string list" where
  "operand_actions = [''fileinto'', ''divert_to'', ''screen_to'', ''redirect'', ''tag'', ''auto_reply'',
     ''reply_with_smtp_dsn'', ''skip_malware_check'', ''skip_spam_check'', ''skip_whitelist_check'',
     ''force_second_pass'']"

definition pair_actions :: "string list" where
  "pair_actions = [''set_dlp'', ''skip_dlp'']"

record script_state =
  sc_message :: message
  sc_actions :: "string list"
  sc_log :: "string list"
  sc_modified :: "(string \<times> string) list"

definition perform :: "string \<Rightarrow> script_state \<Rightarrow> script_state" where
  "perform a st = st\<lparr>sc_actions := sc_actions st @ [a]\<rparr>"

definition metadata_fields :: "string \<Rightarrow> string list option" where
  "metadata_fields policy =
     (let addresses = [''X-Originating-IP'', ''X-Client-IP'', ''X-Sender-IP'', ''X-Remote-IP''];
          identities = [''X-Envelope-From'', ''X-Envelope-To'', ''X-Original-To'', ''X-Authenticated-User'', ''X-Auth-User''];
          trace = [''Received'', ''Return-Path'', ''Delivered-To''];
          p = to_lower (trim_space policy)
      in if p = ''minimal'' then Some addresses
         else if p = ''standard'' then Some (addresses @ identities)
         else if p = ''strict'' then Some (addresses @ identities @ trace)
         else None)"

fun remove_headers :: "string list \<Rightarrow> message \<Rightarrow> string + message" where
  "remove_headers [] m = Inr m"
| "remove_headers (name # names) m =
     (if contains_any name [CR, LF, CHR '':'', NUL]
      then Inl (''protect_metadata: invalid header name '' @ go_quote name)
      else remove_headers names (remove_header name m))"

definition protect_metadata :: "string \<Rightarrow> script_value \<Rightarrow> script_state \<Rightarrow> string + script_value \<times> script_state" where
  "protect_metadata policy extra st =
     (case metadata_fields policy of
        None \<Rightarrow> Inl (''protect_metadata: unknown policy '' @ go_quote policy @ '' (want minimal, standard, or strict)'')
      | Some names \<Rightarrow>
          (case strings_from_value extra of
             None \<Rightarrow> Inl ''protect_metadata: extra: expected a string or a list of strings''
           | Some others \<Rightarrow>
               (case remove_headers (names @ others) (sc_message st) of
                  Inl e \<Rightarrow> Inl e
                | Inr m \<Rightarrow> Inr (VInt (int (length (ms_removed m))),
                    perform (''protect_metadata:'' @ to_lower policy) (st\<lparr>sc_message := m\<rparr>)))))"

definition add_header :: "string \<Rightarrow> string \<Rightarrow> script_state \<Rightarrow> string + script_value \<times> script_state" where
  "add_header name v st =
     (if contains_any name [CR, LF, CHR '':'', NUL] \<or> contains_any v [CR, LF, NUL]
      then Inl ''add_header: name and value must not contain CR, LF or NUL''
      else Inr (VNone, perform (''add_header:'' @ name @ '':'' @ v) (st\<lparr>sc_modified := AList.update name v (sc_modified st)\<rparr>)))"

definition reply_with_smtp_error :: "int \<Rightarrow> string \<Rightarrow> script_state \<Rightarrow> string + script_value \<times> script_state" where
  "reply_with_smtp_error code text st =
     (if code < 400 \<or> code > 599
      then Inl (''reply_with_smtp_error: code '' @ show_int code @ '' is not a 4xx or 5xx SMTP status'')
      else Inr (VNone, perform (''smtp_error:'' @ show_int code @ (if text \<noteq> [] then '':'' @ text else [])) st))"

definition has_action :: "string \<Rightarrow> string list \<Rightarrow> bool" where
  "has_action name actions \<longleftrightarrow> list_ex (\<lambda>a. a = name \<or> has_prefix a (name @ '':'')) actions"

definition search_headers :: "string \<Rightarrow> message \<Rightarrow> bool" where
  "search_headers needle m \<longleftrightarrow>
     list_ex (\<lambda>h. contains (to_lower (hf_name h @ '': '' @ hf_value h)) (to_lower needle)) (ms_headers m)"

text \<open>A name that is not registered is an error of the interpreter.\<close>

definition undefined_name :: "string \<Rightarrow> string" where
  "undefined_name name = ''undefined: '' @ name"

fun call_builtin :: "builtin_call \<Rightarrow> script_state \<Rightarrow> string + script_value \<times> script_state" where
  "call_builtin (CallAction name) st =
     (if name \<in> set plain_actions then Inr (VNone, perform name st) else Inl (undefined_name name))"
| "call_builtin (CallActionArg name v) st =
     (if name \<in> set operand_actions then Inr (VNone, perform (name @ '':'' @ v) st) else Inl (undefined_name name))"
| "call_builtin (CallActionPair name a b) st =
     (if name \<in> set pair_actions then Inr (VNone, perform (name @ '':'' @ a @ '':'' @ b) st) else Inl (undefined_name name))"
| "call_builtin AddToNextDigest st = Inr (VBool True, perform ''add_to_digest'' st)"
| "call_builtin (LogEntry text) st = Inr (VNone, perform (''log:'' @ text) (st\<lparr>sc_log := sc_log st @ [text]\<rparr>))"
| "call_builtin (ReplyWithSmtpError code text) st = reply_with_smtp_error code text st"
| "call_builtin GetActions st = Inr (string_list (sc_actions st), st)"
| "call_builtin (HasAction name) st = Inr (VBool (has_action name (sc_actions st)), st)"
| "call_builtin ClearActions st = Inr (VNone, st\<lparr>sc_actions := []\<rparr>)"
| "call_builtin (GetHeader name) st = Inr (VString (msg_get (sc_message st) name), st)"
| "call_builtin (GetHeaders name) st = Inr (string_list (msg_get_all (sc_message st) name), st)"
| "call_builtin (HasHeader name) st = Inr (VBool (msg_has (sc_message st) name), st)"
| "call_builtin (HeaderCount name) st = Inr (VInt (int (msg_count (sc_message st) name)), st)"
| "call_builtin HeaderNames st = Inr (string_list (map hf_name (ms_headers (sc_message st))), st)"
| "call_builtin (SearchHeaders needle) st = Inr (VBool (search_headers needle (sc_message st)), st)"
| "call_builtin (AddHeader name v) st = add_header name v st"
| "call_builtin (RemoveHeader name) st =
     Inr (VNone, perform (''remove_header:'' @ name) (st\<lparr>sc_message := remove_header name (sc_message st)\<rparr>))"
| "call_builtin (ProtectMetadata policy extra) st = protect_metadata policy extra st"
| "call_builtin (SetContentFilterRules rule) st = Inr (VBool True, perform (''set_filter_rules:'' @ rule) st)"
| "call_builtin (RblCheck ip zone answer) st = Inr (VBool answer, perform (''rbl_check:'' @ ip @ '':'' @ zone) st)"
| "call_builtin (MxInRbl domain zone answer) st = Inr (VBool answer, perform (''mx_rbl_check:'' @ domain @ '':'' @ zone) st)"
| "call_builtin (DomainResolution sender verify answer) st =
     Inr (VBool answer, perform (''domain_resolve:'' @ sender @ '':'' @ (if verify then ''true'' else ''false'')) st)"

fun run_calls :: "builtin_call list \<Rightarrow> script_state \<Rightarrow> string + script_state" where
  "run_calls [] st = Inr st"
| "run_calls (c # cs) st = (case call_builtin c st of Inl e \<Rightarrow> Inl e | Inr (v, st') \<Rightarrow> run_calls cs st')"

section \<open>Running a script\<close>

text \<open>What a module binds to \<^verbatim>\<open>evaluate\<close>: nothing, a value that cannot be called, or a function making calls.\<close>

datatype entry_point = NoEntry | NotCallable string | Entry "builtin_call list" bool

record script_run =
  sr_module_calls :: "builtin_call list"
  sr_module_fails :: bool
  sr_entry :: entry_point

definition run_phase :: "string \<Rightarrow> builtin_call list \<Rightarrow> bool \<Rightarrow> script_state \<Rightarrow> string + script_state" where
  "run_phase what calls fails st =
     (case run_calls calls st of
        Inl e \<Rightarrow> Inl (what @ e)
      | Inr st' \<Rightarrow> if fails then Inl what else Inr st')"

definition execute_engine :: "script_run \<Rightarrow> script_state \<Rightarrow> string + script_state" where
  "execute_engine run st =
     (case run_phase ''starlark execution failed: '' (sr_module_calls run) (sr_module_fails run) st of
        Inl e \<Rightarrow> Inl e
      | Inr st1 \<Rightarrow>
          (case sr_entry run of
             NoEntry \<Rightarrow> Inr (if sc_actions st1 = [] then perform ''accept'' st1 else st1)
           | NotCallable ty \<Rightarrow> Inl (''starlark execution failed: 'evaluate' is '' @ ty @ '', not a function'')
           | Entry calls fails \<Rightarrow> run_phase ''failed calling evaluate(): '' calls fails st1))"

definition fresh_script :: "string \<Rightarrow> script_state" where
  "fresh_script raw = \<lparr>sc_message = parse_message_headers raw, sc_actions = [], sc_log = [], sc_modified = []\<rparr>"

text \<open>
  The policy of the proxy: what the script does may depend on everything it is given. Parsing a
  message never fails.
\<close>

definition script_policy :: "(policy_input \<Rightarrow> script_run) \<Rightarrow> policy_input \<Rightarrow> policy_result" where
  "script_policy script input =
     (case execute_engine (script input) (fresh_script (pi_message input)) of
        Inl e \<Rightarrow> PolicyScriptError
      | Inr st \<Rightarrow> PolicyDone \<lparr>po_actions = sc_actions st, po_removed = ms_removed (sc_message st), po_added = sc_modified st\<rparr>)"

section \<open>What every run keeps\<close>

text \<open>
  The contract between the builtins and the engine: a condition every successful call keeps, and
  that holds when a script starts, holds of everything the engine hands back.
\<close>

locale call_invariant =
  fixes keep :: "script_state \<Rightarrow> bool"
  assumes calls_keep: "call_builtin c st = Inr (v, st') \<Longrightarrow> keep st \<Longrightarrow> keep st'"
begin

lemma run_keeps: "run_calls cs st = Inr st' \<Longrightarrow> keep st \<Longrightarrow> keep st'"
  by (induction cs st rule: run_calls.induct) (auto split: sum.splits dest: calls_keep)

lemma phase_keeps: "run_phase what cs fails st = Inr st' \<Longrightarrow> keep st \<Longrightarrow> keep st'"
  by (auto simp: run_phase_def split: sum.splits if_splits dest: run_keeps)

lemma execute_keeps: "execute_engine run st = Inr st' \<Longrightarrow> keep st \<Longrightarrow> keep st'"
  using calls_keep [of "CallAction ''accept''"]
  by (auto simp: execute_engine_def plain_actions_def split: sum.splits entry_point.splits if_splits dest: phase_keeps)

end

text \<open>The added fields: one value for a name, and nothing in them that could end a line, a name or a C string.\<close>

definition field_safe :: "string \<times> string \<Rightarrow> bool" where
  "field_safe f \<longleftrightarrow> line_ok (fst f) \<and> line_ok (snd f) \<and> NUL \<notin> set (fst f @ snd f) \<and> CHR '':'' \<notin> set (fst f)"

definition changes_safe :: "script_state \<Rightarrow> bool" where
  "changes_safe st \<longleftrightarrow> distinct (map fst (sc_modified st)) \<and> list_all field_safe (sc_modified st)"

lemma perform_fields [simp]:
  "sc_message (perform a st) = sc_message st" "sc_modified (perform a st) = sc_modified st"
  "sc_log (perform a st) = sc_log st" "sc_actions (perform a st) = sc_actions st @ [a]"
  by (simp_all add: perform_def)

lemma line_ok_iff: "line_ok s \<longleftrightarrow> CR \<notin> set s \<and> LF \<notin> set s"
  by (induction s) auto

lemma field_safe_update:
  "list_all field_safe m \<Longrightarrow> field_safe (n, v) \<Longrightarrow> list_all field_safe (AList.update n v m)"
  by (induction m) (auto simp: field_safe_def)

lemma call_modified:
  assumes "call_builtin c st = Inr (v, st')"
  shows "sc_modified st' = sc_modified st \<or>
    (\<exists>n x. field_safe (n, x) \<and> sc_modified st' = AList.update n x (sc_modified st))"
proof (cases c)
  case (AddHeader n x)
  with assms have "field_safe (n, x) \<and> sc_modified st' = AList.update n x (sc_modified st)"
    by (auto simp: add_header_def contains_any_iff field_safe_def line_ok_iff split: if_splits)
  then show ?thesis by blast
qed (use assms in \<open>auto simp: reply_with_smtp_error_def protect_metadata_def split: if_splits option.splits sum.splits\<close>)

interpretation added_fields: call_invariant changes_safe
proof
  fix c st v st'
  assume c: "call_builtin c st = Inr (v, st')" and s: "changes_safe st"
  from call_modified [OF c] s show "changes_safe st'"
    by (auto simp: changes_safe_def distinct_update field_safe_update)
qed

text \<open>A name that was removed stays removed, in whatever spelling it was recorded.\<close>

definition removal_recorded :: "string \<Rightarrow> message \<Rightarrow> bool" where
  "removal_recorded name m \<longleftrightarrow> list_ex (\<lambda>r. equal_fold r name) (ms_removed m)"

lemma remove_header_keeps: "removal_recorded n m \<Longrightarrow> removal_recorded n (remove_header name m)"
  by (auto simp: removal_recorded_def remove_header_def Let_def)

lemma remove_header_records: "trim_space name \<noteq> [] \<Longrightarrow> removal_recorded (trim_space name) (remove_header name m)"
  by (auto simp: removal_recorded_def remove_header_def Let_def)

lemma remove_headers_keep: "remove_headers ns m = Inr m' \<Longrightarrow> removal_recorded n m \<Longrightarrow> removal_recorded n m'"
  by (induction ns m rule: remove_headers.induct) (auto split: if_splits dest: remove_header_keeps)

lemma remove_headers_record:
  "remove_headers ns m = Inr m' \<Longrightarrow> n \<in> set ns \<Longrightarrow> trim_space n \<noteq> [] \<Longrightarrow> removal_recorded (trim_space n) m'"
proof (induction ns m rule: remove_headers.induct)
  case (2 name names m)
  then show ?case using remove_headers_keep [of names "remove_header name m" m'] remove_header_records [of name m]
    by (auto split: if_splits)
qed simp

lemma call_removed:
  assumes "call_builtin c st = Inr (v, st')" and "removal_recorded n (sc_message st)"
  shows "removal_recorded n (sc_message st')"
  using assms
  by (cases c)
    (auto simp: add_header_def reply_with_smtp_error_def protect_metadata_def
      split: if_splits option.splits sum.splits dest: remove_header_keeps remove_headers_keep)

interpretation removed_field: call_invariant "\<lambda>st. removal_recorded n (sc_message st)"
  by unfold_locales (rule call_removed)

end
