(* ===== verification/ScriptProps.thy ===== *)
theory ScriptProps
  imports ScriptActions SessionProps
begin

text \<open>
  What a policy script can do to a message: no run of any script breaks the SMTP framing of the
  message it filters, and the fields it asks to be removed are gone.
\<close>

section \<open>Wire-clean messages\<close>









lemma script_added_safe:
  assumes "script_policy script input = PolicyDone out"
  shows "list_all field_safe (po_added out)" "distinct (map fst (po_added out))"
proof -
  obtain st where st: "execute_engine (script input) (fresh_script (pi_message input)) = Inr st" "po_added out = sc_modified st"
    using assms by (auto simp: script_policy_def split: sum.splits)
  have "changes_safe (fresh_script (pi_message input))" by (simp add: changes_safe_def fresh_script_def)
  from added_fields.execute_keeps [OF st(1) this] st(2)
  show "list_all field_safe (po_added out)" "distinct (map fst (po_added out))" by (simp_all add: changes_safe_def)
qed

lemma policy_loop_code:
  "dd_code d \<in> {250} \<union> {400..599} \<Longrightarrow> dd_code (policy_loop d as fq) \<in> {250} \<union> {400..599}"
proof (induction as arbitrary: d)
  case (Cons a as)
  have "400 \<le> dd_code (smtp_error_disposition a) \<and> dd_code (smtp_error_disposition a) \<le> 599" by (rule smtp_error_code)
  moreover have "dd_code (policy_loop (d\<lparr>dd_quarantine := True\<rparr>) as fq) \<in> {250} \<union> {400..599}"
    using Cons.prems Cons.IH [of "d\<lparr>dd_quarantine := True\<rparr>"] by simp
  ultimately show ?case using Cons.prems Cons.IH [of d] by (auto simp: Let_def)
qed simp


lemma written_in: "f \<in> set (written_fields m) \<Longrightarrow> f \<in> set m"
proof -
  assume "f \<in> set (written_fields m)"
  then obtain n where n: "n \<in> set (map fst m)" "f = (n, the (map_of m n))" by (auto simp: written_fields_def)
  then obtain v where "map_of m n = Some v" by (metis in_set_conv_nth map_of_eq_None_iff not_None_eq set_map)
  with n map_of_SomeD show ?thesis by fastforce
qed

lemma changes_parts:
  assumes "list_all field_safe added"
  shows "header_lines (apply_header_changes raw removed added) =
      map field_text (written_fields added) @ header_lines (fold (\<lambda>n raw. strip_header raw n) removed raw)"
    "body_bytes (apply_header_changes raw removed added) = body_bytes raw"
proof -
  have "\<forall>f \<in> set (written_fields added). LF \<notin> set (fst f) \<and> LF \<notin> set (snd f)"
    using assms written_in by (fastforce simp: list_all_iff field_safe_def line_ok_iff)
  from apply_modified_parts [OF this] strip_headers_parts show
    "header_lines (apply_header_changes raw removed added) =
      map field_text (written_fields added) @ header_lines (fold (\<lambda>n raw. strip_header raw n) removed raw)"
    "body_bytes (apply_header_changes raw removed added) = body_bytes raw"
    by (simp_all add: apply_header_changes_def)
qed





definition demo_script :: script_run where
  "demo_script = \<lparr>sr_module_calls = [LogEntry ''seen'', RemoveHeader ''X-Client-IP''], sr_module_fails = False,
     sr_entry = Entry [AddHeader ''X-Filtered'' ''yes'', ProtectMetadata ''minimal'' VNone, CallAction ''accept''] False\<rparr>"

definition demo_policy_input :: policy_input where
  "demo_policy_input = \<lparr>pi_message = ''A: 1'' @ CRLF @ CRLF, pi_from = [], pi_to = [], pi_helo = [], pi_client_ip = []\<rparr>"

definition demo_outcome :: policy_output where
  "demo_outcome = (case script_policy (\<lambda>_. demo_script) demo_policy_input of PolicyDone out \<Rightarrow> out
     | _ \<Rightarrow> \<lparr>po_actions = [], po_removed = [], po_added = []\<rparr>)"





section \<open>Removed fields\<close>

context call_invariant
begin

text \<open>One call of the run that establishes the condition is enough.\<close>

lemma run_establishes:
  assumes "\<And>st v st'. call_builtin c st = Inr (v, st') \<Longrightarrow> keep st'"
  shows "run_calls cs st = Inr st' \<Longrightarrow> c \<in> set cs \<Longrightarrow> keep st'"
proof (induction cs st rule: run_calls.induct)
  case (2 d ds st)
  then obtain v st1 where d: "call_builtin d st = Inr (v, st1)" "run_calls ds st1 = Inr st'"
    by (auto split: sum.splits)
  show ?case
  proof (cases "d = c")
    case True
    with assms d(1) have "keep st1" by blast
    with d(2) show ?thesis by (rule run_keeps)
  next
    case False
    with 2 d show ?thesis by auto
  qed
qed simp

end

definition run_makes :: "script_run \<Rightarrow> builtin_call \<Rightarrow> bool" where
  "run_makes run c \<longleftrightarrow> c \<in> set (sr_module_calls run) \<or>
     (case sr_entry run of Entry cs fails \<Rightarrow> c \<in> set cs | _ \<Rightarrow> False)"

context call_invariant
begin

lemma phase_establishes:
  assumes "\<And>st v st'. call_builtin c st = Inr (v, st') \<Longrightarrow> keep st'"
  shows "run_phase what cs fails st = Inr st' \<Longrightarrow> c \<in> set cs \<Longrightarrow> keep st'"
  using run_establishes [OF assms] by (auto simp: run_phase_def split: sum.splits if_splits)

lemma execute_establishes:
  assumes c: "\<And>st v st'. call_builtin c st = Inr (v, st') \<Longrightarrow> keep st'"
    and "execute_engine run st = Inr st'" and "run_makes run c"
  shows "keep st'"
proof -
  obtain st1 where st1: "run_phase ''starlark execution failed: '' (sr_module_calls run) (sr_module_fails run) st = Inr st1"
    using assms(2) by (auto simp: execute_engine_def split: sum.splits)
  show ?thesis
  proof (cases "c \<in> set (sr_module_calls run)")
    case True
    from phase_establishes [OF c st1 this] have "keep st1" .
    with assms(2) st1 calls_keep [of "CallAction ''accept''"] show ?thesis
      by (auto simp: execute_engine_def plain_actions_def split: entry_point.splits if_splits dest: phase_keeps)
  next
    case False
    with assms(3) obtain cs f where e: "sr_entry run = Entry cs f" "c \<in> set cs"
      by (auto simp: run_makes_def split: entry_point.splits)
    with assms(2) st1 have "run_phase ''failed calling evaluate(): '' cs f st1 = Inr st'" by (simp add: execute_engine_def)
    from phase_establishes [OF c this e(2)] show ?thesis .
  qed
qed

end

lemma carries_fold: "equal_fold r n \<Longrightarrow> carries_field n raw = carries_field r raw"
proof -
  assume r: "equal_fold r n"
  then have "names_field n l = names_field r l" for l
    unfolding names_field_def Let_def using equal_fold_trans equal_fold_sym by blast
  then show ?thesis by (simp add: carries_field_def)
qed

lemma trim_right_set_Cons: "c \<notin> set cs \<Longrightarrow> trim_right_set (a @ c # b) cs = a @ c # trim_right_set b cs"
  by (simp add: trim_right_set_def dropWhile_append)

lemma names_added:
  assumes "CHR '':'' \<notin> set n"
  shows "names_field name (n @ '': '' @ v @ CRLF) \<longleftrightarrow> equal_fold (trim_space n) name"
proof -
  have "trim_right_set (n @ CHR '':'' # SP # v @ CRLF) CRLF = n @ CHR '':'' # trim_right_set (SP # v @ CRLF) CRLF"
    by (rule trim_right_set_Cons) simp
  with index_byte_append [OF assms] show ?thesis by (simp add: names_field_def split2_def Let_def)
qed

text \<open>
  C33: Of the fields that a script asks \<^verbatim>\<open>protect_metadata\<close> to remove, those of the privacy policy and the extra ones, nothing that
  was received is sent on, whatever the run does before or after that call and in whatever spelling a field was recorded
  earlier: every field of such a name in the message that is delivered is one the script itself added.
\<close>

theorem protected_metadata_gone:
  assumes "script_policy script input = PolicyDone out"
    and "run_makes (script input) (ProtectMetadata policy extra)"
    and "metadata_fields policy = Some names" and "strings_from_value extra = Some others"
    and "n \<in> set (names @ others)" and "trim_space n \<noteq> []"
    and "l \<in> set (header_lines (apply_header_changes raw (po_removed out) (po_added out)))"
    and "\<not> continuation_line l" and "names_field (trim_space n) l"
  shows "\<exists>f \<in> set (po_added out). l = field_text f \<and> equal_fold (trim_space (fst f)) (trim_space n)"
proof -
  obtain st where st: "execute_engine (script input) (fresh_script (pi_message input)) = Inr st"
      "po_added out = sc_modified st" "po_removed out = ms_removed (sc_message st)"
    using assms(1) by (auto simp: script_policy_def split: sum.splits)
  have est: "removal_recorded (trim_space n) (sc_message st2)"
    if "call_builtin (ProtectMetadata policy extra) st1 = Inr (v, st2)" for st1 v st2
    using that remove_headers_record [of "names @ others" "sc_message st1" _ n] assms(3-6)
    by (auto simp: protect_metadata_def split: sum.splits)
  have "removal_recorded (trim_space n) (sc_message st)"
    by (rule removed_field.execute_establishes [OF _ st(1) assms(2)]) (rule est)
  then obtain r where r: "r \<in> set (po_removed out)" "equal_fold r (trim_space n)"
    by (auto simp: removal_recorded_def list_ex_iff st(3))
  have "\<not> carries_field (trim_space n) (fold (\<lambda>n raw. strip_header raw n) (po_removed out) raw)"
    unfolding carries_fold [OF r(2)] by (rule strip_headers_removes [OF r(1)])
  then have "l \<notin> set (header_lines (fold (\<lambda>n raw. strip_header raw n) (po_removed out) raw))"
    using assms(8,9) by (auto simp: carries_field_def list_ex_iff)
  note safe = script_added_safe(1) [OF assms(1)]
  from \<open>l \<notin> _\<close> assms(7) obtain f where f: "f \<in> set (po_added out)" "l = field_text f"
    unfolding changes_parts(1) [OF safe] using written_in by fastforce
  then have "CHR '':'' \<notin> set (fst f)" using safe by (auto simp: list_all_iff field_safe_def)
  from names_added [OF this, of "trim_space n" "snd f"] assms(9) f show ?thesis by (auto simp: field_text_def)
qed

theorem protected_metadata_gone_witness:
  "\<not> carries_field (trim_space ''X-Sender-IP'') (apply_header_changes (''x-sender-ip: 192.0.2.7'' @ CRLF @ CRLF)
     (po_removed demo_outcome) (po_added demo_outcome))"
proof
  let ?n = "''X-Sender-IP''"
  have c: "script_policy (\<lambda>_. demo_script) demo_policy_input = PolicyDone demo_outcome" by code_simp
  have r: "run_makes demo_script (ProtectMetadata ''minimal'' VNone)" by code_simp
  have m: "metadata_fields ''minimal'' = Some [''X-Originating-IP'', ''X-Client-IP'', ''X-Sender-IP'', ''X-Remote-IP'']"
    by code_simp
  have v: "strings_from_value VNone = Some []" by code_simp
  have n: "?n \<in> set ([''X-Originating-IP'', ''X-Client-IP'', ''X-Sender-IP'', ''X-Remote-IP''] @ [])" "trim_space ?n \<noteq> []"
    by code_simp+
  have none: "list_all (\<lambda>f. \<not> equal_fold (trim_space (fst f)) (trim_space ?n)) (po_added demo_outcome)" by code_simp
  assume "carries_field (trim_space ?n) (apply_header_changes (''x-sender-ip: 192.0.2.7'' @ CRLF @ CRLF)
     (po_removed demo_outcome) (po_added demo_outcome))"
  then obtain l where "l \<in> set (header_lines (apply_header_changes (''x-sender-ip: 192.0.2.7'' @ CRLF @ CRLF)
      (po_removed demo_outcome) (po_added demo_outcome)))" "\<not> continuation_line l" "names_field (trim_space ?n) l"
    by (auto simp: carries_field_def list_ex_iff)
  from protected_metadata_gone [OF c r m v n this] none show False by (auto simp: list_all_iff)
qed

end
