(* ===== verification/PolicyLoad.thy ===== *)
theory PolicyLoad
  imports GoStrings
begin

text \<open>
  Loading a policy, \<^verbatim>\<open>pkg/rules/policy.go\<close>: the snapshot of a script and every module it loads,
  and the loader with which \<^verbatim>\<open>pkg/rules/engine.go\<close> runs it. The file system and the Starlark parser
  are parameters: resolving symbolic links, reading a file, and the modules a program loads, in order
  (\<^const>\<open>None\<close> for a program that does not compile). Paths are those of Unix.
\<close>

section \<open>Paths\<close>

abbreviation SLASH :: char where "SLASH \<equiv> CHR ''/''"

definition is_abs :: "string \<Rightarrow> bool" where
  "is_abs path \<longleftrightarrow> has_prefix path ''/''"

text \<open>\<^verbatim>\<open>filepath.Clean\<close>: the components that stay, the last first.\<close>

fun clean_comps :: "bool \<Rightarrow> string list \<Rightarrow> string list \<Rightarrow> string list" where
  "clean_comps rooted acc [] = acc"
| "clean_comps rooted acc (c # cs) =
     (if c = [] \<or> c = ''.'' then clean_comps rooted acc cs
      else if c = ''..'' then
        (case acc of
           [] \<Rightarrow> clean_comps rooted (if rooted then [] else [''..'']) cs
         | a # as \<Rightarrow> clean_comps rooted (if a = ''..'' then ''..'' # acc else as) cs)
      else clean_comps rooted (c # acc) cs)"

definition path_comps :: "string \<Rightarrow> string list" where
  "path_comps path = rev (clean_comps (is_abs path) [] (split_on SLASH path))"

definition path_clean :: "string \<Rightarrow> string" where
  "path_clean path =
     (if is_abs path then ''/'' @ join ''/'' (path_comps path)
      else if path_comps path = [] then ''.'' else join ''/'' (path_comps path))"

definition path_join :: "string \<Rightarrow> string \<Rightarrow> string" where
  "path_join a b =
     (if a \<noteq> [] then path_clean (a @ ''/'' @ b) else if b \<noteq> [] then path_clean b else [])"

definition path_dir :: "string \<Rightarrow> string" where
  "path_dir path = (case last_index SLASH path of None \<Rightarrow> ''.'' | Some i \<Rightarrow> path_clean (take (Suc i) path))"

definition path_base :: "string \<Rightarrow> string" where
  "path_base path =
     (if path = [] then ''.''
      else
        let p = trim_right_set path ''/'';
            b = (case last_index SLASH p of None \<Rightarrow> p | Some i \<Rightarrow> drop (Suc i) p)
        in if b = [] then ''/'' else b)"

definition path_ext :: "string \<Rightarrow> string" where
  "path_ext path =
     (let name = (case last_index SLASH path of None \<Rightarrow> path | Some i \<Rightarrow> drop (Suc i) path) in
      case last_index CHR ''.'' name of None \<Rightarrow> [] | Some i \<Rightarrow> drop i name)"

section \<open>The snapshot\<close>

record policy_env =
  pe_cwd :: "string option"
  pe_resolve :: "string \<Rightarrow> string option"
  pe_read :: "string \<Rightarrow> string option"
  pe_loads :: "string \<Rightarrow> string \<Rightarrow> string list option"

definition path_abs :: "policy_env \<Rightarrow> string \<Rightarrow> string option" where
  "path_abs env path =
     (if is_abs path then Some (path_clean path) else map_option (\<lambda>cwd. path_join cwd path) (pe_cwd env))"

type_synonym modules = "(string \<times> string) list"

record policy =
  pl_source :: string
  pl_filename :: string
  pl_modules :: modules

definition max_source :: nat where "max_source = 4 * 1024 * 1024"

definition bad_module :: "string \<Rightarrow> bool" where
  "bad_module module \<longleftrightarrow> is_abs module \<or> path_ext module \<noteq> ''.star''"

definition module_path :: "string \<Rightarrow> string \<Rightarrow> string" where
  "module_path root module = path_join root (path_clean module)"

text \<open>
  \<^verbatim>\<open>read\<close>: \<open>visiting\<close> are the resolved paths of the files whose loads are being read, the modules are kept
  in the order in which they were finished.
\<close>

function read_policy :: "policy_env \<Rightarrow> string \<Rightarrow> string list \<Rightarrow> modules \<Rightarrow> string \<Rightarrow> string + string \<times> modules"
  and read_loads :: "policy_env \<Rightarrow> string \<Rightarrow> string list \<Rightarrow> modules \<Rightarrow> string list \<Rightarrow> string + modules" where
  "read_policy env root visiting mods path =
     (case pe_resolve env path of
        None \<Rightarrow> Inl ''no such file''
      | Some resolved \<Rightarrow>
          if \<not> has_prefix resolved (root @ ''/'') then Inl (''policy module escapes root: '' @ path)
          else if resolved \<in> set visiting then Inl (''policy load cycle: '' @ path)
          else (case map_of mods path of
              Some source \<Rightarrow> Inr (source, mods)
            | None \<Rightarrow>
                (case pe_read env resolved of
                   None \<Rightarrow> Inl ''unreadable''
                 | Some source \<Rightarrow>
                     if length source > max_source \<or> length mods > 256 \<or> length (resolved # visiting) > 256
                     then Inl ''policy snapshot exceeds limits''
                     else (case pe_loads env path source of
                         None \<Rightarrow> Inl ''syntax error''
                       | Some loads \<Rightarrow>
                           (case read_loads env root (resolved # visiting) mods loads of
                              Inl e \<Rightarrow> Inl e
                            | Inr mods1 \<Rightarrow> Inr (source, mods1 @ [(path, source)]))))))"
| "read_loads env root visiting mods [] = Inr mods"
| "read_loads env root visiting mods (module # loads) =
     (if bad_module module then Inl ''load: expected relative .star path''
      else (case read_policy env root visiting mods (module_path root module) of
          Inl e \<Rightarrow> Inl e
        | Inr (source, mods1) \<Rightarrow> read_loads env root visiting mods1 loads))"
  by pat_completeness auto

text \<open>Loading ends on every file system: no more than 256 files are being read at a time.\<close>

termination
  by (relation "inv_image (less_than <*lex*> less_than)
      (\<lambda>x. case x of Inl (env, root, visiting, mods, path) \<Rightarrow> (257 - length visiting, 0)
         | Inr (env, root, visiting, mods, loads) \<Rightarrow> (257 - length visiting, Suc (length loads)))")
    auto

declare read_policy.simps [simp del]

definition load_policy :: "policy_env \<Rightarrow> string \<Rightarrow> string + policy" where
  "load_policy env filename0 =
     (case path_abs env filename0 of
        None \<Rightarrow> Inl ''no working directory''
      | Some filename \<Rightarrow>
          (case pe_resolve env (path_dir filename) of
             None \<Rightarrow> Inl ''no such directory''
           | Some root \<Rightarrow>
               let name = path_join root (path_base filename) in
               (case read_policy env root [] [] name of
                  Inl e \<Rightarrow> Inl e
                | Inr (source, mods) \<Rightarrow> Inr \<lparr>pl_source = source, pl_filename = name, pl_modules = mods\<rparr>)))"

section \<open>The loader of the engine\<close>

text \<open>
  \<^verbatim>\<open>thread.Load\<close> for a policy that was loaded before. Of a module it returns the global
  bindings; here the cache is the list of the modules executed, in order. \<open>runs\<close> tells whether the interpreter
  executes the body of a module without an error.
\<close>

definition engine_root :: "policy_env \<Rightarrow> string \<Rightarrow> string option" where
  "engine_root env filename =
     (case path_abs env (path_dir filename) of
        None \<Rightarrow> None
      | Some root \<Rightarrow> Some (case pe_resolve env root of None \<Rightarrow> root | Some r \<Rightarrow> r))"

definition unloaded :: "modules \<Rightarrow> string list \<Rightarrow> nat" where
  "unloaded mods loading = length (filter (\<lambda>p. p \<notin> set loading) (map fst mods))"

lemma unloaded_less: "map_of mods path = Some source \<Longrightarrow> path \<notin> set loading \<Longrightarrow> unloaded mods (path # loading) < unloaded mods loading"
proof -
  assume p: "map_of mods path = Some source" "path \<notin> set loading"
  then have "path \<in> set (filter (\<lambda>p. p \<notin> set loading) (map fst mods))" by (force dest: map_of_SomeD)
  then have "length (filter (\<lambda>q. q \<noteq> path) (filter (\<lambda>p. p \<notin> set loading) (map fst mods))) <
      length (filter (\<lambda>p. p \<notin> set loading) (map fst mods))" by (intro length_filter_less) auto
  moreover have "filter (\<lambda>q. q \<noteq> path) (filter (\<lambda>p. p \<notin> set loading) (map fst mods)) =
      filter (\<lambda>p. p \<notin> set (path # loading)) (map fst mods)" by (auto simp: filter_filter intro: filter_cong)
  ultimately show ?thesis by (simp only: unloaded_def)
qed

function load_module :: "policy_env \<Rightarrow> (string \<Rightarrow> bool) \<Rightarrow> string \<Rightarrow> modules \<Rightarrow> string list \<Rightarrow> string list \<Rightarrow> string \<Rightarrow> string + string list"
  and run_loads :: "policy_env \<Rightarrow> (string \<Rightarrow> bool) \<Rightarrow> string \<Rightarrow> modules \<Rightarrow> string list \<Rightarrow> string list \<Rightarrow> string list \<Rightarrow> string + string list" where
  "load_module env runs root sources loading cache module =
     (if bad_module module then Inl ''load: module must be a relative .star path''
      else (case path_abs env (module_path root module) of
          None \<Rightarrow> Inl ''load''
        | Some path \<Rightarrow>
            if path \<noteq> root \<and> \<not> has_prefix path (root @ ''/'')
            then Inl (''load: module '' @ go_quote module @ '' escapes policy directory'')
            else if path \<in> set cache then Inr cache
            else if path \<in> set loading then Inl (''load cycle involving '' @ go_quote module)
            else (case map_of sources path of
                None \<Rightarrow> Inl (''module '' @ go_quote module @ '' absent from policy snapshot'')
              | Some source \<Rightarrow>
                  (case pe_loads env path source of
                     None \<Rightarrow> Inl ''syntax error''
                   | Some loads \<Rightarrow>
                       (case run_loads env runs root sources (path # loading) cache loads of
                          Inl e \<Rightarrow> Inl e
                        | Inr cache1 \<Rightarrow> if runs path then Inr (cache1 @ [path]) else Inl ''module failed'')))))"
| "run_loads env runs root sources loading cache [] = Inr cache"
| "run_loads env runs root sources loading cache (module # loads) =
     (case load_module env runs root sources loading cache module of
        Inl e \<Rightarrow> Inl e
      | Inr cache1 \<Rightarrow> run_loads env runs root sources loading cache1 loads)"
  by pat_completeness auto

termination
  by (relation "inv_image (less_than <*lex*> less_than)
      (\<lambda>x. case x of Inl (env, runs, root, sources, loading, cache, module) \<Rightarrow> (unloaded sources loading, 0)
         | Inr (env, runs, root, sources, loading, cache, loads) \<Rightarrow> (unloaded sources loading, Suc (length loads)))")
    (auto intro: unloaded_less)

declare load_module.simps [simp del]

text \<open>The loads of the root script, at the start of its run.\<close>

definition run_policy_loads :: "policy_env \<Rightarrow> (string \<Rightarrow> bool) \<Rightarrow> policy \<Rightarrow> string + string list" where
  "run_policy_loads env runs p =
     (case engine_root env (pl_filename p) of
        None \<Rightarrow> Inl ''resolve script directory''
      | Some root \<Rightarrow>
          (case pe_loads env (pl_filename p) (pl_source p) of
             None \<Rightarrow> Inl ''syntax error''
           | Some loads \<Rightarrow> run_loads env runs root (pl_modules p) [] [] loads))"

end
