(* ===== verification/PolicyProps.thy ===== *)
theory PolicyProps
  imports PolicyLoad
begin

text \<open>
  A policy snapshot is complete and acyclic, its files lie below the directory of the script, and the
  engine can load every module of it.
\<close>

section \<open>Clean paths\<close>

definition plain_comp :: "string \<Rightarrow> bool" where
  "plain_comp c \<longleftrightarrow> c \<noteq> [] \<and> c \<noteq> ''.'' \<and> c \<noteq> ''..'' \<and> SLASH \<notin> set c"

lemma clean_comps_plain:
  "list_all plain_comp acc \<Longrightarrow> \<forall>c \<in> set cs. SLASH \<notin> set c \<Longrightarrow> list_all plain_comp (clean_comps True acc cs)"
  by (induction cs arbitrary: acc) (auto simp: plain_comp_def split: list.splits)

lemma clean_comps_id: "list_all plain_comp cs \<Longrightarrow> clean_comps r acc cs = rev cs @ acc"
  by (induction cs arbitrary: acc) (auto simp: plain_comp_def)

lemma clean_comps_append: "clean_comps r acc (xs @ ys) = clean_comps r (clean_comps r acc xs) ys"
  by (induction r acc xs rule: clean_comps.induct) (auto split: list.splits)

lemma path_comps_plain: "is_abs p \<Longrightarrow> list_all plain_comp (path_comps p)"
  unfolding path_comps_def list_all_iff set_rev
  using clean_comps_plain [of "[]" "split_on SLASH p"] split_on_parts [of _ SLASH p] by (auto simp: list_all_iff)

lemma split_slash_append: "split_on SLASH (a @ SLASH # b) = split_on SLASH a @ split_on SLASH b"
proof -
  have "split_where (\<lambda>x. x = SLASH) (a @ SLASH # b) = split_where (\<lambda>x. x = SLASH) a @ split_where (\<lambda>x. x = SLASH) b"
    by (induction a) (auto split: list.splits)
  then show ?thesis by (simp add: split_on_def)
qed

lemma split_on_single: "c \<notin> set s \<Longrightarrow> split_on c s = [s]"
  unfolding split_on_def by (rule split_where_no) auto

lemma split_on_join: "list_all plain_comp cs \<Longrightarrow> cs \<noteq> [] \<Longrightarrow> split_on SLASH (join ''/'' cs) = cs"
proof (induction cs rule: induct_list012)
  case (2 c)
  then show ?case by (simp add: plain_comp_def split_on_single)
next
  case (3 c d cs)
  have "split_on SLASH c = [c]" using 3 by (simp add: plain_comp_def split_on_single)
  with 3 split_slash_append [of c "join ''/'' (d # cs)"] show ?case by simp
qed simp

definition abs_path :: "string list \<Rightarrow> string" where
  "abs_path cs = ''/'' @ join ''/'' cs"

lemma is_abs_path [simp]: "is_abs (abs_path cs)"
  by (simp add: abs_path_def is_abs_def has_prefix_def)

lemma is_abs_append: "is_abs p \<Longrightarrow> is_abs (p @ q)"
  by (cases p) (simp_all add: is_abs_def has_prefix_def)

lemma split_abs_path:
  "list_all plain_comp cs \<Longrightarrow> \<exists>es. split_on SLASH (abs_path cs) = es \<and> clean_comps r [] es = rev cs"
proof -
  assume cs: "list_all plain_comp cs"
  have "split_on SLASH (abs_path cs) = [] # (if cs = [] then [[]] else cs)"
    using split_slash_append [of "[]" "join ''/'' cs"] split_on_join [OF cs] by (auto simp: abs_path_def split_on_def)
  then show ?thesis using clean_comps_id [OF cs] by simp
qed

lemma path_clean_abs: "is_abs p \<Longrightarrow> path_clean p = abs_path (path_comps p)"
  by (simp add: path_clean_def abs_path_def)

lemma path_clean_id: "list_all plain_comp cs \<Longrightarrow> path_clean (abs_path cs) = abs_path cs"
  using split_abs_path [of cs True] by (auto simp: path_clean_abs path_comps_def)

lemma clean_abs: "is_abs p \<Longrightarrow> path_clean p = p \<Longrightarrow> \<exists>cs. list_all plain_comp cs \<and> p = abs_path cs"
  using path_clean_abs path_comps_plain by metis

lemma path_clean_idem: "is_abs p \<Longrightarrow> path_clean (path_clean p) = path_clean p"
  using path_clean_id [OF path_comps_plain] by (simp only: path_clean_abs)

text \<open>A file directly in a directory.\<close>

lemma abs_path_snoc: "abs_path (cs @ [b]) = (if cs = [] then ''/'' else abs_path cs @ ''/'') @ b"
proof -
  have "ds \<noteq> [] \<Longrightarrow> join ''/'' (ds @ [b]) = join ''/'' ds @ SLASH # b" for ds
    by (induction ds rule: induct_list012) auto
  then show ?thesis by (simp add: abs_path_def)
qed

lemma join_file:
  assumes "list_all plain_comp cs" and "plain_comp b"
  shows "path_join (abs_path cs) b = abs_path (cs @ [b])" and "path_dir (abs_path (cs @ [b])) = abs_path cs"
proof -
  have b: "split_on SLASH b = [b]" using assms(2) by (simp add: plain_comp_def split_on_single)
  obtain es where es: "split_on SLASH (abs_path cs) = es" "clean_comps True [] es = rev cs"
    using split_abs_path [OF assms(1)] by blast
  have "split_on SLASH (abs_path cs @ SLASH # b) = es @ [b]" using split_slash_append [of "abs_path cs" b] es b by simp
  then have "path_comps (abs_path cs @ SLASH # b) = cs @ [b]"
    using es assms by (simp add: path_comps_def is_abs_append clean_comps_append plain_comp_def)
  then show "path_join (abs_path cs) b = abs_path (cs @ [b])"
    by (simp add: path_join_def path_clean_abs is_abs_append) (simp add: abs_path_def)
  note split = abs_path_snoc
  have li: "last_index SLASH (u @ SLASH # b) = Some (length u)" for u
    using assms(2) by (simp add: last_index_append plain_comp_def)
  show "path_dir (abs_path (cs @ [b])) = abs_path cs"
  proof (cases "cs = []")
    case True
    then show ?thesis using li [of "[]"] path_clean_id [of "[]"] by (simp add: split path_dir_def) (simp add: abs_path_def)
  next
    case False
    have "path_clean (abs_path cs @ [SLASH]) = abs_path cs"
    proof -
      have "split_on SLASH (abs_path cs @ SLASH # []) = es @ [[]]"
        using split_slash_append [of "abs_path cs" "[]"] es by (simp add: split_on_def)
      then show ?thesis using es by (simp add: path_clean_abs is_abs_append path_comps_def clean_comps_append)
    qed
    then show ?thesis using False li [of "abs_path cs"] by (simp add: split path_dir_def)
  qed
qed

section \<open>Snapshots\<close>

text \<open>
  A snapshot grows by one file at a time: its resolved path lies below the root, it holds the
  content of that file, and all its loads are in the snapshot before it. So loads cannot run in a circle.
\<close>

inductive snapshot :: "policy_env \<Rightarrow> string \<Rightarrow> modules \<Rightarrow> bool" for env root where
  empty: "snapshot env root []"
| add: "snapshot env root mods \<Longrightarrow> map_of mods path = None \<Longrightarrow> pe_resolve env path = Some resolved \<Longrightarrow>
    has_prefix resolved (root @ ''/'') \<Longrightarrow> pe_read env resolved = Some source \<Longrightarrow> length source \<le> max_source \<Longrightarrow>
    pe_loads env path source = Some loads \<Longrightarrow>
    list_all (\<lambda>m. \<not> bad_module m \<and> module_path root m \<in> fst ` set mods) loads \<Longrightarrow>
    snapshot env root (mods @ [(path, source)])"

inductive_simps snapshot_empty [simp]: "snapshot env root []"

lemma snapshot_distinct: "snapshot env root mods \<Longrightarrow> distinct (map fst mods)"
  by (induction rule: snapshot.induct) (auto simp: map_of_eq_None_iff)

text \<open>What reading adds: a snapshot again, of no file that is being read, and its size.\<close>

definition extends :: "policy_env \<Rightarrow> string list \<Rightarrow> modules \<Rightarrow> modules \<Rightarrow> bool" where
  "extends env visiting mods mods' \<longleftrightarrow>
     (\<exists>zs. mods' = mods @ zs \<and> (\<forall>p \<in> fst ` set zs. \<forall>r. pe_resolve env p = Some r \<longrightarrow> r \<notin> set visiting)) \<and>
     length mods' \<le> max (length mods) (512 - length visiting)"

lemma extends_refl [simp]: "extends env visiting mods mods"
  by (simp add: extends_def)

lemma extends_trans: "extends env v a b \<Longrightarrow> extends env v b c \<Longrightarrow> extends env v a c"
  unfolding extends_def by (force simp: max_def split: if_splits)

lemma extends_keys: "extends env v a b \<Longrightarrow> fst ` set a \<subseteq> fst ` set b"
  by (auto simp: extends_def)

lemma read_snapshot:
  "read_policy env root visiting mods path = Inr (source, mods') \<Longrightarrow> snapshot env root mods \<Longrightarrow>
     snapshot env root mods' \<and> extends env visiting mods mods' \<and> map_of mods' path = Some source"
  "read_loads env root visiting mods loads = Inr mods' \<Longrightarrow> snapshot env root mods \<Longrightarrow>
     snapshot env root mods' \<and> extends env visiting mods mods' \<and>
     list_all (\<lambda>m. \<not> bad_module m \<and> module_path root m \<in> fst ` set mods') loads"
proof (induction env root visiting mods path and env root visiting mods loads arbitrary: source mods' and mods'
    rule: read_policy_read_loads.induct)
  case (1 env root visiting mods path)
  obtain resolved where r: "pe_resolve env path = Some resolved" "has_prefix resolved (root @ ''/'')" "resolved \<notin> set visiting"
    using "1.prems"(1) by (subst (asm) read_policy.simps) (auto split: option.splits if_splits)
  show ?case
  proof (cases "map_of mods path")
    case (Some s)
    with "1.prems" r show ?thesis by (subst (asm) read_policy.simps) auto
  next
    case None
    obtain src loads mods1 where s: "pe_read env resolved = Some src" "length src \<le> max_source" "length mods \<le> 256"
        "length (resolved # visiting) \<le> 256" "pe_loads env path src = Some loads"
        "read_loads env root (resolved # visiting) mods loads = Inr mods1" "source = src" "mods' = mods1 @ [(path, src)]"
      using "1.prems"(1) r None by (subst (asm) read_policy.simps) (auto simp: not_less split: option.splits if_splits sum.splits)
    have ih: "snapshot env root mods1" "extends env (resolved # visiting) mods mods1"
        "list_all (\<lambda>m. \<not> bad_module m \<and> module_path root m \<in> fst ` set mods1) loads"
      using "1.IH" r s None "1.prems"(2) by auto
    obtain zs where zs: "mods1 = mods @ zs" "\<forall>p \<in> fst ` set zs. \<forall>q. pe_resolve env p = Some q \<longrightarrow> q \<notin> set (resolved # visiting)"
      using ih(2) by (auto simp: extends_def)
    have new: "map_of mods1 path = None" using zs None r(1) by (auto simp: map_of_eq_None_iff)
    have "snapshot env root mods'" unfolding s(8) by (rule snapshot.add [OF ih(1) new r(1,2) s(1,2,5) ih(3)])
    moreover have "extends env visiting mods mods'"
    proof -
      have "length mods' \<le> max (length mods) (512 - length visiting)"
        using ih(2) s(3,4) by (auto simp: extends_def s(8) max_def split: if_splits)
      then show ?thesis using zs r by (auto simp: extends_def s(8))
    qed
    moreover have "map_of mods' path = Some source" using new by (simp add: s(7,8) map_add_def)
    ultimately show ?thesis by blast
  qed
next
  case (2 env root visiting mods)
  then show ?case by simp
next
  case (3 env root visiting mods module loads)
  obtain s mods1 where s: "\<not> bad_module module" "read_policy env root visiting mods (module_path root module) = Inr (s, mods1)"
      "read_loads env root visiting mods1 loads = Inr mods'"
    using "3.prems"(1) by (auto split: if_splits sum.splits)
  have a: "snapshot env root mods1" "extends env visiting mods mods1" "map_of mods1 (module_path root module) = Some s"
    using "3.IH"(1) [OF s(1,2) "3.prems"(2)] by auto
  have b: "snapshot env root mods'" "extends env visiting mods1 mods'"
      "list_all (\<lambda>m. \<not> bad_module m \<and> module_path root m \<in> fst ` set mods') loads"
    using "3.IH"(2) [OF s(1,2) refl s(3) a(1)] by auto
  have "module_path root module \<in> fst ` set mods'" using map_of_SomeD [OF a(3)] extends_keys [OF b(2)] by force
  with a b s(1) extends_trans [OF a(2) b(2)] show ?case by auto
qed

text \<open>The loads of a snapshot as a relation: a module and the file that loads it.\<close>

definition load_edges :: "policy_env \<Rightarrow> string \<Rightarrow> modules \<Rightarrow> (string \<times> string) set" where
  "load_edges env root mods =
     {(module_path root m, path) | m path source loads.
        (path, source) \<in> set mods \<and> pe_loads env path source = Some loads \<and> m \<in> set loads}"

lemma snapshot_files:
  "snapshot env root mods \<Longrightarrow> (path, source) \<in> set mods \<Longrightarrow>
     \<exists>resolved loads. pe_resolve env path = Some resolved \<and> has_prefix resolved (root @ ''/'') \<and>
       pe_read env resolved = Some source \<and> pe_loads env path source = Some loads \<and>
       list_all (\<lambda>m. \<not> bad_module m \<and> module_path root m \<in> fst ` set mods) loads"
proof (induction rule: snapshot.induct)
  case (add mods q resolved src loads)
  have "list_all (\<lambda>m. \<not> bad_module m \<and> module_path root m \<in> fst ` set mods) ls \<Longrightarrow>
      list_all (\<lambda>m. \<not> bad_module m \<and> module_path root m \<in> fst ` set (mods @ [(q, src)])) ls" for ls
    by (auto simp: list_all_iff)
  with add show ?case by auto
qed simp

lemma snapshot_acyclic: "snapshot env root mods \<Longrightarrow> acyclic (load_edges env root mods)"
proof -
  assume "snapshot env root mods"
  then have "\<exists>rank :: string \<Rightarrow> nat. \<forall>(a, b) \<in> load_edges env root mods. rank a < rank b"
  proof (induction rule: snapshot.induct)
    case empty
    show ?case by (simp add: load_edges_def)
  next
    case (add mods path resolved source loads)
    from add.IH obtain rank :: "string \<Rightarrow> nat" where rank: "\<forall>(a, b) \<in> load_edges env root mods. rank a < rank b" by blast
    define rank' where "rank' = rank(path := Suc (sum rank (fst ` set mods)))"
    have new: "path \<notin> fst ` set mods" using add.hyps(2) by (simp add: map_of_eq_None_iff)
    have "rank' a < rank' b" if "(a, b) \<in> load_edges env root (mods @ [(path, source)])" for a b
    proof -
      from that obtain m s ls where e: "a = module_path root m" "(b, s) \<in> set (mods @ [(path, source)])"
        "pe_loads env b s = Some ls" "m \<in> set ls" by (auto simp: load_edges_def)
      show ?thesis
      proof (cases "(b, s) \<in> set mods")
        case True
        then have "(a, b) \<in> load_edges env root mods" using e by (auto simp: load_edges_def)
        moreover have "a \<in> fst ` set mods" using snapshot_files [OF add.hyps(1) True] e by (auto simp: list_all_iff)
        moreover have "b \<in> fst ` set mods" using True by force
        ultimately show ?thesis using rank new by (auto simp: rank'_def)
      next
        case False
        then have b: "b = path" "s = source" using e(2) by auto
        then have "a \<in> fst ` set mods" using e add.hyps(7,8) by (auto simp: list_all_iff)
        moreover from this have "rank a \<le> sum rank (fst ` set mods)" by (intro member_le_sum) auto
        ultimately show ?thesis using new b by (auto simp: rank'_def)
      qed
    qed
    then show ?case by blast
  qed
  then obtain rank :: "string \<Rightarrow> nat" where "\<forall>(a, b) \<in> load_edges env root mods. rank a < rank b" by blast
  then have "load_edges env root mods \<subseteq> measure rank" by auto
  then show ?thesis using wf_subset wf_measure wf_acyclic by blast
qed

section \<open>Properties of snapshots\<close>

lemma load_policy_snapshot:
  assumes "load_policy env filename = Inr p"
  shows "\<exists>f root. path_abs env filename = Some f \<and> pe_resolve env (path_dir f) = Some root \<and>
    pl_filename p = path_join root (path_base f) \<and> snapshot env root (pl_modules p) \<and>
    length (pl_modules p) \<le> 512 \<and> map_of (pl_modules p) (pl_filename p) = Some (pl_source p)"
proof -
  obtain f root source mods where f: "path_abs env filename = Some f" "pe_resolve env (path_dir f) = Some root"
      "read_policy env root [] [] (path_join root (path_base f)) = Inr (source, mods)"
      "p = \<lparr>pl_source = source, pl_filename = path_join root (path_base f), pl_modules = mods\<rparr>"
    using assms by (auto simp: load_policy_def Let_def split: option.splits sum.splits)
  from read_snapshot(1) [OF f(3)] f show ?thesis by (auto simp: extends_def)
qed

text \<open>
  C34: A policy that loads is a complete snapshot: it holds the script and, for every file of it, all
  modules the file loads; each is the content of a file whose resolved path lies below the resolved directory
  of the script; loads do not run in a circle; and there are at most 512 files.
\<close>

theorem policy_snapshot_complete:
  assumes "load_policy env filename = Inr p"
  shows "\<exists>f root. path_abs env filename = Some f \<and> pe_resolve env (path_dir f) = Some root \<and>
    map_of (pl_modules p) (pl_filename p) = Some (pl_source p) \<and>
    (\<forall>path source. (path, source) \<in> set (pl_modules p) \<longrightarrow>
       (\<exists>resolved loads. pe_resolve env path = Some resolved \<and> has_prefix resolved (root @ ''/'') \<and>
          pe_read env resolved = Some source \<and> pe_loads env path source = Some loads \<and>
          list_all (\<lambda>m. \<not> bad_module m \<and> module_path root m \<in> fst ` set (pl_modules p)) loads)) \<and>
    acyclic (load_edges env root (pl_modules p)) \<and> length (pl_modules p) \<le> 512"
proof -
  obtain f root where s: "path_abs env filename = Some f" "pe_resolve env (path_dir f) = Some root"
      "snapshot env root (pl_modules p)" "length (pl_modules p) \<le> 512"
      "map_of (pl_modules p) (pl_filename p) = Some (pl_source p)"
    using load_policy_snapshot [OF assms] by blast
  show ?thesis
    by (rule exI [of _ f], rule exI [of _ root]) (use s snapshot_files [OF s(3)] snapshot_acyclic [OF s(3)] in blast)
qed

text \<open>A directory with a script, a module it loads twice, and a module both load.\<close>

definition demo_policy_env :: policy_env where
  "demo_policy_env = \<lparr>pe_cwd = Some ''/p'', pe_resolve = (\<lambda>p. Some (path_clean p)),
     pe_read = (\<lambda>p. if p = ''/p/a.star'' then Some ''A'' else if p = ''/p/b.star'' then Some ''B''
       else if p = ''/p/c.star'' then Some ''C'' else None),
     pe_loads = (\<lambda>p s. Some (if s = ''A'' then [''b.star'', ''c.star'', ''./b.star''] else if s = ''B'' then [''c.star''] else []))\<rparr>"

definition demo_policy :: policy where
  "demo_policy = (case load_policy demo_policy_env ''a.star'' of Inr p \<Rightarrow> p
     | Inl e \<Rightarrow> \<lparr>pl_source = [], pl_filename = [], pl_modules = []\<rparr>)"

lemma demo_policy_loads:
  "load_policy demo_policy_env ''a.star'' = Inr demo_policy" "pl_filename demo_policy = ''/p/a.star''"
  "pl_modules demo_policy = [(''/p/c.star'', ''C''), (''/p/b.star'', ''B''), (''/p/a.star'', ''A'')]"
  by code_simp+

theorem policy_snapshot_complete_witness:
  "map_of (pl_modules demo_policy) (pl_filename demo_policy) = Some (pl_source demo_policy) \<and>
     acyclic (load_edges demo_policy_env ''/p'' (pl_modules demo_policy))"
proof -
  have "path_abs demo_policy_env ''a.star'' = Some ''/p/a.star''" "pe_resolve demo_policy_env (path_dir ''/p/a.star'') = Some ''/p''"
    by code_simp+
  with policy_snapshot_complete [OF demo_policy_loads(1)] show ?thesis by auto
qed

section \<open>Running a snapshot\<close>

text \<open>
  What Go documents of \<^verbatim>\<open>EvalSymlinks\<close>: the result is a clean path, absolute for an absolute path, and
  resolves to itself; and the working directory is absolute.
\<close>

definition resolver_ok :: "policy_env \<Rightarrow> bool" where
  "resolver_ok env \<longleftrightarrow> (\<forall>cwd. pe_cwd env = Some cwd \<longrightarrow> is_abs cwd) \<and> (\<forall>p r. pe_resolve env p = Some r \<and> is_abs p \<longrightarrow>
     is_abs r \<and> path_clean r = r \<and> pe_resolve env r = Some r)"

lemma is_abs_clean: "is_abs p \<Longrightarrow> is_abs (path_clean p)"
  by (simp add: path_clean_abs)

lemma demo_resolver_ok: "resolver_ok demo_policy_env"
  using is_abs_clean path_clean_idem by (auto simp: resolver_ok_def demo_policy_env_def) (simp add: is_abs_def has_prefix_def)

lemma module_path_abs:
  assumes "is_abs root"
  shows "path_abs env (module_path root m) = Some (module_path root m)"
proof -
  have "is_abs (root @ ''/'' @ path_clean m)" using assms by (rule is_abs_append)
  moreover have "root \<noteq> []" using assms by (auto simp: is_abs_def has_prefix_def)
  ultimately show ?thesis
    using path_clean_idem path_clean_abs by (simp add: path_abs_def module_path_def path_join_def)
qed

text \<open>
  The modules executed so far: each of them once, and after the modules it loads.
\<close>

inductive executed :: "(string \<times> string) set \<Rightarrow> string list \<Rightarrow> bool" for edges where
  nothing: "executed edges []"
| module: "executed edges done \<Longrightarrow> path \<notin> set done \<Longrightarrow> (\<And>q. (q, path) \<in> edges \<Longrightarrow> q \<in> set done) \<Longrightarrow>
    executed edges (done @ [path])"

lemma executed_distinct: "executed edges ps \<Longrightarrow> distinct ps"
  by (induction rule: executed.induct) auto

lemma executed_loads: "executed edges ps \<Longrightarrow> q \<in> set ps \<Longrightarrow> (d, q) \<in> edges \<Longrightarrow> d \<in> set ps"
  by (induction rule: executed.induct) auto

lemma executed_closed: "executed edges ps \<Longrightarrow> q \<in> set ps \<Longrightarrow> (d, q) \<in> edges\<^sup>* \<Longrightarrow> d \<in> set ps"
  by (rotate_tac 2, induction rule: converse_rtrancl_induct) (auto dest: executed_loads)

text \<open>The modules a list of loads asks for, directly or not.\<close>

definition needed :: "(string \<times> string) set \<Rightarrow> string \<Rightarrow> string list \<Rightarrow> string set" where
  "needed edges root ms = {q. \<exists>m \<in> set ms. (q, module_path root m) \<in> edges\<^sup>*}"

lemma needed_simps [simp]:
  "needed edges root [] = {}"
  "needed edges root (m # ms) = {q. (q, module_path root m) \<in> edges\<^sup>*} \<union> needed edges root ms"
  by (auto simp: needed_def)

lemma load_edges_of:
  assumes "distinct (map fst sources)" and "map_of sources path = Some source" and "pe_loads env path source = Some loads"
  shows "(q, path) \<in> load_edges env root sources \<longleftrightarrow> (\<exists>m \<in> set loads. q = module_path root m)"
proof -
  have "(path, s) \<in> set sources \<longleftrightarrow> s = source" for s
    using assms(1,2) by (metis map_of_eq_Some_iff option.inject)
  with assms(3) show ?thesis by (auto simp: load_edges_def)
qed

lemma needed_by_file:
  assumes "\<And>q. (q, path) \<in> edges \<longleftrightarrow> (\<exists>m \<in> set loads. q = module_path root m)"
  shows "{q. (q, path) \<in> edges\<^sup>*} = insert path (needed edges root loads)"
proof (intro set_eqI iffI)
  fix q assume "q \<in> {q. (q, path) \<in> edges\<^sup>*}"
  then have "(q, path) \<in> edges\<^sup>*" by simp
  then show "q \<in> insert path (needed edges root loads)"
  proof (cases rule: rtranclE)
    case (step y)
    then obtain m where "m \<in> set loads" "y = module_path root m" using assms [of y] by blast
    with step(1) show ?thesis unfolding needed_def by blast
  qed simp
next
  fix q assume "q \<in> insert path (needed edges root loads)"
  then consider "q = path" | m where "m \<in> set loads" "(q, module_path root m) \<in> edges\<^sup>*"
    unfolding needed_def by blast
  then show "q \<in> {q. (q, path) \<in> edges\<^sup>*}"
  proof cases
    case (2 m)
    then have "(module_path root m, path) \<in> edges" using assms [of "module_path root m"] by blast
    with 2(2) show ?thesis by (simp add: rtrancl_into_rtrancl)
  qed simp
qed

text \<open>What the loader promises of one load and of a list of loads.\<close>

definition loads_once :: "(string \<times> string) set \<Rightarrow> string list \<Rightarrow> string set \<Rightarrow> string + string list \<Rightarrow> bool" where
  "loads_once edges cache new r \<longleftrightarrow>
     (\<exists>cache'. r = Inr cache' \<and> executed edges cache' \<and> set cache' = set cache \<union> new)"

lemma run_loads_once:
  assumes "\<And>k ca. k \<in> set ks \<Longrightarrow> executed edges ca \<Longrightarrow>
      loads_once edges ca {q. (q, module_path root k) \<in> edges\<^sup>*} (load_module env runs root sources ld ca k)"
    and "executed edges cache"
  shows "loads_once edges cache (needed edges root ks) (run_loads env runs root sources ld cache ks)"
  using assms
proof (induction ks arbitrary: cache)
  case Nil
  then show ?case by (simp add: loads_once_def)
next
  case (Cons k ks)
  obtain c1 where c1: "load_module env runs root sources ld cache k = Inr c1" "executed edges c1"
      "set c1 = set cache \<union> {q. (q, module_path root k) \<in> edges\<^sup>*}"
    using Cons.prems(1) [OF list.set_intros(1) Cons.prems(2)] unfolding loads_once_def by blast
  have "loads_once edges c1 (needed edges root ks) (run_loads env runs root sources ld c1 ks)"
    by (rule Cons.IH [OF Cons.prems(1) c1(2)]) simp_all
  then obtain c2 where c2: "run_loads env runs root sources ld c1 ks = Inr c2" "executed edges c2"
      "set c2 = set c1 \<union> needed edges root ks" unfolding loads_once_def by blast
  then show ?case unfolding loads_once_def using c1 by (intro exI [of _ c2]) auto
qed

lemma load_module_runs:
  assumes "snapshot env root mods" and "is_abs root" and "list_all (\<lambda>(path, s). has_prefix path (root @ ''/'')) mods"
    and "sources = mods @ rest" and "distinct (map fst sources)" and "edges = load_edges env root sources"
    and "acyclic edges" and "executed edges cache"
    and "\<not> bad_module m" and "module_path root m \<in> fst ` set mods" and "set loading \<inter> fst ` set mods = {}"
  shows "loads_once edges cache {q. (q, module_path root m) \<in> edges\<^sup>*}
    (load_module env (\<lambda>_. True) root sources loading cache m)"
  using assms
proof (induction arbitrary: rest loading cache m rule: snapshot.induct)
  case empty
  then show ?case by simp
next
  case (add mods path resolved source loads)
  have ih: "loads_once edges ca {q. (q, module_path root k) \<in> edges\<^sup>*} (load_module env (\<lambda>_. True) root sources ld ca k)"
    if "\<not> bad_module k" "module_path root k \<in> fst ` set mods" "set ld \<inter> fst ` set mods = {}" "executed edges ca" for ld ca k
    using add.IH [of "(path, source) # rest" ca k ld] add.prems that by simp
  have new: "path \<notin> fst ` set mods" using add.hyps(2) by (simp add: map_of_eq_None_iff)
  show ?case
  proof (cases "module_path root m = path")
    case False
    then have "module_path root m \<in> fst ` set mods" "set loading \<inter> fst ` set mods = {}" using add.prems by auto
    with ih add.prems(7,8) show ?thesis by blast
  next
    case True
    have src: "map_of sources path = Some source" using add.hyps(2) add.prems(3) by (simp add: map_add_def)
    have e: "(q, path) \<in> edges \<longleftrightarrow> (\<exists>k \<in> set loads. q = module_path root k)" for q
      unfolding add.prems(5) by (rule load_edges_of [OF add.prems(4) src add.hyps(7)])
    note need = needed_by_file [OF e]
    have p: "path \<notin> set loading" "has_prefix path (root @ ''/'')" using add.prems(2,10) by auto
    have step: "load_module env (\<lambda>_. True) root sources loading cache m =
      (if path \<in> set cache then Inr cache
       else (case run_loads env (\<lambda>_. True) root sources (path # loading) cache loads of
               Inl e \<Rightarrow> Inl e | Inr cache1 \<Rightarrow> Inr (cache1 @ [path])))"
      using True src p add.prems(8) add.hyps(7) module_path_abs [OF add.prems(1), of env m]
      by (subst load_module.simps) (simp split: sum.split)
    show ?thesis
    proof (cases "path \<in> set cache")
      case cached: True
      have "{q. (q, path) \<in> edges\<^sup>*} \<subseteq> set cache" using executed_closed [OF add.prems(7) cached] by blast
      with cached step True add.prems(7) show ?thesis by (auto simp: loads_once_def)
    next
      case False
      have "loads_once edges cache (needed edges root loads)
          (run_loads env (\<lambda>_. True) root sources (path # loading) cache loads)"
        by (rule run_loads_once [OF ih add.prems(7)]) (use add.hyps(8) new add.prems(10) in \<open>auto simp: list_all_iff\<close>)
      then obtain c1 where c1: "run_loads env (\<lambda>_. True) root sources (path # loading) cache loads = Inr c1"
          "executed edges c1" "set c1 = set cache \<union> needed edges root loads"
        by (auto simp: loads_once_def)
      have "path \<notin> needed edges root loads"
      proof
        assume "path \<in> needed edges root loads"
        then obtain k where k: "k \<in> set loads" "(path, module_path root k) \<in> edges\<^sup>*" unfolding needed_def by blast
        then have "(module_path root k, path) \<in> edges" using e [of "module_path root k"] by blast
        with k(2) have "(path, path) \<in> edges\<^sup>+" by (rule rtrancl_into_trancl1)
        with add.prems(6) show False by (simp add: acyclic_def)
      qed
      then have "executed edges (c1 @ [path])"
        using c1 False e by (intro executed.module) (auto simp: needed_def)
      with c1 False step True need show ?thesis by (auto simp: loads_once_def)
    qed
  qed
qed

text \<open>The loader asks the file system nothing: it uses the contents of the snapshot only.\<close>

lemma loader_reads_snapshot:
  assumes "is_abs root" and "pe_loads env' = pe_loads env"
  shows "load_module env runs root sources loading cache m = load_module env' runs root sources loading cache m"
    and "run_loads env runs root sources loading cache ms = run_loads env' runs root sources loading cache ms"
  using assms
proof (induction env runs root sources loading cache m and env runs root sources loading cache ms
    rule: load_module_run_loads.induct)
  case (1 env runs root sources loading cache m)
  note path = module_path_abs [OF "1.prems"(1), of _ m]
  show ?case
    using "1.IH" "1.prems" path
    by (subst (1 2) load_module.simps) (auto split: option.split)
next
  case (2 env runs root sources loading cache)
  then show ?case by simp
next
  case (3 env runs root sources loading cache m ms)
  then show ?case by (auto split: sum.split)
qed

lemma path_abs_clean:
  assumes "resolver_ok env" and "path_abs env filename = Some f"
  shows "\<exists>cs. list_all plain_comp cs \<and> f = abs_path cs"
proof (cases "is_abs filename")
  case True
  with assms(2) path_comps_plain [OF True] show ?thesis by (auto simp: path_abs_def path_clean_abs)
next
  case False
  then obtain cwd where cwd: "pe_cwd env = Some cwd" "f = path_join cwd filename"
    using assms(2) by (auto simp: path_abs_def)
  then have "is_abs cwd" using assms(1) unfolding resolver_ok_def by blast
  moreover from this have "cwd \<noteq> []" by (auto simp: is_abs_def has_prefix_def)
  moreover have "is_abs (cwd @ ''/'' @ filename)" using \<open>is_abs cwd\<close> by (rule is_abs_append)
  ultimately show ?thesis using path_comps_plain cwd(2) by (auto simp: path_join_def path_clean_abs)
qed

lemma path_base_abs: "plain_comp b \<Longrightarrow> path_base (abs_path (cs @ [b])) = b"
proof -
  assume b: "plain_comp b"
  have t: "trim_right_set (u @ b) ''/'' = u @ b" for u
    using b by (cases b rule: rev_cases) (auto simp: plain_comp_def trim_right_set_def)
  have li: "last_index SLASH (u @ SLASH # b) = Some (length u)" for u
    using b by (simp add: last_index_append plain_comp_def)
  show ?thesis
    using b t [of "''/''"] t [of "abs_path cs @ ''/''"] li [of "[]"] li [of "abs_path cs"]
    by (simp add: abs_path_snoc path_base_def Let_def plain_comp_def)
qed

lemma join_slash:
  assumes "list_all plain_comp rs"
  shows "path_join (abs_path rs) ''/'' = abs_path rs"
proof -
  obtain es where es: "split_on SLASH (abs_path rs) = es" "clean_comps True [] es = rev rs"
    using split_abs_path [OF assms] by blast
  have "split_on SLASH (abs_path rs @ SLASH # [SLASH]) = es @ [[], []]"
    using split_slash_append [of "abs_path rs" "[SLASH]"] es by (simp add: split_on_def)
  then have "path_comps (abs_path rs @ [SLASH, SLASH]) = rs"
    using es by (simp add: path_comps_def is_abs_append clean_comps_append)
  then show ?thesis by (simp add: path_join_def path_clean_abs is_abs_append) (simp add: abs_path_def)
qed

lemma path_top: "path_dir (abs_path []) = abs_path []" "path_base (abs_path []) = ''/''"
  by code_simp+

lemma path_dir_abs: "list_all plain_comp cs \<Longrightarrow> f = abs_path cs \<Longrightarrow> is_abs (path_dir f)"
  using join_file(2) path_top by (cases cs rule: rev_cases) auto

lemma engine_root_of:
  assumes "resolver_ok env" and "path_abs env filename = Some f" and "pe_resolve env (path_dir f) = Some root"
    and "path_join root (path_base f) \<noteq> root"
  shows "is_abs root \<and> engine_root env (path_join root (path_base f)) = Some root \<and>
    path_dir (path_join root (path_base f)) = root \<and> path_clean root = root"
proof -
  obtain cs where cs: "list_all plain_comp cs" "f = abs_path cs" using path_abs_clean [OF assms(1,2)] by blast
  have "is_abs (path_dir f)" using cs by (rule path_dir_abs)
  then have root: "is_abs root" "path_clean root = root" "pe_resolve env root = Some root"
    using assms(1,3) unfolding resolver_ok_def by blast+
  obtain rs where rs: "list_all plain_comp rs" "root = abs_path rs" using clean_abs [OF root(1,2)] by blast
  have "cs \<noteq> []" using assms(4) cs rs path_top join_slash [OF rs(1)] by auto
  then obtain ds b where b: "cs = ds @ [b]" "plain_comp b" using cs(1) by (cases cs rule: rev_cases) auto
  with join_file [OF rs(1) b(2)] path_base_abs [OF b(2)] cs rs root path_clean_id [OF rs(1)] show ?thesis
    by (simp add: engine_root_def path_abs_def)
qed

lemma script_below_root:
  assumes "load_policy env filename = Inr p" and "resolver_ok env"
    and "path_abs env filename = Some f" and "pe_resolve env (path_dir f) = Some root"
  shows "path_join root (path_base f) \<noteq> root"
proof
  assume eq: "path_join root (path_base f) = root"
  have snap: "snapshot env root (pl_modules p)" "map_of (pl_modules p) root = Some (pl_source p)"
    using load_policy_snapshot [OF assms(1)] assms(3,4) eq by auto
  from map_of_SomeD [OF snap(2)] snapshot_files [OF snap(1)]
  obtain resolved where r: "pe_resolve env root = Some resolved" "has_prefix resolved (root @ ''/'')" by blast
  obtain cs where cs: "list_all plain_comp cs" "f = abs_path cs" using path_abs_clean [OF assms(2,3)] by blast
  have "is_abs (path_dir f)" using cs by (rule path_dir_abs)
  then have "pe_resolve env root = Some root" using assms(2,4) unfolding resolver_ok_def by blast
  with r show False by (simp add: has_prefix_iff) 
qed

text \<open>
  C35: What the loading of a policy promises, its run keeps. For a loaded policy whose modules
  are named by paths below the root (\<open>outside_name_fails\<close> shows that this is needed), and module bodies
  that run without an error: the engine finds every module and reports no missing module, no cycle
  and no escape; it executes exactly the modules that the script needs, directly or through other
  modules, each of them once and after the modules it loads; and it does the same on every file
  system, whatever can be read there, as long as the script's directory is gone or resolves to itself.
\<close>

theorem loaded_policy_runs:
  assumes "load_policy env filename = Inr p" and "resolver_ok env" and "root = path_dir (pl_filename p)"
    and "list_all (\<lambda>(path, s). has_prefix path (root @ ''/'')) (pl_modules p)"
  shows "\<exists>cache loads. run_policy_loads env (\<lambda>_. True) p = Inr cache \<and>
    pe_loads env (pl_filename p) (pl_source p) = Some loads \<and>
    set cache = {q. \<exists>m \<in> set loads. (q, module_path root m) \<in> (load_edges env root (pl_modules p))\<^sup>*} \<and>
    distinct cache \<and> executed (load_edges env root (pl_modules p)) cache \<and>
    (\<forall>env'. pe_loads env' = pe_loads env \<longrightarrow> pe_resolve env' root \<in> {None, Some root} \<longrightarrow>
       run_policy_loads env' (\<lambda>_. True) p = Inr cache)"
proof -
  obtain f rt where f: "path_abs env filename = Some f" "pe_resolve env (path_dir f) = Some rt"
      "pl_filename p = path_join rt (path_base f)" "snapshot env rt (pl_modules p)"
      "map_of (pl_modules p) (pl_filename p) = Some (pl_source p)"
    using load_policy_snapshot [OF assms(1)] by blast
  have ne: "path_join rt (path_base f) \<noteq> rt" by (rule script_below_root [OF assms(1,2) f(1,2)])
  note rt = engine_root_of [OF assms(2) f(1,2) ne]
  have root: "rt = root" "is_abs root" "engine_root env (pl_filename p) = Some root" "path_clean root = root"
    using rt f(3) assms(3) by simp_all
  note snap = f(4) [unfolded root(1)]
  define edges where "edges = load_edges env root (pl_modules p)"
  obtain loads where loads: "pe_loads env (pl_filename p) (pl_source p) = Some loads"
      "list_all (\<lambda>m. \<not> bad_module m \<and> module_path root m \<in> fst ` set (pl_modules p)) loads"
    using snapshot_files [OF snap map_of_SomeD [OF f(5)]] by blast
  have "loads_once edges [] (needed edges root loads) (run_loads env (\<lambda>_. True) root (pl_modules p) [] [] loads)"
  proof (rule run_loads_once [OF _ executed.nothing])
    fix k ca assume k: "k \<in> set loads" "executed edges ca"
    show "loads_once edges ca {q. (q, module_path root k) \<in> edges\<^sup>*}
        (load_module env (\<lambda>_. True) root (pl_modules p) [] ca k)"
      by (rule load_module_runs [OF snap root(2) assms(4) _ snapshot_distinct [OF snap] edges_def])
         (use k loads(2) snapshot_acyclic [OF snap] in \<open>auto simp: list_all_iff edges_def\<close>)
  qed
  then obtain cache where c: "run_loads env (\<lambda>_. True) root (pl_modules p) [] [] loads = Inr cache"
      "executed edges cache" "set cache = needed edges root loads"
    by (auto simp: loads_once_def)
  have other: "run_policy_loads env' (\<lambda>_. True) p = Inr cache"
    if "pe_loads env' = pe_loads env" "pe_resolve env' root \<in> {None, Some root}" for env'
    using that loads(1) c(1) loader_reads_snapshot(2) [OF root(2) that(1)] root(2,4) assms(3)
    by (auto simp: run_policy_loads_def engine_root_def path_abs_def)
  show ?thesis
    using c loads(1) root(3) other executed_distinct [OF c(2)]
    by (auto simp: run_policy_loads_def needed_def edges_def)
qed

theorem loaded_policy_runs_witness:
  "\<exists>cache. run_policy_loads demo_policy_env (\<lambda>_. True) demo_policy = Inr cache \<and> distinct cache \<and>
     executed (load_edges demo_policy_env ''/p'' (pl_modules demo_policy)) cache \<and>
     run_policy_loads (demo_policy_env\<lparr>pe_cwd := None, pe_resolve := (\<lambda>_. None), pe_read := (\<lambda>_. None)\<rparr>)
       (\<lambda>_. True) demo_policy = Inr cache"
proof -
  have r: "''/p'' = path_dir (pl_filename demo_policy)" by code_simp
  have b: "list_all (\<lambda>(path, s). has_prefix path (''/p'' @ ''/'')) (pl_modules demo_policy)"
    unfolding demo_policy_loads(3) by code_simp
  from loaded_policy_runs [OF demo_policy_loads(1) demo_resolver_ok r b] show ?thesis by fastforce
qed

text \<open>A module named by a path outside the root that is a symbolic link into it.\<close>

definition linked_env :: policy_env where
  "linked_env = \<lparr>pe_cwd = Some ''/p'',
     pe_resolve = (\<lambda>p. Some (if path_clean p = ''/o/x.star'' then ''/p/y.star'' else path_clean p)),
     pe_read = (\<lambda>p. Some p), pe_loads = (\<lambda>p s. Some (if p = ''/p/a.star'' then [''../o/x.star''] else []))\<rparr>"

lemma outside_name_fails:
  "\<exists>p. load_policy linked_env ''a.star'' = Inr p \<and>
     run_policy_loads linked_env (\<lambda>_. True) p = Inl (''load: module '' @ go_quote ''../o/x.star'' @ '' escapes policy directory'')"
proof -
  have "case load_policy linked_env ''a.star'' of Inl e \<Rightarrow> False | Inr p \<Rightarrow> run_policy_loads linked_env (\<lambda>_. True) p =
      Inl (''load: module '' @ go_quote ''../o/x.star'' @ '' escapes policy directory'')" by code_simp
  then show ?thesis by (auto split: sum.splits)
qed

text \<open>
  Defect: a script in the root directory of the file system can never be loaded. The prefix its files must
  have is made by appending a slash to the resolved directory, which gives two slashes for the
  root, and no resolved path starts with two.
\<close>

theorem root_directory_refused:
  assumes "resolver_ok env" and "path_abs env filename = Some f" and "pe_resolve env (path_dir f) = Some ''/''"
  shows "\<exists>e. load_policy env filename = Inl e"
proof -
  let ?name = "path_join ''/'' (path_base f)"
  have slashes: "\<not> has_prefix (abs_path cs) (''/'' @ ''/'')" if "list_all plain_comp cs" for cs
  proof (cases cs)
    case (Cons c ds)
    with that obtain x y where "c = x # y" "x \<noteq> SLASH" by (cases c) (auto simp: plain_comp_def)
    with Cons show ?thesis by (cases ds) (simp_all add: abs_path_def has_prefix_def)
  qed (simp add: abs_path_def has_prefix_def)
  have "is_abs (''/'' @ ''/'' @ path_base f)" by (simp add: is_abs_def has_prefix_def)
  from is_abs_clean [OF this] have "is_abs ?name" by (simp add: path_join_def)
  then have "\<not> has_prefix r (''/'' @ ''/'')" if "pe_resolve env ?name = Some r" for r
    using that assms(1) clean_abs slashes unfolding resolver_ok_def by metis
  then have "\<exists>e. read_policy env ''/'' [] [] ?name = Inl e"
    by (subst read_policy.simps) (auto split: option.split)
  with assms(2,3) show ?thesis by (auto simp: load_policy_def Let_def)
qed

theorem root_directory_refused_witness:
  "\<exists>e. load_policy demo_policy_env ''/a.star'' = Inl e"
proof (rule root_directory_refused)
  show "resolver_ok demo_policy_env" by (rule demo_resolver_ok)
  show "path_abs demo_policy_env ''/a.star'' = Some ''/a.star''" "pe_resolve demo_policy_env (path_dir ''/a.star'') = Some ''/''"
    by code_simp+
qed

end
