(* ===== verification/Pattern.thy ===== *)
theory Pattern
  imports GoStrings
begin

text \<open>
  Regular expressions, the part of Go's \<^verbatim>\<open>regexp\<close> that the patterns of \<^verbatim>\<open>pkg/rules\<close> use, and the runes of
  a string. A position is the byte in front of it, if any, and the rest of the text. \<open>rx_match\<close> lists
  all ways a pattern matches a prefix of the rest, Go's preferred (leftmost-first) one first. The patterns
  repeat only expressions that match no empty string, and their classes either hold no byte
  above 127 or all of them, so that bytes may stand for runes except where runes are counted
  (\<open>Rune\<close>).
\<close>

section \<open>Runes\<close>

text \<open>The length of the valid UTF-8 sequence a non-empty string starts with.\<close>

definition in_range :: "nat \<Rightarrow> nat \<Rightarrow> char \<Rightarrow> bool" where
  "in_range lo hi c \<longleftrightarrow> lo \<le> char_code c \<and> char_code c \<le> hi"

definition utf8_width :: "string \<Rightarrow> nat option" where
  "utf8_width s =
     (case s of
        [] \<Rightarrow> None
      | a # r \<Rightarrow>
          let n = char_code a; cont = in_range 0x80 0xBF;
              second = (if n = 0xE0 then in_range 0xA0 0xBF else if n = 0xED then in_range 0x80 0x9F
                else if n = 0xF0 then in_range 0x90 0xBF else if n = 0xF4 then in_range 0x80 0x8F else cont)
          in if n < 0x80 then Some 1
             else if 0xC2 \<le> n \<and> n \<le> 0xDF then (case r of b # _ \<Rightarrow> if second b then Some 2 else None | _ \<Rightarrow> None)
             else if 0xE0 \<le> n \<and> n \<le> 0xEF then
               (case r of b # c # _ \<Rightarrow> if second b \<and> cont c then Some 3 else None | _ \<Rightarrow> None)
             else if 0xF0 \<le> n \<and> n \<le> 0xF4 then
               (case r of b # c # d # _ \<Rightarrow> if second b \<and> cont c \<and> cont d then Some 4 else None | _ \<Rightarrow> None)
             else None)"

text \<open>The runes of a string: their bytes, or \<^const>\<open>None\<close> for an invalid byte.\<close>

function utf8_runes :: "string \<Rightarrow> string option list" where
  "utf8_runes s =
     (if s = [] then []
      else (case utf8_width s of
          None \<Rightarrow> None # utf8_runes (drop 1 s)
        | Some w \<Rightarrow> if w = 0 then [] else Some (take w s) # utf8_runes (drop w s)))"
  by pat_completeness auto
termination by (relation "measure length") auto

declare utf8_runes.simps [simp del]

definition utf8_valid :: "string \<Rightarrow> bool" where
  "utf8_valid s \<longleftrightarrow> None \<notin> set (utf8_runes s)"

definition rune_count :: "string \<Rightarrow> nat" where
  "rune_count s = length (utf8_runes s)"

section \<open>Matching\<close>

text \<open>
  \<open>Rep lo hi\<close> and \<open>Star\<close> are greedy, \<open>LazyStar\<close> is not; \<open>Grp\<close> captures; \<open>AtStart\<close>, \<open>AtEnd\<close> and \<open>WordEdge\<close> are
  \<^verbatim>\<open>^\<close>, \<^verbatim>\<open>$\<close> and \<^verbatim>\<open>\b\<close>. A character class is given by its bytes.
\<close>

datatype rx =
    Eps
  | Cls "char \<Rightarrow> bool"
  | Rune "char \<Rightarrow> bool"
  | Cat rx rx
  | Alt rx rx
  | Rep nat nat rx
  | Star rx
  | LazyStar rx
  | Grp rx
  | AtStart
  | AtEnd
  | WordEdge

type_synonym pos = "char option \<times> string"

type_synonym matches = "(string list \<times> pos) list"

definition pos_skip :: "nat \<Rightarrow> string \<Rightarrow> pos" where
  "pos_skip n s = (if n = 0 then None else Some (s ! (n - 1)), drop n s)"

text \<open>A sequence: every continuation of every match, the captures in order.\<close>

definition rx_bind :: "matches \<Rightarrow> (pos \<Rightarrow> matches) \<Rightarrow> matches" where
  "rx_bind ms f = concat (map (\<lambda>(c, p). map (\<lambda>(d, q). (c @ d, q)) (f p)) ms)"

fun rep_match :: "(pos \<Rightarrow> matches) \<Rightarrow> nat \<Rightarrow> nat \<Rightarrow> pos \<Rightarrow> matches" where
  "rep_match m lo 0 p = [([], p)]"
| "rep_match m lo (Suc hi) p = rx_bind (m p) (rep_match m (lo - 1) hi) @ (if lo = 0 then [([], p)] else [])"

text \<open>At most as many rounds as bytes are left, each of which must consume some.\<close>

fun star_match :: "bool \<Rightarrow> (pos \<Rightarrow> matches) \<Rightarrow> nat \<Rightarrow> pos \<Rightarrow> matches" where
  "star_match greedy m 0 p = [([], p)]"
| "star_match greedy m (Suc n) p =
     (let longer = rx_bind (filter (\<lambda>(c, q). length (snd q) < length (snd p)) (m p)) (star_match greedy m n)
      in if greedy then longer @ [([], p)] else ([], p) # longer)"

definition is_word_char :: "char \<Rightarrow> bool" where
  "is_word_char c \<longleftrightarrow> is_digit c \<or> is_upper c \<or> is_lower c \<or> c = CHR ''_''"

definition word_edge :: "pos \<Rightarrow> bool" where
  "word_edge p \<longleftrightarrow>
     (case fst p of None \<Rightarrow> False | Some c \<Rightarrow> is_word_char c) \<noteq> (case snd p of [] \<Rightarrow> False | c # _ \<Rightarrow> is_word_char c)"

primrec rx_match :: "rx \<Rightarrow> pos \<Rightarrow> matches" where
  "rx_match Eps p = [([], p)]"
| "rx_match (Cls f) p = (case snd p of [] \<Rightarrow> [] | c # t \<Rightarrow> if f c then [([], Some c, t)] else [])"
| "rx_match (Rune f) p =
     (case snd p of
        [] \<Rightarrow> []
      | c # t \<Rightarrow> if f c then [([], pos_skip (case utf8_width (c # t) of None \<Rightarrow> 1 | Some w \<Rightarrow> w) (c # t))] else [])"
| "rx_match (Cat r q) p = rx_bind (rx_match r p) (rx_match q)"
| "rx_match (Alt r q) p = rx_match r p @ rx_match q p"
| "rx_match (Rep lo hi r) p = rep_match (rx_match r) lo hi p"
| "rx_match (Star r) p = star_match True (rx_match r) (length (snd p)) p"
| "rx_match (LazyStar r) p = star_match False (rx_match r) (length (snd p)) p"
| "rx_match (Grp r) p = map (\<lambda>(c, q). (take (length (snd p) - length (snd q)) (snd p) # c, q)) (rx_match r p)"
| "rx_match AtStart p = (if fst p = None then [([], p)] else [])"
| "rx_match AtEnd p = (if snd p = [] then [([], p)] else [])"
| "rx_match WordEdge p = (if word_edge p then [([], p)] else [])"

text \<open>
  The matches of a pattern that matches no empty string, from left to right: what is in front of each, the
  captures, the match itself, and last the text behind all of them.
\<close>

function rx_scan :: "rx \<Rightarrow> string \<Rightarrow> pos \<Rightarrow> (string \<times> string list \<times> string) list \<times> string" where
  "rx_scan r front p =
     (case rx_match r p of
        (caps, q) # _ \<Rightarrow>
          if length (snd q) < length (snd p)
          then (case rx_scan r [] q of (ms, rest) \<Rightarrow>
              ((front, caps, take (length (snd p) - length (snd q)) (snd p)) # ms, rest))
          else (case snd p of [] \<Rightarrow> ([], front) | c # t \<Rightarrow> rx_scan r (front @ [c]) (Some c, t))
      | [] \<Rightarrow> (case snd p of [] \<Rightarrow> ([], front) | c # t \<Rightarrow> rx_scan r (front @ [c]) (Some c, t)))"
  by pat_completeness auto
termination by (relation "measure (\<lambda>(r, b, p). length (snd p))") auto

declare rx_scan.simps [simp del]

text \<open>\<^verbatim>\<open>FindAllStringSubmatch\<close>, \<^verbatim>\<open>FindAllString\<close>, \<^verbatim>\<open>MatchString\<close> and \<^verbatim>\<open>ReplaceAllString\<close> with a constant.\<close>

definition rx_find_all :: "rx \<Rightarrow> string \<Rightarrow> string list list" where
  "rx_find_all r s = map (\<lambda>(b, caps, m). caps) (fst (rx_scan r [] (None, s)))"

definition rx_matches :: "rx \<Rightarrow> string \<Rightarrow> string list" where
  "rx_matches r s = map (\<lambda>(b, caps, m). m) (fst (rx_scan r [] (None, s)))"

fun rx_search :: "rx \<Rightarrow> char option \<Rightarrow> string \<Rightarrow> bool" where
  "rx_search r prev s \<longleftrightarrow> rx_match r (prev, s) \<noteq> [] \<or> (case s of [] \<Rightarrow> False | c # t \<Rightarrow> rx_search r (Some c) t)"

declare rx_search.simps [simp del]

definition rx_test :: "rx \<Rightarrow> string \<Rightarrow> bool" where
  "rx_test r s = rx_search r None s"

definition rx_replace :: "rx \<Rightarrow> string \<Rightarrow> string \<Rightarrow> string" where
  "rx_replace r by s =
     (case rx_scan r [] (None, s) of (ms, rest) \<Rightarrow> concat (map (\<lambda>(b, caps, m). b @ by) ms) @ rest)"

section \<open>Writing patterns\<close>

fun rx_lit :: "string \<Rightarrow> rx" where
  "rx_lit [] = Eps"
| "rx_lit [c] = Cls (\<lambda>x. x = c)"
| "rx_lit (c # s) = Cat (Cls (\<lambda>x. x = c)) (rx_lit s)"

text \<open>Without regard to case, for a literal of small letters.\<close>

fun rx_word :: "string \<Rightarrow> rx" where
  "rx_word [] = Eps"
| "rx_word (c # s) = Cat (Cls (\<lambda>x. lower_char x = c)) (rx_word s)"

fun rx_seq :: "rx list \<Rightarrow> rx" where
  "rx_seq [] = Eps"
| "rx_seq [r] = r"
| "rx_seq (r # rs) = Cat r (rx_seq rs)"

fun rx_any :: "rx list \<Rightarrow> rx" where
  "rx_any [] = Cls (\<lambda>_. False)"
| "rx_any [r] = r"
| "rx_any (r # rs) = Alt r (rx_any rs)"

definition rx_opt :: "rx \<Rightarrow> rx" where
  "rx_opt r = Rep 0 1 r"

definition rx_plus :: "rx \<Rightarrow> rx" where
  "rx_plus r = Cat r (Star r)"

definition rx_blank :: "char \<Rightarrow> bool" where
  "rx_blank c \<longleftrightarrow> c \<in> {TAB, LF, CHR 0x0C, CR, SP}"

end
