(* ===== verification/Received.thy ===== *)
theory Received
  imports Pattern AuthReported GoTime NetIp DnsCache
begin

text \<open>
  The trace of a message, \<^verbatim>\<open>ReceivedChain\<close> and \<^verbatim>\<open>parseReceivedHop\<close> of \<^verbatim>\<open>pkg/rules/validate.go\<close> with the address
  patterns of \<^verbatim>\<open>content.go\<close>, which are regular expressions. \<^verbatim>\<open>mail.ParseDate\<close> is a parameter.
\<close>

section \<open>Addresses in text\<close>

definition ip_literal :: rx where
  "ip_literal = Grp (Alt
     (Cat (Rep 3 3 (Cat (Rep 1 3 (Cls is_digit)) (rx_lit ''.''))) (Rep 1 3 (Cls is_digit)))
     (Cat (Rep 2 7 (Cat (Rep 0 4 (Cls is_hex)) (rx_lit '':''))) (Rep 0 4 (Cls is_hex))))"

definition ip_pattern :: rx where
  "ip_pattern = Cat (Rep 0 1 (rx_lit ''['')) (Cat ip_literal (Rep 0 1 (rx_lit '']'')))"

definition bracketed_ip_pattern :: rx where
  "bracketed_ip_pattern = Cat (rx_lit ''['') (Cat (Rep 0 1 (rx_lit ''IPv6:'')) (Cat ip_literal (rx_lit '']'')))"

definition first_parsed_ip :: "string list list \<Rightarrow> string" where
  "first_parsed_ip ms = (case find (\<lambda>ip. parse_ip ip \<noteq> None) (map hd ms) of None \<Rightarrow> [] | Some ip \<Rightarrow> ip)"

definition first_bracketed_ip :: "string \<Rightarrow> string" where
  "first_bracketed_ip s = first_parsed_ip (rx_find_all bracketed_ip_pattern s)"

definition extract_ip :: "string \<Rightarrow> string" where
  "extract_ip s = first_parsed_ip (rx_find_all ip_pattern s)"

section \<open>Hops\<close>

record received_hop =
  rh_index :: nat
  rh_from :: string
  rh_from_ip :: string
  rh_by :: string
  rh_with :: string
  rh_id :: string
  rh_for :: string
  rh_timestamp :: "go_time option"
  rh_raw :: string

definition hop_clause :: "string \<Rightarrow> string \<Rightarrow> received_hop \<Rightarrow> received_hop" where
  "hop_clause key v hop =
     (let k = to_lower key in
      if k = ''from'' then (if rh_from hop = [] then hop\<lparr>rh_from := trim_set v ''<>''\<rparr> else hop)
      else if k = ''by'' then (if rh_by hop = [] then hop\<lparr>rh_by := trim_set v ''<>''\<rparr> else hop)
      else if k = ''with'' then (if rh_with hop = [] then hop\<lparr>rh_with := v\<rparr> else hop)
      else if k = ''id'' then (if rh_id hop = [] then hop\<lparr>rh_id := trim_set v ''<>''\<rparr> else hop)
      else if k = ''for'' then (if rh_for hop = [] then hop\<lparr>rh_for := trim_set v ''<>;''\<rparr> else hop)
      else hop)"

fun hop_clauses :: "string list \<Rightarrow> received_hop \<Rightarrow> received_hop" where
  "hop_clauses (f # g # fs) hop = hop_clauses (g # fs) (hop_clause f g hop)"
| "hop_clauses fs hop = hop"

text \<open>The text in front of the last semicolon, and the time behind it.\<close>

definition hop_body :: "string \<Rightarrow> string" where
  "hop_body raw = (case last_index CHR '';'' raw of None \<Rightarrow> raw | Some i \<Rightarrow> take i raw)"

definition hop_time :: "(string \<Rightarrow> go_time option) \<Rightarrow> string \<Rightarrow> go_time option" where
  "hop_time parse_date raw =
     (case last_index CHR '';'' raw of
        None \<Rightarrow> None | Some i \<Rightarrow> parse_date (trim_space (strip_comments (drop (Suc i) raw))))"

definition parse_received_hop :: "(string \<Rightarrow> go_time option) \<Rightarrow> nat \<Rightarrow> string \<Rightarrow> received_hop" where
  "parse_received_hop parse_date index raw =
     (let body = hop_body raw;
          hop = hop_clauses (str_fields (strip_comments body))
            \<lparr>rh_index = index, rh_from = [], rh_from_ip = first_bracketed_ip body, rh_by = [], rh_with = [], rh_id = [],
             rh_for = [], rh_timestamp = hop_time parse_date raw, rh_raw = raw\<rparr>
      in if rh_from_ip hop = [] \<and> rh_from hop \<noteq> [] then hop\<lparr>rh_from_ip := extract_ip (rh_from hop)\<rparr> else hop)"

definition received_chain :: "(string \<Rightarrow> go_time option) \<Rightarrow> message \<Rightarrow> received_hop list" where
  "received_chain parse_date m =
     (let raws = msg_get_all m ''Received'' in map (\<lambda>(i, r). parse_received_hop parse_date i r) (zip [0..<length raws] raws))"

end
