(* ===== verification/MessageAuth.thy ===== *)
theory MessageAuth
  imports Received AuthProps
begin

text \<open>
  Authentication as a policy sees it, \<^verbatim>\<open>pkg/rules/verify.go\<close>: the input that is built from the message and
  its envelope, the address SPF is evaluated for, and the cached result; with the builtins that read
  the trace and the reported results. Of the message context the record \<open>mail_context\<close> keeps what
  these functions read. The parsers of \<^verbatim>\<open>net/mail\<close> and the network are parameters.
\<close>

record rules_env =
  re_mail :: mail_lib
  re_date :: "string \<Rightarrow> go_time option"
  re_auth :: auth_env

record mail_context =
  mc_message :: message
  mc_body :: string
  mc_header_size :: int
  mc_sender_ip :: string
  mc_helo :: string
  mc_envelope_from :: string
  mc_envelope_senders :: "string list"
  mc_now :: go_time
  mc_trusted :: "string list"
  mc_verified :: "auth_result option"

definition ref_time :: "rules_env \<Rightarrow> mail_context \<Rightarrow> go_time" where
  "ref_time env ctx = (if is_zero_time (mc_now ctx) then ae_clock (re_auth env) else mc_now ctx)"

definition envelope_sender :: "mail_context \<Rightarrow> string" where
  "envelope_sender ctx =
     (if mc_envelope_from ctx \<noteq> [] then mc_envelope_from ctx
      else (case mc_envelope_senders ctx of
          s # _ \<Rightarrow> s
        | [] \<Rightarrow>
            if msg_get (mc_message ctx) ''Return-Path'' \<noteq> []
            then trim_set (trim_space (msg_get (mc_message ctx) ''Return-Path'')) ''<>''
            else if msg_get (mc_message ctx) ''X-Envelope-From'' \<noteq> []
            then trim_set (trim_space (msg_get (mc_message ctx) ''X-Envelope-From'')) ''<>''
            else []))"

definition context_chain :: "rules_env \<Rightarrow> mail_context \<Rightarrow> received_hop list" where
  "context_chain env ctx = received_chain (re_date env) (mc_message ctx)"

text \<open>The oldest hop is the last of the chain.\<close>

definition oldest_ip :: "(string \<Rightarrow> bool) \<Rightarrow> received_hop list \<Rightarrow> string" where
  "oldest_ip ok hops =
     (case find (\<lambda>h. rh_from_ip h \<noteq> [] \<and> ok (rh_from_ip h)) (rev hops) of None \<Rightarrow> [] | Some h \<Rightarrow> rh_from_ip h)"

definition client_ip :: "rules_env \<Rightarrow> mail_context \<Rightarrow> string" where
  "client_ip env ctx =
     (if mc_sender_ip ctx \<noteq> [] then mc_sender_ip ctx
      else oldest_ip (\<lambda>ip. \<not> is_private_ip ip) (context_chain env ctx))"

definition context_input :: "rules_env \<Rightarrow> bool \<Rightarrow> mail_context \<Rightarrow> auth_input" where
  "context_input env with_dane ctx =
     \<lparr>ai_headers = raw_header_pairs (mc_message ctx), ai_body = mc_body ctx, ai_client_ip = client_ip env ctx,
      ai_mail_from = envelope_sender ctx, ai_helo = mc_helo ctx,
      ai_from_domain = domain_of (re_mail env) (msg_get (mc_message ctx) ''From''),
      ai_now = ref_time env ctx, ai_check_dane = with_dane\<rparr>"

text \<open>\<^const>\<open>None\<close> would mean that SPF does not return; it does, for every message.\<close>

definition verify_message :: "rules_env \<Rightarrow> bool \<Rightarrow> mail_context \<Rightarrow> auth_result option \<times> mail_context" where
  "verify_message env with_dane ctx =
     (case mc_verified ctx of
        Some r \<Rightarrow> (Some r, ctx)
      | None \<Rightarrow>
          let r = verify_auth (re_auth env) (context_input env with_dane ctx)
          in (r, ctx\<lparr>mc_verified := r\<rparr>))"

section \<open>Builtins\<close>

definition is_verified :: "rules_env \<Rightarrow> mail_context \<Rightarrow> bool option \<times> mail_context" where
  "is_verified env ctx = map_prod (map_option au_authenticated) id (verify_message env False ctx)"

definition origin_ip :: "rules_env \<Rightarrow> mail_context \<Rightarrow> string" where
  "origin_ip env ctx =
     (if mc_sender_ip ctx \<noteq> [] then mc_sender_ip ctx
      else
        let hops = context_chain env ctx; ip = oldest_ip (\<lambda>ip. \<not> is_private_ip ip) hops
        in if ip \<noteq> [] then ip else oldest_ip (\<lambda>_. True) hops)"

definition hop_ips :: "rules_env \<Rightarrow> mail_context \<Rightarrow> string list" where
  "hop_ips env ctx = filter (\<lambda>ip. ip \<noteq> []) (map rh_from_ip (context_chain env ctx))"

definition hop_at :: "rules_env \<Rightarrow> int \<Rightarrow> mail_context \<Rightarrow> received_hop option" where
  "hop_at env level ctx =
     (let hops = context_chain env ctx in
      if level < 0 \<or> level \<ge> int (length hops) then None else Some (hops ! nat level))"

definition check_received_header :: "int \<Rightarrow> mail_context \<Rightarrow> string" where
  "check_received_header level ctx =
     (let headers = msg_get_all (mc_message ctx) ''Received'' in
      if 0 \<le> level \<and> level < int (length headers) then headers ! nat level else [])"

definition context_reported :: "mail_context \<Rightarrow> auth_results" where
  "context_reported ctx = parse_auth_results (mc_trusted ctx) (mc_message ctx)"

definition forged_auth_results :: "mail_context \<Rightarrow> bool" where
  "forged_auth_results ctx \<longleftrightarrow>
     (let ar = context_reported ctx in
      ar_present ar \<and> \<not> ar_trusted ar \<and> ar_untrusted ar \<noteq> [] \<and>
      (ar_spf ar = ''pass'' \<or> ar_dkim ar = ''pass'' \<or> ar_dmarc ar = ''pass''))"

section \<open>Facts\<close>

lemma received_chain_snoc:
  assumes "msg_get_all m ''Received'' = rs @ [v]"
  shows "received_chain pd m = map (\<lambda>(i, r). parse_received_hop pd i r) (zip [0..<length rs] rs) @ [parse_received_hop pd (length rs) v]"
  using assms by (simp add: received_chain_def Let_def)

lemma oldest_ip_snoc: "rh_from_ip h \<noteq> [] \<Longrightarrow> ok (rh_from_ip h) \<Longrightarrow> oldest_ip ok (hs @ [h]) = rh_from_ip h"
  by (simp add: oldest_ip_def)

lemma verify_auth_spf: "verify_auth env input = Some r \<Longrightarrow> auth_spf env input = Some (au_spf r)"
  by (auto simp: verify_auth_def Let_def split: option.splits)

lemma verify_auth_dane: "verify_auth env input = Some r \<Longrightarrow> \<not> ai_check_dane input \<Longrightarrow> au_dane r = None"
  by (auto simp: verify_auth_def Let_def split: option.splits)

text \<open>
  Defect: without an address from the transport, the sender chooses the address for which SPF is
  evaluated. The oldest Received field is the one that the sender wrote itself, and if it
  names a public address, that address is used, whatever fields the receiving side put in front.
\<close>

theorem client_ip_forgeable:
  assumes "mc_sender_ip ctx = []" and "mc_verified ctx = None"
    and "msg_get_all (mc_message ctx) ''Received'' = relays @ [forged]"
    and "rh_from_ip (parse_received_hop (re_date env) (length relays) forged) = ip" and "ip \<noteq> []" and "\<not> is_private_ip ip"
  shows "client_ip env ctx = ip \<and> origin_ip env ctx = ip \<and>
    (\<exists>r. fst (verify_message env with_dane ctx) = Some r \<and>
       verify_spf (ae_dns (re_auth env)) ip (envelope_sender ctx) (mc_helo ctx) = Some (au_spf r))"
proof -
  have ip: "oldest_ip (\<lambda>ip. \<not> is_private_ip ip) (context_chain env ctx) = ip"
    unfolding context_chain_def received_chain_snoc [OF assms(3)] using assms(5,6)
    by (subst oldest_ip_snoc) (simp_all only: assms(4) not_False_eq_True)
  then have c: "client_ip env ctx = ip" "origin_ip env ctx = ip"
    using assms(1,5) by (simp_all add: client_ip_def origin_ip_def)
  obtain r where r: "verify_auth (re_auth env) (context_input env with_dane ctx) = Some r"
    using verify_auth_returns by blast
  from verify_auth_spf [OF r] c(1) assms(5)
  have "verify_spf (ae_dns (re_auth env)) ip (envelope_sender ctx) (mc_helo ctx) = Some (au_spf r)"
    by (simp add: auth_spf_def context_input_def)
  moreover have "fst (verify_message env with_dane ctx) = Some r" using r assms(2) by (simp add: verify_message_def Let_def)
  ultimately show ?thesis using c by blast
qed

text \<open>A message whose sender claims to be the mail server of \<^verbatim>\<open>a.test\<close> and is believed.\<close>

definition forging_env :: rules_env where
  "forging_env = \<lparr>re_mail = \<lparr>ml_address = (\<lambda>_. None), ml_list = (\<lambda>_. None), ml_word = (\<lambda>_. None)\<rparr>, re_date = (\<lambda>_. None),
     re_auth = demo_env\<lparr>ae_dns := (ae_dns demo_env)\<lparr>sd_txt := (\<lambda>n.
       if n = ''a.test'' then [''v=spf1 ip4:198.51.100.7 -all''] else sd_txt (ae_dns demo_env) n)\<rparr>\<rparr>\<rparr>"

definition forged_context :: mail_context where
  "forged_context = \<lparr>mc_message = parse_message_headers
       (''Received: from real ([203.0.113.5]) by mx'' @ CRLF @ ''From: ceo@a.test'' @ CRLF @
        ''Received: from mail.a.test ([198.51.100.7]) by x'' @ CRLF @ CRLF),
     mc_body = [], mc_header_size = 0, mc_sender_ip = [], mc_helo = [], mc_envelope_from = ''ceo@a.test'', mc_envelope_senders = [],
     mc_now = \<lparr>gt_sec = 1, gt_nsec = 0\<rparr>, mc_trusted = [], mc_verified = None\<rparr>"

theorem client_ip_forgeable_witness:
  "client_ip forging_env forged_context = ''198.51.100.7'' \<and> fst (is_verified forging_env forged_context) = Some True"
proof -
  have a: "mc_sender_ip forged_context = []" "mc_verified forged_context = None"
    "msg_get_all (mc_message forged_context) ''Received'' = [''from real ([203.0.113.5]) by mx''] @ [''from mail.a.test ([198.51.100.7]) by x'']"
    "rh_from_ip (parse_received_hop (re_date forging_env) (length [''from real ([203.0.113.5]) by mx''])
       ''from mail.a.test ([198.51.100.7]) by x'') = ''198.51.100.7''"
    "\<not> is_private_ip ''198.51.100.7''" "fst (is_verified forging_env forged_context) = Some True"
    by code_simp+
  from client_ip_forgeable [OF a(1-4) _ a(5)] a(6) show ?thesis by simp
qed

text \<open>
  Defect: the result of the first verification is kept, so asking for DANE later has no effect: if a
  policy called any other verification builtin before, \<^verbatim>\<open>verify_auth(dane=True)\<close> reports no DANE result.
\<close>

theorem later_dane_ignored:
  assumes "mc_verified ctx = None" and "verify_message env False ctx = (r, ctx')"
  shows "\<exists>a. r = Some a \<and> au_dane a = None \<and> verify_message env with_dane ctx' = (Some a, ctx')"
proof -
  obtain a where a: "verify_auth (re_auth env) (context_input env False ctx) = Some a"
    using verify_auth_returns by blast
  then have "au_dane a = None" by (rule verify_auth_dane) (simp add: context_input_def)
  moreover have "verify_message env False ctx = (Some a, ctx\<lparr>mc_verified := Some a\<rparr>)"
    using assms(1) a by (simp add: verify_message_def Let_def)
  moreover have "verify_message env with_dane (ctx\<lparr>mc_verified := Some a\<rparr>) = (Some a, ctx\<lparr>mc_verified := Some a\<rparr>)"
    by (simp add: verify_message_def)
  ultimately show ?thesis using assms(2) by simp
qed

theorem later_dane_ignored_witness:
  "\<exists>a. fst (verify_message forging_env True (snd (verify_message forging_env False forged_context))) = Some a \<and> au_dane a = None"
proof -
  have "mc_verified forged_context = None" by code_simp
  from later_dane_ignored [OF this, of forging_env "fst (verify_message forging_env False forged_context)"
      "snd (verify_message forging_env False forged_context)" True]
  show ?thesis by auto
qed

end
