(* ===== verification/Validate.thy ===== *)
theory Validate
  imports MessageAuth Complex_Main
begin

text \<open>
  The header validation of \<^verbatim>\<open>pkg/rules/validate.go\<close>: the checks in the order of \<^verbatim>\<open>ValidateHeaders\<close> and the
  ordering of their findings. A finding is kept without its explanatory text. The scores are floating-point
  constants with at most one binary place, so here they are rational numbers. The media-type parser of
  \<^verbatim>\<open>mime\<close>, the Unicode script tables and the conversion of internationalised names are parameters.
\<close>

record validate_env = rules_env +
  va_media :: "string \<Rightarrow> (string \<times> (string \<times> string) list) option"
  va_mixed_script :: "string \<Rightarrow> bool"
  va_unicode_domain :: "string \<Rightarrow> string"
  va_org :: "string \<Rightarrow> string option"

record finding =
  fi_code :: string
  fi_severity :: string
  fi_header :: string
  fi_score :: rat

definition severity_rank :: "string \<Rightarrow> nat" where
  "severity_rank s =
     (if s = ''critical'' then 5 else if s = ''high'' then 4 else if s = ''medium'' then 3
      else if s = ''low'' then 2 else if s = ''info'' then 1 else 0)"

text \<open>A finding that is added under a condition.\<close>

definition report :: "bool \<Rightarrow> string \<Rightarrow> string \<Rightarrow> string \<Rightarrow> rat \<Rightarrow> finding list" where
  "report c code sev field score =
     (if c then [\<lparr>fi_code = code, fi_severity = sev, fi_header = field, fi_score = score\<rparr>] else [])"

section \<open>Text\<close>

definition is_valid_field_name :: "string \<Rightarrow> bool" where
  "is_valid_field_name name \<longleftrightarrow>
     name \<noteq> [] \<and> list_all (\<lambda>c. 33 \<le> char_code c \<and> char_code c \<le> 126 \<and> c \<noteq> CHR '':'') name"

definition has_raw_non_ascii :: "string \<Rightarrow> bool" where
  "has_raw_non_ascii s \<longleftrightarrow> list_ex (\<lambda>c. char_code c > 127) s"

definition name_separator :: "char \<Rightarrow> bool" where
  "name_separator c \<longleftrightarrow> c \<in> {SP, TAB, CHR ''<'', CHR ''>'', CHR '','', CHR '';'', DQ, CHR ''('', CHR '')''}"

definition claimed_address :: "string \<Rightarrow> bool" where
  "claimed_address field \<longleftrightarrow>
     (case index_byte CHR ''@'' field of
        None \<Rightarrow> False
      | Some i \<Rightarrow> i > 0 \<and> i \<noteq> length field - 1 \<and> contains (drop (Suc i) field) ''.'' \<and>
          length (filter (\<lambda>c. c = CHR ''@'') field) = 1)"

definition extract_address_from_text :: "string \<Rightarrow> string" where
  "extract_address_from_text s =
     (case find claimed_address (map (\<lambda>f. trim_set f ''.:'') (fields_where name_separator s)) of
        None \<Rightarrow> [] | Some field \<Rightarrow> field)"

section \<open>Structure\<close>

definition max_header_octets :: nat where "max_header_octets = 998"
definition max_header_count :: nat where "max_header_count = 200"
definition max_header_block :: int where "max_header_block = 65536"
definition max_subject_runes :: nat where "max_subject_runes = 500"
definition max_received_hops :: nat where "max_received_hops = 30"

definition singleton_headers :: "string list" where
  "singleton_headers = [''Date'', ''From'', ''Sender'', ''Reply-To'', ''To'', ''Cc'', ''Bcc'',
     ''Message-ID'', ''In-Reply-To'', ''References'', ''Subject'',
     ''MIME-Version'', ''Content-Type'', ''Content-Transfer-Encoding'']"

definition check_field :: "mail_lib \<Rightarrow> header \<Rightarrow> finding list" where
  "check_field lib h =
     (if hf_name h = [] then report True ''HDR_NO_COLON'' ''high'' [] 3
      else
        report (\<not> is_valid_field_name (hf_name h)) ''HDR_NAME_INVALID'' ''high'' (hf_name h) 3 @
        report (contains_any (hf_value h) [CR, LF, NUL]) ''HDR_INJECTION'' ''critical'' (hf_name h) 8 @
        report (hf_octets h > max_header_octets) ''HDR_LINE_TOO_LONG'' ''low'' (hf_name h) (1 / 2) @
        report (has_raw_non_ascii (hf_value h)) ''HDR_8BIT_UNENCODED'' ''medium'' (hf_name h) (3 / 2) @
        report (\<not> utf8_valid (hf_value h)) ''HDR_INVALID_UTF8'' ''medium'' (hf_name h) (3 / 2) @
        report (contains (hf_value h) ''=?'' \<and> ml_word lib (hf_value h) = None) ''HDR_2047_MALFORMED'' ''low'' (hf_name h) 1)"

definition check_structure :: "mail_lib \<Rightarrow> mail_context \<Rightarrow> finding list" where
  "check_structure lib ctx =
     report (length (ms_headers (mc_message ctx)) > max_header_count) ''HDR_COUNT_EXCESSIVE'' ''low'' [] 1 @
     report (mc_header_size ctx > max_header_block) ''HDR_SIZE_EXCESSIVE'' ''low'' [] 1 @
     concat (map (check_field lib) (ms_headers (mc_message ctx)))"

definition check_required_fields :: "message \<Rightarrow> finding list" where
  "check_required_fields m =
     (let subject = msg_get m ''Subject'' in
      report (\<not> msg_has m ''From'') ''HDR_FROM_MISSING'' ''high'' ''From'' 5 @
      report (\<not> msg_has m ''Date'') ''HDR_DATE_MISSING'' ''medium'' ''Date'' 2 @
      report (\<not> msg_has m ''Message-ID'') ''HDR_MSGID_MISSING'' ''low'' ''Message-ID'' (3 / 2) @
      report (list_ex (\<lambda>c. char_code c < 0x20 \<and> c \<noteq> TAB) subject) ''HDR_SUBJECT_CONTROL'' ''medium'' ''Subject'' 2 @
      report (rune_count subject > max_subject_runes) ''HDR_SUBJECT_TOO_LONG'' ''low'' ''Subject'' 1)"

definition duplicate_code :: "string \<Rightarrow> string" where
  "duplicate_code name = ''HDR_DUP_'' @ to_upper (map (\<lambda>c. if c = CHR ''-'' then CHR ''_'' else c) name)"

definition check_duplicate :: "message \<Rightarrow> string \<Rightarrow> finding list" where
  "check_duplicate m name =
     (let identity = (name = ''From'' \<or> name = ''Sender'' \<or> name = ''Reply-To'') in
      report (msg_count m name > 1) (duplicate_code name) (if identity then ''high'' else ''medium'') name (if identity then 6 else 3))"

definition check_duplicates :: "message \<Rightarrow> finding list" where
  "check_duplicates m = concat (map (check_duplicate m) singleton_headers)"

section \<open>Identities\<close>

definition check_addresses :: "mail_lib \<Rightarrow> message \<Rightarrow> finding list" where
  "check_addresses lib m =
     concat (map (\<lambda>name. report (trim_space (msg_get m name) \<noteq> [] \<and> ml_list lib (msg_get m name) = None)
         ''HDR_ADDR_INVALID'' ''medium'' name (5 / 2)) [''From'', ''Sender'', ''Reply-To'', ''To'', ''Cc'', ''Bcc'']) @
     concat (map (\<lambda>addr. report (ad_domain addr = []) ''HDR_FROM_NO_DOMAIN'' ''high'' ''From'' 4)
         (parse_address_list lib (msg_get m ''From'')))"

definition is_list_mail :: "message \<Rightarrow> bool" where
  "is_list_mail m \<longleftrightarrow> msg_has m ''List-Id'' \<or> msg_has m ''List-Post'' \<or> msg_has m ''List-Unsubscribe''"

definition display_claim :: "validate_env \<Rightarrow> address \<Rightarrow> finding list" where
  "display_claim env from =
     (let claimed = extract_address_from_text (ad_name from);
          related = same_org_domain (va_org env) (domain_of (re_mail env) claimed) (ad_domain from)
      in report (claimed \<noteq> [] \<and> \<not> equal_fold claimed (ad_address from)) ''SPOOF_DISPLAY_NAME_ADDR''
           (if related then ''medium'' else ''high'') ''From'' (if related then 4 else 7))"

definition unrelated :: "validate_env \<Rightarrow> string \<Rightarrow> string \<Rightarrow> bool" where
  "unrelated env d from \<longleftrightarrow> d \<noteq> [] \<and> from \<noteq> [] \<and> \<not> same_org_domain (va_org env) d from"

definition check_spoofing :: "validate_env \<Rightarrow> mail_context \<Rightarrow> finding list" where
  "check_spoofing env ctx =
     (let m = mc_message ctx; lib = re_mail env in
      case parse_address_list lib (msg_get m ''From'') of
        [] \<Rightarrow> []
      | from # others \<Rightarrow>
          display_claim env from @
          report (va_mixed_script env (ad_name from)) ''SPOOF_DISPLAY_NAME_MIXED_SCRIPT'' ''medium'' ''From'' 3 @
          report (va_mixed_script env (va_unicode_domain env (ad_domain from))) ''SPOOF_DOMAIN_MIXED_SCRIPT'' ''high'' ''From'' 6 @
          report (msg_get m ''Reply-To'' \<noteq> [] \<and>
              unrelated env (ad_domain (parse_address lib (msg_get m ''Reply-To''))) (ad_domain from))
            ''SPOOF_REPLYTO_MISMATCH'' ''medium'' ''Reply-To'' (5 / 2) @
          report (envelope_sender ctx \<noteq> [] \<and> unrelated env (domain_of lib (envelope_sender ctx)) (ad_domain from) \<and>
              \<not> is_list_mail m)
            ''SPOOF_ENVELOPE_MISMATCH'' ''low'' ''From'' (3 / 2) @
          report (msg_get m ''Sender'' \<noteq> [] \<and> unrelated env (domain_of lib (msg_get m ''Sender'')) (ad_domain from))
            ''SPOOF_SENDER_MISMATCH'' ''low'' ''Sender'' 1 @
          report (others \<noteq> []) ''SPOOF_MULTIPLE_FROM_ADDRS'' ''medium'' ''From'' 3)"

section \<open>Date, Message-ID and MIME\<close>

definition sub_hours :: "nat \<Rightarrow> go_time \<Rightarrow> go_time" where
  "sub_hours h t = t\<lparr>gt_sec := gt_sec t - word_of_nat (3600 * h)\<rparr>"

definition check_date :: "validate_env \<Rightarrow> mail_context \<Rightarrow> finding list" where
  "check_date env ctx =
     (let raw = msg_get (mc_message ctx) ''Date''; now = ref_time (rules_env.truncate env) ctx in
      if raw = [] then []
      else (case re_date env raw of
          None \<Rightarrow> report True ''HDR_DATE_UNPARSEABLE'' ''medium'' ''Date'' 2
        | Some parsed \<Rightarrow>
            report (time_after parsed (add_hours 24 now)) ''HDR_DATE_FUTURE'' ''medium'' ''Date'' 3 @
            report (time_after (sub_hours (365 * 24) now) parsed) ''HDR_DATE_STALE'' ''low'' ''Date'' 1))"

definition check_message_id :: "validate_env \<Rightarrow> message \<Rightarrow> finding list" where
  "check_message_id env m =
     (let raw = trim_space (msg_get m ''Message-ID''); malformed = report True ''HDR_MSGID_MALFORMED'' ''low'' ''Message-ID'' (3 / 2) in
      if raw = [] then []
      else if \<not> has_prefix raw ''<'' \<or> \<not> has_suffix raw ''>'' \<or> length raw < 4 then malformed
      else
        let inner = take (length raw - 2) (drop 1 raw) in
        (case last_index CHR ''@'' inner of
           None \<Rightarrow> malformed
         | Some i \<Rightarrow>
             if i = 0 \<or> i = length inner - 1 then malformed
             else report (unrelated env (to_lower (drop (Suc i) inner)) (domain_of (re_mail env) (msg_get m ''From'')))
               ''HDR_MSGID_DOMAIN_MISMATCH'' ''info'' ''Message-ID'' (1 / 2)))"

text \<open>\<^verbatim>\<open>parseMediaTypeLoose\<close> returns the error of the first attempt also when the second succeeds.\<close>

definition parse_media_type_loose :: "validate_env \<Rightarrow> string \<Rightarrow> (string \<times> (string \<times> string) list) \<times> bool" where
  "parse_media_type_loose env v =
     (case va_media env v of
        Some r \<Rightarrow> (r, True)
      | None \<Rightarrow>
          (case index_byte CHR '';'' v of
             Some i \<Rightarrow>
               (case if i > 0 then va_media env (take i v) else None of
                  Some (mt, _) \<Rightarrow> ((mt, []), False) | None \<Rightarrow> (([], []), False))
           | None \<Rightarrow> (([], []), False)))"

definition known_encodings :: "string list" where
  "known_encodings = [''7bit'', ''8bit'', ''binary'', ''quoted-printable'', ''base64'']"

definition check_mime :: "validate_env \<Rightarrow> mail_context \<Rightarrow> finding list" where
  "check_mime env ctx =
     (let m = mc_message ctx; ctype = msg_get m ''Content-Type'';
          cte = to_lower (trim_space (msg_get m ''Content-Transfer-Encoding'')) in
      if ctype = [] then []
      else
        report (\<not> msg_has m ''MIME-Version'') ''MIME_VERSION_MISSING'' ''low'' ''MIME-Version'' 1 @
        (case parse_media_type_loose env ctype of
           (_, False) \<Rightarrow> report True ''MIME_CONTENT_TYPE_MALFORMED'' ''medium'' ''Content-Type'' 2
         | ((media, params), True) \<Rightarrow>
             (let boundary = (case map_of params ''boundary'' of None \<Rightarrow> [] | Some b \<Rightarrow> b) in
              if has_prefix media ''multipart/'' then
                (if boundary = [] then report True ''MIME_BOUNDARY_MISSING'' ''medium'' ''Content-Type'' 3
                 else report (\<not> contains (mc_body ctx) (''--'' @ boundary)) ''MIME_BOUNDARY_UNUSED'' ''medium'' ''Content-Type'' 3)
              else []) @
             report (cte \<noteq> [] \<and> cte \<notin> set known_encodings) ''MIME_CTE_UNKNOWN'' ''low'' ''Content-Transfer-Encoding'' 1))"

section \<open>Trace and authentication\<close>

definition one_minute_later :: "go_time \<Rightarrow> go_time" where
  "one_minute_later t = t\<lparr>gt_sec := gt_sec t + 60\<rparr>"

fun time_reversed :: "received_hop list \<Rightarrow> bool" where
  "time_reversed (newer # older # hops) =
     ((case (rh_timestamp newer, rh_timestamp older) of
         (Some n, Some o1) \<Rightarrow> time_after o1 (one_minute_later n) | _ \<Rightarrow> False) \<or> time_reversed (older # hops))"
| "time_reversed hops = False"

definition check_received_chain :: "received_hop list \<Rightarrow> finding list" where
  "check_received_chain hops =
     (if hops = [] then report True ''RCVD_NONE'' ''medium'' ''Received'' 2
      else
        report (length hops > max_received_hops) ''RCVD_EXCESSIVE'' ''low'' ''Received'' (3 / 2) @
        report (time_reversed hops) ''RCVD_TIME_REVERSED'' ''medium'' ''Received'' (5 / 2) @
        report (rh_from_ip (last hops) \<noteq> [] \<and> is_private_ip (rh_from_ip (last hops)) \<and> length hops > 1)
          ''RCVD_PRIVATE_ORIGIN'' ''low'' ''Received'' 1 @
        report (list_all (\<lambda>h. rh_by h = [] \<and> rh_from h = []) hops) ''RCVD_UNPARSEABLE'' ''low'' ''Received'' 1)"

definition check_authentication :: "validate_env \<Rightarrow> mail_context \<Rightarrow> finding list" where
  "check_authentication env ctx =
     (let ar = context_reported ctx; lib = re_mail env; m = mc_message ctx;
          none = (ar_dmarc_policy ar = ''none'') in
      if \<not> ar_present ar then report True ''AUTH_NOT_EVALUATED'' ''info'' [] (1 / 2)
      else
        report (ar_spf ar = ''fail'') ''AUTH_SPF_FAIL'' ''high'' ''Authentication-Results'' 5 @
        report (ar_spf ar = ''softfail'') ''AUTH_SPF_SOFTFAIL'' ''low'' ''Authentication-Results'' 2 @
        report (ar_spf ar = ''permerror'' \<or> ar_spf ar = ''temperror'') ''AUTH_SPF_ERROR'' ''low'' ''Authentication-Results'' 1 @
        report (ar_dkim ar = ''fail'') ''AUTH_DKIM_FAIL'' ''medium'' ''Authentication-Results'' (7 / 2) @
        report (ar_signed ar \<and> ar_dkim ar = []) ''AUTH_DKIM_UNVERIFIED'' ''info'' ''DKIM-Signature'' (1 / 2) @
        (if ar_dmarc ar = ''fail'' then
           report True ''AUTH_DMARC_FAIL'' (if none then ''medium'' else ''high'') ''Authentication-Results'' (if none then 3 else 6)
         else if ar_dmarc ar = ''pass'' then []
         else report (ar_spf ar = ''pass'' \<and> \<not> reported_spf_aligned lib (va_org env) ar m False \<and>
             \<not> reported_dkim_aligned lib (va_org env) ar m False) ''AUTH_NO_ALIGNMENT'' ''medium'' [] 3))"

section \<open>The suite\<close>

definition all_findings :: "validate_env \<Rightarrow> mail_context \<Rightarrow> finding list" where
  "all_findings env ctx =
     (let m = mc_message ctx; lib = re_mail env in
      check_structure lib ctx @ check_required_fields m @ check_duplicates m @ check_addresses lib m @
      check_spoofing env ctx @ check_date env ctx @ check_message_id env m @ check_mime env ctx @
      check_received_chain (context_chain (rules_env.truncate env) ctx) @ check_authentication env ctx)"

text \<open>
  The exchanges of the inner loop: \<open>sink\<close> moves a finding to the left past all of lower rank; the sorted
  part is given last finding first.
\<close>

fun sink :: "finding \<Rightarrow> finding list \<Rightarrow> finding list" where
  "sink f [] = [f]"
| "sink f (g # gs) =
     (if severity_rank (fi_severity f) > severity_rank (fi_severity g) then g # sink f gs else f # g # gs)"

definition sort_findings :: "finding list \<Rightarrow> finding list" where
  "sort_findings fs = rev (fold sink fs [])"

definition validate_headers :: "validate_env \<Rightarrow> mail_context \<Rightarrow> finding list" where
  "validate_headers env ctx = sort_findings (all_findings env ctx)"

end
