(* ===== verification/ValidateProps.thy ===== *)
theory ValidateProps
  imports Validate MessageProps "HOL-Library.Multiset"
begin

text \<open>
  What the header validation reports: the order of its findings is a stable sort, and the findings about
  structure and identity are raised exactly when the fields of the message call for them.
\<close>

section \<open>The order\<close>

abbreviation finding_rank :: "finding \<Rightarrow> nat" where
  "finding_rank f \<equiv> severity_rank (fi_severity f)"

lemma severity_rank_le: "severity_rank s \<le> 5"
  by (simp add: severity_rank_def)

lemma mset_sink [simp]: "mset (sink f gs) = add_mset f (mset gs)"
  by (induction gs) simp_all

lemma set_sink [simp]: "set (sink f gs) = insert f (set gs)"
  by (induction gs) auto

lemma sorted_sink: "sorted_wrt (\<lambda>f g. finding_rank f \<le> finding_rank g) gs \<Longrightarrow>
    sorted_wrt (\<lambda>f g. finding_rank f \<le> finding_rank g) (sink f gs)"
  by (induction gs) auto

text \<open>A finding goes behind those of its own rank: the sorted part is reversed.\<close>

lemma filter_sink:
  "sorted_wrt (\<lambda>f g. finding_rank f \<le> finding_rank g) gs \<Longrightarrow>
     filter (\<lambda>g. finding_rank g = k) (sink f gs) = (if finding_rank f = k then [f] else []) @ filter (\<lambda>g. finding_rank g = k) gs"
proof (induction gs)
  case (Cons g gs)
  then show ?case by (auto simp: filter_empty_conv)
qed simp

lemma fold_sink:
  assumes "sorted_wrt (\<lambda>f g. finding_rank f \<le> finding_rank g) gs"
  shows "mset (fold sink fs gs) = mset fs + mset gs \<and>
    sorted_wrt (\<lambda>f g. finding_rank f \<le> finding_rank g) (fold sink fs gs) \<and>
    filter (\<lambda>g. finding_rank g = k) (fold sink fs gs) =
      rev (filter (\<lambda>g. finding_rank g = k) fs) @ filter (\<lambda>g. finding_rank g = k) gs"
  using assms
proof (induction fs arbitrary: gs)
  case (Cons f fs)
  from Cons.IH [OF sorted_sink [OF Cons.prems]] filter_sink [OF Cons.prems] show ?case by auto
qed simp

lemma sort_findings_stable: "sort_findings fs = sort_key (\<lambda>f. 5 - finding_rank f) fs"
proof (rule sym, rule properties_for_sort_key)
  note f = fold_sink [of "[]" fs, simplified]
  show "mset (sort_findings fs) = mset fs" using f by (simp add: sort_findings_def)
  have eq: "(5 - finding_rank a = 5 - finding_rank b) = (finding_rank b = finding_rank a)" for a b
    using severity_rank_le [of "fi_severity a"] severity_rank_le [of "fi_severity b"] by auto
  show "filter (\<lambda>x. 5 - finding_rank k = 5 - finding_rank x) (sort_findings fs) =
      filter (\<lambda>x. 5 - finding_rank k = 5 - finding_rank x) fs" for k
    unfolding eq using f by (simp add: sort_findings_def rev_filter [symmetric])
  have "sorted_wrt (\<lambda>f g. finding_rank g \<le> finding_rank f) (sort_findings fs)"
    using f by (simp add: sort_findings_def sorted_wrt_rev)
  then show "sorted (map (\<lambda>f. 5 - finding_rank f) (sort_findings fs))"
    by (auto simp: sorted_map elim: sorted_wrt_mono_rel [rotated])
qed

text \<open>
  The exchange sort of the findings is a stable sort by falling severity: it agrees with the
  library's stable sort, so the findings of one severity stay in the order in which the checks found
  them, and none is lost or repeated.
\<close>

theorem findings_sorted_stably:
  "validate_headers env ctx = sort_key (\<lambda>f. 5 - severity_rank (fi_severity f)) (all_findings env ctx)"
  unfolding validate_headers_def by (rule sort_findings_stable)

section \<open>The codes\<close>

definition has_code :: "string \<Rightarrow> finding list \<Rightarrow> bool" where
  "has_code code fs \<longleftrightarrow> list_ex (\<lambda>f. fi_code f = code) fs"

lemma has_code_simps [simp]:
  "has_code code [] = False"
  "has_code code (fs @ gs) = (has_code code fs \<or> has_code code gs)"
  "has_code code (report c k s h x) = (c \<and> code = k)"
  "has_code code (concat fss) = list_ex (has_code code) fss"
  by (induction fss) (auto simp: has_code_def report_def)

lemma has_code_sorted [simp]: "has_code code (sort_findings fs) = has_code code fs"
  by (simp add: sort_findings_stable has_code_def list_ex_iff)

lemma duplicate_codes [simp]:
  "duplicate_code ''Date'' = ''HDR_DUP_DATE''" "duplicate_code ''From'' = ''HDR_DUP_FROM''"
  "duplicate_code ''Sender'' = ''HDR_DUP_SENDER''" "duplicate_code ''Reply-To'' = ''HDR_DUP_REPLY_TO''"
  "duplicate_code ''To'' = ''HDR_DUP_TO''" "duplicate_code ''Cc'' = ''HDR_DUP_CC''" "duplicate_code ''Bcc'' = ''HDR_DUP_BCC''"
  "duplicate_code ''Message-ID'' = ''HDR_DUP_MESSAGE_ID''" "duplicate_code ''In-Reply-To'' = ''HDR_DUP_IN_REPLY_TO''"
  "duplicate_code ''References'' = ''HDR_DUP_REFERENCES''" "duplicate_code ''Subject'' = ''HDR_DUP_SUBJECT''"
  "duplicate_code ''MIME-Version'' = ''HDR_DUP_MIME_VERSION''" "duplicate_code ''Content-Type'' = ''HDR_DUP_CONTENT_TYPE''"
  "duplicate_code ''Content-Transfer-Encoding'' = ''HDR_DUP_CONTENT_TRANSFER_ENCODING''"
  by code_simp+

definition exact_codes :: "string set" where
  "exact_codes = {''HDR_DUP_FROM'', ''SPOOF_MULTIPLE_FROM_ADDRS'', ''HDR_INJECTION'', ''HDR_NO_COLON''}"

text \<open>The other checks never raise these codes.\<close>

lemma foreign_codes [simp]:
  assumes "code \<in> exact_codes"
  shows "\<not> has_code code (check_required_fields m)" "\<not> has_code code (check_addresses lib m)"
    "\<not> has_code code (check_date env ctx)" "\<not> has_code code (check_message_id env m)" "\<not> has_code code (check_mime env ctx)"
    "\<not> has_code code (check_received_chain hops)" "\<not> has_code code (check_authentication env ctx)"
  using assms unfolding exact_codes_def
  by (auto simp: check_required_fields_def check_addresses_def list_ex_iff check_date_def check_message_id_def check_mime_def
      check_received_chain_def check_authentication_def Let_def split: option.splits prod.splits bool.splits)

lemma foreign_structure [simp]:
  "\<not> has_code ''HDR_DUP_FROM'' (check_structure lib ctx)" "\<not> has_code ''SPOOF_MULTIPLE_FROM_ADDRS'' (check_structure lib ctx)"
  by (auto simp: check_structure_def check_field_def list_ex_iff)

lemma foreign_duplicates [simp]:
  "\<not> has_code ''SPOOF_MULTIPLE_FROM_ADDRS'' (check_duplicates m)" "\<not> has_code ''HDR_INJECTION'' (check_duplicates m)"
  "\<not> has_code ''HDR_NO_COLON'' (check_duplicates m)"
  by (simp_all add: check_duplicates_def check_duplicate_def singleton_headers_def Let_def)

lemma foreign_spoofing [simp]:
  "\<not> has_code ''HDR_DUP_FROM'' (check_spoofing env ctx)" "\<not> has_code ''HDR_INJECTION'' (check_spoofing env ctx)"
  "\<not> has_code ''HDR_NO_COLON'' (check_spoofing env ctx)"
  by (simp_all add: check_spoofing_def display_claim_def Let_def split: list.split)

lemma code_owner:
  assumes "code \<in> exact_codes"
  shows "has_code code (validate_headers env ctx) \<longleftrightarrow>
    has_code code (check_structure (re_mail env) ctx) \<or> has_code code (check_duplicates (mc_message ctx)) \<or>
    has_code code (check_spoofing env ctx)"
  using assms by (simp add: validate_headers_def all_findings_def Let_def)

lemma set_headers_count:
  "msg_count (set_headers hs m0) name > 1 \<longleftrightarrow> length (named_values hs name) > 1"
proof (cases "named_values hs name = []")
  case True
  with reindex_absent(3) [of "m0\<lparr>ms_headers := hs, ms_compat := []\<rparr>" name] show ?thesis
    by (simp add: set_headers_def)
next
  case False
  with reindex_present(3) [of "m0\<lparr>ms_headers := hs, ms_compat := []\<rparr>" name] show ?thesis
    by (simp add: set_headers_def)
qed

text \<open>
  The findings on which policies rely are exact. For a parsed message the duplicate-From finding is
  raised exactly when two fields are named From up to case, the header-injection finding exactly
  when the value of a named field holds CR, LF or NUL, and the missing-colon finding exactly when
  a line of the header section has no name.
\<close>

theorem structure_findings_exact:
  assumes "mc_message ctx = set_headers hs m0"
  shows "(has_code ''HDR_DUP_FROM'' (validate_headers env ctx) \<longleftrightarrow> length (named_values hs ''From'') > 1) \<and>
    (has_code ''HDR_INJECTION'' (validate_headers env ctx) \<longleftrightarrow>
       list_ex (\<lambda>h. hf_name h \<noteq> [] \<and> set (hf_value h) \<inter> {CR, LF, NUL} \<noteq> {}) hs) \<and>
    (has_code ''HDR_NO_COLON'' (validate_headers env ctx) \<longleftrightarrow> list_ex (\<lambda>h. hf_name h = []) hs)"
proof -
  have hs: "ms_headers (mc_message ctx) = hs" using assms by (simp add: set_headers_def)
  have c: "''HDR_DUP_FROM'' \<in> exact_codes" "''HDR_INJECTION'' \<in> exact_codes" "''HDR_NO_COLON'' \<in> exact_codes"
    by (simp_all add: exact_codes_def)
  have dup: "has_code ''HDR_DUP_FROM'' (check_duplicates (mc_message ctx)) \<longleftrightarrow> msg_count (mc_message ctx) ''From'' > 1"
    by (simp add: check_duplicates_def check_duplicate_def singleton_headers_def Let_def)
  have field: "has_code ''HDR_INJECTION'' (check_field lib h) \<longleftrightarrow> hf_name h \<noteq> [] \<and> set (hf_value h) \<inter> {CR, LF, NUL} \<noteq> {}"
    "has_code ''HDR_NO_COLON'' (check_field lib h) \<longleftrightarrow> hf_name h = []" for lib h
    by (auto simp: check_field_def contains_any_iff)
  have inj: "has_code ''HDR_INJECTION'' (check_structure (re_mail env) ctx) \<longleftrightarrow>
      list_ex (\<lambda>h. hf_name h \<noteq> [] \<and> set (hf_value h) \<inter> {CR, LF, NUL} \<noteq> {}) hs"
    by (simp add: check_structure_def field hs list_ex_iff)
  have col: "has_code ''HDR_NO_COLON'' (check_structure (re_mail env) ctx) \<longleftrightarrow> list_ex (\<lambda>h. hf_name h = []) hs"
    by (simp add: check_structure_def field hs list_ex_iff)
  show ?thesis unfolding code_owner [OF c(1)] code_owner [OF c(2)] code_owner [OF c(3)]
    using dup inj col set_headers_count [of hs m0 "''From''"] assms by simp
qed

definition demo_validate_env :: validate_env where
  "demo_validate_env = rules_env.extend forging_env
     \<lparr>va_media = (\<lambda>_. None), va_mixed_script = (\<lambda>_. False), va_unicode_domain = (\<lambda>d. d), va_org = (\<lambda>_. None)\<rparr>"

definition doubled_context :: mail_context where
  "doubled_context = forged_context\<lparr>mc_message := parse_message_headers
     (''From: a@a.test'' @ CRLF @ ''from: b@b.test, c@b.test'' @ CRLF @ ''Sender: d@d.test'' @ CRLF @ ''oops'' @ CRLF @ CRLF)\<rparr>"

theorem structure_findings_exact_witness:
  "has_code ''HDR_DUP_FROM'' (validate_headers demo_validate_env doubled_context) \<and>
   \<not> has_code ''HDR_INJECTION'' (validate_headers demo_validate_env doubled_context) \<and>
   has_code ''HDR_NO_COLON'' (validate_headers demo_validate_env doubled_context)"
proof -
  define hs where "hs = parse_header_block (''From: a@a.test'' @ CRLF @ ''from: b@b.test, c@b.test'' @ CRLF @
     ''Sender: d@d.test'' @ CRLF @ ''oops'')"
  have m: "mc_message doubled_context = set_headers hs new_message" unfolding hs_def by code_simp
  have "length (named_values hs ''From'') > 1" "list_ex (\<lambda>h. hf_name h = []) hs"
    "\<not> list_ex (\<lambda>h. hf_name h \<noteq> [] \<and> contains_any (hf_value h) [CR, LF, NUL]) hs"
    unfolding hs_def by code_simp+
  with structure_findings_exact [OF m, of demo_validate_env] show ?thesis by (simp add: contains_any_iff)
qed

text \<open>
  Defect: the finding for several From addresses is documented as ``without a Sender field'', which is
  the case RFC 5322 forbids; it is raised for every message whose From lists more than one address, with a
  Sender field or not.
\<close>

theorem multiple_from_ignores_sender:
  "has_code ''SPOOF_MULTIPLE_FROM_ADDRS'' (validate_headers env ctx) \<longleftrightarrow>
     length (parse_address_list (re_mail env) (msg_get (mc_message ctx) ''From'')) > 1"
proof -
  have c: "''SPOOF_MULTIPLE_FROM_ADDRS'' \<in> exact_codes" by (simp add: exact_codes_def)
  show ?thesis unfolding code_owner [OF c]
    by (cases "parse_address_list (re_mail env) (msg_get (mc_message ctx) ''From'')")
      (auto simp: check_spoofing_def display_claim_def Let_def)
qed

end
