(* ===== verification/Lifecycle.thy ===== *)
theory Lifecycle
  imports Main
begin

text \<open>
  The life of the proxy as a concurrent program, \<^verbatim>\<open>serveSMTP\<close> of \<^verbatim>\<open>cmd/mailscript/proxy.go\<close> and \<^verbatim>\<open>drain\<close> of
  \<^verbatim>\<open>lifecycle.go\<close>: one accepting goroutine for each listener, one goroutine for each session, and the
  draining goroutine. An event is one critical section of one of them, or something that
  happens outside: a client connects, a session ends, the remaining calls of the gRPC server end, the
  timer fires. What a session does with its connection is in the theory of the SMTP session; here it may
  end at any time or never.
\<close>

section \<open>States and events\<close>

text \<open>Connections are numbered in the order in which they are accepted.\<close>

text \<open>
  \<open>Admitted\<close>: counted, not yet registered; \<open>Turned\<close>: closed because of the draining, still counted.
\<close>

datatype acceptor = Accepting | Admitted nat | Turned nat | Ended

text \<open>The deferred calls of a session: after serving it is uncounted, then forgotten, then done.\<close>

datatype phase = Serving | Uncounted | Forgotten

text \<open>\<open>Closing k\<close>: listeners up to \<open>k\<close> are closed; \<open>Waiting s r\<close>: sessions, the gRPC server are still awaited.\<close>

datatype drain_phase = NotDraining | Closing nat | Waiting bool bool | Returned

record server =
  lc_max :: int
  lc_total :: int
  lc_count :: int
  lc_draining :: bool
  lc_active :: "nat list"
  lc_group :: nat
  lc_sessions :: "(nat \<times> phase) list"
  lc_acceptors :: "acceptor list"
  lc_listening :: "bool list"
  lc_drain :: drain_phase
  lc_timer :: bool
  lc_rpc_idle :: bool
  lc_closed :: "nat list"
  lc_next :: nat

datatype event =
    Connect nat
  | AcceptError nat
  | Register nat
  | TurnAway nat
  | SessionEnds nat
  | Forget nat
  | SessionDone nat
  | StartDrain
  | CloseListener
  | StartWaiting
  | SessionsAwaited
  | RpcEnds
  | RpcAwaited
  | TimerFires
  | TimerChosen
  | DrainReturns

definition set_phase :: "nat \<Rightarrow> phase \<Rightarrow> (nat \<times> phase) list \<Rightarrow> (nat \<times> phase) list" where
  "set_phase c p ss = map (\<lambda>(d, q). (d, if d = c then p else q)) ss"

definition new_server :: "int \<Rightarrow> nat \<Rightarrow> server" where
  "new_server limit listeners = \<lparr>lc_max = limit, lc_total = 0, lc_count = 0, lc_draining = False, lc_active = [], lc_group = 0,
     lc_sessions = [], lc_acceptors = replicate listeners Accepting, lc_listening = replicate listeners True,
     lc_drain = NotDraining, lc_timer = False, lc_rpc_idle = False, lc_closed = [], lc_next = 0\<rparr>"

section \<open>The accepting goroutines\<close>

definition connect :: "nat \<Rightarrow> server \<Rightarrow> server option" where
  "connect l s =
     (if l < length (lc_acceptors s) \<and> l < length (lc_listening s) \<and> lc_listening s ! l \<and> lc_acceptors s ! l = Accepting then
        let c = lc_next s; s1 = s\<lparr>lc_next := c + 1, lc_total := lc_total s + 1\<rparr> in
        Some (if lc_max s > 0 \<and> lc_count s \<ge> lc_max s then s1\<lparr>lc_closed := c # lc_closed s\<rparr>
              else s1\<lparr>lc_count := lc_count s + 1, lc_acceptors := (lc_acceptors s)[l := Admitted c]\<rparr>)
      else None)"

definition accept_error :: "nat \<Rightarrow> server \<Rightarrow> server option" where
  "accept_error l s =
     (if l < length (lc_acceptors s) \<and> lc_acceptors s ! l = Accepting
      then Some (s\<lparr>lc_acceptors := (lc_acceptors s)[l := Ended]\<rparr>) else None)"

definition register :: "nat \<Rightarrow> server \<Rightarrow> server option" where
  "register l s =
     (if l < length (lc_acceptors s) then
        (case lc_acceptors s ! l of
           Admitted c \<Rightarrow>
             Some (if lc_draining s
               then s\<lparr>lc_closed := c # lc_closed s, lc_acceptors := (lc_acceptors s)[l := Turned c]\<rparr>
               else s\<lparr>lc_active := c # lc_active s, lc_group := lc_group s + 1,
                      lc_sessions := (c, Serving) # lc_sessions s, lc_acceptors := (lc_acceptors s)[l := Accepting]\<rparr>)
         | _ \<Rightarrow> None)
      else None)"

definition turn_away :: "nat \<Rightarrow> server \<Rightarrow> server option" where
  "turn_away l s =
     (if l < length (lc_acceptors s) then
        (case lc_acceptors s ! l of
           Turned c \<Rightarrow> Some (s\<lparr>lc_count := lc_count s - 1, lc_acceptors := (lc_acceptors s)[l := Ended]\<rparr>)
         | _ \<Rightarrow> None)
      else None)"

section \<open>The sessions\<close>

definition session_ends :: "nat \<Rightarrow> server \<Rightarrow> server option" where
  "session_ends c s =
     (if (c, Serving) \<in> set (lc_sessions s)
      then Some (s\<lparr>lc_closed := c # lc_closed s, lc_count := lc_count s - 1,
                   lc_sessions := set_phase c Uncounted (lc_sessions s)\<rparr>) else None)"

definition forget :: "nat \<Rightarrow> server \<Rightarrow> server option" where
  "forget c s =
     (if (c, Uncounted) \<in> set (lc_sessions s)
      then Some (s\<lparr>lc_active := removeAll c (lc_active s), lc_sessions := set_phase c Forgotten (lc_sessions s)\<rparr>) else None)"

definition session_done :: "nat \<Rightarrow> server \<Rightarrow> server option" where
  "session_done c s =
     (if (c, Forgotten) \<in> set (lc_sessions s)
      then Some (s\<lparr>lc_group := lc_group s - 1, lc_sessions := filter (\<lambda>x. fst x \<noteq> c) (lc_sessions s)\<rparr>) else None)"

section \<open>Draining\<close>

definition start_drain :: "server \<Rightarrow> server option" where
  "start_drain s =
     (if lc_drain s = NotDraining then Some (s\<lparr>lc_draining := True, lc_drain := Closing 0\<rparr>) else None)"

definition close_listener :: "server \<Rightarrow> server option" where
  "close_listener s =
     (case lc_drain s of
        Closing k \<Rightarrow>
          if k < length (lc_listening s)
          then Some (s\<lparr>lc_listening := (lc_listening s)[k := False], lc_drain := Closing (k + 1)\<rparr>) else None
      | _ \<Rightarrow> None)"

definition start_waiting :: "server \<Rightarrow> server option" where
  "start_waiting s =
     (case lc_drain s of
        Closing k \<Rightarrow> if k \<ge> length (lc_listening s) then Some (s\<lparr>lc_drain := Waiting True True\<rparr>) else None
      | _ \<Rightarrow> None)"

definition sessions_awaited :: "server \<Rightarrow> server option" where
  "sessions_awaited s =
     (case lc_drain s of
        Waiting True r \<Rightarrow> if lc_group s = 0 then Some (s\<lparr>lc_drain := Waiting False r\<rparr>) else None
      | _ \<Rightarrow> None)"

definition rpc_awaited :: "server \<Rightarrow> server option" where
  "rpc_awaited s =
     (case lc_drain s of
        Waiting ss True \<Rightarrow> if lc_rpc_idle s then Some (s\<lparr>lc_drain := Waiting ss False\<rparr>) else None
      | _ \<Rightarrow> None)"

text \<open>Every registered connection is closed in one critical section.\<close>

definition timer_chosen :: "server \<Rightarrow> server option" where
  "timer_chosen s =
     (case lc_drain s of
        Waiting ss r \<Rightarrow>
          if (ss \<or> r) \<and> lc_timer s then Some (s\<lparr>lc_closed := lc_active s @ lc_closed s, lc_drain := Returned\<rparr>) else None
      | _ \<Rightarrow> None)"

definition drain_returns :: "server \<Rightarrow> server option" where
  "drain_returns s = (if lc_drain s = Waiting False False then Some (s\<lparr>lc_drain := Returned\<rparr>) else None)"

fun happen :: "event \<Rightarrow> server \<Rightarrow> server option" where
  "happen (Connect l) s = connect l s"
| "happen (AcceptError l) s = accept_error l s"
| "happen (Register l) s = register l s"
| "happen (TurnAway l) s = turn_away l s"
| "happen (SessionEnds c) s = session_ends c s"
| "happen (Forget c) s = forget c s"
| "happen (SessionDone c) s = session_done c s"
| "happen StartDrain s = start_drain s"
| "happen CloseListener s = close_listener s"
| "happen StartWaiting s = start_waiting s"
| "happen SessionsAwaited s = sessions_awaited s"
| "happen RpcEnds s = Some (s\<lparr>lc_rpc_idle := True\<rparr>)"
| "happen RpcAwaited s = rpc_awaited s"
| "happen TimerFires s = (case lc_drain s of Waiting _ _ \<Rightarrow> Some (s\<lparr>lc_timer := True\<rparr>) | _ \<Rightarrow> None)"
| "happen TimerChosen s = timer_chosen s"
| "happen DrainReturns s = drain_returns s"

inductive reachable :: "int \<Rightarrow> nat \<Rightarrow> server \<Rightarrow> bool" for limit listeners where
  start: "reachable limit listeners (new_server limit listeners)"
| step: "reachable limit listeners s \<Longrightarrow> happen e s = Some s' \<Longrightarrow> reachable limit listeners s'"

text \<open>The events of the goroutine that drains.\<close>

definition drain_event :: "event \<Rightarrow> bool" where
  "drain_event e \<longleftrightarrow> e \<in> {CloseListener, StartWaiting, SessionsAwaited, RpcAwaited, TimerChosen, DrainReturns}"

section \<open>Connections\<close>

definition acceptor_load :: "acceptor \<Rightarrow> int" where
  "acceptor_load a = (case a of Admitted c \<Rightarrow> 1 | Turned c \<Rightarrow> 1 | _ \<Rightarrow> 0)"

definition session_load :: "nat \<times> phase \<Rightarrow> int" where
  "session_load x = (if snd x = Serving then 1 else 0)"

text \<open>The books of the server: what is counted, grouped, registered and numbered.\<close>

definition counted :: "server \<Rightarrow> bool" where
  "counted s \<longleftrightarrow>
     lc_count s = sum_list (map acceptor_load (lc_acceptors s)) + sum_list (map session_load (lc_sessions s)) \<and>
     (lc_max s > 0 \<longrightarrow> lc_count s \<le> lc_max s)"

definition grouped :: "server \<Rightarrow> bool" where
  "grouped s \<longleftrightarrow> lc_group s = length (lc_sessions s) \<and> distinct (map fst (lc_sessions s))"

definition registered :: "server \<Rightarrow> bool" where
  "registered s \<longleftrightarrow> (\<forall>c. c \<in> set (lc_active s) \<longleftrightarrow> (\<exists>p. (c, p) \<in> set (lc_sessions s) \<and> p \<noteq> Forgotten))"

definition admitted :: "acceptor list \<Rightarrow> nat \<Rightarrow> nat \<Rightarrow> bool" where
  "admitted as l c \<longleftrightarrow> l < length as \<and> as ! l = Admitted c"

definition numbered :: "server \<Rightarrow> bool" where
  "numbered s \<longleftrightarrow>
     (\<forall>c \<in> fst ` set (lc_sessions s). c < lc_next s) \<and>
     (\<forall>l c. admitted (lc_acceptors s) l c \<longrightarrow> c < lc_next s \<and> c \<notin> fst ` set (lc_sessions s)) \<and>
     (\<forall>l k c. admitted (lc_acceptors s) l c \<longrightarrow> admitted (lc_acceptors s) k c \<longrightarrow> k = l)"

definition drain_ok :: "server \<Rightarrow> bool" where
  "drain_ok s \<longleftrightarrow>
     (lc_drain s \<noteq> NotDraining \<longrightarrow> lc_draining s) \<and>
     (\<forall>r. lc_drain s = Waiting False r \<longrightarrow> lc_group s = 0) \<and>
     (lc_drain s = Returned \<longrightarrow> (\<forall>c. (c, Serving) \<in> set (lc_sessions s) \<longrightarrow> c \<in> set (lc_closed s)))"

text \<open>
  An infinite run with what happens at each moment, or nothing of the server. It is fair when a
  draining goroutine that could always go on does go on, and a timer that is awaited fires.
\<close>

definition is_run :: "(nat \<Rightarrow> server) \<Rightarrow> (nat \<Rightarrow> event option) \<Rightarrow> bool" where
  "is_run r l \<longleftrightarrow> (\<forall>i. case l i of None \<Rightarrow> r (Suc i) = r i | Some e \<Rightarrow> happen e (r i) = Some (r (Suc i)))"

definition drain_enabled :: "server \<Rightarrow> bool" where
  "drain_enabled s \<longleftrightarrow> close_listener s \<noteq> None \<or> start_waiting s \<noteq> None \<or> sessions_awaited s \<noteq> None \<or>
     rpc_awaited s \<noteq> None \<or> timer_chosen s \<noteq> None \<or> drain_returns s \<noteq> None"

definition drains :: "event option \<Rightarrow> bool" where
  "drains x \<longleftrightarrow> (case x of None \<Rightarrow> False | Some e \<Rightarrow> drain_event e)"

definition is_waiting :: "drain_phase \<Rightarrow> bool" where
  "is_waiting p \<longleftrightarrow> (case p of Waiting _ _ \<Rightarrow> True | _ \<Rightarrow> False)"

definition is_fair :: "(nat \<Rightarrow> server) \<Rightarrow> (nat \<Rightarrow> event option) \<Rightarrow> bool" where
  "is_fair r l \<longleftrightarrow>
     (\<forall>i. (\<forall>j \<ge> i. drain_enabled (r j)) \<longrightarrow> (\<exists>j \<ge> i. drains (l j))) \<and>
     (\<forall>i. (\<forall>j \<ge> i. is_waiting (lc_drain (r j))) \<longrightarrow> (\<exists>j \<ge> i. l j = Some TimerFires))"

end
