(* ===== verification/LifecycleProps.thy ===== *)
theory LifecycleProps
  imports Lifecycle
begin

text \<open>
  What holds in every reachable state of the server, and that draining comes to an end.
\<close>

section \<open>Updates\<close>

lemma acceptor_sum: "l < length as \<Longrightarrow> sum_list (map acceptor_load (as[l := a])) =
    sum_list (map acceptor_load as) - acceptor_load (as ! l) + acceptor_load a"
  by (induction as arbitrary: l) (auto split: nat.split)

lemma set_phase_fst [simp]: "map fst (set_phase c p ss) = map fst ss" "fst ` set (set_phase c p ss) = fst ` set ss"
  by (force simp: set_phase_def)+

lemma length_set_phase [simp]: "length (set_phase c p ss) = length ss"
  by (simp add: set_phase_def)

lemma in_set_phase: "(d, q) \<in> set (set_phase c p ss) \<longleftrightarrow> (if d = c then q = p \<and> c \<in> fst ` set ss else (d, q) \<in> set ss)"
  by (force simp: set_phase_def image_iff split: if_splits)

lemma set_phase_absent: "c \<notin> fst ` set ss \<Longrightarrow> set_phase c p ss = ss"
  by (induction ss) (auto simp: set_phase_def)

lemma phase_sum:
  "distinct (map fst ss) \<Longrightarrow> (c, q) \<in> set ss \<Longrightarrow>
     sum_list (map session_load (set_phase c p ss)) = sum_list (map session_load ss) - session_load (c, q) + session_load (c, p)"
proof (induction ss)
  case (Cons x ss)
  obtain d r where x: "x = (d, r)" by (cases x)
  show ?case
  proof (cases "d = c")
    case True
    with Cons.prems x have "c \<notin> fst ` set ss" "r = q" by (auto simp: rev_image_eqI)
    with True x set_phase_absent [of c ss p] show ?thesis by (simp add: set_phase_def session_load_def)
  next
    case False
    with Cons x show ?thesis by (simp add: set_phase_def session_load_def)
  qed
qed simp

lemma distinct_phase: "distinct (map fst ss) \<Longrightarrow> (c, p) \<in> set ss \<Longrightarrow> (c, q) \<in> set ss \<Longrightarrow> p = q"
  by (metis eq_key_imp_eq_value)

section \<open>The books\<close>

lemma session_done_sum:
  "(c, Forgotten) \<in> set ss \<Longrightarrow> distinct (map fst ss) \<Longrightarrow>
     sum_list (map session_load (filter (\<lambda>x. fst x \<noteq> c) ss)) = sum_list (map session_load ss) \<and>
     Suc (length (filter (\<lambda>x. fst x \<noteq> c) ss)) = length ss"
proof (induction ss)
  case (Cons x ss)
  show ?case
  proof (cases "fst x = c")
    case True
    with Cons.prems have "x = (c, Forgotten)" "\<forall>y \<in> set ss. fst y \<noteq> c" by (auto simp: rev_image_eqI)
    then show ?thesis by (simp add: session_load_def)
  next
    case False
    with Cons show ?thesis by (cases x) auto
  qed
qed simp

text \<open>The outcomes of the events, one by one.\<close>

lemma connect_cases:
  assumes "connect l s = Some s'"
  obtains "lc_max s > 0" "lc_count s \<ge> lc_max s"
      "s' = s\<lparr>lc_next := lc_next s + 1, lc_total := lc_total s + 1, lc_closed := lc_next s # lc_closed s\<rparr>"
    | "l < length (lc_acceptors s)" "lc_acceptors s ! l = Accepting" "lc_listening s ! l" "lc_max s > 0 \<Longrightarrow> lc_count s < lc_max s"
      "s' = s\<lparr>lc_next := lc_next s + 1, lc_total := lc_total s + 1, lc_count := lc_count s + 1,
         lc_acceptors := (lc_acceptors s)[l := Admitted (lc_next s)]\<rparr>"
  using assms that by (auto simp: connect_def Let_def not_le split: if_splits)

lemma register_cases:
  assumes "register l s = Some s'"
  obtains c where "lc_draining s" "l < length (lc_acceptors s)" "lc_acceptors s ! l = Admitted c"
      "s' = s\<lparr>lc_closed := c # lc_closed s, lc_acceptors := (lc_acceptors s)[l := Turned c]\<rparr>"
    | c where "\<not> lc_draining s" "l < length (lc_acceptors s)" "lc_acceptors s ! l = Admitted c"
      "s' = s\<lparr>lc_active := c # lc_active s, lc_group := lc_group s + 1,
         lc_sessions := (c, Serving) # lc_sessions s, lc_acceptors := (lc_acceptors s)[l := Accepting]\<rparr>"
  using assms that by (auto simp: register_def split: if_splits acceptor.splits)

lemma turn_away_cases:
  assumes "turn_away l s = Some s'"
  obtains c where "l < length (lc_acceptors s)" "lc_acceptors s ! l = Turned c"
    "s' = s\<lparr>lc_count := lc_count s - 1, lc_acceptors := (lc_acceptors s)[l := Ended]\<rparr>"
  using assms that by (auto simp: turn_away_def split: if_splits acceptor.splits)

text \<open>The other events leave what the books are about alone.\<close>

definition same_books :: "server \<Rightarrow> server \<Rightarrow> bool" where
  "same_books s s' \<longleftrightarrow> lc_max s' = lc_max s \<and> lc_count s' = lc_count s \<and> lc_active s' = lc_active s \<and> lc_group s' = lc_group s \<and>
     lc_sessions s' = lc_sessions s \<and> lc_acceptors s' = lc_acceptors s \<and> lc_next s' = lc_next s"

definition outer_event :: "event \<Rightarrow> bool" where
  "outer_event e \<longleftrightarrow> drain_event e \<or> e \<in> {StartDrain, RpcEnds, TimerFires}"

lemmas drain_defs = start_drain_def close_listener_def start_waiting_def sessions_awaited_def rpc_awaited_def
  timer_chosen_def drain_returns_def

lemma outer_same_books: "outer_event e \<Longrightarrow> happen e s = Some s' \<Longrightarrow> same_books s s'"
proof (cases e)
  assume "happen e s = Some s'" "e = StartDrain"
  then show ?thesis by (auto simp: start_drain_def same_books_def split: if_splits)
next
  assume "happen e s = Some s'" "e = CloseListener"
  then show ?thesis by (auto simp: close_listener_def same_books_def split: if_splits drain_phase.splits)
next
  assume "happen e s = Some s'" "e = StartWaiting"
  then show ?thesis by (auto simp: start_waiting_def same_books_def split: if_splits drain_phase.splits)
next
  assume "happen e s = Some s'" "e = SessionsAwaited"
  then show ?thesis by (auto simp: sessions_awaited_def same_books_def split: if_splits drain_phase.splits bool.splits)
next
  assume "happen e s = Some s'" "e = RpcAwaited"
  then show ?thesis by (auto simp: rpc_awaited_def same_books_def split: if_splits drain_phase.splits bool.splits)
next
  assume "happen e s = Some s'" "e = RpcEnds"
  then show ?thesis by (auto simp: same_books_def)
next
  assume "happen e s = Some s'" "e = TimerFires"
  then show ?thesis by (auto simp: same_books_def split: drain_phase.splits)
next
  assume "happen e s = Some s'" "e = TimerChosen"
  then show ?thesis by (auto simp: timer_chosen_def same_books_def split: if_splits drain_phase.splits)
next
  assume "happen e s = Some s'" "e = DrainReturns"
  then show ?thesis by (auto simp: drain_returns_def same_books_def split: if_splits)
qed (simp_all add: outer_event_def drain_event_def)

lemma event_cases:
  obtains (outer) "outer_event e"
    | (connect) l where "e = Connect l" | (error) l where "e = AcceptError l" | (register) l where "e = Register l"
    | (turn) l where "e = TurnAway l" | (ends) c where "e = SessionEnds c" | (forget) c where "e = Forget c"
    | (done_) c where "e = SessionDone c"
  by (cases e) (auto simp: outer_event_def drain_event_def)

lemma counted_step: "happen e s = Some s' \<Longrightarrow> grouped s \<Longrightarrow> counted s \<Longrightarrow> counted s'"
proof (cases e rule: event_cases)
  case outer
  assume "happen e s = Some s'" "counted s"
  then have "same_books s s'" using outer outer_same_books by blast
  with \<open>counted s\<close> show ?thesis by (auto simp: counted_def same_books_def)
next
  case (connect l)
  assume "happen e s = Some s'" and s: "counted s"
  with connect have "connect l s = Some s'" by simp
  then show ?thesis
    by (cases rule: connect_cases) (use s in \<open>auto simp: counted_def acceptor_sum acceptor_load_def\<close>)
next
  case (error l)
  assume "happen e s = Some s'" and s: "counted s"
  with error show ?thesis by (auto simp: accept_error_def counted_def acceptor_sum acceptor_load_def split: if_splits)
next
  case (register l)
  assume "happen e s = Some s'" and s: "counted s"
  with register have "register l s = Some s'" by simp
  then show ?thesis
    by (cases rule: register_cases) (use s in \<open>auto simp: counted_def acceptor_sum acceptor_load_def session_load_def\<close>)
next
  case (turn l)
  assume "happen e s = Some s'" and s: "counted s"
  with turn have "turn_away l s = Some s'" by simp
  then show ?thesis by (cases rule: turn_away_cases) (use s in \<open>auto simp: counted_def acceptor_sum acceptor_load_def\<close>)
next
  case (ends c)
  assume "happen e s = Some s'" "counted s" "grouped s"
  with ends show ?thesis
    by (auto simp: session_ends_def counted_def grouped_def phase_sum [of _ c Serving] session_load_def split: if_splits)
next
  case (forget c)
  assume "happen e s = Some s'" "counted s" "grouped s"
  with forget show ?thesis
    by (auto simp: forget_def counted_def grouped_def phase_sum [of _ c Uncounted] session_load_def split: if_splits)
next
  case (done_ c)
  assume "happen e s = Some s'" "counted s" "grouped s"
  with done_ session_done_sum [of c "lc_sessions s"] show ?thesis
    by (auto simp: session_done_def counted_def grouped_def split: if_splits)
qed

lemma grouped_step: "happen e s = Some s' \<Longrightarrow> numbered s \<Longrightarrow> grouped s \<Longrightarrow> grouped s'"
proof (cases e rule: event_cases)
  case outer
  assume "happen e s = Some s'" "grouped s"
  then have "same_books s s'" using outer outer_same_books by blast
  with \<open>grouped s\<close> show ?thesis by (simp add: grouped_def same_books_def)
next
  case (connect l)
  assume "happen e s = Some s'" and s: "grouped s"
  with connect have "connect l s = Some s'" by simp
  then show ?thesis by (cases rule: connect_cases) (use s in \<open>simp_all add: grouped_def\<close>)
next
  case (register l)
  assume "happen e s = Some s'" and s: "grouped s" and n: "numbered s"
  with register have "register l s = Some s'" by simp
  then show ?thesis
  proof (cases rule: register_cases)
    case (2 c)
    with n have "c \<notin> fst ` set (lc_sessions s)" by (simp add: numbered_def admitted_def)
    with 2 s show ?thesis by (simp add: grouped_def)
  qed (use s in \<open>simp add: grouped_def\<close>)
next
  case (done_ c)
  assume "happen e s = Some s'" "grouped s"
  with done_ session_done_sum [of c "lc_sessions s"] show ?thesis
    by (auto simp: session_done_def grouped_def distinct_map_filter split: if_splits)
next
  case (error l)
  assume "happen e s = Some s'" "grouped s"
  with error show ?thesis by (auto simp: accept_error_def grouped_def split: if_splits)
next
  case (turn l)
  assume "happen e s = Some s'" and s: "grouped s"
  with turn have "turn_away l s = Some s'" by simp
  then show ?thesis by (cases rule: turn_away_cases) (use s in \<open>simp add: grouped_def\<close>)
next
  case (ends c)
  assume "happen e s = Some s'" "grouped s"
  with ends show ?thesis by (auto simp: session_ends_def grouped_def split: if_splits)
next
  case (forget c)
  assume "happen e s = Some s'" "grouped s"
  with forget show ?thesis by (auto simp: forget_def grouped_def split: if_splits)
qed

lemma admitted_update:
  "admitted (as[l := a]) k c \<longleftrightarrow> (if k = l then l < length as \<and> a = Admitted c else admitted as k c)"
  by (auto simp: admitted_def)

lemma numbered_step: "happen e s = Some s' \<Longrightarrow> numbered s \<Longrightarrow> numbered s'"
proof (cases e rule: event_cases)
  case outer
  assume "happen e s = Some s'" "numbered s"
  then have "same_books s s'" using outer outer_same_books by blast
  with \<open>numbered s\<close> show ?thesis by (simp add: numbered_def same_books_def)
next
  case (connect l)
  assume "happen e s = Some s'" and n: "numbered s"
  with connect have "connect l s = Some s'" by simp
  then show ?thesis
  proof (cases rule: connect_cases)
    case 1
    with n show ?thesis by (simp add: numbered_def less_SucI)
  next
    case 2
    have "c \<noteq> lc_next s" if "admitted (lc_acceptors s) k c" for k c using n that by (auto simp: numbered_def)
    moreover have "lc_next s \<notin> fst ` set (lc_sessions s)" using n by (auto simp: numbered_def)
    ultimately show ?thesis using n unfolding numbered_def 2(5)
      by (simp add: admitted_update less_SucI split: if_splits) metis
  qed
next
  case (error l)
  assume "happen e s = Some s'" and n: "numbered s"
  with error have s': "s' = s\<lparr>lc_acceptors := (lc_acceptors s)[l := Ended]\<rparr>" by (simp add: accept_error_def split: if_splits)
  show ?thesis using n unfolding numbered_def s' by (simp add: admitted_update split: if_splits)
next
  case (register l)
  assume "happen e s = Some s'" and n: "numbered s"
  with register have "register l s = Some s'" by simp
  then show ?thesis
  proof (cases rule: register_cases)
    case (1 c)
    with n show ?thesis unfolding numbered_def 1(4) by (simp add: admitted_update split: if_splits)
  next
    case (2 c)
    have a: "admitted (lc_acceptors s) l c" using 2 by (simp add: admitted_def)
    with n have "c < lc_next s" by (simp add: numbered_def)
    moreover have "d \<noteq> c" if "admitted (lc_acceptors s) k d" "k \<noteq> l" for k d using n a that by (auto simp: numbered_def)
    ultimately show ?thesis using n unfolding numbered_def 2(4)
      by (simp add: admitted_update split: if_splits)
  qed
next
  case (turn l)
  assume "happen e s = Some s'" and n: "numbered s"
  with turn have "turn_away l s = Some s'" by simp
  then show ?thesis
  proof (cases rule: turn_away_cases)
    case (1 c)
    with n show ?thesis unfolding numbered_def 1(3) by (simp add: admitted_update split: if_splits)
  qed
next
  case (ends c)
  assume "happen e s = Some s'" and n: "numbered s"
  with ends have s': "lc_acceptors s' = lc_acceptors s" "lc_next s' = lc_next s"
      "lc_sessions s' = set_phase c Uncounted (lc_sessions s)" by (auto simp: session_ends_def split: if_splits)
  show ?thesis using n unfolding numbered_def s' set_phase_fst .
next
  case (forget c)
  assume "happen e s = Some s'" and n: "numbered s"
  with forget have s': "lc_acceptors s' = lc_acceptors s" "lc_next s' = lc_next s"
      "lc_sessions s' = set_phase c Forgotten (lc_sessions s)" by (auto simp: forget_def split: if_splits)
  show ?thesis using n unfolding numbered_def s' set_phase_fst .
next
  case (done_ c)
  assume "happen e s = Some s'" and n: "numbered s"
  with done_ have s': "lc_acceptors s' = lc_acceptors s" "lc_next s' = lc_next s"
      "lc_sessions s' = filter (\<lambda>x. fst x \<noteq> c) (lc_sessions s)" by (auto simp: session_done_def split: if_splits)
  have sub: "fst ` set (lc_sessions s') \<subseteq> fst ` set (lc_sessions s)" by (auto simp: s')
  from n have "\<forall>c \<in> fst ` set (lc_sessions s'). c < lc_next s"
    "\<forall>l c. admitted (lc_acceptors s) l c \<longrightarrow> c < lc_next s \<and> c \<notin> fst ` set (lc_sessions s')"
    using sub unfolding numbered_def by (meson subsetD)+
  with n show ?thesis by (simp add: numbered_def s'(1,2))
qed

lemma registered_step: "happen e s = Some s' \<Longrightarrow> grouped s \<Longrightarrow> registered s \<Longrightarrow> registered s'"
proof (cases e rule: event_cases)
  case outer
  assume "happen e s = Some s'" "registered s"
  then have "same_books s s'" using outer outer_same_books by blast
  with \<open>registered s\<close> show ?thesis by (auto simp: registered_def same_books_def)
next
  case (connect l)
  assume "happen e s = Some s'" and s: "registered s"
  with connect have "connect l s = Some s'" by simp
  then show ?thesis by (cases rule: connect_cases) (use s in \<open>simp_all add: registered_def\<close>)
next
  case (error l)
  assume "happen e s = Some s'" "registered s"
  with error show ?thesis by (auto simp: accept_error_def registered_def split: if_splits)
next
  case (register l)
  assume "happen e s = Some s'" and s: "registered s"
  with register have "register l s = Some s'" by simp
  then show ?thesis
  proof (cases rule: register_cases)
    case (2 c)
    with s show ?thesis unfolding registered_def by (simp, metis phase.distinct(3))
  qed (use s in \<open>simp add: registered_def\<close>)
next
  case (turn l)
  assume "happen e s = Some s'" and s: "registered s"
  with turn have "turn_away l s = Some s'" by simp
  then show ?thesis by (cases rule: turn_away_cases) (use s in \<open>simp add: registered_def\<close>)
next
  case (ends c)
  assume "happen e s = Some s'" and s: "registered s"
  with ends have m: "(c, Serving) \<in> set (lc_sessions s)"
    and s': "lc_active s' = lc_active s" "lc_sessions s' = set_phase c Uncounted (lc_sessions s)"
    by (auto simp: session_ends_def split: if_splits)
  from m have "c \<in> fst ` set (lc_sessions s)" by force
  with s m show ?thesis unfolding registered_def s' by (simp add: in_set_phase) (metis phase.distinct(3,5))
next
  case (forget c)
  assume "happen e s = Some s'" and s: "registered s"
  with forget have s': "lc_active s' = removeAll c (lc_active s)" "lc_sessions s' = set_phase c Forgotten (lc_sessions s)"
    by (auto simp: forget_def split: if_splits)
  from s show ?thesis unfolding registered_def s' by (auto simp: in_set_phase split: if_splits)
next
  case (done_ c)
  assume "happen e s = Some s'" and s: "registered s" "grouped s"
  with done_ have m: "(c, Forgotten) \<in> set (lc_sessions s)"
    and s': "lc_active s' = lc_active s" "lc_sessions s' = filter (\<lambda>x. fst x \<noteq> c) (lc_sessions s)"
    by (auto simp: session_done_def split: if_splits)
  have "c \<notin> set (lc_active s)" using s m distinct_phase [of "lc_sessions s" c] by (auto simp: registered_def grouped_def)
  with s show ?thesis unfolding registered_def s' by auto
qed

section \<open>Draining\<close>

text \<open>What is being served when draining has begun, and what was closed, only shrinks and grows.\<close>

definition calms :: "server \<Rightarrow> server \<Rightarrow> bool" where
  "calms s s' \<longleftrightarrow> lc_draining s' \<and> lc_group s' \<le> lc_group s \<and> set (lc_closed s) \<subseteq> set (lc_closed s') \<and>
     (\<forall>c. (c, Serving) \<in> set (lc_sessions s') \<longrightarrow> (c, Serving) \<in> set (lc_sessions s))"

lemma calm_step: "happen e s = Some s' \<Longrightarrow> lc_draining s \<Longrightarrow> calms s s'"
proof (cases e rule: event_cases)
  case outer
  assume e: "happen e s = Some s'" and d: "lc_draining s"
  then have b: "same_books s s'" using outer outer_same_books by blast
  from e outer d have "lc_draining s' \<and> set (lc_closed s) \<subseteq> set (lc_closed s')"
    by (cases e) (auto simp: outer_event_def drain_event_def drain_defs split: if_splits drain_phase.splits bool.splits)
  with b show ?thesis by (auto simp: calms_def same_books_def)
next
  case (connect l)
  assume "happen e s = Some s'" and d: "lc_draining s"
  with connect have "connect l s = Some s'" by simp
  then show ?thesis by (cases rule: connect_cases) (use d in \<open>auto simp: calms_def\<close>)
next
  case (error l)
  assume "happen e s = Some s'" "lc_draining s"
  with error show ?thesis by (auto simp: accept_error_def calms_def split: if_splits)
next
  case (register l)
  assume "happen e s = Some s'" and d: "lc_draining s"
  with register have "register l s = Some s'" by simp
  then show ?thesis by (cases rule: register_cases) (use d in \<open>auto simp: calms_def\<close>)
next
  case (turn l)
  assume "happen e s = Some s'" and d: "lc_draining s"
  with turn have "turn_away l s = Some s'" by simp
  then show ?thesis by (cases rule: turn_away_cases) (use d in \<open>auto simp: calms_def\<close>)
next
  case (ends c)
  assume "happen e s = Some s'" and d: "lc_draining s"
  with ends show ?thesis by (auto simp: session_ends_def calms_def in_set_phase split: if_splits)
next
  case (forget c)
  assume "happen e s = Some s'" and d: "lc_draining s"
  with forget show ?thesis by (auto simp: forget_def calms_def in_set_phase split: if_splits)
next
  case (done_ c)
  assume "happen e s = Some s'" and d: "lc_draining s"
  with done_ show ?thesis by (auto simp: session_done_def calms_def split: if_splits)
qed

text \<open>Only the draining goroutine moves its phase.\<close>

lemma drain_phase_kept:
  assumes "happen e s = Some s'" "\<not> drain_event e" "e \<noteq> StartDrain"
  shows "lc_drain s' = lc_drain s"
proof (cases e)
  case (Connect l)
  with assms have "connect l s = Some s'" by simp
  then show ?thesis by (cases rule: connect_cases) simp_all
next
  case (Register l)
  with assms have "register l s = Some s'" by simp
  then show ?thesis by (cases rule: register_cases) simp_all
next
  case (TurnAway l)
  with assms have "turn_away l s = Some s'" by simp
  then show ?thesis by (cases rule: turn_away_cases) simp
qed (use assms in \<open>auto simp: drain_event_def accept_error_def session_ends_def forget_def session_done_def
      split: if_splits drain_phase.splits\<close>)

lemma drain_ok_calm:
  assumes "drain_ok s" "lc_draining s \<Longrightarrow> calms s s'" "lc_drain s' = lc_drain s"
  shows "drain_ok s'"
  using assms by (auto simp: drain_ok_def calms_def)

lemma drain_ok_step:
  assumes "happen e s = Some s'" "grouped s" "registered s" "drain_ok s"
  shows "drain_ok s'"
proof (cases "drain_event e \<or> e = StartDrain")
  case False
  with assms drain_phase_kept [of e s s'] calm_step [of e s s'] show ?thesis by (intro drain_ok_calm [of s s']) auto
next
  case True
  then have "outer_event e" by (auto simp: outer_event_def)
  with assms have b: "same_books s s'" by (simp add: outer_same_books)
  from True consider "e = StartDrain" | "e = CloseListener" | "e = StartWaiting" | "e = SessionsAwaited" | "e = RpcAwaited"
    | "e = TimerChosen" | "e = DrainReturns" by (auto simp: drain_event_def)
  then show ?thesis
  proof cases
    case 1
    with assms show ?thesis by (auto simp: start_drain_def drain_ok_def split: if_splits)
  next
    case 2
    with assms show ?thesis by (auto simp: close_listener_def drain_ok_def split: if_splits drain_phase.splits)
  next
    case 3
    with assms show ?thesis by (auto simp: start_waiting_def drain_ok_def split: if_splits drain_phase.splits)
  next
    case 4
    with assms show ?thesis by (auto simp: sessions_awaited_def drain_ok_def split: if_splits drain_phase.splits bool.splits)
  next
    case 5
    with assms show ?thesis by (auto simp: rpc_awaited_def drain_ok_def split: if_splits drain_phase.splits bool.splits)
  next
    case 6
    with assms show ?thesis
      by (auto simp: timer_chosen_def drain_ok_def registered_def split: if_splits drain_phase.splits)
  next
    case 7
    with assms show ?thesis by (auto simp: drain_returns_def drain_ok_def grouped_def split: if_splits)
  qed
qed

section \<open>Every reachable state\<close>

definition books_kept :: "server \<Rightarrow> bool" where
  "books_kept s \<longleftrightarrow> counted s \<and> grouped s \<and> registered s \<and> numbered s \<and> drain_ok s"

lemma new_books: "books_kept (new_server limit listeners)"
  by (auto simp: books_kept_def new_server_def counted_def grouped_def registered_def numbered_def drain_ok_def admitted_def
      acceptor_load_def sum_list_replicate)

lemma books_step: "happen e s = Some s' \<Longrightarrow> books_kept s \<Longrightarrow> books_kept s'"
  unfolding books_kept_def using counted_step grouped_step registered_step numbered_step drain_ok_step by blast

lemma limit_kept: "happen e s = Some s' \<Longrightarrow> lc_max s' = lc_max s"
proof (cases e rule: event_cases)
  case outer
  assume "happen e s = Some s'"
  with outer outer_same_books show ?thesis by (auto simp: same_books_def)
qed (auto simp: connect_def register_def accept_error_def turn_away_def session_ends_def forget_def session_done_def Let_def
      split: if_splits acceptor.splits)

lemma reachable_books: "reachable limit listeners s \<Longrightarrow> books_kept s \<and> lc_max s = limit"
proof (induction rule: reachable.induct)
  case start
  show ?case using new_books by (simp add: new_server_def)
next
  case (step s e s')
  then show ?case using books_step limit_kept by metis
qed

lemma serving_count: "sum_list (map session_load ss) = int (length (filter (\<lambda>x. snd x = Serving) ss))"
  by (induction ss) (auto simp: session_load_def)

lemma load_nonneg: "0 \<le> sum_list (map acceptor_load as)"
  by (induction as) (auto simp: acceptor_load_def split: acceptor.split)

fun happen_all :: "event list \<Rightarrow> server \<Rightarrow> server option" where
  "happen_all [] s = Some s"
| "happen_all (e # es) s = (case happen e s of None \<Rightarrow> None | Some s' \<Rightarrow> happen_all es s')"

lemma reachable_all: "happen_all es s = Some s' \<Longrightarrow> reachable limit listeners s \<Longrightarrow> reachable limit listeners s'"
  by (induction es arbitrary: s) (auto split: option.splits intro: reachable.step)

definition full_server :: server where
  "full_server = the (happen_all [Connect 0, Connect 1, Register 0] (new_server 1 2))"

lemma full_server:
  "happen_all [Connect 0, Connect 1, Register 0] (new_server 1 2) = Some full_server" "lc_count full_server = 1"
  by code_simp+

text \<open>
  C36: in every state the proxy can reach, the connection counter is never negative and never below
  the number of sessions being served, and with a limit it never exceeds the limit; the registry of
  connections holds exactly the sessions that have not yet been forgotten, without which draining could
  not close them, and the wait group counts exactly the sessions whose deferred calls have not all run,
  so that it never goes negative, whatever the order in which the goroutines take their locks.
\<close>

theorem connections_accounted:
  assumes "reachable limit listeners s"
  shows "0 \<le> lc_count s \<and>
    int (length (filter (\<lambda>x. snd x = Serving) (lc_sessions s))) \<le> lc_count s \<and>
    (limit > 0 \<longrightarrow> lc_count s \<le> limit) \<and>
    set (lc_active s) = fst ` {x \<in> set (lc_sessions s). snd x \<noteq> Forgotten} \<and>
    lc_group s = length (lc_sessions s) \<and> distinct (map fst (lc_sessions s))"
proof -
  have b: "books_kept s" "lc_max s = limit" using reachable_books [OF assms] by auto
  have "set (lc_active s) = fst ` {x \<in> set (lc_sessions s). snd x \<noteq> Forgotten}"
    using b(1) by (force simp: books_kept_def registered_def)
  moreover have "counted s" "grouped s" using b(1) by (auto simp: books_kept_def)
  ultimately show ?thesis using b(2) load_nonneg [of "lc_acceptors s"] unfolding counted_def grouped_def serving_count by auto
qed

theorem connections_accounted_witness:
  "int (length (filter (\<lambda>x. snd x = Serving) (lc_sessions full_server))) \<le> 1 \<and> lc_count full_server = 1"
  using connections_accounted [OF reachable_all [OF full_server(1) reachable.start]] full_server(2) by simp

text \<open>
  C37: once draining has begun, no event whatever admits a session: no connection is served that was
  not served before, none that was closed is lost, and the wait group never grows, so that its zero is
  final. And when the draining goroutine has returned, because everything ended or because of the timer,
  every connection that is still being served has been closed.
\<close>

theorem draining_admits_none:
  assumes "reachable limit listeners s"
  shows "(lc_draining s \<and> happen e s = Some s' \<longrightarrow>
      lc_draining s' \<and> lc_group s' \<le> lc_group s \<and> set (lc_closed s) \<subseteq> set (lc_closed s') \<and>
      (\<forall>c. (c, Serving) \<in> set (lc_sessions s') \<longrightarrow> (c, Serving) \<in> set (lc_sessions s))) \<and>
    (lc_drain s = Returned \<longrightarrow> (\<forall>c. (c, Serving) \<in> set (lc_sessions s) \<longrightarrow> c \<in> set (lc_closed s)))"
proof -
  have "drain_ok s" using reachable_books [OF assms] by (simp add: books_kept_def)
  then show ?thesis using calm_step [of e s s'] by (auto simp: calms_def drain_ok_def)
qed

definition busy_drained :: server where
  "busy_drained = the (happen_all [Connect 0, Register 0, Connect 0, StartDrain, Register 0, CloseListener, StartWaiting,
     TimerFires, TimerChosen] (new_server 0 1))"

lemma busy_drained:
  "happen_all [Connect 0, Register 0, Connect 0, StartDrain, Register 0, CloseListener, StartWaiting,
     TimerFires, TimerChosen] (new_server 0 1) = Some busy_drained"
  "lc_drain busy_drained = Returned" "lc_sessions busy_drained = [(0, Serving)]" "lc_draining busy_drained"
  by code_simp+

theorem draining_admits_none_witness:
  "(0, Serving) \<in> set (lc_sessions busy_drained) \<and> 0 \<in> set (lc_closed busy_drained)"
  using draining_admits_none [OF reachable_all [OF busy_drained(1) reachable.start]] busy_drained(2,3) by simp

section \<open>Draining ends\<close>

text \<open>What is left for the draining goroutine to do.\<close>

definition drain_rank :: "server \<Rightarrow> nat" where
  "drain_rank s = (case lc_drain s of
     NotDraining \<Rightarrow> 0 | Closing k \<Rightarrow> length (lc_listening s) - k + 4
   | Waiting ss r \<Rightarrow> 1 + (if ss then 1 else 0) + (if r then 1 else 0) | Returned \<Rightarrow> 0)"

lemma drain_event_rank:
  assumes "happen e s = Some s'" "drain_event e"
  shows "drain_rank s' < drain_rank s \<and> lc_drain s' \<noteq> NotDraining"
proof -
  from assms(2) consider "e = CloseListener" | "e = StartWaiting" | "e = SessionsAwaited" | "e = RpcAwaited"
    | "e = TimerChosen" | "e = DrainReturns" by (auto simp: drain_event_def)
  then show ?thesis
  proof cases
    case 1
    with assms(1) show ?thesis by (auto simp: close_listener_def drain_rank_def split: if_splits drain_phase.splits)
  next
    case 2
    with assms(1) show ?thesis by (auto simp: start_waiting_def drain_rank_def split: if_splits drain_phase.splits)
  next
    case 3
    with assms(1) show ?thesis by (auto simp: sessions_awaited_def drain_rank_def split: if_splits drain_phase.splits bool.splits)
  next
    case 4
    with assms(1) show ?thesis by (auto simp: rpc_awaited_def drain_rank_def split: if_splits drain_phase.splits bool.splits)
  next
    case 5
    with assms(1) show ?thesis by (auto simp: timer_chosen_def drain_rank_def split: if_splits drain_phase.splits)
  next
    case 6
    with assms(1) show ?thesis by (auto simp: drain_returns_def drain_rank_def split: if_splits)
  qed
qed

lemma rank_kept:
  assumes "happen e s = Some s'" "\<not> drain_event e" "e \<noteq> StartDrain"
  shows "drain_rank s' = drain_rank s"
proof -
  have "lc_listening s' = lc_listening s"
  proof (cases e)
    case (Connect l)
    with assms have "connect l s = Some s'" by simp
    then show ?thesis by (cases rule: connect_cases) simp_all
  next
    case (Register l)
    with assms have "register l s = Some s'" by simp
    then show ?thesis by (cases rule: register_cases) simp_all
  next
    case (TurnAway l)
    with assms have "turn_away l s = Some s'" by simp
    then show ?thesis by (cases rule: turn_away_cases) simp
  qed (use assms in \<open>auto simp: drain_event_def accept_error_def session_ends_def forget_def session_done_def
        split: if_splits drain_phase.splits\<close>)
  with drain_phase_kept [OF assms] show ?thesis by (simp add: drain_rank_def split: drain_phase.split)
qed

text \<open>Draining begins once: afterwards the phase moves only when the draining goroutine takes a step.\<close>

lemma run_step:
  assumes "is_run r l" "lc_drain (r i) \<noteq> NotDraining"
  shows "lc_drain (r (Suc i)) \<noteq> NotDraining \<and>
    (if drains (l i) then drain_rank (r (Suc i)) < drain_rank (r i)
     else lc_drain (r (Suc i)) = lc_drain (r i) \<and> drain_rank (r (Suc i)) = drain_rank (r i))"
proof (cases "l i")
  case None
  with assms show ?thesis by (auto simp: is_run_def drains_def split: option.splits dest: spec [of _ i])
next
  case (Some e)
  with assms(1) have h: "happen e (r i) = Some (r (Suc i))" by (auto simp: is_run_def split: option.splits dest: spec [of _ i])
  with assms(2) have "e \<noteq> StartDrain" by (auto simp: start_drain_def split: if_splits)
  with h Some assms(2) show ?thesis
    using drain_event_rank [OF h] drain_phase_kept [OF h] rank_kept [OF h] by (auto simp: drains_def)
qed

lemma run_idle:
  assumes "is_run r l" "lc_drain (r i) \<noteq> NotDraining" "\<And>j. j \<ge> i \<Longrightarrow> \<not> drains (l j)"
  shows "lc_drain (r (i + n)) = lc_drain (r i)"
proof (induction n)
  case (Suc n)
  with assms run_step [OF assms(1), of "i + n"] show ?case by simp
qed simp

lemma timer_step: "happen e s = Some s' \<Longrightarrow> lc_timer s \<Longrightarrow> lc_timer s'"
proof (cases e rule: event_cases)
  case outer
  assume "happen e s = Some s'" "lc_timer s"
  with outer show ?thesis
    by (cases e) (auto simp: outer_event_def drain_event_def drain_defs split: if_splits drain_phase.splits bool.splits)
qed (auto simp: connect_def register_def accept_error_def turn_away_def session_ends_def forget_def session_done_def Let_def
      split: if_splits acceptor.splits)

lemma run_timer: "is_run r l \<Longrightarrow> lc_timer (r i) \<Longrightarrow> lc_timer (r (i + n))"
proof (induction n)
  case (Suc n)
  then have t: "lc_timer (r (i + n))" by simp
  show ?case
  proof (cases "l (i + n)")
    case None
    with Suc.prems(1) t show ?thesis by (auto simp: is_run_def split: option.splits dest: spec [of _ "i + n"])
  next
    case (Some e)
    with Suc.prems(1) have "happen e (r (i + n)) = Some (r (Suc (i + n)))"
      by (auto simp: is_run_def split: option.splits dest: spec [of _ "i + n"])
    with t show ?thesis using timer_step by simp
  qed
qed simp

lemma drain_enabled_cases:
  "lc_drain s = Closing k \<Longrightarrow> drain_enabled s"
  "lc_drain s = Waiting False False \<Longrightarrow> drain_enabled s"
  "lc_drain s = Waiting ss rr \<Longrightarrow> lc_timer s \<Longrightarrow> drain_enabled s"
  by (cases "k < length (lc_listening s)")
    (auto simp: drain_enabled_def close_listener_def start_waiting_def drain_returns_def timer_chosen_def)

lemma drain_moves:
  assumes r: "is_run r l" and f: "is_fair r l" and d: "lc_drain (r i) \<noteq> NotDraining" "lc_drain (r i) \<noteq> Returned"
  shows "\<exists>j \<ge> i. drains (l j)"
proof (rule ccontr)
  assume no: "\<not> ?thesis"
  then have same: "lc_drain (r j) = lc_drain (r i)" if "j \<ge> i" for j
    using run_idle [OF r d(1), of "j - i"] that by auto
  have stuck: "\<not> (\<forall>j \<ge> k. drain_enabled (r j))" if "k \<ge> i" for k
    using f no that unfolding is_fair_def by (meson order_trans)
  show False
  proof (cases "lc_drain (r i)")
    case (Closing k)
    then have "drain_enabled (r j)" if "j \<ge> i" for j using drain_enabled_cases(1) [of "r j" k] same [OF that] by simp
    with stuck [of i] show False by auto
  next
    case (Waiting ss rr)
    with same have "\<forall>j \<ge> i. is_waiting (lc_drain (r j))" by (simp add: is_waiting_def)
    with f obtain j where j: "j \<ge> i" "l j = Some TimerFires" unfolding is_fair_def by blast
    with r have "happen TimerFires (r j) = Some (r (Suc j))" by (auto simp: is_run_def split: option.splits dest: spec [of _ j])
    then have "r (Suc j) = (r j)\<lparr>lc_timer := True\<rparr>" by (simp split: drain_phase.splits)
    then have "lc_timer (r (Suc j))" by simp
    then have "lc_timer (r k)" if "k \<ge> Suc j" for k using run_timer [OF r, of "Suc j" "k - Suc j"] that by simp
    with same Waiting j(1) have "drain_enabled (r k)" if "k \<ge> Suc j" for k
      using drain_enabled_cases(3) [of "r k" ss rr] that by simp
    with stuck [of "Suc j"] j(1) show False by auto
  qed (use d in auto)
qed

lemma run_until:
  assumes "is_run r l" "i \<le> j" "lc_drain (r i) \<noteq> NotDraining" "\<And>k. k \<ge> i \<Longrightarrow> k < j \<Longrightarrow> \<not> drains (l k)"
  shows "lc_drain (r j) \<noteq> NotDraining \<and> drain_rank (r j) = drain_rank (r i)"
  using assms(2,4)
proof (induction j rule: dec_induct)
  case base
  from assms(3) show ?case by simp
next
  case (step n)
  have "lc_drain (r n) \<noteq> NotDraining \<and> drain_rank (r n) = drain_rank (r i)" using step.prems by (intro step.IH) auto
  moreover have "\<not> drains (l n)" using step.prems step.hyps(1) by simp
  ultimately show ?case using run_step [OF assms(1), of n] by metis
qed

text \<open>
  C38: draining ends. In every fair run of the server, with any number of listeners and sessions,
  whether or not clients ever close their connections and whether or not the gRPC calls ever end, once
  draining has begun the draining goroutine returns.
\<close>

theorem draining_ends:
  assumes "is_run r l" "is_fair r l" "lc_drain (r i) \<noteq> NotDraining"
  shows "\<exists>j \<ge> i. lc_drain (r j) = Returned"
  using assms(3)
proof (induction "drain_rank (r i)" arbitrary: i rule: less_induct)
  case less
  show ?case
  proof (cases "lc_drain (r i) = Returned")
    case False
    define j where "j = (LEAST j. j \<ge> i \<and> drains (l j))"
    have j: "j \<ge> i" "drains (l j)"
      using LeastI_ex [of "\<lambda>j. j \<ge> i \<and> drains (l j)"] drain_moves [OF assms(1,2) less.prems False] by (auto simp: j_def)
    have before: "\<not> drains (l k)" if "k \<ge> i" "k < j" for k using not_less_Least [of k] that by (auto simp: j_def)
    have "lc_drain (r j) \<noteq> NotDraining" "drain_rank (r j) = drain_rank (r i)"
      using run_until [OF assms(1) j(1) less.prems before] by simp_all
    with j(2) run_step [OF assms(1), of j] have less_rank: "drain_rank (r (Suc j)) < drain_rank (r i)"
      "lc_drain (r (Suc j)) \<noteq> NotDraining" by simp_all
    obtain k where "k \<ge> Suc j" "lc_drain (r k) = Returned" using less.hyps [OF less_rank] by blast
    with j(1) have "k \<ge> i" by linarith
    with \<open>lc_drain (r k) = Returned\<close> show ?thesis by blast
  qed auto
qed

text \<open>A run in which a client never ends its session and the gRPC server never stops: the timer ends the draining.\<close>

definition patient_events :: "event list" where
  "patient_events = [Connect 0, Register 0, StartDrain, CloseListener, StartWaiting, TimerFires, TimerChosen]"

definition patient_run :: "nat \<Rightarrow> server" where
  "patient_run i = the (happen_all (take i patient_events) (new_server 0 1))"

definition patient_label :: "nat \<Rightarrow> event option" where
  "patient_label i = (if i < length patient_events then Some (patient_events ! i) else None)"

lemma patient_states:
  "happen_all (take 7 patient_events) (new_server 0 1) \<noteq> None"
  "lc_drain (patient_run 3) = Closing 0" "lc_drain (patient_run 7) = Returned" "lc_sessions (patient_run 7) = [(0, Serving)]"
  by code_simp+

lemma happen_all_append: "happen_all (es @ fs) s = (case happen_all es s of None \<Rightarrow> None | Some s' \<Rightarrow> happen_all fs s')"
  by (induction es arbitrary: s) (auto split: option.splits)

lemma happen_all_prefix: "happen_all es s \<noteq> None \<Longrightarrow> happen_all (take i es) s \<noteq> None"
  using happen_all_append [of "take i es" "drop i es" s] by (auto split: option.splits)

lemma patient_is_run: "is_run patient_run patient_label"
proof -
  have "happen (patient_events ! i) (patient_run i) = Some (patient_run (Suc i))" if i: "i < length patient_events" for i
  proof -
    have all: "happen_all patient_events (new_server 0 1) \<noteq> None"
      using patient_states(1) by (simp add: patient_events_def)
    from happen_all_prefix [OF this] obtain s where s: "happen_all (take i patient_events) (new_server 0 1) = Some s" by blast
    from happen_all_prefix [OF all] obtain s' where s': "happen_all (take (Suc i) patient_events) (new_server 0 1) = Some s'" by blast
    have "take (Suc i) patient_events = take i patient_events @ [patient_events ! i]" using i by (rule take_Suc_conv_app_nth)
    with s s' show ?thesis by (simp add: patient_run_def happen_all_append split: option.splits)
  qed
  moreover have "patient_run (Suc i) = patient_run i" if "\<not> i < length patient_events" for i
    using that by (simp add: patient_run_def)
  ultimately show ?thesis by (simp add: is_run_def patient_label_def)
qed

lemma patient_is_fair: "is_fair patient_run patient_label"
proof -
  have late: "patient_run (i + 7) = patient_run 7" for i by (simp add: patient_run_def patient_events_def)
  have "\<not> drain_enabled (patient_run (i + 7))" "\<not> is_waiting (lc_drain (patient_run (i + 7)))" for i
    using patient_states(3) by (simp_all add: late drain_enabled_def drain_defs is_waiting_def)
  then show ?thesis unfolding is_fair_def by (metis le_add1)
qed

theorem draining_ends_witness:
  "\<exists>j \<ge> 3. lc_drain (patient_run j) = Returned"
  using draining_ends [OF patient_is_run patient_is_fair, of 3] patient_states(2) by simp

end
