(* ===== verification/Mime.thy ===== *)
theory Mime
  imports Validate Base64
begin

text \<open>
  The MIME structure of a message, \<^verbatim>\<open>decodeMIME\<close> and \<^verbatim>\<open>walkMultipart\<close> of \<^verbatim>\<open>pkg/rules/message.go\<close>: the decoded
  texts, the parts and the attachments. The readers of \<^verbatim>\<open>mime/multipart\<close> and \<^verbatim>\<open>mime/quotedprintable\<close>, the
  media-type parser and SHA-256 (in hexadecimal) are parameters.
\<close>

section \<open>Parts\<close>

text \<open>One part as the multipart reader gives it: its fields, what was read of it, and whether reading failed.\<close>

record raw_part =
  rp_header :: "string \<Rightarrow> string"
  rp_body :: string
  rp_failed :: bool

text \<open>
  \<open>me_parts body boundary\<close> are the parts up to the first error; \<open>me_disposition\<close> is the media-type parser
  with its error ignored; \<open>me_quoted\<close> gives what was decoded and whether it ended in an error.
\<close>

record mime_env = validate_env +
  me_parts :: "string \<Rightarrow> string \<Rightarrow> raw_part list"
  me_disposition :: "string \<Rightarrow> string \<times> (string \<times> string) list"
  me_quoted :: "string \<Rightarrow> string \<times> bool"
  me_sha256 :: "string \<Rightarrow> string"

record mime_part =
  mp_type :: string
  mp_charset :: string
  mp_disposition :: string
  mp_filename :: string
  mp_size :: nat
  mp_depth :: nat
  mp_content :: string

record attachment =
  at_filename :: string
  at_type :: string
  at_disposition :: string
  at_size :: nat
  at_sha256 :: string
  at_inline :: bool

record mime_view =
  mv_text :: string
  mv_html :: string
  mv_parts :: "mime_part list"
  mv_attachments :: "attachment list"

definition empty_view :: mime_view where
  "empty_view = \<lparr>mv_text = [], mv_html = [], mv_parts = [], mv_attachments = []\<rparr>"

section \<open>Transfer encodings\<close>

definition b64_blank :: "char \<Rightarrow> bool" where
  "b64_blank c \<longleftrightarrow> c \<in> {LF, CR, SP, TAB}"

text \<open>\<^verbatim>\<open>bytes.Map\<close> writes U+FFFD for an invalid byte.\<close>

definition strip_blanks :: "string \<Rightarrow> string" where
  "strip_blanks data = concat (map (\<lambda>r. case r of
       None \<Rightarrow> [CHR 0xEF, CHR 0xBF, CHR 0xBD]
     | Some b \<Rightarrow> if list_ex b64_blank b then [] else b) (utf8_runes data))"

definition decode_base64_body :: "string \<Rightarrow> string" where
  "decode_base64_body data =
     (let clean = strip_blanks data in
      case b64_decode clean of
        Some decoded \<Rightarrow> decoded
      | None \<Rightarrow>
          let n = (length clean div 4) * 4 in
          (case if n > 0 then b64_decode (take n clean) else None of Some partial \<Rightarrow> partial | None \<Rightarrow> data))"

definition decode_body :: "mime_env \<Rightarrow> string \<Rightarrow> string \<Rightarrow> string" where
  "decode_body env data encoding =
     (let e = to_lower (trim_space encoding) in
      if e = ''base64'' then decode_base64_body data
      else if e = ''quoted-printable'' then
        (case me_quoted env data of (decoded, failed) \<Rightarrow> if failed \<and> decoded = [] then data else decoded)
      else data)"

section \<open>The tree\<close>

definition assign_text_part :: "string \<Rightarrow> string \<Rightarrow> mime_view \<Rightarrow> mime_view" where
  "assign_text_part media content v =
     (if media = ''text/plain'' then (if mv_text v = [] then v\<lparr>mv_text := content\<rparr> else v)
      else if media = ''text/html'' then (if mv_html v = [] then v\<lparr>mv_html := content\<rparr> else v)
      else v)"

definition param :: "(string \<times> string) list \<Rightarrow> string \<Rightarrow> string" where
  "param params name = (case map_of params name of None \<Rightarrow> [] | Some v \<Rightarrow> v)"

text \<open>What \<^verbatim>\<open>decodeMIME\<close> and \<^verbatim>\<open>walkMultipart\<close> do with a part that is no multipart.\<close>

definition is_text_part :: "mime_part \<Rightarrow> bool" where
  "is_text_part p \<longleftrightarrow> has_prefix (mp_type p) ''text/'' \<and> mp_disposition p \<noteq> ''attachment''"

definition make_part :: "mime_env \<Rightarrow> string \<Rightarrow> (string \<times> string) list \<Rightarrow> string \<Rightarrow> nat \<Rightarrow> string \<Rightarrow> mime_part" where
  "make_part env media params disposition depth decoded =
     (case me_disposition env disposition of
        (disp, disp_params) \<Rightarrow>
          let name = (if param disp_params ''filename'' = [] then param params ''name'' else param disp_params ''filename'');
              p = \<lparr>mp_type = media, mp_charset = param params ''charset'', mp_disposition = disp,
                   mp_filename = decode_word (re_mail env) name, mp_size = length decoded, mp_depth = depth, mp_content = []\<rparr>
          in if is_text_part p then p\<lparr>mp_content := decoded\<rparr> else p)"

definition part_attachment :: "mime_env \<Rightarrow> mime_part \<Rightarrow> string \<Rightarrow> attachment" where
  "part_attachment env p decoded =
     \<lparr>at_filename = mp_filename p, at_type = mp_type p, at_disposition = mp_disposition p, at_size = length decoded,
      at_sha256 = me_sha256 env decoded, at_inline = (mp_disposition p = ''inline'')\<rparr>"

definition is_attached :: "mime_part \<Rightarrow> bool" where
  "is_attached p \<longleftrightarrow> mp_disposition p = ''attachment'' \<or> mp_filename p \<noteq> []"

definition add_part :: "mime_env \<Rightarrow> mime_part \<Rightarrow> string \<Rightarrow> mime_view \<Rightarrow> mime_view" where
  "add_part env p decoded v0 =
     (let v = (if is_text_part p then assign_text_part (mp_type p) decoded v0 else v0);
          v1 = v\<lparr>mv_parts := mv_parts v @ [p]\<rparr>
      in if is_attached p then v1\<lparr>mv_attachments := mv_attachments v1 @ [part_attachment env p decoded]\<rparr> else v1)"

definition max_mime_depth :: nat where "max_mime_depth = 12"

text \<open>
  A nested multipart is walked to its end before the next part is read. The parts are only walked at a depth up to
  the limit, which the test in front of the nested call repeats.
\<close>

function walk_multipart :: "mime_env \<Rightarrow> string \<Rightarrow> string \<Rightarrow> nat \<Rightarrow> mime_view \<Rightarrow> mime_view"
  and walk_parts :: "mime_env \<Rightarrow> nat \<Rightarrow> raw_part list \<Rightarrow> mime_view \<Rightarrow> mime_view" where
  "walk_multipart env body boundary depth v =
     (if depth > max_mime_depth then v else walk_parts env depth (me_parts env body boundary) v)"
| "walk_parts env depth [] v = v"
| "walk_parts env depth (rp # rps) v =
     walk_parts env depth rps
       (if rp_failed rp \<and> rp_body rp = [] then v
        else
          (case (case va_media env (rp_header rp ''Content-Type'') of None \<Rightarrow> (''text/plain'', []) | Some r \<Rightarrow> r) of
             (media, params) \<Rightarrow>
               if has_prefix media ''multipart/'' then
                 (if param params ''boundary'' \<noteq> [] \<and> depth \<le> max_mime_depth
                  then walk_multipart env (rp_body rp) (param params ''boundary'') (Suc depth) v else v)
               else
                 (let decoded = decode_body env (rp_body rp) (rp_header rp ''Content-Transfer-Encoding'')
                  in add_part env (make_part env media params (rp_header rp ''Content-Disposition'') depth decoded) decoded v)))"
  by pat_completeness auto

termination
  by (relation "inv_image (less_than <*lex*> less_than)
      (\<lambda>x. case x of Inl (env, body, boundary, depth, v) \<Rightarrow> (2 * (14 - depth) + 1, 0)
         | Inr (env, depth, rps, v) \<Rightarrow> (2 * (14 - depth), Suc (length rps)))")
    (auto simp: max_mime_depth_def)

declare walk_multipart.simps [simp del] walk_parts.simps(2) [simp del]

definition decode_mime :: "mime_env \<Rightarrow> message \<Rightarrow> string \<Rightarrow> mime_view" where
  "decode_mime env m body =
     (let ctype = (if msg_get m ''Content-Type'' = [] then ''text/plain'' else msg_get m ''Content-Type'') in
      case va_media env ctype of
        None \<Rightarrow> empty_view\<lparr>mv_text := body\<rparr>
      | Some (media, params) \<Rightarrow>
          if \<not> has_prefix media ''multipart/'' then
            (let decoded = decode_body env body (msg_get m ''Content-Transfer-Encoding'')
             in add_part env (make_part env media params (msg_get m ''Content-Disposition'') 0 decoded) decoded empty_view)
          else if param params ''boundary'' = [] then empty_view\<lparr>mv_text := body\<rparr>
          else walk_multipart env body (param params ''boundary'') 0 empty_view)"

section \<open>What a view says\<close>

text \<open>
  The first text of a type that is not empty; the bodies are these, every attachment belongs to a part, and no
  part is deeper than the limit.
\<close>

definition first_text :: "string \<Rightarrow> mime_part list \<Rightarrow> string" where
  "first_text media ps =
     (case find (\<lambda>p. mp_type p = media \<and> mp_disposition p \<noteq> ''attachment'' \<and> mp_content p \<noteq> []) ps of
        None \<Rightarrow> [] | Some p \<Rightarrow> mp_content p)"

definition describes :: "attachment \<Rightarrow> mime_part \<Rightarrow> bool" where
  "describes a p \<longleftrightarrow> at_filename a = mp_filename p \<and> at_type a = mp_type p \<and> at_disposition a = mp_disposition p \<and>
     at_size a = mp_size p \<and> (at_inline a \<longleftrightarrow> mp_disposition p = ''inline'')"

definition view_ok :: "mime_view \<Rightarrow> bool" where
  "view_ok v \<longleftrightarrow>
     mv_text v = first_text ''text/plain'' (mv_parts v) \<and> mv_html v = first_text ''text/html'' (mv_parts v) \<and>
     list_all2 describes (mv_attachments v) (filter is_attached (mv_parts v)) \<and>
     (\<forall>p \<in> set (mv_parts v). mp_depth p \<le> max_mime_depth \<and> \<not> has_prefix (mp_type p) ''multipart/'' \<and>
        (mp_content p \<noteq> [] \<longrightarrow> is_text_part p))"

lemma find_append: "find P (xs @ ys) = (case find P xs of None \<Rightarrow> find P ys | Some x \<Rightarrow> Some x)"
  by (induction xs) auto

lemma first_text_snoc:
  "first_text media (ps @ [p]) =
     (if first_text media ps \<noteq> [] then first_text media ps
      else if mp_type p = media \<and> mp_disposition p \<noteq> ''attachment'' then mp_content p else [])"
proof -
  let ?P = "\<lambda>p. mp_type p = media \<and> mp_disposition p \<noteq> ''attachment'' \<and> mp_content p \<noteq> []"
  show ?thesis
  proof (cases "find ?P ps")
    case None
    then show ?thesis by (auto simp: first_text_def find_append)
  next
    case (Some q)
    then have "mp_content q \<noteq> []" by (auto simp: find_Some_iff)
    with Some show ?thesis by (simp add: first_text_def find_append)
  qed
qed

lemma empty_view_ok: "view_ok empty_view"
  by (simp add: view_ok_def empty_view_def first_text_def)

lemma make_part_facts:
  "mp_type (make_part env media params d depth decoded) = media"
  "mp_depth (make_part env media params d depth decoded) = depth"
  "mp_size (make_part env media params d depth decoded) = length decoded"
  "mp_content (make_part env media params d depth decoded) =
     (if is_text_part (make_part env media params d depth decoded) then decoded else [])"
  by (auto simp: make_part_def is_text_part_def Let_def split: prod.splits)

lemma text_prefixes: "has_prefix ''text/plain'' ''text/''" "has_prefix ''text/html'' ''text/''"
  by code_simp+

lemma add_part_ok:
  assumes v: "view_ok v" and p: "p = make_part env media params d depth decoded"
    and "depth \<le> max_mime_depth" "\<not> has_prefix media ''multipart/''"
  shows "view_ok (add_part env p decoded v)"
proof -
  have f: "mp_type p = media" "mp_depth p = depth" "mp_size p = length decoded"
    "mp_content p = (if is_text_part p then decoded else [])"
    using p make_part_facts by simp_all
  let ?v = "if is_text_part p then assign_text_part (mp_type p) decoded v else v"
  have texts: "mv_text ?v = first_text ''text/plain'' (mv_parts v @ [p])" "mv_html ?v = first_text ''text/html'' (mv_parts v @ [p])"
    using v f text_prefixes
    by (auto simp: first_text_snoc view_ok_def assign_text_part_def is_text_part_def)
  have same: "mv_parts ?v = mv_parts v" "mv_attachments ?v = mv_attachments v" by (auto simp: assign_text_part_def)
  have "describes (part_attachment env p decoded) p" using f by (simp add: describes_def part_attachment_def)
  with texts same v f assms(3,4) show ?thesis
    by (auto simp: view_ok_def add_part_def Let_def intro: list_all2_appendI)
qed

lemma walk_parts_ok:
  assumes "\<And>body boundary v. view_ok v \<Longrightarrow> view_ok (walk_multipart env body boundary (Suc depth) v)"
    and "depth \<le> max_mime_depth"
  shows "view_ok v \<Longrightarrow> view_ok (walk_parts env depth rps v)"
proof (induction rps arbitrary: v)
  case (Cons rp rps)
  obtain media params where m: "(case va_media env (rp_header rp ''Content-Type'') of None \<Rightarrow> (''text/plain'', []) | Some r \<Rightarrow> r) =
    (media, params)" by (meson surj_pair)
  show ?case
    unfolding walk_parts.simps(2) m prod.case Let_def
    by (rule Cons.IH) (use Cons.prems assms in \<open>auto intro: add_part_ok\<close>)
qed simp

lemma walk_ok: "view_ok v \<Longrightarrow> view_ok (walk_multipart env body boundary depth v)"
proof (induction "14 - depth" arbitrary: depth body boundary v rule: less_induct)
  case less
  show ?case
  proof (cases "depth > max_mime_depth")
    case False
    then have "view_ok (walk_multipart env body boundary (Suc depth) v)" if "view_ok v" for body boundary v
      using that by (intro less.hyps) (auto simp: max_mime_depth_def)
    with False less.prems show ?thesis by (subst walk_multipart.simps) (simp add: walk_parts_ok)
  qed (use less.prems in \<open>simp add: walk_multipart.simps\<close>)
qed

text \<open>
  C31: The view a policy has of a message is consistent, however deep and however broken its MIME structure:
  either the structure could not be read, and the whole body is the text, or the bodies are the first texts
  of their type that are no attachment and not empty, the attachments are exactly the parts that are
  marked as such or named, in order and with their types and sizes, every content belongs to a text part,
  and no part lies deeper than the limit.
\<close>

theorem mime_view_consistent:
  "decode_mime env m body = empty_view\<lparr>mv_text := body\<rparr> \<or> view_ok (decode_mime env m body)"
  using walk_ok [OF empty_view_ok] add_part_ok [OF empty_view_ok refl, of 0]
  by (auto simp: decode_mime_def Let_def split: option.splits)

section \<open>Base64\<close>

lemma utf8_runes_ascii: "list_all (\<lambda>c. char_code c < 128) s \<Longrightarrow> utf8_runes s = map (\<lambda>c. Some [c]) s"
proof (induction s)
  case Nil
  show ?case by (simp add: utf8_runes.simps)
next
  case (Cons c s)
  then show ?case by (subst utf8_runes.simps) (simp add: utf8_width_def)
qed

lemma strip_blanks_ascii: "list_all (\<lambda>c. char_code c < 128) s \<Longrightarrow> strip_blanks s = filter (\<lambda>c. \<not> b64_blank c) s"
  by (simp add: strip_blanks_def utf8_runes_ascii) (induction s; simp)

lemma b64_char_plain: "list_all (\<lambda>n. char_code (b64_char n) < 128 \<and> \<not> b64_blank (b64_char n)) [0..<64]"
  by code_simp

lemma b64_encode_plain: "list_all (\<lambda>c. char_code c < 128 \<and> \<not> b64_blank c) (b64_encode s)"
proof -
  have "char_code (b64_char n) < 128 \<and> \<not> b64_blank (b64_char n)" if "n < 64" for n
    using b64_char_plain that by (simp add: list_all_iff)
  moreover have "char_code CHR ''='' < 128 \<and> \<not> b64_blank CHR ''=''" by code_simp
  ultimately show ?thesis by (induction s rule: b64_encode.induct) simp_all
qed

text \<open>
  a body that was encoded in base64 and broken into lines and indented in any way, wherever the breaks
  fall, is decoded to exactly the bytes that were encoded.
\<close>

theorem base64_body_roundtrip:
  assumes "filter (\<lambda>c. \<not> b64_blank c) body = b64_encode data" and "list_all (\<lambda>c. char_code c < 128) body"
    and "to_lower (trim_space encoding) = ''base64''"
  shows "decode_body env body encoding = data"
  using assms by (simp add: decode_body_def decode_base64_body_def strip_blanks_ascii b64_decode_encode Let_def)

definition folded_base64 :: string where
  "folded_base64 = ''SGV'' @ CRLF @ ''sbG8s IHdv'' @ [TAB] @ ''cmxk'' @ [LF]"

theorem base64_body_roundtrip_witness:
  "decode_body env folded_base64 '' Base64'' = ''Hello, world''"
proof -
  have a: "filter (\<lambda>c. \<not> b64_blank c) folded_base64 = b64_encode ''Hello, world''"
    "list_all (\<lambda>c. char_code c < 128) folded_base64" "to_lower (trim_space '' Base64'') = ''base64''"
    by code_simp+
  show ?thesis by (rule base64_body_roundtrip [OF a])
qed

lemma b64_groups_garbage: "b64_groups (b64_encode s @ ''!!!!'') = None"
proof -
  have "b64_val CHR ''!'' = None" by code_simp
  then show ?thesis by (induction s rule: b64_encode.induct) simp_all
qed

lemma length_b64_encode: "length (b64_encode s) mod 4 = 0"
  by (induction s rule: b64_encode.induct) simp_all

text \<open>
  Defect: a body with garbage behind the encoded text. What is decoded is not the longest valid prefix: four
  bytes that are no base64, behind any encoded attachment, leave the whole of it undecoded, so that a
  policy sees the digest and the size of the encoded text instead of the file.
\<close>

theorem garbage_prevents_decoding:
  assumes "to_lower (trim_space encoding) = ''base64''"
  shows "decode_body env (b64_encode data @ ''!!!!'') encoding = b64_encode data @ ''!!!!''"
proof -
  let ?b = "b64_encode data @ ''!!!!''"
  have g: "list_all (\<lambda>c. char_code c < 128 \<and> \<not> b64_blank c) ''!!!!''" by code_simp
  with b64_encode_plain have p: "list_all (\<lambda>c. char_code c < 128 \<and> \<not> b64_blank c) ?b" by (simp only: list_all_append)
  then have a: "list_all (\<lambda>c. char_code c < 128) ?b" "filter (\<lambda>c. \<not> b64_blank c) ?b = ?b"
    by (auto simp only: list_all_iff filter_id_conv)
  then have c: "strip_blanks ?b = ?b" by (simp only: strip_blanks_ascii)
  have "filter (\<lambda>c. c \<noteq> CR \<and> c \<noteq> LF) ?b = ?b" using a(2) by (auto simp: filter_id_conv b64_blank_def)
  then have d: "b64_decode ?b = None" by (simp only: b64_decode_def b64_groups_garbage)
  have "length ?b div 4 * 4 = length ?b" using length_b64_encode [of data] by (simp, presburger)
  then have t: "take (length ?b div 4 * 4) ?b = ?b" by simp
  show ?thesis using assms unfolding decode_body_def decode_base64_body_def c d t Let_def by simp
qed

theorem garbage_prevents_decoding_witness:
  "decode_body env (b64_encode ''MZ'' @ ''!!!!'') ''base64'' = ''TVo=!!!!''"
proof -
  have "to_lower (trim_space ''base64'') = ''base64''" "b64_encode ''MZ'' @ ''!!!!'' = ''TVo=!!!!''" by code_simp+
  with garbage_prevents_decoding [of "''base64''" env "''MZ''"] show ?thesis by simp
qed

end
