(* ===== verification/Content.thy ===== *)
theory Content
  imports Mime DomainNames
begin

text \<open>
  The content of a message as policies search it, \<^verbatim>\<open>pkg/rules/content.go\<close>: links, tracking pixels, the text of an HTML
  part and the names of attachments. The host of a URL, \<^verbatim>\<open>url.Parse\<close>, is a parameter.
\<close>

record content_env = mime_env +
  co_url_host :: "string \<Rightarrow> string option"

section \<open>Patterns\<close>

definition rx_not :: "string \<Rightarrow> rx" where
  "rx_not cs = Cls (\<lambda>c. c \<notin> set cs)"

definition rx_in :: "string \<Rightarrow> rx" where
  "rx_in cs = Cls (\<lambda>c. c \<in> set cs)"

definition rx_space :: rx where
  "rx_space = Star (Cls rx_blank)"

abbreviation SQ :: char where "SQ \<equiv> CHR 0x27"

definition url_end :: string where
  "url_end = [TAB, LF, CHR 0x0C, CR, SP, CHR ''<'', CHR ''>'', DQ, SQ, CHR '')'', CHR '']'']"

definition host_label :: rx where
  "host_label = rx_plus (Cls (\<lambda>c. is_lower c \<or> is_upper c \<or> is_digit c \<or> c = CHR ''-''))"

definition url_pattern :: rx where
  "url_pattern = Cat WordEdge (Grp (Alt
     (rx_seq [rx_any [Cat (rx_word ''http'') (rx_opt (rx_word ''s'')), rx_word ''ftp'', rx_word ''mailto''],
        rx_lit ''://'', rx_plus (rx_not url_end)])
     (rx_seq [rx_word ''www.'', host_label, rx_plus (Cat (rx_lit ''.'') host_label), Star (rx_not url_end)])))"

definition href_pattern :: rx where
  "href_pattern = rx_seq [rx_word ''<a'', Cls rx_blank, Star (rx_not ''>''), rx_word ''href'', rx_space, rx_lit ''='', rx_space,
     rx_opt (rx_in [DQ, SQ]), Grp (rx_plus (rx_not [DQ, SQ, TAB, LF, CHR 0x0C, CR, SP, CHR ''>''])), rx_opt (rx_in [DQ, SQ]),
     Star (rx_not ''>''), rx_lit ''>'', Grp (LazyStar (Cls (\<lambda>_. True))), rx_word ''</a>'']"

definition img_pattern :: rx where
  "img_pattern = rx_seq [rx_word ''<img'', Cls rx_blank, Star (rx_not ''>''), rx_lit ''>'']"

definition tag_pattern :: rx where
  "tag_pattern = rx_seq [rx_lit ''<'', Star (rx_not ''>''), rx_lit ''>'']"

definition dimension_pattern :: rx where
  "dimension_pattern = rx_seq [Grp (Alt (rx_word ''width'') (rx_word ''height'')), rx_space, rx_in '':='', rx_space,
     rx_opt (rx_in [DQ, SQ]), rx_space, Grp (rx_plus (Cls is_digit))]"

section \<open>Text\<close>

definition html_entities :: "(string \<times> string) list" where
  "html_entities = [(''&nbsp;'', '' ''), (''&amp;'', ''&''), (''&lt;'', ''<''), (''&gt;'', ''>''), (''&quot;'', [DQ]),
     (''&#39;'', [SQ]), (''&apos;'', [SQ])]"

text \<open>\<^verbatim>\<open>strings.NewReplacer\<close>: at every place the first entity that starts there, without looking at the result again.\<close>

function replace_entities :: "string \<Rightarrow> string" where
  "replace_entities s =
     (case s of
        [] \<Rightarrow> []
      | c # t \<Rightarrow>
          (case find (\<lambda>(old, new). has_prefix s old) html_entities of
             Some (old, new) \<Rightarrow> new @ replace_entities (drop (length old - 1) t)
           | None \<Rightarrow> c # replace_entities t))"
  by pat_completeness auto
termination by (relation "measure length") auto

declare replace_entities.simps [simp del]

definition strip_html_tags :: "string \<Rightarrow> string" where
  "strip_html_tags html = join '' '' (str_fields (replace_entities (rx_replace tag_pattern '' '' html)))"

definition html_to_text :: "mime_view \<Rightarrow> string" where
  "html_to_text v = strip_html_tags (mv_html v)"

definition search_text :: "mime_view \<Rightarrow> string \<Rightarrow> string" where
  "search_text v body = (if mv_text v \<noteq> [] then mv_text v else if mv_html v \<noteq> [] then html_to_text v else body)"

section \<open>Links\<close>

definition keep_new :: "string \<Rightarrow> string list \<Rightarrow> string list" where
  "keep_new s out = (if s = [] \<or> s \<in> set out then out else out @ [s])"

definition collect_urls :: "string \<Rightarrow> string list \<Rightarrow> string list" where
  "collect_urls text out = fold keep_new (map (\<lambda>m. trim_right_set m ''.,;:!?'') (rx_matches url_pattern text)) out"

definition href_targets :: "string \<Rightarrow> string list" where
  "href_targets html = filter (\<lambda>h. \<not> has_prefix h ''#'') (map (\<lambda>caps. trim_space (hd caps)) (rx_find_all href_pattern html))"

definition message_urls :: "mime_view \<Rightarrow> string \<Rightarrow> string list" where
  "message_urls v body =
     (let out = collect_urls (mv_text v) (collect_urls (mv_html v) (fold keep_new (href_targets (mv_html v)) []))
      in if mv_text v = [] \<and> mv_html v = [] then collect_urls body out else out)"

definition host_of_url :: "content_env \<Rightarrow> string \<Rightarrow> string" where
  "host_of_url env raw =
     (if has_prefix (to_lower raw) ''mailto:'' then domain_of (re_mail env) (drop 7 raw)
      else (case co_url_host env (if contains raw ''://'' then raw else ''http://'' @ raw) of
          None \<Rightarrow> [] | Some host \<Rightarrow> to_lower host))"

definition url_domains :: "content_env \<Rightarrow> mime_view \<Rightarrow> string \<Rightarrow> string list" where
  "url_domains env v body = fold keep_new (map (host_of_url env) (message_urls v body)) []"

definition url_shorteners :: "string list" where
  "url_shorteners = [''bit.ly'', ''tinyurl.com'', ''goo.gl'', ''t.co'', ''ow.ly'', ''is.gd'', ''buff.ly'', ''adf.ly'',
     ''bit.do'', ''cutt.ly'', ''rebrand.ly'', ''shorte.st'', ''rb.gy'', ''tiny.cc'', ''lnkd.in'', ''db.tt'', ''qr.ae'', ''j.mp'',
     ''soo.gd'', ''s2r.co'', ''clicky.me'', ''budurl.com'', ''shorturl.at'']"

definition has_url_shortener :: "content_env \<Rightarrow> mime_view \<Rightarrow> string \<Rightarrow> bool" where
  "has_url_shortener env v body \<longleftrightarrow>
     list_ex (\<lambda>h. h \<in> set url_shorteners \<or> registered_domain (va_org env) h \<in> set url_shorteners) (url_domains env v body)"

record url_mismatch =
  um_href :: string
  um_text :: string
  um_href_host :: string
  um_text_host :: string

text \<open>One link: its target and what is between its tags.\<close>

definition link_mismatch :: "content_env \<Rightarrow> string \<Rightarrow> string \<Rightarrow> url_mismatch option" where
  "link_mismatch env target inner =
     (let href = trim_space target; text = trim_space (strip_html_tags inner);
          text_host = host_of_url env text; href_host = host_of_url env href in
      if href = [] \<or> text = [] then None
      else if text_host = [] \<or> \<not> contains text_host ''.'' then None
      else if contains_any text [SP, TAB] \<and> \<not> contains text ''://'' then None
      else if href_host = [] \<or> same_org_domain (va_org env) href_host text_host then None
      else Some \<lparr>um_href = href, um_text = text, um_href_host = href_host, um_text_host = text_host\<rparr>)"

definition url_display_mismatches :: "content_env \<Rightarrow> mime_view \<Rightarrow> url_mismatch list" where
  "url_display_mismatches env v =
     List.map_filter (\<lambda>caps. link_mismatch env (caps ! 0) (caps ! 1)) (rx_find_all href_pattern (mv_html v))"

section \<open>Tracking pixels\<close>

definition has_tiny_dimension :: "string \<Rightarrow> string \<Rightarrow> bool" where
  "has_tiny_dimension tag attr \<longleftrightarrow>
     list_ex (\<lambda>caps. equal_fold (caps ! 0) attr \<and> length (caps ! 1) \<le> 1) (rx_find_all dimension_pattern tag)"

definition is_tracking_pixel :: "string \<Rightarrow> bool" where
  "is_tracking_pixel tag \<longleftrightarrow>
     (let l = to_lower tag in
      has_tiny_dimension l ''width'' \<and> has_tiny_dimension l ''height'' \<or> contains l ''display:none'' \<or> contains l ''visibility:hidden'')"

definition tracking_pixel_count :: "mime_view \<Rightarrow> nat" where
  "tracking_pixel_count v = length (filter is_tracking_pixel (rx_matches img_pattern (mv_html v)))"

section \<open>Attachments\<close>

definition executable_extensions :: "string list" where
  "executable_extensions = [''exe'', ''scr'', ''com'', ''pif'', ''bat'', ''cmd'', ''js'', ''jse'', ''vbs'', ''vbe'', ''wsf'', ''wsh'',
     ''ps1'', ''psm1'', ''hta'', ''msi'', ''msp'', ''jar'', ''app'', ''dmg'', ''lnk'', ''reg'', ''scf'', ''inf'', ''cpl'', ''dll'', ''sys'',
     ''iso'', ''img'', ''vhd'', ''apk'', ''deb'', ''rpm'', ''run'', ''bin'']"

definition macro_extensions :: "string list" where
  "macro_extensions = [''docm'', ''dotm'', ''xlsm'', ''xltm'', ''xlam'', ''pptm'', ''potm'', ''ppam'', ''ppsm'', ''sldm'', ''doc'',
     ''xls'', ''ppt'', ''xlsb'']"

definition archive_extensions :: "string list" where
  "archive_extensions = [''zip'', ''rar'', ''7z'', ''tar'', ''gz'', ''bz2'', ''xz'', ''cab'', ''ace'', ''arj'', ''lzh'', ''z'', ''tgz'']"

definition decoy_extensions :: "string list" where
  "decoy_extensions = [''pdf'', ''doc'', ''docx'', ''xls'', ''xlsx'', ''ppt'', ''pptx'', ''txt'', ''jpg'', ''jpeg'', ''png'', ''gif'',
     ''html'', ''htm'', ''csv'', ''rtf'', ''zip'']"

definition file_extension :: "string \<Rightarrow> string" where
  "file_extension filename =
     (case last_index CHR ''.'' filename of
        None \<Rightarrow> []
      | Some i \<Rightarrow> if i = length filename - 1 then [] else to_lower (drop (Suc i) filename))"

definition has_executable_attachment :: "mime_view \<Rightarrow> bool" where
  "has_executable_attachment v \<longleftrightarrow> list_ex (\<lambda>a. file_extension (at_filename a) \<in> set executable_extensions) (mv_attachments v)"

definition has_macro_attachment :: "mime_view \<Rightarrow> bool" where
  "has_macro_attachment v \<longleftrightarrow> list_ex (\<lambda>a. file_extension (at_filename a) \<in> set macro_extensions) (mv_attachments v)"

definition has_archive_attachment :: "mime_view \<Rightarrow> bool" where
  "has_archive_attachment v \<longleftrightarrow> list_ex (\<lambda>a. file_extension (at_filename a) \<in> set archive_extensions) (mv_attachments v)"

definition has_double_extension :: "string \<Rightarrow> bool" where
  "has_double_extension filename \<longleftrightarrow>
     (let parts = split_on CHR ''.'' (to_lower filename); n = length parts in
      if n < 3 then False
      else (parts ! (n - 1) \<in> set executable_extensions \<or> parts ! (n - 1) \<in> set macro_extensions) \<and>
        parts ! (n - 2) \<in> set decoy_extensions)"

definition double_extension_attachments :: "mime_view \<Rightarrow> string list" where
  "double_extension_attachments v = filter has_double_extension (map at_filename (mv_attachments v))"

text \<open>U+202A to U+202E and U+2066 to U+2069.\<close>

definition bidi_overrides :: "string list" where
  "bidi_overrides =
     map (\<lambda>c. [CHR 0xE2, CHR 0x80, c]) [CHR 0xAA, CHR 0xAB, CHR 0xAC, CHR 0xAD, CHR 0xAE] @
     map (\<lambda>c. [CHR 0xE2, CHR 0x81, c]) [CHR 0xA6, CHR 0xA7, CHR 0xA8, CHR 0xA9]"

definition rtl_override_attachments :: "mime_view \<Rightarrow> string list" where
  "rtl_override_attachments v =
     filter (\<lambda>name. list_ex (\<lambda>r. r \<in> set (map Some bidi_overrides)) (utf8_runes name)) (map at_filename (mv_attachments v))"

end
