(* ===== verification/Human.thy ===== *)
theory Human
  imports Content
begin

text \<open>
  Whether a person wrote a message, \<^verbatim>\<open>pkg/rules/human.go\<close>: the signals with their weights, the score and the class. The
  weights are small whole numbers, on which the floating-point arithmetic of the code is exact, so here they are
  integers. The details of a signal, a text, are left out.
\<close>

section \<open>Lists and patterns\<close>

definition bulk_headers :: "string list" where
  "bulk_headers = [''List-Unsubscribe'', ''List-Id'', ''List-Post'', ''List-Help'', ''List-Owner'', ''List-Archive'',
     ''List-Subscribe'', ''Feedback-ID'', ''X-Campaign-Id'', ''X-Campaignid'', ''X-Mailchimp-Id'', ''X-MC-User'', ''X-SG-EID'',
     ''X-SES-Outgoing'', ''X-Mailgun-Sid'', ''X-Mandrill-User'', ''X-Sendgrid-Eid'', ''X-CSA-Complaints'', ''X-Report-Abuse'',
     ''X-Marketing-Campaign'', ''X-Bulkmail'', ''X-Mailer-Lid'', ''X-Constantcontact-Id'', ''X-Klaviyo-Message-Id'',
     ''X-Sfmc-Stack'', ''X-Job'', ''X-Rpcampaign'', ''X-Emarsys-Id'', ''X-Braze-Id'']"

definition auto_submitted_headers :: "string list" where
  "auto_submitted_headers = [''Auto-Submitted'', ''X-Auto-Response-Suppress'', ''X-Autoreply'', ''X-Autorespond'',
     ''X-Autogenerated'', ''X-Auto-Generated'', ''X-Failed-Recipients'', ''X-Autoreply-From'']"

definition human_mailers :: "string list" where
  "human_mailers = [''apple mail'', ''iphone mail'', ''ipad mail'', ''mimestream'', ''thunderbird'', ''mozilla'', ''outlook'',
     ''microsoft outlook'', ''airmail'', ''spark'', ''mailmate'', ''postbox'', ''em client'', ''evolution'', ''kmail'',
     ''claws mail'', ''mutt'', ''neomutt'', ''alpine'', ''gnus'', ''roundcube'', ''bluemail'', ''canary'', ''edison'',
     ''windows mail'', ''yahoo mail'', ''zoho mail'', ''protonmail'', ''hey'', ''superhuman'', ''missive'', ''front'', ''newton'',
     ''polymail'']"

definition bulk_mailers :: "string list" where
  "bulk_mailers = [''mailchimp'', ''sendgrid'', ''mailgun'', ''amazonses'', ''amazon ses'', ''sparkpost'', ''postmark'', ''mandrill'',
     ''constant contact'', ''klaviyo'', ''campaign monitor'', ''salesforce'', ''marketo'', ''hubspot'', ''pardot'', ''emarsys'',
     ''braze'', ''iterable'', ''customer.io'', ''sendinblue'', ''brevo'', ''phplist'', ''phpmailer'', ''swiftmailer'',
     ''nodemailer'', ''python-requests'', ''smtplib'', ''javamail'', ''actionmailer'', ''zend_mail'', ''drupal'', ''wordpress'',
     ''mailer-daemon'', ''cron'', ''logwatch'', ''nagios'', ''zabbix'', ''jenkins'', ''gitlab'', ''github'', ''jira'',
     ''confluence'', ''pagerduty'', ''opsgenie'']"

definition template_markers :: "string list" where
  "template_markers = [''%%'', ''{{'', ''}}'', ''*|'', ''|*'', ''${'', ''[['', '']]'', ''view in browser'',
     ''view this email in your browser'', ''unsubscribe'', ''manage preferences'', ''email preferences'', ''you are receiving this'',
     ''you'' @ [SQ] @ ''re receiving this'', ''update your preferences'', ''opt out'', ''privacy policy'',
     ''this is an automated message'', ''do not reply to this'', ''please do not reply'', ''automated notification'']"

definition rx_sep :: rx where
  "rx_sep = rx_opt (rx_in ''-_.'')"

definition rx_dot :: rx where
  "rx_dot = Cls (\<lambda>c. c \<noteq> LF)"

definition no_reply_pattern :: rx where
  "no_reply_pattern = rx_seq [AtStart,
     rx_any [rx_seq [rx_word ''no'', rx_sep, rx_word ''reply''], rx_seq [rx_word ''do'', rx_sep, rx_word ''not'', rx_sep, rx_word ''reply''],
       rx_word ''donotreply'', rx_word ''noreply'', Cat (rx_word ''notification'') (rx_opt (rx_word ''s'')),
       Cat (rx_word ''alert'') (rx_opt (rx_word ''s'')), rx_seq [rx_word ''mailer'', rx_sep, rx_word ''daemon''], rx_word ''postmaster'',
       Cat (rx_word ''bounce'') (rx_opt (rx_word ''s'')), Cat (rx_word ''auto'') (rx_opt (rx_word ''mated'')), rx_word ''system'',
       rx_word ''robot'', rx_word ''bot'', rx_word ''daemon'', rx_word ''nobody'', rx_seq [rx_word ''support'', rx_sep, rx_word ''bot'']],
     rx_opt (Cat (rx_in ''-_.+'') (Star rx_dot)), AtEnd]"

definition verp_pattern :: rx where
  "verp_pattern = rx_any [rx_seq [AtStart, rx_word ''srs'', Cls is_digit, rx_lit ''=''],
     rx_seq [AtStart, rx_word ''bounce'', rx_opt (rx_word ''s''), rx_in ''-+''],
     rx_seq [rx_in ''-+'', rx_word ''bounce'', rx_opt (rx_word ''s''), rx_in ''-+@=''],
     rx_seq [AtStart, rx_word ''prvs=''], rx_seq [AtStart, rx_word ''msprvs'', rx_opt (Cls is_digit), rx_lit ''=''],
     rx_seq [rx_lit ''='', Star rx_dot, rx_lit ''=@''], rx_word ''+caf_'']"

definition reply_subject_pattern :: rx where
  "reply_subject_pattern = rx_seq [AtStart, rx_space, rx_plus (rx_seq
     [rx_any (map rx_word [''re'', ''fw'', ''fwd'', ''aw'', ''sv'', ''vs'', ''antw'', ''res'', ''odp'', ''ynt'', ''tr'', ''rif'', ''enc'']),
      rx_space, rx_opt (rx_seq [rx_lit ''['', rx_plus (Cls is_digit), rx_lit '']'']), rx_space, rx_lit '':'', rx_space])]"

definition greeting_pattern :: rx where
  "greeting_pattern = rx_seq [AtStart, rx_space,
     rx_any [rx_word ''hi'', rx_word ''hey'', rx_word ''hello'', rx_word ''dear'',
       Cat (rx_word ''good '') (rx_any (map rx_word [''morning'', ''afternoon'', ''evening''])), rx_word ''greetings''],
     WordEdge, Rep 0 40 (Rune (\<lambda>c. c \<noteq> LF)), rx_in [CHR '','', CHR ''!'', LF]]"

definition has_personal_greeting :: "string \<Rightarrow> bool" where
  "has_personal_greeting lower_text \<longleftrightarrow>
     (let trimmed = take 200 (trim_space lower_text) in
      rx_test greeting_pattern trimmed \<and>
      \<not> list_ex (\<lambda>g. contains (take 60 trimmed) g)
          [''customer'', ''valued'', ''user'', ''member'', ''subscriber'', ''there'', ''sir or madam'', ''friend''])"

section \<open>The assessment\<close>

record human_signal =
  hs_name :: string
  hs_weight :: int

record human_assessment =
  ha_score :: int
  ha_class :: string
  ha_signals :: "human_signal list"

definition fire :: "string \<Rightarrow> int \<Rightarrow> bool \<Rightarrow> human_signal list" where
  "fire name weight present = (if present then [\<lparr>hs_name = name, hs_weight = weight\<rparr>] else [])"

text \<open>What the signals look at.\<close>

record human_input =
  hi_context :: mail_context
  hi_view :: mime_view

definition hi_text :: "human_input \<Rightarrow> string" where
  "hi_text i = search_text (hi_view i) (mc_body (hi_context i))"

definition field_of :: "human_input \<Rightarrow> string \<Rightarrow> string" where
  "field_of i name = msg_get (mc_message (hi_context i)) name"

definition has_field :: "human_input \<Rightarrow> string \<Rightarrow> bool" where
  "has_field i name = msg_has (mc_message (hi_context i)) name"

definition auto_submitted :: "human_input \<Rightarrow> bool" where
  "auto_submitted i \<longleftrightarrow> (let a = to_lower (trim_space (field_of i ''Auto-Submitted'')) in a \<noteq> [] \<and> a \<noteq> ''no'')"

definition mailer_of :: "human_input \<Rightarrow> string" where
  "mailer_of i = to_lower (field_of i ''X-Mailer'' @ '' '' @ field_of i ''User-Agent'')"

definition names_mailer :: "string list \<Rightarrow> human_input \<Rightarrow> bool" where
  "names_mailer ms i \<longleftrightarrow> list_ex (\<lambda>b. contains (mailer_of i) b) ms"

definition unattended :: "content_env \<Rightarrow> human_input \<Rightarrow> bool" where
  "unattended env i \<longleftrightarrow> rx_test no_reply_pattern (ad_local (parse_address (re_mail env) (field_of i ''From'')))"

definition recipient_count :: "content_env \<Rightarrow> human_input \<Rightarrow> nat" where
  "recipient_count env i =
     length (parse_address_list (re_mail env) (field_of i ''To'')) + length (parse_address_list (re_mail env) (field_of i ''Cc''))"

definition msgid_aligned :: "content_env \<Rightarrow> human_input \<Rightarrow> bool" where
  "msgid_aligned env i =
     (let raw = trim_set (trim_space (field_of i ''Message-ID'')) ''<>'' in
      case last_index CHR ''@'' raw of
        None \<Rightarrow> False
      | Some k \<Rightarrow> same_org_domain (va_org env) (drop (Suc k) raw) (domain_of (re_mail env) (field_of i ''From'')))"

definition machine_signals :: "content_env \<Rightarrow> human_input \<Rightarrow> human_signal list" where
  "machine_signals env i =
     (let lower_text = to_lower (hi_text i);
          precedence = to_lower (trim_space (field_of i ''Precedence''));
          envelope = envelope_sender (hi_context i) in
      fire ''bulk_headers'' (-30) (list_ex (has_field i) bulk_headers) @
      fire ''precedence_bulk'' (-25) (precedence = ''bulk'' \<or> precedence = ''list'' \<or> precedence = ''junk'') @
      fire ''auto_submitted'' (-30) (auto_submitted i) @
      fire ''auto_headers'' (-20) (list_ex (has_field i) (filter (\<lambda>h. h \<noteq> ''Auto-Submitted'') auto_submitted_headers)) @
      fire ''noreply_sender'' (-25) (unattended env i) @
      fire ''verp_envelope'' (-15) (envelope \<noteq> [] \<and> rx_test verp_pattern envelope) @
      fire ''bulk_mailer'' (-20) (names_mailer bulk_mailers i) @
      fire ''tracking_pixel'' (-20) (tracking_pixel_count (hi_view i) > 0) @
      fire ''template_markers'' (-15) (list_ex (\<lambda>m. contains lower_text m) template_markers) @
      fire ''html_only'' (-12) (mv_html (hi_view i) \<noteq> [] \<and> trim_space (mv_text (hi_view i)) = []) @
      fire ''many_links'' (-12) (length (message_urls (hi_view i) (mc_body (hi_context i))) \<ge> 8) @
      fire ''undisclosed_recipients'' (-10) (recipient_count env i = 0 \<and> field_of i ''To'' \<noteq> []) @
      fire ''bulk_precedence_class'' (-10) (has_field i ''X-Priority'' \<and> has_field i ''List-Unsubscribe''))"

definition person_signals :: "content_env \<Rightarrow> human_input \<Rightarrow> human_signal list" where
  "person_signals env i =
     (let text = hi_text i; lower_text = to_lower text; n = recipient_count env i in
      fire ''threaded'' 30 (has_field i ''In-Reply-To'' \<or> has_field i ''References'') @
      fire ''reply_subject'' 15 (rx_test reply_subject_pattern (field_of i ''Subject'')) @
      fire ''human_mailer'' 25 (names_mailer human_mailers i \<and> \<not> names_mailer bulk_mailers i) @
      fire ''few_recipients'' 10 (1 \<le> n \<and> n \<le> 3) @
      fire ''has_plain_text'' 8 (trim_space (mv_text (hi_view i)) \<noteq> []) @
      fire ''no_links'' 10 (message_urls (hi_view i) (mc_body (hi_context i)) = [] \<and> text \<noteq> []) @
      fire ''quoted_reply'' 15 (contains text ([LF] @ ''> '') \<or> contains lower_text ''wrote:'' \<or>
        contains lower_text ''-----original message-----'') @
      fire ''msgid_aligned'' 5 (msgid_aligned env i) @
      fire ''personal_greeting'' 8 (has_personal_greeting lower_text))"

definition clamp :: "int \<Rightarrow> int \<Rightarrow> int \<Rightarrow> int" where
  "clamp v lo hi = (if v < lo then lo else if v > hi then hi else v)"

definition is_discussion_list :: "human_input \<Rightarrow> bool" where
  "is_discussion_list i \<longleftrightarrow> has_field i ''List-Id'' \<or> has_field i ''List-Post''"

definition classify :: "content_env \<Rightarrow> human_input \<Rightarrow> int \<Rightarrow> string" where
  "classify env i score =
     (if is_discussion_list i then ''list''
      else if auto_submitted i \<or> envelope_sender (hi_context i) = [] \<and> has_field i ''X-Failed-Recipients'' then ''automated''
      else if list_ex (has_field i) bulk_headers \<or> tracking_pixel_count (hi_view i) > 0 then ''bulk''
      else if score \<ge> 65 then ''human''
      else if unattended env i \<and> 1 \<le> recipient_count env i \<and> recipient_count env i \<le> 2 then ''transactional''
      else if score \<le> 30 then ''automated''
      else if score \<le> 45 then ''transactional''
      else ''unknown'')"

definition assess_human :: "content_env \<Rightarrow> human_input \<Rightarrow> human_assessment" where
  "assess_human env i =
     (let signals = machine_signals env i @ person_signals env i;
          score = clamp (fold (\<lambda>s raw. raw + hs_weight s) signals 50) 0 100
      in \<lparr>ha_score = score, ha_class = classify env i score, ha_signals = signals\<rparr>)"

definition is_human :: "content_env \<Rightarrow> human_input \<Rightarrow> bool" where
  "is_human env i \<longleftrightarrow> ha_class (assess_human env i) = ''human''"

definition is_automated :: "content_env \<Rightarrow> human_input \<Rightarrow> bool" where
  "is_automated env i \<longleftrightarrow> ha_class (assess_human env i) \<noteq> ''human'' \<and> ha_class (assess_human env i) \<noteq> ''unknown''"

definition is_bulk :: "content_env \<Rightarrow> human_input \<Rightarrow> bool" where
  "is_bulk env i \<longleftrightarrow> ha_class (assess_human env i) = ''bulk'' \<or> ha_class (assess_human env i) = ''list''"

end
