(* ===== verification/ContentProps.thy ===== *)
theory ContentProps
  imports Human ValidateProps
begin

text \<open>What the searches of a message's content and the assessment of its author tell.\<close>

section \<open>Links\<close>

lemma keep_new_set: "set (fold keep_new xs out) = set out \<union> (set xs - {[]})"
  by (induction xs arbitrary: out) (auto simp: keep_new_def)

lemma keep_new_distinct: "distinct out \<Longrightarrow> distinct (fold keep_new xs out)"
  by (induction xs arbitrary: out) (auto simp: keep_new_def)

text \<open>
  The URLs of a message are distinct and not empty, and with an HTML part every target of a link that is no
  fragment is among them.
\<close>

lemma message_urls_distinct: "distinct (message_urls v body)" "[] \<notin> set (message_urls v body)"
  "set (href_targets (mv_html v)) - {[]} \<subseteq> set (message_urls v body)"
  by (auto simp: message_urls_def collect_urls_def Let_def keep_new_distinct keep_new_set)

section \<open>Names of attachments\<close>

lemma join_parts_snoc: "xs \<noteq> [] \<Longrightarrow> join sep (xs @ [p]) = join sep xs @ sep @ p"
proof (induction xs)
  case (Cons x xs)
  then show ?case by (cases xs) auto
qed simp

lemma last_part:
  assumes "last_index c s = Some i"
  shows "last (split_on c s) = drop (Suc i) s"
proof -
  have c: "c \<in> set s" using assms last_index_None [of c s] by auto
  have j: "join [c] (split_on c s) = s" by (rule join_split_on)
  obtain xs p where p: "split_on c s = xs @ [p]" using c j by (cases "split_on c s" rule: rev_cases) auto
  have np: "c \<notin> set p" using split_on_parts [of p c s] p by simp
  have "xs \<noteq> []" using c j np p by auto
  then have s: "s = join [c] xs @ c # p" using j p join_parts_snoc [of xs "[c]" p] by simp
  have "last_index c s = Some (length (join [c] xs))" by (subst s) (rule last_index_append [OF np])
  with assms have i: "i = length (join [c] xs)" by simp
  have "drop (Suc i) s = p" unfolding i by (subst s) simp
  with p show ?thesis by simp
qed

lemma last_index_lower: "last_index CHR ''.'' (to_lower s) = last_index CHR ''.'' s"
proof -
  have "lower_char x = CHR ''.'' \<longleftrightarrow> x = CHR ''.''" for x by (rule lower_char_eq_nonletter) code_simp+
  then show ?thesis by (induction s) (auto simp: to_lower_def split: option.splits)
qed

lemma split_on_absent: "c \<notin> set s \<Longrightarrow> split_on c s = [s]"
  by (induction s) (auto simp: split_on_def)

text \<open>A double extension is one that the other tests of an attachment see too.\<close>

theorem double_extension_dangerous:
  assumes "has_double_extension filename"
  shows "file_extension filename \<in> set executable_extensions \<union> set macro_extensions"
proof -
  let ?parts = "split_on CHR ''.'' (to_lower filename)"
  have n: "length ?parts \<ge> 3" using assms by (auto simp: has_double_extension_def Let_def split: if_splits)
  then have "?parts \<noteq> []" by auto
  then have e: "last ?parts \<in> set executable_extensions \<union> set macro_extensions"
    using assms by (auto simp: has_double_extension_def Let_def last_conv_nth split: if_splits)
  have "CHR ''.'' \<in> set (to_lower filename)"
  proof (rule ccontr)
    assume "\<not> ?thesis"
    from split_on_absent [OF this] n show False by simp
  qed
  then obtain i where i: "last_index CHR ''.'' (to_lower filename) = Some i"
    using last_index_None [of "CHR ''.''" "to_lower filename"] by (cases "last_index CHR ''.'' (to_lower filename)") auto
  from last_part [OF i] e have d: "to_lower (drop (Suc i) filename) \<in> set executable_extensions \<union> set macro_extensions"
    by (simp add: to_lower_def drop_map)
  have "[] \<notin> set executable_extensions \<union> set macro_extensions" by code_simp
  with d have "drop (Suc i) filename \<noteq> []" by auto
  then have "i \<noteq> length filename - 1" by auto
  with i d show ?thesis by (simp add: file_extension_def last_index_lower)
qed

section \<open>The author\<close>

lemma clamp_range: "lo \<le> hi \<Longrightarrow> lo \<le> clamp v lo hi \<and> clamp v lo hi \<le> hi"
  by (auto simp: clamp_def)

lemma fold_weights: "fold (\<lambda>s raw. raw + hs_weight s) signals v = v + sum_list (map hs_weight signals)"
  by (induction signals arbitrary: v) auto

lemma machine_weights: "sum_list (map hs_weight (machine_signals env i)) \<le> 0"
proof -
  have "hs_weight s \<le> 0" if "s \<in> set (machine_signals env i)" for s
    using that by (auto simp: machine_signals_def Let_def fire_def split: if_splits)
  then show ?thesis by (intro sum_list_nonpos) auto
qed

lemma person_weights: "s \<in> set (person_signals env i) \<Longrightarrow> hs_weight s > 0"
  by (auto simp: person_signals_def Let_def fire_def split: if_splits)

lemma human_class: "is_human env i \<Longrightarrow>
    ha_score (assess_human env i) \<ge> 65 \<and> \<not> is_discussion_list i \<and> \<not> auto_submitted i \<and>
    \<not> list_ex (has_field i) bulk_headers \<and> tracking_pixel_count (hi_view i) = 0"
  by (auto simp: is_human_def assess_human_def classify_def Let_def split: if_splits)

text \<open>
  the verdict that a person wrote a message is never given for mail relayed by a list, submitted
  automatically, with a field of a bulk sender or with a tracking pixel; it needs a score of at least 65 out of 100,
  that is, positive evidence that outweighs everything that speaks against it by 15; and a message with this
  verdict is neither automated nor bulk.
\<close>

theorem human_verdict_sound:
  assumes "is_human env i"
  shows "65 \<le> ha_score (assess_human env i) \<and> ha_score (assess_human env i) \<le> 100 \<and>
    \<not> is_discussion_list i \<and> \<not> auto_submitted i \<and> \<not> list_ex (has_field i) bulk_headers \<and> tracking_pixel_count (hi_view i) = 0 \<and>
    (\<exists>s \<in> set (ha_signals (assess_human env i)). hs_weight s > 0) \<and>
    sum_list (map hs_weight (person_signals env i)) \<ge> 15 - sum_list (map hs_weight (machine_signals env i)) \<and>
    \<not> is_automated env i \<and> \<not> is_bulk env i"
proof -
  let ?m = "sum_list (map hs_weight (machine_signals env i))" let ?p = "sum_list (map hs_weight (person_signals env i))"
  have score: "ha_score (assess_human env i) = clamp (50 + ?m + ?p) 0 100"
    by (simp add: assess_human_def Let_def fold_weights add.assoc)
  then have "65 \<le> clamp (50 + ?m + ?p) 0 100" using human_class [OF assms] by simp
  then have sum: "?p \<ge> 15 - ?m" by (auto simp: clamp_def split: if_splits)
  with machine_weights [of env i] have "person_signals env i \<noteq> []" by auto
  then obtain s where "s \<in> set (person_signals env i)" by (meson list.set_sel(1))
  then have "\<exists>s \<in> set (ha_signals (assess_human env i)). hs_weight s > 0"
    using person_weights by (auto simp: assess_human_def Let_def)
  with human_class [OF assms] sum score clamp_range [of 0 100 "50 + ?m + ?p"] assms show ?thesis
    by (auto simp: is_human_def is_automated_def is_bulk_def)
qed

definition demo_content_env :: content_env where
  "demo_content_env = validate_env.extend demo_validate_env
     \<lparr>me_parts = (\<lambda>_ _. []), me_disposition = (\<lambda>_. ([], [])), me_quoted = (\<lambda>s. (s, False)), me_sha256 = (\<lambda>s. s),
      co_url_host = (\<lambda>_. None)\<rparr>"

definition reply_input :: human_input where
  "reply_input = \<lparr>hi_context = forged_context\<lparr>mc_message := parse_message_headers
       (''From: ann@a.test'' @ CRLF @ ''To: bob@b.test'' @ CRLF @ ''Subject: RE: lunch'' @ CRLF @ ''In-Reply-To: <1@b.test>'' @ CRLF @ CRLF)\<rparr>,
     hi_view = empty_view\<lparr>mv_text := ''Hi Bob, yes.''\<rparr>\<rparr>"

theorem human_verdict_sound_witness:
  "is_human demo_content_env reply_input \<and> ha_score (assess_human demo_content_env reply_input) \<ge> 65"
proof -
  have "is_human demo_content_env reply_input" by code_simp
  with human_verdict_sound [OF this] show ?thesis by simp
qed

text \<open>
  The signals are in the order in which they are tested, not the strongest first as the documentation of the
  result says: a weak signal comes before a stronger one.
\<close>

lemma signals_unsorted:
  "map hs_weight (ha_signals (assess_human demo_content_env
     (reply_input\<lparr>hi_view := empty_view\<lparr>mv_html := ''Hi Bob, yes.''\<rparr>\<rparr>))) = [-12, 30, 15, 10, 10, 8]"
  by code_simp

end
