(* ===== verification/Runtime.thy ===== *)
theory Runtime
  imports Clamd Message AuthReported Complex_Main
begin

text \<open>
  The scanners and analysis services a message is shown to before the policy runs: \<^verbatim>\<open>apply\<close> and
  \<^verbatim>\<open>applyAnalyzers\<close> of \<^verbatim>\<open>cmd/mailscript/common.go\<close>, the clients of \<^verbatim>\<open>analyzer.go\<close> and \<^verbatim>\<open>yara.go\<close>, and what a policy
  asks about their answers, \<^verbatim>\<open>pkg/rules/analyzers.go\<close>. HTTP and JSON are a parameter: what a service answers to
  a message, decoded. Scores are rational numbers, which every floating-point number of a JSON text is.
\<close>

section \<open>Answers\<close>

record analyzer_finding =
  af_source :: string
  af_code :: string
  af_summary :: string
  af_severity :: string
  af_confidence :: rat
  af_attachment :: string

record analyzer_result =
  an_analyzer :: string
  an_verdict :: string
  an_score :: rat
  an_categories :: "string list"
  an_findings :: "analyzer_finding list"
  an_iocs :: "string list"
  an_deferred :: bool

text \<open>\<open>NoReply\<close>: the request failed; \<open>BadStatus\<close>: any status but 200; \<open>Undecodable\<close>: the body is not the JSON expected.\<close>

datatype 'a http_reply = NoReply string | BadStatus string | Undecodable string | Answer 'a

definition unique_trimmed :: "string list \<Rightarrow> string list" where
  "unique_trimmed values = rev (fold (\<lambda>v out. let t = trim_space v in if t = [] \<or> t \<in> set out then out else t # out) values [])"

fun normalize_findings :: "string \<Rightarrow> analyzer_finding list \<Rightarrow> string + analyzer_finding list" where
  "normalize_findings name [] = Inr []"
| "normalize_findings name (f0 # fs) =
     (let f = f0\<lparr>af_source := name, af_code := trim_space (af_code f0), af_summary := trim_space (af_summary f0)\<rparr> in
      if af_code f = [] then Inl ''analyzer finding has no code''
      else if af_confidence f < 0 \<or> af_confidence f > 1 then Inl (''analyzer finding '' @ go_quote (af_code f) @ '' confidence is outside 0..1'')
      else (case normalize_findings name fs of Inl e \<Rightarrow> Inl e | Inr gs \<Rightarrow> Inr (f # gs)))"

definition verdicts :: "string list" where
  "verdicts = [''clean'', ''unknown'', ''suspicious'', ''malicious'']"

definition normalize_analyzer_result :: "analyzer_result \<Rightarrow> string + analyzer_result" where
  "normalize_analyzer_result r0 =
     (let r = r0\<lparr>an_verdict := to_lower (trim_space (an_verdict r0))\<rparr> in
      if an_verdict r \<notin> set verdicts then Inl (''invalid analyzer verdict '' @ go_quote (an_verdict r))
      else if an_score r < 0 \<or> an_score r > 1 then Inl ''analyzer score is outside 0..1''
      else (case normalize_findings (an_analyzer r) (an_findings r) of
          Inl e \<Rightarrow> Inl e
        | Inr fs \<Rightarrow> Inr (r\<lparr>an_findings := fs, an_categories := unique_trimmed (an_categories r), an_iocs := unique_trimmed (an_iocs r)\<rparr>)))"

record analyzer_client =
  ac_name :: string
  ac_max_bytes :: int
  ac_post :: "string \<Rightarrow> analyzer_result http_reply"

definition analyze :: "analyzer_client \<Rightarrow> string \<Rightarrow> string + analyzer_result" where
  "analyze c message =
     (if ac_max_bytes c > 0 \<and> int (length message) > ac_max_bytes c
      then Inl (''message exceeds analyzer limit of '' @ show_int (ac_max_bytes c) @ '' bytes'')
      else (case ac_post c message of
          NoReply e \<Rightarrow> Inl e
        | BadStatus s \<Rightarrow> Inl (''analyzer returned '' @ s)
        | Undecodable e \<Rightarrow> Inl e
        | Answer r \<Rightarrow> normalize_analyzer_result (r\<lparr>an_analyzer := ac_name c\<rparr>)))"

section \<open>YARA\<close>

text \<open>A match is a string, an object with a rule, a name and an identifier, or something else.\<close>

datatype yara_match = YaraName string | YaraObject string string string | YaraOther string

definition yara_match_name :: "yara_match \<Rightarrow> string + string" where
  "yara_match_name m =
     (case m of
        YaraName n \<Rightarrow> Inr (trim_space n)
      | YaraObject rule name ident \<Rightarrow> Inr (trim_space (first_non_empty [rule, name, ident]))
      | YaraOther e \<Rightarrow> Inl (''invalid YARA match: '' @ e))"

fun yara_names :: "yara_match list \<Rightarrow> string list \<Rightarrow> string + string list" where
  "yara_names [] seen = Inr seen"
| "yara_names (m # ms) seen =
     (case yara_match_name m of
        Inl e \<Rightarrow> Inl e
      | Inr n \<Rightarrow> yara_names ms (if n = [] \<or> n \<in> set seen then seen else seen @ [n]))"

record yara_scanner =
  ya_max_bytes :: int
  ya_post :: "string \<Rightarrow> yara_match list http_reply"

definition yara_scan :: "yara_scanner \<Rightarrow> string \<Rightarrow> string + string list" where
  "yara_scan y message =
     (if ya_max_bytes y > 0 \<and> int (length message) > ya_max_bytes y
      then Inl (''message exceeds YARA scan limit of '' @ show_int (ya_max_bytes y) @ '' bytes'')
      else (case ya_post y message of
          NoReply e \<Rightarrow> Inl e
        | BadStatus s \<Rightarrow> Inl (''YARA scanner returned '' @ s)
        | Undecodable e \<Rightarrow> Inl e
        | Answer ms \<Rightarrow> yara_names ms []))"

section \<open>The message that is shown\<close>

definition raw_message :: "string \<Rightarrow> string \<Rightarrow> string" where
  "raw_message header_block body = header_block @ CRLF @ CRLF @ body"

record scan_runtime =
  rt_clamav :: "(clamd \<times> int) option"
  rt_yara :: "yara_scanner option"
  rt_analyzers :: "analyzer_client list"

record scan_state =
  sn_virus_status :: string
  sn_av_signature :: string
  sn_av_available :: bool
  sn_yara_available :: bool
  sn_yara_matches :: "string list"
  sn_results :: "analyzer_result list"
  sn_log :: "string list"

definition new_scan :: scan_state where
  "new_scan = \<lparr>sn_virus_status = ''unknown'', sn_av_signature = [], sn_av_available = False, sn_yara_available = False,
     sn_yara_matches = [], sn_results = [], sn_log = []\<rparr>"

text \<open>
  The goroutines of the analyzers write to disjoint places of an array that is read after all have ended, so
  their order does not matter: the answers are taken in the order of the configuration.
\<close>

definition take_outcome :: "analyzer_client \<times> (string + analyzer_result) \<Rightarrow> scan_state \<Rightarrow> scan_state" where
  "take_outcome o1 s =
     (case o1 of
        (c, Inl e) \<Rightarrow> s\<lparr>sn_log := sn_log s @ [''analyzer '' @ ac_name c @ '' unavailable: '' @ e]\<rparr>
      | (c, Inr r) \<Rightarrow> s\<lparr>sn_results := sn_results s @ [r]\<rparr>)"

definition apply_analyzers :: "analyzer_client list \<Rightarrow> string \<Rightarrow> scan_state \<Rightarrow> scan_state" where
  "apply_analyzers clients raw s = fold take_outcome (map (\<lambda>c. (c, analyze c raw)) clients) s"

definition apply_clamav :: "(clamd \<times> int) option \<Rightarrow> string \<Rightarrow> scan_state \<Rightarrow> scan_state" where
  "apply_clamav scanner raw s =
     (case scanner of
        None \<Rightarrow> s
      | Some (peer, max_bytes) \<Rightarrow>
          (case clamav_scan peer max_bytes raw of
             Inl e \<Rightarrow> s\<lparr>sn_virus_status := ''unknown'', sn_log := sn_log s @ [''clamav unavailable: '' @ e]\<rparr>
           | Inr r \<Rightarrow>
               if cl_virus_found r
               then s\<lparr>sn_av_available := True, sn_virus_status := ''infected'', sn_av_signature := cl_signature r\<rparr>
               else s\<lparr>sn_av_available := True, sn_virus_status := ''clean''\<rparr>))"

definition apply_yara :: "yara_scanner option \<Rightarrow> string \<Rightarrow> scan_state \<Rightarrow> scan_state" where
  "apply_yara scanner raw s =
     (case scanner of
        None \<Rightarrow> s
      | Some y \<Rightarrow>
          (case yara_scan y raw of
             Inl e \<Rightarrow> s\<lparr>sn_log := sn_log s @ [''yara unavailable: '' @ e]\<rparr>
           | Inr ms \<Rightarrow> s\<lparr>sn_yara_available := True, sn_yara_matches := ms\<rparr>))"

definition apply_scanners :: "scan_runtime \<Rightarrow> string \<Rightarrow> string \<Rightarrow> scan_state" where
  "apply_scanners rt header_block body =
     (let raw = raw_message header_block body in
      apply_analyzers (rt_analyzers rt) raw (apply_yara (rt_yara rt) raw (apply_clamav (rt_clamav rt) raw new_scan)))"

section \<open>What a policy asks\<close>

definition threat_rank :: "string \<Rightarrow> nat" where
  "threat_rank v =
     (if v = ''clean'' then 1 else if v = ''unknown'' then 2 else if v = ''suspicious'' then 3 else if v = ''malicious'' then 4 else 0)"

definition threat_verdict :: "analyzer_result list \<Rightarrow> string" where
  "threat_verdict rs =
     fst (fold (\<lambda>r (v, best). if threat_rank (an_verdict r) > best then (an_verdict r, threat_rank (an_verdict r)) else (v, best))
       rs (''unknown'', 0))"

definition threat_score :: "analyzer_result list \<Rightarrow> rat" where
  "threat_score rs = fold (\<lambda>r score. if an_score r > score then an_score r else score) rs 0"

definition analysis_pending :: "analyzer_result list \<Rightarrow> bool" where
  "analysis_pending rs \<longleftrightarrow> list_ex an_deferred rs"

definition threat_categories :: "analyzer_result list \<Rightarrow> string list" where
  "threat_categories rs =
     rev (fold (\<lambda>c out. if c \<in> set out then out else c # out) (concat (map an_categories rs)) [])"

definition has_analysis_finding :: "string \<Rightarrow> analyzer_result list \<Rightarrow> bool" where
  "has_analysis_finding code rs \<longleftrightarrow> list_ex (\<lambda>r. list_ex (\<lambda>f. af_code f = code) (an_findings r)) rs"

definition av_clean :: "scan_state \<Rightarrow> bool" where
  "av_clean s \<longleftrightarrow> sn_av_available s \<and> sn_virus_status s = ''clean''"

section \<open>Verdicts\<close>

lemma verdict_fold:
  "fold (\<lambda>r (v, best). if threat_rank (an_verdict r) > best then (an_verdict r, threat_rank (an_verdict r)) else (v, best)) rs (v, threat_rank v)
     = (v', k) \<Longrightarrow>
   k = threat_rank v' \<and> threat_rank v \<le> k \<and> (\<forall>r \<in> set rs. threat_rank (an_verdict r) \<le> k) \<and>
     (v' = v \<or> (\<exists>r \<in> set rs. v' = an_verdict r))"
proof (induction rs arbitrary: v)
  case (Cons r rs)
  show ?case
  proof (cases "threat_rank (an_verdict r) > threat_rank v")
    case True
    with Cons.prems Cons.IH [of "an_verdict r"] show ?thesis by auto
  next
    case False
    with Cons.prems Cons.IH [of v] show ?thesis by auto
  qed
qed simp

lemma threat_rank_clean: "threat_rank v = 1 \<longleftrightarrow> v = ''clean''"
  by (simp add: threat_rank_def)

text \<open>The verdict is clean exactly if some answer is and none ranks above it.\<close>

lemma threat_verdict_clean:
  "threat_verdict rs = ''clean'' \<longleftrightarrow> (\<exists>r \<in> set rs. an_verdict r = ''clean'') \<and> (\<forall>r \<in> set rs. threat_rank (an_verdict r) \<le> 1)"
proof (induction rs)
  case Nil
  show ?case by (simp add: threat_verdict_def)
next
  case (Cons r rs)
  show ?case
  proof (cases "threat_rank (an_verdict r) = 0")
    case True
    then have "threat_verdict (r # rs) = threat_verdict rs" "an_verdict r \<noteq> ''clean''"
      by (auto simp: threat_verdict_def threat_rank_def split: if_splits)
    with True Cons show ?thesis by simp
  next
    case False
    obtain v k where f: "fold (\<lambda>r (v, best). if threat_rank (an_verdict r) > best then (an_verdict r, threat_rank (an_verdict r)) else (v, best))
      rs (an_verdict r, threat_rank (an_verdict r)) = (v, k)" by (meson surj_pair)
    with False have v: "threat_verdict (r # rs) = v" by (simp add: threat_verdict_def)
    from verdict_fold [OF f] have facts: "k = threat_rank v" "threat_rank (an_verdict r) \<le> k"
      "\<forall>r \<in> set rs. threat_rank (an_verdict r) \<le> k" "v \<in> insert (an_verdict r) (an_verdict ` set rs)" by auto
    show ?thesis unfolding v
    proof
      assume "v = ''clean''"
      with facts threat_rank_clean [of v] show "(\<exists>q \<in> set (r # rs). an_verdict q = ''clean'') \<and> (\<forall>q \<in> set (r # rs). threat_rank (an_verdict q) \<le> 1)"
        by auto
    next
      assume a: "(\<exists>q \<in> set (r # rs). an_verdict q = ''clean'') \<and> (\<forall>q \<in> set (r # rs). threat_rank (an_verdict q) \<le> 1)"
      then have "threat_rank v \<le> 1" using facts(4) by auto
      moreover have "threat_rank v > 0" using False facts(1,2) by linarith
      ultimately have "threat_rank v = 1" by linarith
      then show "v = ''clean''" by (rule threat_rank_clean [THEN iffD1])
    qed
  qed
qed

lemma analyze_verdict: "analyze c raw = Inr r \<Longrightarrow> an_verdict r \<in> set verdicts \<and> 0 \<le> an_score r \<and> an_score r \<le> 1 \<and> an_analyzer r = ac_name c"
  by (auto simp: analyze_def normalize_analyzer_result_def Let_def split: if_splits http_reply.splits sum.splits)

lemma verdict_rank: "v \<in> set verdicts \<Longrightarrow> threat_rank v \<le> 1 \<longleftrightarrow> v = ''clean''"
  by (auto simp: verdicts_def threat_rank_def)

definition outcomes :: "analyzer_client list \<Rightarrow> string \<Rightarrow> analyzer_result list" where
  "outcomes clients raw = List.map_filter (\<lambda>c. case analyze c raw of Inl _ \<Rightarrow> None | Inr r \<Rightarrow> Some r) clients"

lemma apply_analyzers_results: "sn_results (apply_analyzers clients raw s) = sn_results s @ outcomes clients raw"
  by (induction clients arbitrary: s)
    (auto simp: apply_analyzers_def outcomes_def take_outcome_def map_filter_def split: sum.splits)

lemma in_outcomes: "r \<in> set (outcomes clients raw) \<longleftrightarrow> (\<exists>c \<in> set clients. analyze c raw = Inr r)"
  by (induction clients) (auto simp: outcomes_def List.map_filter_simps split: sum.splits)

lemma scanners_results: "sn_results (apply_scanners rt h b) = outcomes (rt_analyzers rt) (raw_message h b)"
  by (simp add: apply_scanners_def Let_def apply_analyzers_results apply_yara_def apply_clamav_def new_scan_def
      split: option.split sum.split prod.split)

text \<open>
  C39: Defect: the verdict on a message is clean exactly if some analysis service answered clean and every
  other service answered clean or failed. The code says of the verdict that a failed analysis cannot become
  clean, but a service that is down, times out, refuses the size or answers nonsense leaves no result at all, so
  the clean answer of another one stands.
\<close>

theorem failed_analysis_clean:
  "threat_verdict (sn_results (apply_scanners rt header_block body)) = ''clean'' \<longleftrightarrow>
     (\<exists>c \<in> set (rt_analyzers rt). \<exists>r. analyze c (raw_message header_block body) = Inr r \<and> an_verdict r = ''clean'') \<and>
     (\<forall>c r. c \<in> set (rt_analyzers rt) \<and> analyze c (raw_message header_block body) = Inr r \<longrightarrow> an_verdict r = ''clean'')"
proof -
  have "threat_rank (an_verdict r) \<le> 1 \<longleftrightarrow> an_verdict r = ''clean''" if "analyze c m = Inr r" for c m r
    using analyze_verdict [OF that] verdict_rank by blast
  then show ?thesis unfolding scanners_results threat_verdict_clean Bex_def Ball_def in_outcomes by blast
qed

definition clean_answer :: analyzer_result where
  "clean_answer = \<lparr>an_analyzer = [], an_verdict = '' Clean'', an_score = 0, an_categories = [], an_findings = [], an_iocs = [], an_deferred = False\<rparr>"

definition half_broken :: scan_runtime where
  "half_broken = \<lparr>rt_clamav = None, rt_yara = None, rt_analyzers =
     [\<lparr>ac_name = ''sandbox'', ac_max_bytes = 0, ac_post = (\<lambda>_. NoReply ''timeout'')\<rparr>,
      \<lparr>ac_name = ''lexical'', ac_max_bytes = 0, ac_post = (\<lambda>_. Answer clean_answer)\<rparr>]\<rparr>"

theorem failed_analysis_clean_witness:
  "threat_verdict (sn_results (apply_scanners half_broken ''A: b'' ''text'')) = ''clean''"
proof -
  have lower: "to_lower (trim_space '' Clean'') = ''clean''" by code_simp
  have a: "analyze c m = (if ac_name c = ''sandbox'' then Inl ''timeout''
      else Inr (clean_answer\<lparr>an_analyzer := ''lexical'', an_verdict := ''clean''\<rparr>))" if "c \<in> set (rt_analyzers half_broken)" for c m
    using that lower by (auto simp: half_broken_def analyze_def normalize_analyzer_result_def clean_answer_def verdicts_def unique_trimmed_def Let_def)
  show ?thesis
    by (rule failed_analysis_clean [THEN iffD2]) (use a in \<open>auto simp: half_broken_def split: if_splits\<close>)
qed

section \<open>What the scanners see\<close>

lemma index_str_text: "index_str t s = Some i \<Longrightarrow> take i s @ t @ drop (i + length t) s = s"
proof (induction s arbitrary: i)
  case Nil
  then show ?case by (auto simp: has_prefix_iff split: if_splits)
next
  case (Cons c s)
  then show ?case by (auto simp: has_prefix_iff split: if_splits option.splits)
qed

text \<open>A message with CRLF line ends is shown to the scanners byte for byte.\<close>

lemma scanners_see_message:
  assumes "index_str (CRLF @ CRLF) raw = Some i" and "split_message raw = (h, b)"
  shows "raw_message h b = raw"
  using index_str_text [OF assms(1)] assms by (simp add: split_message_def raw_message_def numeral_eq_Suc)

text \<open>
  C32: A policy is told that a message is free of viruses exactly if a scanner is configured, could be
  asked about the bytes of the message and answered that it found nothing; a scanner that fails, refuses the size
  or is not there never makes a message clean.
\<close>

theorem av_clean_exact:
  "av_clean (apply_scanners rt header_block body) \<longleftrightarrow>
     (\<exists>peer max_bytes r. rt_clamav rt = Some (peer, max_bytes) \<and>
        clamav_scan peer max_bytes (raw_message header_block body) = Inr r \<and> \<not> cl_virus_found r)"
proof -
  let ?s = "apply_clamav (rt_clamav rt) (raw_message header_block body) new_scan"
  have "sn_av_available (fold take_outcome os s) = sn_av_available s \<and> sn_virus_status (fold take_outcome os s) = sn_virus_status s" for os s
    by (induction os arbitrary: s) (auto simp: take_outcome_def split: sum.split prod.split)
  then have "av_clean (apply_scanners rt header_block body) = av_clean ?s"
    by (simp add: av_clean_def apply_scanners_def apply_analyzers_def Let_def apply_yara_def split: option.split sum.split)
  then show ?thesis
    by (auto simp: av_clean_def apply_clamav_def new_scan_def split: option.splits sum.splits prod.splits)
qed

end
