(* ===== verification/NamedLists.thy ===== *)
theory NamedLists
  imports DomainNames Address
begin

text \<open>
  The named lists of addresses and domains a policy looks values up in: reading the files, \<^verbatim>\<open>loadList\<close> and
  \<^verbatim>\<open>splitNameSpec\<close> of \<^verbatim>\<open>cmd/mailscript/common.go\<close>, and the builtins of \<^verbatim>\<open>pkg/rules/engine.go\<close>. A list is the set of
  its entries, kept as a list without duplicates.
\<close>

section \<open>Reading\<close>

definition split_name_spec :: "string \<Rightarrow> string \<times> string" where
  "split_name_spec spec =
     (case index_byte CHR ''='' spec of
        Some i \<Rightarrow> if i > 0 then (take i spec, drop (Suc i) spec) else ([], spec)
      | None \<Rightarrow> ([], spec))"

definition max_scan_token :: nat where "max_scan_token = 64 * 1024"

text \<open>
  The lines of a \<^verbatim>\<open>bufio.Scanner\<close>: without their line end, with LF or CRLF, and without an empty rest at the end.
\<close>

definition scan_lines :: "string \<Rightarrow> string list" where
  "scan_lines content =
     (let parts = split_on LF content; lines = (if last parts = [] then butlast parts else parts)
      in map (\<lambda>l. trim_suffix l [CR]) lines)"

text \<open>A line that fills the buffer of the scanner ends it with an error.\<close>

definition scan_fails :: "string \<Rightarrow> bool" where
  "scan_fails content \<longleftrightarrow> list_ex (\<lambda>l. length l \<ge> max_scan_token) (split_on LF content)"

definition add_entry :: "string \<Rightarrow> string list \<Rightarrow> string list" where
  "add_entry raw entries =
     (let line = trim_space raw in
      if line = [] \<or> has_prefix line ''#'' then entries else List.insert (to_lower line) entries)"

definition load_list :: "(string \<Rightarrow> string option) \<Rightarrow> string \<Rightarrow> string + string list" where
  "load_list read path =
     (case read path of
        None \<Rightarrow> Inl ''open''
      | Some content \<Rightarrow>
          if scan_fails content then Inl ''bufio.Scanner: token too long''
          else Inr (fold add_entry (scan_lines content) []))"

section \<open>Lookup\<close>

type_synonym named_lists = "string \<rightharpoonup> string list"

definition in_list :: "named_lists \<Rightarrow> string \<Rightarrow> string \<Rightarrow> bool" where
  "in_list named name v \<longleftrightarrow>
     (case named name of None \<Rightarrow> False | Some entries \<Rightarrow> to_lower (trim_space v) \<in> set entries)"

definition list_size :: "named_lists \<Rightarrow> string \<Rightarrow> nat" where
  "list_size named name = (case named name of None \<Rightarrow> 0 | Some entries \<Rightarrow> length entries)"

definition domain_in_list :: "mail_lib \<Rightarrow> named_lists \<Rightarrow> string \<Rightarrow> string \<Rightarrow> bool" where
  "domain_in_list lib named name v \<longleftrightarrow>
     (case named name of
        None \<Rightarrow> False
      | Some entries \<Rightarrow>
          let host = to_lower (trim_space (if contains v ''@'' then domain_of lib v else v))
          in host \<noteq> [] \<and> list_ex (is_subdomain_of host) entries)"

section \<open>Facts\<close>

lemma entries_set:
  "set (fold add_entry lines out) = set out \<union> {to_lower (trim_space l) | l. l \<in> set lines \<and> trim_space l \<noteq> [] \<and> \<not> has_prefix (trim_space l) ''#''}"
  by (induction lines arbitrary: out) (auto simp: add_entry_def Let_def)

lemma entries_distinct: "distinct out \<Longrightarrow> distinct (fold add_entry lines out)"
  by (induction lines arbitrary: out) (auto simp: add_entry_def Let_def)

text \<open>
  a value is in a list that was read from a file exactly if it is, up to case and surrounding white space,
  one of the lines of the file that are neither blank nor comments; the size of the list counts these lines
  without repetitions.
\<close>

theorem list_lookup_exact:
  assumes "load_list read path = Inr entries" and "named name = Some entries" and "trim_space v \<noteq> []" and "\<not> has_prefix (trim_space v) ''#''"
  shows "(in_list named name v \<longleftrightarrow>
      (\<exists>content. read path = Some content \<and> (\<exists>line \<in> set (scan_lines content). equal_fold (trim_space line) (trim_space v)))) \<and>
    list_size named name = card (set entries)"
proof -
  from assms(1) obtain content where c: "read path = Some content" "entries = fold add_entry (scan_lines content) []"
    by (auto simp: load_list_def split: option.splits if_splits)
  have e: "equal_fold (trim_space line) (trim_space v) \<longleftrightarrow> to_lower (trim_space line) = to_lower (trim_space v)" for line
    by (simp add: equal_fold_def)
  have same: "trim_space line \<noteq> [] \<and> \<not> has_prefix (trim_space line) ''#''" if "to_lower (trim_space line) = to_lower (trim_space v)" for line
  proof -
    have "lower_char x = CHR ''#'' \<longleftrightarrow> x = CHR ''#''" for x by (rule lower_char_eq_nonletter) code_simp+
    then have "has_prefix s ''#'' \<longleftrightarrow> has_prefix (to_lower s) ''#''" for s by (cases s) (auto simp: has_prefix_def to_lower_def)
    with that assms(3,4) show ?thesis by (metis to_lower_eq_Nil)
  qed
  have "to_lower (trim_space v) \<in> set entries \<longleftrightarrow> (\<exists>line \<in> set (scan_lines content). equal_fold (trim_space line) (trim_space v))"
    unfolding c(2) entries_set e using same by (auto simp: image_iff) (metis same)+
  moreover have "distinct entries" unfolding c(2) by (simp add: entries_distinct)
  ultimately show ?thesis using assms(2) c(1) by (simp add: in_list_def list_size_def distinct_card)
qed

definition list_file :: string where
  "list_file = ''# partners'' @ [LF] @ '' A.Test '' @ CRLF @ [LF] @ ''b.test'' @ [LF] @ ''a.test''"

theorem list_lookup_exact_witness:
  "in_list [''good'' \<mapsto> [''b.test'', ''a.test'']] ''good'' '' A.TEST'' \<and> list_size [''good'' \<mapsto> [''b.test'', ''a.test'']] ''good'' = 2"
proof -
  have a: "load_list (\<lambda>_. Some list_file) ''f'' = Inr [''b.test'', ''a.test'']" "trim_space '' A.TEST'' \<noteq> []"
    "\<not> has_prefix (trim_space '' A.TEST'') ''#''"
    "list_ex (\<lambda>l. equal_fold (trim_space l) (trim_space '' A.TEST'')) (scan_lines list_file)"
    by code_simp+
  from list_lookup_exact [OF a(1) _ a(2,3), of "[''good'' \<mapsto> [''b.test'', ''a.test'']]" "''good''"] a(4)
  show ?thesis by (auto simp: list_ex_iff card_insert_if)
qed

end
