(* ===== verification/Startup.thy ===== *)
theory Startup
  imports GrpcServer PolicyProps NamedLists Runtime
begin

text \<open>
  How the proxy starts, \<^verbatim>\<open>runProxy\<close> of \<^verbatim>\<open>cmd/mailscript/proxy.go\<close> with \<^verbatim>\<open>loadUpstreamConfig\<close> (\<^verbatim>\<open>upstream.go\<close>),
  \<^verbatim>\<open>newHostAdapter\<close> (\<^verbatim>\<open>host_adapter.go\<close>), \<^verbatim>\<open>buildRuntime\<close> (\<^verbatim>\<open>common.go\<close>) and \<^verbatim>\<open>reloadPolicy\<close> (\<^verbatim>\<open>lifecycle.go\<close>): the checks
  of its options in their order, and what the sessions may rely on afterwards. The flags are a
  record; files, environment variables, sockets, X.509 and URL parsing are a parameter.
\<close>

section \<open>Steps that may fail\<close>

text \<open>A start is a sequence of steps; \<open>returns\<close> collects when a sequence returns.\<close>

named_theorems returns

definition check_that :: "bool \<Rightarrow> string \<Rightarrow> string + unit" where
  "check_that c e = (if c then Inr () else Inl e)"

definition and_then :: "string + 'a \<Rightarrow> ('a \<Rightarrow> string + 'b) \<Rightarrow> string + 'b" where
  "and_then m f = (case m of Inl e \<Rightarrow> Inl e | Inr x \<Rightarrow> f x)"

definition of_option :: "'a option \<Rightarrow> string \<Rightarrow> string + 'a" where
  "of_option x e = (case x of None \<Rightarrow> Inl e | Some y \<Rightarrow> Inr y)"

lemma check_that_returns [returns]: "check_that c e = Inr u \<longleftrightarrow> c"
  by (simp add: check_that_def)

lemma and_then_returns [returns]: "and_then m f = Inr y \<longleftrightarrow> (\<exists>x. m = Inr x \<and> f x = Inr y)"
  by (cases m) (simp_all add: and_then_def)

lemma of_option_returns [returns]: "of_option x e = Inr y \<longleftrightarrow> x = Some y"
  by (cases x) (simp_all add: of_option_def)

section \<open>The shared runtime\<close>

record runtime_flags =
  fl_dns :: bool
  fl_verify :: bool
  fl_dane :: bool
  fl_models :: "string list"
  fl_clamav :: string
  fl_yara :: string
  fl_analyzers :: "string list"
  fl_bert :: string
  fl_lists :: "string list"

record proxy_runtime =
  ru_dns :: bool
  ru_verify :: bool
  ru_dane :: bool
  ru_models :: "(string \<times> string) list"
  ru_clamav :: "string option"
  ru_yara :: "string option"
  ru_analyzers :: "(string \<times> string) list"
  ru_bert :: bool
  ru_lists :: named_lists

record url_parts =
  url_scheme :: string
  url_host :: string
  url_hostname :: string
  url_has_user :: bool
  url_query :: string
  url_fragment :: string

record start_env =
  se_getenv :: "string \<Rightarrow> string"
  se_read :: "string \<Rightarrow> string option"
  se_policy :: policy_env
  se_model :: "string \<Rightarrow> string \<Rightarrow> bool"
  se_vocab :: "string \<Rightarrow> bool"
  se_pem :: "string \<Rightarrow> bool"
  se_key_pair :: "string \<Rightarrow> string \<Rightarrow> bool"
  se_url :: "string \<Rightarrow> url_parts option"
  se_request_uri :: "string \<Rightarrow> url_parts option"
  se_capabilities :: "string \<Rightarrow> string \<Rightarrow> (int \<times> string list) option"
  se_grpc_listens :: "string \<Rightarrow> int \<Rightarrow> bool"
  se_smtp_listens :: "string \<Rightarrow> int \<Rightarrow> bool"

definition valid_analyzer_name :: "string \<Rightarrow> bool" where
  "valid_analyzer_name name \<longleftrightarrow>
     name \<noteq> [] \<and> list_all (\<lambda>c. is_lower c \<or> is_upper c \<or> is_digit c \<or> c \<in> {CHR ''.'', CHR ''_'', CHR ''-''}) name"

definition valid_analyzer_endpoint :: "start_env \<Rightarrow> string \<Rightarrow> bool" where
  "valid_analyzer_endpoint env endpoint \<longleftrightarrow>
     (case se_request_uri env endpoint of
        None \<Rightarrow> False
      | Some u \<Rightarrow> (url_scheme u = ''http'' \<or> url_scheme u = ''https'') \<and> url_host u \<noteq> [])"

fun load_models :: "start_env \<Rightarrow> string list \<Rightarrow> (string \<times> string) list \<Rightarrow> string + (string \<times> string) list" where
  "load_models env [] out = Inr out"
| "load_models env (spec # specs) out =
     (case split_name_spec spec of
        (name, path) \<Rightarrow>
          if se_model env name path then load_models env specs (out @ [(name, path)])
          else Inl (''load model '' @ go_quote path))"

definition quoted :: "string \<Rightarrow> string" where
  "quoted s = [CHR 0x27] @ s @ [CHR 0x27]"

fun add_analyzers :: "start_env \<Rightarrow> string list \<Rightarrow> (string \<times> string) list \<Rightarrow> string + (string \<times> string) list" where
  "add_analyzers env [] out = Inr out"
| "add_analyzers env (spec # specs) out =
     (case split_name_spec spec of
        (name, endpoint) \<Rightarrow>
          if \<not> valid_analyzer_name name \<or> \<not> valid_analyzer_endpoint env endpoint
          then Inl (''analyzer '' @ go_quote spec @ '' must be name=URL using letters, digits, '' @ quoted ''.'' @ '', '' @ quoted ''_'' @ '' or '' @ quoted ''-'')
          else if name \<in> fst ` set out then Inl (''duplicate analyzer name '' @ go_quote name)
          else add_analyzers env specs (out @ [(name, endpoint)]))"

fun load_lists :: "start_env \<Rightarrow> string list \<Rightarrow> named_lists \<Rightarrow> string + named_lists" where
  "load_lists env [] out = Inr out"
| "load_lists env (spec # specs) out =
     (case split_name_spec spec of
        (name, path) \<Rightarrow>
          if name = [] then Inl (''list '' @ go_quote spec @ '' must be given as name=path'')
          else (case load_list (se_read env) path of
              Inl e \<Rightarrow> Inl (''load list '' @ go_quote path @ '': '' @ e)
            | Inr entries \<Rightarrow> load_lists env specs (out(name \<mapsto> entries))))"

definition build_runtime :: "start_env \<Rightarrow> runtime_flags \<Rightarrow> string + proxy_runtime" where
  "build_runtime env f =
     (let verify = (fl_verify f \<or> fl_dane f); dns = (fl_dns f \<or> verify) in
      and_then (load_models env (fl_models f) []) (\<lambda>models.
      and_then (check_that (fl_clamav f = [] \<or> split_host_port (fl_clamav f) \<noteq> None) ''--clamav-addr must be host:port'') (\<lambda>_.
      and_then (add_analyzers env (fl_analyzers f) []) (\<lambda>analyzers.
      and_then (check_that (fl_bert f = [] \<or> se_vocab env (fl_bert f)) ''load vocabulary'') (\<lambda>_.
      and_then (load_lists env (fl_lists f) Map.empty) (\<lambda>named.
        Inr \<lparr>ru_dns = dns, ru_verify = verify, ru_dane = fl_dane f, ru_models = models,
          ru_clamav = (if fl_clamav f = [] then None else Some (fl_clamav f)),
          ru_yara = (if fl_yara f = [] then None else Some (trim_right_set (fl_yara f) ''/'')),
          ru_analyzers = analyzers, ru_bert = (fl_bert f \<noteq> []), ru_lists = named\<rparr>))))))"

section \<open>The backend and the host adapter\<close>

definition load_upstream_config :: "start_env \<Rightarrow> string \<Rightarrow> string \<Rightarrow> string \<Rightarrow> string \<Rightarrow> string + upstream_config" where
  "load_upstream_config env mode name ca user =
     (let password = se_getenv env ''MAILSCRIPT_UPSTREAM_PASSWORD'' in
      and_then (check_that (mode = ''plain'' \<or> mode = ''starttls'' \<or> mode = ''tls'') ''--upstream-tls must be plain, starttls, or tls'') (\<lambda>_.
      and_then (check_that (\<not> (user \<noteq> [] \<and> (mode = ''plain'' \<or> password = [])))
        ''upstream authentication requires TLS and MAILSCRIPT_UPSTREAM_PASSWORD'') (\<lambda>_.
      and_then (if ca = [] then Inr () else
          and_then (of_option (se_read env ca) ''open CA file'') (\<lambda>pem.
            check_that (se_pem env pem) ''no certificates in upstream CA file'')) (\<lambda>_.
        Inr \<lparr>uc_mode = mode, uc_server_name = name, uc_username = user, uc_password = password\<rparr>))))"

definition is_loopback_host :: "string \<Rightarrow> bool" where
  "is_loopback_host host \<longleftrightarrow> (case parse_ip host of None \<Rightarrow> host = ''localhost'' | Some ip \<Rightarrow> is_loopback ip)"

definition new_host_adapter :: "start_env \<Rightarrow> string \<Rightarrow> string \<Rightarrow> string + string list" where
  "new_host_adapter env base token =
     and_then (of_option (se_url env base) ''invalid delivery adapter URL'') (\<lambda>u.
     and_then (check_that (url_host u \<noteq> [] \<and> \<not> url_has_user u \<and> url_query u = [] \<and> url_fragment u = []) ''invalid delivery adapter URL'') (\<lambda>_.
     and_then (check_that (url_scheme u = ''https'' \<or> url_scheme u = ''http'' \<and> is_loopback_host (url_hostname u))
       ''delivery adapter requires HTTPS or loopback HTTP'') (\<lambda>_.
     and_then (of_option (se_capabilities env (trim_right_set base ''/'') token) ''delivery adapter request failed'') (\<lambda>(version, actions).
     (case adapter_capabilities version actions of Inl e \<Rightarrow> Inl (go_error_text e) | Inr accepted \<Rightarrow> Inr accepted)))))"

section \<open>Starting\<close>

record start_options =
  so_script :: string
  so_ports :: "int list"
  so_listen :: string
  so_max_connections :: int
  so_upstream :: string
  so_upstream_tls :: string
  so_upstream_name :: string
  so_upstream_ca :: string
  so_upstream_user :: string
  so_enable_tls :: bool
  so_disable_tls :: bool
  so_cert :: string
  so_key :: string
  so_submission :: bool
  so_forward_quarantine :: bool
  so_adapter_url :: string
  so_grpc_listen :: string
  so_grpc_port :: int
  so_grpc_token :: string
  so_flags :: runtime_flags

record started =
  st_proxy :: proxy
  st_runtime :: proxy_runtime
  st_max_connections :: int
  st_policy :: policy
  st_grpc_token :: "string option"

definition grpc_token :: "start_env \<Rightarrow> start_options \<Rightarrow> string" where
  "grpc_token env so = (if so_grpc_token so \<noteq> [] then so_grpc_token so else se_getenv env ''MAILSCRIPT_GRPC_TOKEN'')"

definition wants_tls :: "start_options \<Rightarrow> bool" where
  "wants_tls so \<longleftrightarrow> so_enable_tls so \<and> \<not> so_disable_tls so"

definition start_adapter :: "start_env \<Rightarrow> start_options \<Rightarrow> string + string list option" where
  "start_adapter env so =
     (if so_adapter_url so = [] then Inr None
      else and_then (new_host_adapter env (so_adapter_url so) (se_getenv env ''MAILSCRIPT_DELIVERY_TOKEN'')) (\<lambda>actions. Inr (Some actions)))"

definition start_proxy :: "start_env \<Rightarrow> start_options \<Rightarrow> string + started" where
  "start_proxy env so =
     (let token = grpc_token env so in
      and_then (check_that (so_upstream so \<noteq> []) ''--upstream is required: the proxy has no local delivery queue'') (\<lambda>_.
      and_then (check_that (split_host_port (so_upstream so) \<noteq> None) ''invalid --upstream'') (\<lambda>_.
      and_then (check_that (so_max_connections so > 0) ''--max-connections must be positive'') (\<lambda>_.
      and_then (check_that (token \<noteq> [] \<or> is_loopback_addr (so_grpc_listen so)) ''non-loopback gRPC requires an auth token'') (\<lambda>_.
      and_then (load_upstream_config env (so_upstream_tls so) (so_upstream_name so) (so_upstream_ca so) (so_upstream_user so)) (\<lambda>cfg.
      and_then (check_that (\<not> (so_submission so \<and> (\<not> so_enable_tls so \<or> so_disable_tls so \<or> so_upstream_tls so = ''plain'')))
        ''--submission requires incoming TLS and encrypted upstream transport'') (\<lambda>_.
      and_then (check_that (se_read env (so_script so) \<noteq> None) ''failed to read script'') (\<lambda>_.
      and_then (build_runtime env (so_flags so)) (\<lambda>rt.
      and_then (load_policy (se_policy env) (so_script so)) (\<lambda>policy.
      and_then (start_adapter env so) (\<lambda>adapter.
      and_then (check_that (\<not> wants_tls so \<or> so_cert so \<noteq> [] \<and> so_key so \<noteq> []) ''--cert and --key required when --enable-tls is set'') (\<lambda>_.
      and_then (check_that (\<not> wants_tls so \<or> se_key_pair env (so_cert so) (so_key so)) ''failed to load TLS certificate'') (\<lambda>_.
      and_then (new_grpc_server (so_grpc_listen so) (so_grpc_port so) token (se_grpc_listens env (so_grpc_listen so) (so_grpc_port so))) (\<lambda>guard.
      and_then (check_that (list_all (se_smtp_listens env (so_listen so)) (so_ports so)) ''listen'') (\<lambda>_.
        Inr \<lparr>st_proxy = \<lparr>px_server = so_upstream so, px_config = cfg, px_submission = so_submission so, px_tls = wants_tls so,
               px_forward_quarantine = so_forward_quarantine so, px_adapter = adapter\<rparr>,
             st_runtime = rt, st_max_connections = so_max_connections so, st_policy = policy, st_grpc_token = guard\<rparr>)))))))))))))))"

section \<open>Running\<close>

text \<open>What the main goroutine waits for: a listener that failed, a signal to end, or a signal to reload the policy.\<close>

datatype main_event = ListenerFailed string | Interrupted | Hangup policy_env

definition reload_policy :: "policy_env \<Rightarrow> string \<Rightarrow> policy \<Rightarrow> string option \<times> policy" where
  "reload_policy env sp current =
     (case load_policy env sp of Inl e \<Rightarrow> (Some e, current) | Inr p \<Rightarrow> (None, p))"

fun main_loop :: "string \<Rightarrow> main_event list \<Rightarrow> policy \<Rightarrow> string option option \<times> policy" where
  "main_loop sp [] p = (None, p)"
| "main_loop sp (ListenerFailed e # es) p = (Some (Some e), p)"
| "main_loop sp (Interrupted # es) p = (Some None, p)"
| "main_loop sp (Hangup env # es) p = main_loop sp es (snd (reload_policy env sp p))"

section \<open>What a start establishes\<close>

lemma upstream_config_checked:
  assumes "load_upstream_config env mode name ca user = Inr cfg"
  shows "uc_mode cfg = mode \<and> uc_username cfg = user \<and> mode \<in> {''plain'', ''starttls'', ''tls''} \<and>
    (user \<noteq> [] \<longrightarrow> mode \<noteq> ''plain'' \<and> uc_password cfg \<noteq> [])"
  using assms unfolding load_upstream_config_def Let_def returns by (auto split: if_splits)

lemma host_adapter_checked:
  assumes "new_host_adapter env base token = Inr actions"
  shows "''accept'' \<in> set actions \<and>
    (\<exists>u. se_url env base = Some u \<and> \<not> url_has_user u \<and>
       (url_scheme u = ''https'' \<or> url_scheme u = ''http'' \<and> is_loopback_host (url_hostname u)))"
  using assms unfolding new_host_adapter_def returns
  by (auto simp: returns adapter_capabilities_def split: sum.splits if_splits)

lemma grpc_server_checked:
  assumes "new_grpc_server addr port token listens = Inr guard"
  shows "guard = None \<longrightarrow> is_loopback_addr addr"
  using assms by (auto simp: new_grpc_server_def split: if_splits)

lemma main_loop_policy:
  "snd (main_loop sp es p) = p \<or> (\<exists>env. Hangup env \<in> set es \<and> load_policy env sp = Inr (snd (main_loop sp es p)))"
proof (induction sp es p rule: main_loop.induct)
  case (4 sp env es p)
  then show ?case by (cases "load_policy env sp") (auto simp: reload_policy_def)
qed simp_all

lemma started_checks:
  assumes "start_proxy env so = Inr st"
  shows "st_max_connections st > 0 \<and> split_host_port (px_server (st_proxy st)) \<noteq> None \<and>
    load_upstream_config env (so_upstream_tls so) (so_upstream_name so) (so_upstream_ca so) (so_upstream_user so)
      = Inr (px_config (st_proxy st)) \<and>
    (px_submission (st_proxy st) \<longrightarrow> px_tls (st_proxy st) \<and> so_upstream_tls so \<noteq> ''plain'') \<and>
    (px_tls (st_proxy st) \<longrightarrow> se_key_pair env (so_cert so) (so_key so)) \<and>
    load_policy (se_policy env) (so_script so) = Inr (st_policy st) \<and>
    start_adapter env so = Inr (px_adapter (st_proxy st)) \<and>
    (st_grpc_token st = None \<longrightarrow> is_loopback_addr (so_grpc_listen so))"
  using assms unfolding start_proxy_def Let_def returns
  by (clarsimp simp: returns wants_tls_def) (auto dest: grpc_server_checked)

lemma adapter_checked:
  assumes "start_adapter env so = Inr (Some actions)"
  shows "''accept'' \<in> set actions \<and>
    (\<exists>u. se_url env (so_adapter_url so) = Some u \<and>
       (url_scheme u = ''https'' \<or> url_scheme u = ''http'' \<and> is_loopback_host (url_hostname u)))"
proof (rule ccontr)
  assume "\<not> ?thesis"
  with assms show False unfolding start_adapter_def
    by (auto simp: returns split: if_splits dest!: host_adapter_checked)
qed

text \<open>
  C14: A proxy that has started accepts connections under a positive limit and serves gRPC without a token only
  on a loopback address. A submission listener has a certificate for its clients, and each connection
  it makes to the backend is encrypted before it is used; a service account is used only with a password and over TLS.
  A delivery adapter is reached over HTTPS or on the same host and accepts mail. Whatever signals follow, the policy
  that runs is one that was loaded in full, at the start or by a reload.
\<close>

theorem start_guarded:
  assumes "start_proxy env so = Inr st"
  defines "px \<equiv> st_proxy st"
  shows "st_max_connections st > 0 \<and>
    (st_grpc_token st = None \<longrightarrow> is_loopback_addr (so_grpc_listen so)) \<and>
    (px_submission px \<longrightarrow> se_key_pair env (so_cert so) (so_key so) \<and>
       (\<forall>net auth n u. connect_upstream net (px_config px) (px_server px) auth n = (None, Some u) \<longrightarrow> encrypted (u_events u))) \<and>
    (uc_username (px_config px) \<noteq> [] \<longrightarrow> uc_mode (px_config px) \<noteq> ''plain'' \<and> uc_password (px_config px) \<noteq> []) \<and>
    (\<forall>actions. px_adapter px = Some actions \<longrightarrow> ''accept'' \<in> set actions \<and>
       (\<exists>u. se_url env (so_adapter_url so) = Some u \<and>
          (url_scheme u = ''https'' \<or> url_scheme u = ''http'' \<and> is_loopback_host (url_hostname u)))) \<and>
    (\<forall>events. \<exists>penv \<in> insert (se_policy env) {e. Hangup e \<in> set events}.
       load_policy penv (so_script so) = Inr (snd (main_loop (so_script so) events (st_policy st))))"
proof -
  note c = started_checks [OF assms(1), folded px_def]
  from c have "load_upstream_config env (so_upstream_tls so) (so_upstream_name so) (so_upstream_ca so) (so_upstream_user so)
      = Inr (px_config px)" by blast
  note mode = upstream_config_checked [OF this]
  have enc: "encrypted (u_events u)"
    if "px_submission px" "connect_upstream net (px_config px) (px_server px) auth n = (None, Some u)" for net auth n u
    by (rule connect_encrypted [OF that(2)]) (use that(1) c mode in auto)
  have adapter: "''accept'' \<in> set actions \<and> (\<exists>u. se_url env (so_adapter_url so) = Some u \<and>
      (url_scheme u = ''https'' \<or> url_scheme u = ''http'' \<and> is_loopback_host (url_hostname u)))"
    if "px_adapter px = Some actions" for actions
    using adapter_checked c that by metis
  have policy: "\<exists>penv \<in> insert (se_policy env) {e. Hangup e \<in> set events}.
      load_policy penv (so_script so) = Inr (snd (main_loop (so_script so) events (st_policy st)))" for events
    using main_loop_policy [of "so_script so" events "st_policy st"] c by auto
  have account: "uc_username (px_config px) \<noteq> [] \<longrightarrow> uc_mode (px_config px) \<noteq> ''plain'' \<and> uc_password (px_config px) \<noteq> []"
    using mode by auto
  show ?thesis by (intro conjI impI allI) (use c account enc adapter policy in blast)+
qed

definition demo_flags :: runtime_flags where
  "demo_flags = \<lparr>fl_dns = False, fl_verify = True, fl_dane = False, fl_models = [], fl_clamav = ''127.0.0.1:3310'',
     fl_yara = ''http://y/'', fl_analyzers = [''spam=http://a/'', ''bad=http://b/''], fl_bert = [], fl_lists = [''vip=l'']\<rparr>"

definition demo_start_env :: start_env where
  "demo_start_env = \<lparr>se_getenv = (\<lambda>n. if n = ''MAILSCRIPT_UPSTREAM_PASSWORD'' then ''pw'' else []),
     se_read = (\<lambda>p. if p = ''a.star'' \<or> p = ''l'' then Some ''A'' else None), se_policy = demo_policy_env,
     se_model = (\<lambda>_ _. True), se_vocab = (\<lambda>_. True), se_pem = (\<lambda>_. True), se_key_pair = (\<lambda>c k. c = ''c'' \<and> k = ''k''),
     se_url = (\<lambda>_. Some \<lparr>url_scheme = ''http'', url_host = ''127.0.0.1:80'', url_hostname = ''127.0.0.1'', url_has_user = False,
        url_query = [], url_fragment = []\<rparr>),
     se_request_uri = (\<lambda>_. Some \<lparr>url_scheme = ''http'', url_host = ''a'', url_hostname = ''a'', url_has_user = False,
        url_query = [], url_fragment = []\<rparr>),
     se_capabilities = (\<lambda>_ _. Some (1, [''accept'', ''drop''])),
     se_grpc_listens = (\<lambda>_ _. True), se_smtp_listens = (\<lambda>_ _. True)\<rparr>"

definition demo_start :: start_options where
  "demo_start = \<lparr>so_script = ''a.star'', so_ports = [3025, 3587], so_listen = ''127.0.0.1'', so_max_connections = 100,
     so_upstream = ''b:25'', so_upstream_tls = ''starttls'', so_upstream_name = [], so_upstream_ca = [],
     so_upstream_user = ''relay'', so_enable_tls = True, so_disable_tls = False, so_cert = ''c'', so_key = ''k'',
     so_submission = True, so_forward_quarantine = False, so_adapter_url = ''http://127.0.0.1'',
     so_grpc_listen = ''127.0.0.1'', so_grpc_port = 50051, so_grpc_token = [], so_flags = demo_flags\<rparr>"

lemma demo_starts: "case start_proxy demo_start_env demo_start of Inl e \<Rightarrow> False
    | Inr st \<Rightarrow> px_submission (st_proxy st) \<and> px_adapter (st_proxy st) = Some [''accept'', ''drop'']"
  by code_simp

theorem start_guarded_witness:
  "\<exists>st. start_proxy demo_start_env demo_start = Inr st \<and> px_submission (st_proxy st) \<and>
     uc_username (px_config (st_proxy st)) = ''relay'' \<and> uc_password (px_config (st_proxy st)) \<noteq> []"
proof -
  obtain st where st: "start_proxy demo_start_env demo_start = Inr st" "px_submission (st_proxy st)"
    using demo_starts by (auto split: sum.splits)
  have "uc_username (px_config (st_proxy st)) = ''relay''"
    using started_checks [OF st(1)] upstream_config_checked by (fastforce simp: demo_start_def)
  with start_guarded [OF st(1)] st show ?thesis by auto
qed

text \<open>Starting without a token beyond the loopback, or submission over a plain backend, is refused.\<close>

lemma start_refusals:
  "case start_proxy demo_start_env (demo_start\<lparr>so_grpc_listen := ''0.0.0.0''\<rparr>) of
     Inl e \<Rightarrow> e = ''non-loopback gRPC requires an auth token'' | Inr _ \<Rightarrow> False"
  "case start_proxy demo_start_env (demo_start\<lparr>so_upstream_tls := ''plain'', so_upstream_user := []\<rparr>) of
     Inl e \<Rightarrow> e = ''--submission requires incoming TLS and encrypted upstream transport'' | Inr _ \<Rightarrow> False"
  "case start_proxy demo_start_env (demo_start\<lparr>so_upstream_ca := ''missing''\<rparr>) of
     Inl e \<Rightarrow> e = ''open CA file'' | Inr _ \<Rightarrow> False"
  by code_simp+

end
