(* ===== verification/Mailbox.thy ===== *)
theory Mailbox
  imports GoStrings "HOL-Library.Sublist"
begin

text \<open>
  Running a policy over stored mail: \<^verbatim>\<open>process\<close> over an mbox file or a Maildir (\<^verbatim>\<open>cmd/mailscript/process.go\<close>) and
  \<^verbatim>\<open>daemon test\<close> and \<^verbatim>\<open>daemon monitor\<close> over the inbox of a mail daemon (\<^verbatim>\<open>daemon.go\<close>). The contents of files and
  directories and the answers of the daemon are arguments, \<^verbatim>\<open>mail.ReadMessage\<close> and the policy
  engine are parameters.
\<close>

section \<open>The context of a stored message\<close>

record stored_context =
  mx_headers :: "string \<rightharpoonup> string"
  mx_body :: string
  mx_mime_type :: string
  mx_spam_score :: string
  mx_virus_status :: string
  mx_sender_domain :: string
  mx_dns_resolved :: bool
  mx_rbl_listed :: bool

record mail_outcome =
  mo_actions :: "string list"
  mo_logs :: "string list"
  mo_headers :: "(string \<times> string) list"

record process_result =
  pr_number :: int
  pr_from :: string
  pr_subject :: string
  pr_actions :: "string list"
  pr_logs :: "string list"
  pr_headers :: "(string \<times> string) list"
  pr_error :: string

text \<open>
  A reader gives the fields of a message by canonical name, each with its values in order, and the body; an engine gives
  the outcome of the policy.
\<close>

record mail_env =
  me_read :: "string \<Rightarrow> ((string \<times> string list) list \<times> string) option"
  me_engine :: "stored_context \<Rightarrow> string + mail_outcome"

definition extract_domain :: "string \<Rightarrow> string" where
  "extract_domain email = (case split_on CHR ''@'' email of [_, d] \<Rightarrow> d | _ \<Rightarrow> [])"

definition header_get :: "(string \<times> string list) list \<Rightarrow> string \<Rightarrow> string" where
  "header_get h key = (case map_of h key of Some (v # _) \<Rightarrow> v | _ \<Rightarrow> [])"

definition mailbox_context :: "(string \<times> string list) list \<Rightarrow> string \<Rightarrow> stored_context" where
  "mailbox_context h body =
     \<lparr>mx_headers = (\<lambda>k. case map_of h k of Some (v # _) \<Rightarrow> Some v | _ \<Rightarrow> None), mx_body = body,
      mx_mime_type = header_get h ''Content-Type'', mx_spam_score = ''0'', mx_virus_status = ''clean'',
      mx_sender_domain = extract_domain (header_get h ''From''), mx_dns_resolved = True, mx_rbl_listed = False\<rparr>"

definition process_stored :: "mail_env \<Rightarrow> int \<Rightarrow> string \<Rightarrow> process_result" where
  "process_stored env num raw =
     (let r0 = \<lparr>pr_number = num, pr_from = [], pr_subject = [], pr_actions = [], pr_logs = [], pr_headers = [], pr_error = []\<rparr> in
      case me_read env raw of
        None \<Rightarrow> r0\<lparr>pr_error := ''parse error''\<rparr>
      | Some (h, body) \<Rightarrow>
          let r1 = r0\<lparr>pr_from := header_get h ''From'', pr_subject := header_get h ''Subject''\<rparr> in
          (case me_engine env (mailbox_context h body) of
             Inl e \<Rightarrow> r1\<lparr>pr_error := ''execution error: '' @ e\<rparr>
           | Inr out \<Rightarrow> r1\<lparr>pr_actions := mo_actions out, pr_logs := mo_logs out, pr_headers := mo_headers out\<rparr>))"

section \<open>An mbox file\<close>

text \<open>
  The lines are what \<^verbatim>\<open>ReadString\<close> returns: with their LF, the last one, possibly empty, together with
  the end of the file or another error. The messages are numbered from 1.
\<close>

fun mbox_loop :: "(int \<Rightarrow> string \<Rightarrow> 'r) \<Rightarrow> int \<Rightarrow> bool \<Rightarrow> string list \<Rightarrow> string \<Rightarrow> int \<Rightarrow> 'r list \<Rightarrow> 'r list option" where
  "mbox_loop f limit fails [] buf num results = Some results"
| "mbox_loop f limit fails (line # rest) buf num results =
     (let eof = (rest = []) in
      if eof \<and> fails then None
      else if has_prefix line ''From '' \<and> buf = []
      then (if eof then Some results else mbox_loop f limit fails rest buf num results)
      else if has_prefix line ''From '' \<and> buf \<noteq> []
      then let num1 = num + 1 in
           if limit > 0 \<and> num1 > limit then Some results
           else let results1 = results @ [f num1 buf] in
                if eof then Some results1 else mbox_loop f limit fails rest [] num1 results1
      else let buf1 = buf @ line in
           if eof then (if buf1 \<noteq> [] then Some (results @ [f (num + 1) buf1]) else Some results)
           else mbox_loop f limit fails rest buf1 num results)"

definition process_mbox :: "(int \<Rightarrow> string \<Rightarrow> 'r) \<Rightarrow> int \<Rightarrow> (string \<times> bool) option \<Rightarrow> 'r list option" where
  "process_mbox f limit src =
     (case src of None \<Rightarrow> None
      | Some (content, fails) \<Rightarrow> mbox_loop f limit fails (split_after_lf content) [] 0 [])"

section \<open>A Maildir\<close>

datatype mail_dir = Missing | Unreadable | Entries "(bool \<times> string option) list"

text \<open>An entry is a directory or not, with the contents of the file if it can be read; \<open>g\<close> is the result for a file.\<close>

fun dir_loop :: "(int \<Rightarrow> string option \<Rightarrow> 'r) \<Rightarrow> int \<Rightarrow> (bool \<times> string option) list \<Rightarrow> int \<Rightarrow> 'r list \<Rightarrow> int \<times> 'r list" where
  "dir_loop g limit [] num results = (num, results)"
| "dir_loop g limit ((is_dir, raw) # es) num results =
     (if is_dir then dir_loop g limit es num results
      else if limit > 0 \<and> num + 1 > limit then (num + 1, results)
      else dir_loop g limit es (num + 1) (results @ [g (num + 1) raw]))"

fun maildir_loop :: "(int \<Rightarrow> string option \<Rightarrow> 'r) \<Rightarrow> int \<Rightarrow> mail_dir list \<Rightarrow> int \<Rightarrow> 'r list \<Rightarrow> 'r list option" where
  "maildir_loop g limit [] num results = Some results"
| "maildir_loop g limit (Missing # ds) num results = maildir_loop g limit ds num results"
| "maildir_loop g limit (Unreadable # ds) num results = None"
| "maildir_loop g limit (Entries es # ds) num results =
     (case dir_loop g limit es num results of
        (num1, results1) \<Rightarrow>
          if limit > 0 \<and> num1 \<ge> limit then Some results1 else maildir_loop g limit ds num1 results1)"

definition process_file :: "mail_env \<Rightarrow> int \<Rightarrow> string option \<Rightarrow> process_result" where
  "process_file env num raw =
     (case raw of
        None \<Rightarrow> \<lparr>pr_number = num, pr_from = [], pr_subject = [], pr_actions = [], pr_logs = [], pr_headers = [],
          pr_error = ''failed to read file''\<rparr>
      | Some r \<Rightarrow> process_stored env num r)"

definition process_maildir :: "mail_env \<Rightarrow> int \<Rightarrow> mail_dir \<Rightarrow> mail_dir \<Rightarrow> process_result list option" where
  "process_maildir env limit cur new = maildir_loop (process_file env) limit [cur, new] 0 []"

definition truncate_text :: "string \<Rightarrow> nat \<Rightarrow> string" where
  "truncate_text s n = (if length s \<le> n then s else take (n - 3) s @ ''...'')"

section \<open>The inbox of a daemon\<close>

text \<open>A number is kept as its text; the policy receives it unchanged.\<close>

datatype json_value = JString string | JNumber string | JOther

type_synonym json_object = "string \<rightharpoonup> json_value"

definition get_string :: "json_object \<Rightarrow> string \<Rightarrow> string" where
  "get_string m key = (case m key of Some (JString s) \<Rightarrow> s | _ \<Rightarrow> [])"

definition get_float :: "json_object \<Rightarrow> string \<Rightarrow> string" where
  "get_float m key = (case m key of Some (JNumber x) \<Rightarrow> x | _ \<Rightarrow> ''0'')"

fun raw_fields :: "string list \<Rightarrow> (string \<rightharpoonup> string) \<Rightarrow> (string \<rightharpoonup> string)" where
  "raw_fields [] h = h"
| "raw_fields (line # ls) h =
     raw_fields ls (case split2 CHR '':'' line of [k, v] \<Rightarrow> h(trim_space k \<mapsto> trim_space v) | _ \<Rightarrow> h)"

definition daemon_context :: "json_object \<Rightarrow> stored_context" where
  "daemon_context m =
     (let h0 = [''From'' \<mapsto> get_string m ''sender'', ''Subject'' \<mapsto> get_string m ''subject''];
          h = (case m ''raw_headers'' of Some (JString raw) \<Rightarrow> raw_fields (split_on LF raw) h0 | _ \<Rightarrow> h0);
          plain = get_string m ''body_plain''
      in \<lparr>mx_headers = h, mx_body = (if plain = [] then get_string m ''body_html'' else plain),
          mx_mime_type = ''text/plain'', mx_spam_score = get_float m ''spam_score'', mx_virus_status = ''clean'',
          mx_sender_domain = extract_domain (get_string m ''sender''), mx_dns_resolved = True, mx_rbl_listed = False\<rparr>)"

text \<open>\<^verbatim>\<open>daemon test\<close>: the outcomes of the first messages, \<open>limit\<close> at most.\<close>

definition daemon_test :: "(stored_context \<Rightarrow> string + mail_outcome) \<Rightarrow> int \<Rightarrow> json_object list \<Rightarrow> (string + mail_outcome) list" where
  "daemon_test engine limit messages =
     map (\<lambda>m. engine (daemon_context m)) (if limit > 0 then take (nat limit) messages else messages)"

text \<open>
  \<^verbatim>\<open>daemon monitor\<close>: a poll fails or returns the inbox. The state is the number of messages of the last inbox
  and, for the theorems, all messages that were processed.
\<close>

datatype 'm poll = PollFailed | Inbox "'m list"

fun monitor_step :: "'m poll \<Rightarrow> nat \<times> 'm list \<Rightarrow> nat \<times> 'm list" where
  "monitor_step PollFailed s = s"
| "monitor_step (Inbox messages) (last_count, processed) =
     (length messages, if length messages > last_count then processed @ drop last_count messages else processed)"

definition run_monitor :: "'m poll list \<Rightarrow> 'm list" where
  "run_monitor polls = snd (fold monitor_step polls (0, []))"

section \<open>What is processed\<close>

text \<open>The messages of an mbox file: the non-empty groups of lines between lines that start with \<^verbatim>\<open>From\<close> and a space.\<close>

fun mbox_messages :: "string \<Rightarrow> string list \<Rightarrow> string list" where
  "mbox_messages buf [] = (if buf = [] then [] else [buf])"
| "mbox_messages buf (line # rest) =
     (if has_prefix line ''From '' then (if buf = [] then [] else [buf]) @ mbox_messages [] rest
      else mbox_messages (buf @ line) rest)"

text \<open>How many of them are followed by such a line.\<close>

fun mbox_closed :: "string \<Rightarrow> string list \<Rightarrow> nat" where
  "mbox_closed buf [] = 0"
| "mbox_closed buf (line # rest) =
     (if has_prefix line ''From '' then (if buf = [] then 0 else 1) + mbox_closed [] rest
      else mbox_closed (buf @ line) rest)"

fun numbered :: "(int \<Rightarrow> 'a \<Rightarrow> 'r) \<Rightarrow> int \<Rightarrow> 'a list \<Rightarrow> 'r list" where
  "numbered f n [] = []"
| "numbered f n (x # xs) = f n x # numbered f (n + 1) xs"

lemma length_numbered [simp]: "length (numbered f n xs) = length xs"
  by (induction xs arbitrary: n) auto

lemma numbered_append: "numbered f n (xs @ ys) = numbered f n xs @ numbered f (n + int (length xs)) ys"
  by (induction xs arbitrary: n) (auto simp: algebra_simps)

lemma mbox_closed_le: "mbox_closed buf ls \<le> length (mbox_messages buf ls)"
  by (induction buf ls rule: mbox_closed.induct) auto

lemma mbox_closed_last: "length (mbox_messages buf ls) \<le> mbox_closed buf ls + 1"
  by (induction buf ls rule: mbox_closed.induct) auto

definition within_limit :: "int \<Rightarrow> int \<Rightarrow> nat \<Rightarrow> 'a list \<Rightarrow> 'a list" where
  "within_limit limit num closed ms = (if limit > 0 \<and> num + int closed > limit then take (nat (limit - num)) ms else ms)"

lemma within_limit_Cons:
  "within_limit limit num (Suc k) (m # ms) =
     (if limit > 0 \<and> num + 1 > limit then take (nat (limit - num)) [m] else m # within_limit limit (num + 1) k ms)"
proof (cases "limit > 0 \<and> num + 1 > limit")
  case True
  then show ?thesis by (simp add: within_limit_def)
next
  case False
  then have "limit \<le> 0 \<or> nat (limit - num) = Suc (nat (limit - (num + 1)))" by auto
  with False show ?thesis by (auto simp: within_limit_def algebra_simps)
qed

lemma mbox_loop_exact:
  assumes "ls \<noteq> []" and "limit > 0 \<longrightarrow> num \<le> limit"
  shows "mbox_loop f limit False ls buf num results =
    Some (results @ numbered f (num + 1) (within_limit limit num (mbox_closed buf ls) (mbox_messages buf ls)))"
  using assms
proof (induction buf ls arbitrary: num results rule: mbox_closed.induct)
  case (2 buf line rest)
  show ?case
  proof (cases "has_prefix line ''From ''")
    case False
    with 2 show ?thesis by (cases "rest = []") (auto simp: within_limit_def Let_def)
  next
    case True
    show ?thesis
    proof (cases "buf = []")
      case empty: True
      with True 2 show ?thesis by (cases "rest = []") (auto simp: within_limit_def Let_def)
    next
      case False
      show ?thesis
      proof (cases "rest = []")
        case True
        with \<open>has_prefix line ''From ''\<close> False 2 show ?thesis by (auto simp: within_limit_def Let_def)
      next
        case rest: False
        with \<open>has_prefix line ''From ''\<close> False 2 show ?thesis
          by (auto simp: within_limit_Cons Let_def)
      qed
    qed
  qed
qed simp

lemma split_after_lf_ne [simp]: "split_after_lf s \<noteq> []"
  by (induction s) (auto split: list.splits)

lemma split_after_lf_Cons: "LF \<notin> set l \<Longrightarrow> split_after_lf (l @ LF # s) = (l @ [LF]) # split_after_lf s"
  by (induction l) auto

text \<open>A message as an mbox file can hold it: lines with their LF, none of which starts with \<^verbatim>\<open>From\<close> and a space.\<close>

definition mbox_line :: "string \<Rightarrow> bool" where
  "mbox_line l \<longleftrightarrow> LF \<notin> set l \<and> \<not> has_prefix (l @ [LF]) ''From ''"

definition mbox_text :: "string list \<Rightarrow> string" where
  "mbox_text lines = concat (map (\<lambda>l. l @ [LF]) lines)"

definition write_mbox :: "string list list \<Rightarrow> string" where
  "write_mbox ms = concat (map (\<lambda>m. ''From x'' @ [LF] @ mbox_text m) ms)"

lemma mbox_messages_lines:
  "list_all mbox_line m \<Longrightarrow>
     mbox_messages buf (split_after_lf (mbox_text m @ s)) = mbox_messages (buf @ mbox_text m) (split_after_lf s) \<and>
     mbox_closed buf (split_after_lf (mbox_text m @ s)) = mbox_closed (buf @ mbox_text m) (split_after_lf s)"
proof (induction m arbitrary: buf)
  case (Cons l m)
  then have l: "LF \<notin> set l" "\<not> has_prefix (l @ [LF]) ''From ''" by (auto simp: mbox_line_def)
  from Cons.IH [of "buf @ l @ [LF]"] Cons.prems l show ?case
    by (simp add: mbox_text_def split_after_lf_Cons)
qed (simp add: mbox_text_def)

lemma mbox_messages_From:
  "mbox_messages buf (split_after_lf (''From x'' @ LF # s)) = (if buf = [] then [] else [buf]) @ mbox_messages [] (split_after_lf s) \<and>
   mbox_closed buf (split_after_lf (''From x'' @ LF # s)) = (if buf = [] then 0 else 1) + mbox_closed [] (split_after_lf s)"
  using split_after_lf_Cons [of "''From x''" s] by (simp add: has_prefix_def)

lemma mbox_text_eq_Nil [simp]: "mbox_text m = [] \<longleftrightarrow> m = []"
  by (cases m) (simp_all add: mbox_text_def)

lemma write_mbox_read:
  assumes "list_all (\<lambda>m. m \<noteq> [] \<and> list_all mbox_line m) ms"
  shows "mbox_messages buf (split_after_lf (write_mbox ms)) = (if buf = [] then [] else [buf]) @ map mbox_text ms \<and>
    mbox_closed buf (split_after_lf (write_mbox ms)) = (if buf = [] then length ms - 1 else length ms)"
  using assms
proof (induction ms arbitrary: buf)
  case (Cons m ms)
  have eq: "write_mbox (m # ms) = ''From x'' @ LF # mbox_text m @ write_mbox ms" by (simp add: write_mbox_def)
  from Cons mbox_messages_lines [of m "[]" "write_mbox ms"] mbox_messages_From [of buf "mbox_text m @ write_mbox ms"]
  show ?case unfolding eq by auto
qed (simp_all add: write_mbox_def has_prefix_def)

lemma process_mbox_eq:
  "process_mbox f limit (Some (content, False)) = Some (numbered f 1
     (within_limit limit 0 (mbox_closed [] (split_after_lf content)) (mbox_messages [] (split_after_lf content))))"
  using mbox_loop_exact [of "split_after_lf content" limit 0 f "[]" "[]"] by (simp add: process_mbox_def)

text \<open>
  Processing an mbox file that messages were written to processes them in their order and unchanged. Defect: the limit
  is not applied to the message the file ends with, so with a limit of one less than the number of messages all are processed.
\<close>

theorem mbox_processed:
  assumes "list_all (\<lambda>m. m \<noteq> [] \<and> list_all mbox_line m) ms"
  shows "process_mbox f limit (Some (write_mbox ms, False)) = Some (numbered f 1
    (if limit > 0 \<and> int (length ms) \<noteq> limit + 1 then take (nat limit) (map mbox_text ms) else map mbox_text ms))"
proof -
  have "within_limit limit 0 (length ms - 1) (map mbox_text ms) =
      (if limit > 0 \<and> int (length ms) \<noteq> limit + 1 then take (nat limit) (map mbox_text ms) else map mbox_text ms)"
    by (cases ms) (auto simp: within_limit_def)
  with write_mbox_read [OF assms, of "[]"] show ?thesis by (simp add: process_mbox_eq)
qed

theorem mbox_processed_witness:
  "process_mbox (\<lambda>i m. (i, m)) 1 (Some (write_mbox [[''a''], [''b'', ''c'']], False)) =
     Some [(1, ''a'' @ [LF]), (2, ''b'' @ [LF] @ ''c'' @ [LF])] \<and>
   process_mbox (\<lambda>i m. (i, m)) 1 (Some (write_mbox [[''a''], [''b''], [''c'']], False)) = Some [(1, ''a'' @ [LF])]"
  using mbox_processed [of "[[''a''], [''b'', ''c'']]" "\<lambda>i m. (i, m)" 1]
    mbox_processed [of "[[''a''], [''b''], [''c'']]" "\<lambda>i m. (i, m)" 1]
  by (simp add: mbox_line_def has_prefix_def mbox_text_def)

text \<open>In general one message more than the limit is processed at most.\<close>

lemma mbox_limit:
  assumes "limit > 0" and "process_mbox f limit src = Some results"
  shows "int (length results) \<le> limit + 1"
proof -
  consider content where "src = Some (content, False)" | content where "src = Some (content, True)"
    using assms(2) by (cases src) (auto simp: process_mbox_def)
  then show ?thesis
  proof cases
    case 1
    let ?ls = "split_after_lf content"
    have "length (mbox_messages [] ?ls) \<le> mbox_closed [] ?ls + 1" by (rule mbox_closed_last)
    with assms 1 show ?thesis by (auto simp: process_mbox_eq within_limit_def)
  next
    case 2
    have "mbox_loop f limit True ls buf num results0 = Some results \<Longrightarrow> ls \<noteq> [] \<Longrightarrow> num \<le> limit \<Longrightarrow>
        int (length results0) = num \<Longrightarrow> int (length results) \<le> limit + 1" for ls buf num results0
    proof (induction ls arbitrary: buf num results0)
      case (Cons l ls)
      then show ?case using assms(1) by (auto simp: Let_def split: if_splits)
    qed simp
    from this [of "split_after_lf content" "[]" 0 "[]"] assms 2 show ?thesis by (simp add: process_mbox_def)
  qed
qed

text \<open>A line of a body that starts with \<^verbatim>\<open>From\<close> and a space ends the message; quoting it with \<^verbatim>\<open>>\<close> is not undone.\<close>

lemma mbox_body_split:
  "process_mbox (\<lambda>i m. m) 0 (Some (''From x'' @ [LF] @ ''a'' @ [LF] @ ''From me'' @ [LF] @ ''b'', False)) = Some [''a'' @ [LF], ''b'']"
  "process_mbox (\<lambda>i m. m) 0 (Some (''From x'' @ [LF] @ ''>From me'', False)) = Some [''>From me'']"
  by code_simp+

section \<open>Maildirs\<close>

fun dir_files :: "mail_dir \<Rightarrow> string option list" where
  "dir_files (Entries es) = map snd (filter (\<lambda>e. \<not> fst e) es)"
| "dir_files _ = []"

lemma dir_loop_files:
  assumes "limit > 0 \<longrightarrow> num \<le> limit"
  shows "dir_loop g limit es num results =
    (let fs = dir_files (Entries es) in
     if limit > 0 \<and> num + int (length fs) > limit then (limit + 1, results @ numbered g (num + 1) (take (nat (limit - num)) fs))
     else (num + int (length fs), results @ numbered g (num + 1) fs))"
  using assms
proof (induction es arbitrary: num results)
  case (Cons e es)
  obtain d raw where e: "e = (d, raw)" by force
  show ?case
  proof (cases d)
    case True
    with Cons e show ?thesis by simp
  next
    case False
    show ?thesis
    proof (cases "limit > 0 \<and> num + 1 > limit")
      case True
      with Cons.prems False e show ?thesis by (auto simp: Let_def)
    next
      case more: False
      then have t: "limit > 0 \<Longrightarrow> nat (limit - num) = Suc (nat (limit - (num + 1)))" by auto
      from more Cons.IH [of "num + 1" "results @ [g (num + 1) raw]"] False e
      show ?thesis by (auto simp: Let_def t algebra_simps)
    qed
  qed
qed (auto simp: Let_def)

text \<open>
  Processing a Maildir gives one result for each file, first those of \<^verbatim>\<open>cur\<close>, then those of \<^verbatim>\<open>new\<close>, at most as many
  as the limit.
\<close>

theorem maildir_processed:
  assumes "cur \<noteq> Unreadable" and "new \<noteq> Unreadable"
  shows "process_maildir env limit cur new = Some (numbered (process_file env) 1
    (if limit > 0 then take (nat limit) (dir_files cur @ dir_files new) else dir_files cur @ dir_files new))"
proof -
  have one: "maildir_loop g limit [d] num results = Some (results @ numbered g (num + 1)
      (if limit > 0 then take (nat (limit - num)) (dir_files d) else dir_files d))"
    if "d \<noteq> Unreadable" "limit > 0 \<longrightarrow> num \<le> limit" for g d num and results :: "process_result list"
    using that by (cases d) (auto simp: dir_loop_files Let_def)
  show ?thesis
  proof (cases cur)
    case Missing
    then show ?thesis using one [of new 0 "process_file env" "[]"] assms by (simp add: process_maildir_def)
  next
    case Unreadable
    with assms show ?thesis by simp
  next
    case (Entries es)
    let ?n = "int (length (dir_files cur))"
    show ?thesis
    proof (cases "limit > 0 \<and> ?n \<ge> limit")
      case True
      then show ?thesis using Entries by (auto simp: process_maildir_def dir_loop_files Let_def)
    next
      case False
      then have t: "limit > 0 \<Longrightarrow> nat limit - length (dir_files cur) = nat (limit - ?n)" by linarith
      from False one [of new ?n "process_file env" "numbered (process_file env) 1 (dir_files cur)"] Entries assms t
      show ?thesis by (auto simp: process_maildir_def dir_loop_files Let_def numbered_append algebra_simps)
    qed
  qed
qed

definition demo_mail_env :: mail_env where
  "demo_mail_env = \<lparr>me_read = (\<lambda>raw. if raw = [] then None else Some ([(''From'', [''Bob <b@c.test>''])], raw)),
     me_engine = (\<lambda>c. Inr \<lparr>mo_actions = [mx_sender_domain c], mo_logs = [mx_virus_status c], mo_headers = []\<rparr>)\<rparr>"

theorem maildir_processed_witness:
  "\<exists>r1 r2. process_maildir demo_mail_env 2 (Entries [(True, None), (False, Some ''x'')]) (Entries [(False, None), (False, Some ''y'')])
     = Some [r1, r2] \<and> pr_actions r1 = [''c.test>''] \<and> pr_logs r1 = [''clean''] \<and> pr_error r2 = ''failed to read file''"
  using maildir_processed [of "Entries [(True, None), (False, Some ''x'')]" "Entries [(False, None), (False, Some ''y'')]" demo_mail_env 2]
  by (simp add: process_file_def process_stored_def demo_mail_env_def mailbox_context_def header_get_def extract_domain_def
      split_on_def numeral_2_eq_2)

section \<open>What a policy is told\<close>

text \<open>
  The domain of a sender given with a display name keeps the bracket behind it, so a policy that compares it with a domain never
  matches; and the virus status is \<^verbatim>\<open>clean\<close> although nothing was scanned.
\<close>

lemma sender_domain_bracket:
  assumes "CHR ''@'' \<notin> set (name @ local @ domain)"
  shows "extract_domain (name @ '' <'' @ local @ ''@'' @ domain @ ''>'') = domain @ ''>''"
proof -
  have "split_on CHR ''@'' ((name @ '' <'' @ local) @ CHR ''@'' # (domain @ ''>'')) = [name @ '' <'' @ local, domain @ ''>'']"
    unfolding split_on_def using assms by (subst split_where_append) (auto intro!: split_where_no)
  then show ?thesis by (simp add: extract_domain_def)
qed

lemma unscanned_clean:
  "mx_virus_status (mailbox_context h body) = ''clean''" "mx_virus_status (daemon_context m) = ''clean''"
  by (simp_all add: mailbox_context_def daemon_context_def Let_def)

section \<open>Monitoring\<close>

fun inbox_grows :: "'m list \<Rightarrow> 'm poll list \<Rightarrow> bool" where
  "inbox_grows seen [] = True"
| "inbox_grows seen (PollFailed # ps) = inbox_grows seen ps"
| "inbox_grows seen (Inbox ms # ps) = (prefix seen ms \<and> inbox_grows ms ps)"

fun last_inbox :: "'m list \<Rightarrow> 'm poll list \<Rightarrow> 'm list" where
  "last_inbox seen [] = seen"
| "last_inbox seen (PollFailed # ps) = last_inbox seen ps"
| "last_inbox seen (Inbox ms # ps) = last_inbox ms ps"

lemma monitor_growing:
  "inbox_grows seen polls \<Longrightarrow> snd (fold monitor_step polls (length seen, seen)) = last_inbox seen polls"
proof (induction seen polls rule: inbox_grows.induct)
  case (3 seen ms ps)
  then have "seen @ drop (length seen) ms = ms" by (auto simp: prefix_def)
  moreover have "length ms > length seen \<or> ms = seen" using 3(2) by (auto simp: prefix_def)
  ultimately have "monitor_step (Inbox ms) (length seen, seen) = (length ms, ms)" by auto
  with 3 show ?case by simp
qed simp_all

text \<open>
  While the inbox only grows, monitoring processes every message exactly once, in order, whatever polls fail; otherwise it
  can miss messages: one that arrives while another is removed is never processed.
\<close>

theorem monitor_each_once:
  assumes "inbox_grows [] polls"
  shows "run_monitor polls = last_inbox [] polls \<and>
    run_monitor [Inbox [a], Inbox [b]] = [a]"
  using monitor_growing [OF assms] by (simp add: run_monitor_def)

theorem monitor_each_once_witness:
  "run_monitor [Inbox [1], PollFailed, Inbox [1, 2], Inbox [1, 2, 3 :: nat]] = [1, 2, 3]"
proof -
  have "inbox_grows [] [Inbox [1], PollFailed, Inbox [1, 2], Inbox [1, 2, 3 :: nat]]" by simp
  from monitor_each_once [OF this, THEN conjunct1] show ?thesis by (simp only: last_inbox.simps)
qed

end
