(* ===== verification/Corpus.thy ===== *)
theory Corpus
  imports Mailbox Content Message "HOL-Library.Multiset"
begin

text \<open>
  Reading labelled mail for training, \<^verbatim>\<open>cmd/mailscript/train.go\<close>: the corpora by label, mbox files and Maildirs, and the text
  of a message, which has to be the one the classifier builtins of \<^verbatim>\<open>pkg/rules/builtins_ml.go\<close> feed to a model. The contents
  of files and directories are arguments; what training does with the documents is outside.
\<close>

section \<open>The text of a message\<close>

definition text_lines :: "string \<Rightarrow> string \<Rightarrow> string" where
  "text_lines subject from =
     (if subject \<noteq> [] then ''subject: '' @ subject @ [LF] else []) @ (if from \<noteq> [] then ''from: '' @ from @ [LF] else [])"

definition classifier_text :: "message \<Rightarrow> mime_view \<Rightarrow> string \<Rightarrow> string" where
  "classifier_text m v body = text_lines (msg_get m ''Subject'') (msg_get m ''From'') @ search_text v body"

type_synonym doc = "string \<times> string"

definition message_doc :: "(string \<Rightarrow> (message \<times> mime_view \<times> string) option) \<Rightarrow> string \<Rightarrow> string \<Rightarrow> doc option" where
  "message_doc parse label raw =
     (case parse raw of
        None \<Rightarrow> None
      | Some (m, v, body) \<Rightarrow>
          let text = trim_space (text_lines (msg_get m ''Subject'') (msg_get m ''From'') @ search_text v body) in
          if text = [] then None else Some (label, text))"

section \<open>Mailboxes\<close>

definition flush_doc :: "(string \<Rightarrow> 'd option) \<Rightarrow> string \<Rightarrow> 'd list \<Rightarrow> 'd list" where
  "flush_doc doc buf docs =
     (if buf = [] then docs else (case doc buf of None \<Rightarrow> docs | Some d \<Rightarrow> docs @ [d]))"

fun corpus_loop :: "(string \<Rightarrow> 'd option) \<Rightarrow> int \<Rightarrow> bool \<Rightarrow> string list \<Rightarrow> string \<Rightarrow> 'd list \<Rightarrow> 'd list option" where
  "corpus_loop doc limit fails [] buf docs = Some docs"
| "corpus_loop doc limit fails (line # rest) buf docs =
     (if has_prefix line ''From ''
      then let docs1 = flush_doc doc buf docs in
           if limit > 0 \<and> int (length docs1) \<ge> limit then Some docs1
           else if rest = [] then (if fails then None else Some docs1)
           else corpus_loop doc limit fails rest [] docs1
      else let buf1 = buf @ line in
           if rest = [] then (if fails then None else Some (flush_doc doc buf1 docs))
           else corpus_loop doc limit fails rest buf1 docs)"

definition load_mbox_corpus :: "(string \<Rightarrow> 'd option) \<Rightarrow> int \<Rightarrow> (string \<times> bool) option \<Rightarrow> 'd list option" where
  "load_mbox_corpus doc limit src =
     (case src of None \<Rightarrow> None
      | Some (content, fails) \<Rightarrow> corpus_loop doc limit fails (split_after_lf content) [] [])"

text \<open>The files of the directories \<^verbatim>\<open>cur\<close>, \<^verbatim>\<open>new\<close> and the Maildir itself; a directory that cannot be read is left out.\<close>

fun corpus_dir :: "(string \<Rightarrow> 'd option) \<Rightarrow> int \<Rightarrow> (bool \<times> string option) list \<Rightarrow> 'd list \<Rightarrow> bool \<times> 'd list" where
  "corpus_dir doc limit [] docs = (False, docs)"
| "corpus_dir doc limit ((is_dir, raw) # es) docs =
     (if is_dir then corpus_dir doc limit es docs
      else if limit > 0 \<and> int (length docs) \<ge> limit then (True, docs)
      else (case raw of
          None \<Rightarrow> corpus_dir doc limit es docs
        | Some r \<Rightarrow> corpus_dir doc limit es (case doc r of None \<Rightarrow> docs | Some d \<Rightarrow> docs @ [d])))"

fun load_maildir_corpus :: "(string \<Rightarrow> 'd option) \<Rightarrow> int \<Rightarrow> (bool \<times> string option) list option list \<Rightarrow> 'd list \<Rightarrow> 'd list" where
  "load_maildir_corpus doc limit [] docs = docs"
| "load_maildir_corpus doc limit (None # ds) docs = load_maildir_corpus doc limit ds docs"
| "load_maildir_corpus doc limit (Some es # ds) docs =
     (case corpus_dir doc limit es docs of
        (stop, docs1) \<Rightarrow> if stop then docs1 else load_maildir_corpus doc limit ds docs1)"

datatype corpus_source = NoSource | Mbox "(string \<times> bool) option" | Maildir "(bool \<times> string option) list option list"

definition load_corpus :: "(string \<Rightarrow> 'd option) \<Rightarrow> int \<Rightarrow> corpus_source \<Rightarrow> 'd list option" where
  "load_corpus doc limit src =
     (case src of NoSource \<Rightarrow> None | Mbox f \<Rightarrow> load_mbox_corpus doc limit f
      | Maildir ds \<Rightarrow> Some (load_maildir_corpus doc limit ds []))"

section \<open>Training\<close>

type_synonym corpora = "(string \<times> string list) list"

fun add_corpus :: "string \<Rightarrow> string \<Rightarrow> corpora \<Rightarrow> corpora" where
  "add_corpus label path [] = [(label, [path])]"
| "add_corpus label path ((l, ps) # cs) = (if l = label then (l, ps @ [path]) # cs else (l, ps) # add_corpus label path cs)"

fun add_labels :: "string list \<Rightarrow> corpora \<Rightarrow> string + corpora" where
  "add_labels [] cs = Inr cs"
| "add_labels (spec # specs) cs =
     (case index_byte CHR '':'' spec of
        Some (Suc i) \<Rightarrow> add_labels specs (add_corpus (take (Suc i) spec) (drop (i + 2) spec) cs)
      | _ \<Rightarrow> Inl (''--label must be given as label:path, got '' @ go_quote spec))"

text \<open>\<open>load\<close> is the corpus a path holds, for a label.\<close>

fun load_paths :: "(string \<Rightarrow> string \<Rightarrow> 'd list option) \<Rightarrow> string \<Rightarrow> string list \<Rightarrow> string + 'd list" where
  "load_paths load label [] = Inr []"
| "load_paths load label (path # paths) =
     (case load label path of
        None \<Rightarrow> Inl (''load '' @ label @ '' corpus '' @ go_quote path)
      | Some docs \<Rightarrow> (case load_paths load label paths of Inl e \<Rightarrow> Inl e | Inr more_docs \<Rightarrow> Inr (docs @ more_docs)))"

fun load_labels :: "(string \<Rightarrow> string \<Rightarrow> 'd list option) \<Rightarrow> corpora \<Rightarrow> string list \<Rightarrow> string + 'd list" where
  "load_labels load cs [] = Inr []"
| "load_labels load cs (label # labels) =
     (case load_paths load label (case map_of cs label of None \<Rightarrow> [] | Some ps \<Rightarrow> ps) of
        Inl e \<Rightarrow> Inl e
      | Inr docs \<Rightarrow>
          if docs = [] then Inl (''corpus for label '' @ go_quote label @ '' contained no messages'')
          else (case load_labels load cs labels of Inl e \<Rightarrow> Inl e | Inr rest \<Rightarrow> Inr (docs @ rest)))"

definition training_docs :: "(string \<Rightarrow> string \<Rightarrow> 'd list option) \<Rightarrow> string list \<Rightarrow> string list \<Rightarrow> string list \<Rightarrow> string + 'd list" where
  "training_docs load spam ham labels =
     (let cs0 = fold (add_corpus ''ham'') ham (fold (add_corpus ''spam'') spam []) in
      case add_labels labels cs0 of
        Inl e \<Rightarrow> Inl e
      | Inr cs \<Rightarrow>
          if length cs < 2 then Inl ''at least two labelled corpora are required; pass --spam and --ham, or two --label flags''
          else load_labels load cs (sort (map fst cs)))"

section \<open>What is read\<close>

definition up_to :: "int \<Rightarrow> 'a list \<Rightarrow> 'a list" where
  "up_to limit xs = (if limit > 0 then take (nat limit) xs else xs)"

lemma flush_doc_filter: "flush_doc doc buf docs = docs @ (if buf = [] then [] else List.map_filter doc [buf])"
  by (simp add: flush_doc_def List.map_filter_def split: option.split)

lemma length_map_filter_one: "length (List.map_filter doc [x]) \<le> 1"
  by (simp add: List.map_filter_def split: option.split)

lemma map_filter_append: "List.map_filter f (xs @ ys) = List.map_filter f xs @ List.map_filter f ys"
  by (simp add: List.map_filter_def)

lemma map_filter_Cons: "List.map_filter f (x # xs) = List.map_filter f [x] @ List.map_filter f xs"
  by (simp add: List.map_filter_def)

lemma map_filter_Nil: "List.map_filter f [] = []"
  by (simp add: List.map_filter_def)

lemma corpus_loop_exact:
  assumes "ls \<noteq> []" and "limit > 0 \<longrightarrow> int (length docs) < limit"
  shows "corpus_loop doc limit False ls buf docs = Some (up_to limit (docs @ List.map_filter doc (mbox_messages buf ls)))"
  using assms
proof (induction buf ls arbitrary: docs rule: mbox_messages.induct)
  case (2 buf line rest)
  define docs1 where "docs1 = flush_doc doc buf docs"
  have flush: "docs1 = docs @ (if buf = [] then [] else List.map_filter doc [buf])"
    by (simp add: docs1_def flush_doc_filter)
  have short: "limit > 0 \<longrightarrow> int (length (flush_doc doc b docs)) \<le> limit" for b
    using 2(4) length_map_filter_one [of doc b] by (auto simp: flush_doc_filter)
  show ?case
  proof (cases "has_prefix line ''From ''")
    case True
    have ms: "docs @ List.map_filter doc (mbox_messages buf (line # rest)) = docs1 @ List.map_filter doc (mbox_messages [] rest)"
      using True by (cases "doc buf") (simp_all add: flush List.map_filter_def)
    show ?thesis
    proof (cases "limit > 0 \<and> int (length docs1) \<ge> limit")
      case full: True
      then have "nat limit = length docs1" using short [of buf] by (auto simp: docs1_def)
      then have "up_to limit (docs1 @ List.map_filter doc (mbox_messages [] rest)) = docs1"
        using full by (simp add: up_to_def)
      with full True ms show ?thesis by (simp add: docs1_def Let_def)
    next
      case False
      show ?thesis
      proof (cases "rest = []")
        case True
        with False \<open>has_prefix line ''From ''\<close> ms show ?thesis
          by (auto simp: docs1_def Let_def up_to_def map_filter_Nil)
      next
        case rest: False
        with False True 2(1) [OF True rest, of docs1] ms show ?thesis by (auto simp: docs1_def Let_def)
      qed
    qed
  next
    case False
    show ?thesis
    proof (cases "rest = []")
      case True
      with False short [of "buf @ line"] show ?thesis
        by (auto simp: Let_def up_to_def flush_doc_filter map_filter_Nil)
    next
      case rest: False
      with False 2(2) [OF False rest] 2(4) show ?thesis by (simp add: Let_def)
    qed
  qed
qed simp

lemma corpus_dir_exact:
  assumes "limit > 0 \<longrightarrow> int (length docs) \<le> limit"
  shows "snd (corpus_dir doc limit es docs) =
      up_to limit (docs @ List.map_filter doc (List.map_filter (\<lambda>x. x) (dir_files (Entries es))))"
  using assms
proof (induction es arbitrary: docs)
  case (Cons e es)
  obtain d raw where e: "e = (d, raw)" by force
  show ?case
  proof (cases d)
    case True
    with Cons e show ?thesis by simp
  next
    case dir: False
    show ?thesis
    proof (cases "limit > 0 \<and> int (length docs) \<ge> limit")
      case True
      with Cons.prems dir e show ?thesis by (auto simp: up_to_def)
    next
      case False
      then have less: "limit > 0 \<longrightarrow> int (length docs) < limit" by auto
      show ?thesis
      proof (cases "raw = None \<or> doc (the raw) = None")
        case True
        with Cons.IH [of docs] less dir e show ?thesis
          by (cases raw) (auto simp: List.map_filter_def)
      next
        case False
        then obtain r x where x: "raw = Some r" "doc r = Some x" by auto
        with Cons.IH [of "docs @ [x]"] less dir e show ?thesis by (auto simp: List.map_filter_def)
      qed
    qed
  qed
qed (auto simp: up_to_def List.map_filter_def)

lemma corpus_dir_stops:
  "limit > 0 \<longrightarrow> int (length docs) \<le> limit \<Longrightarrow> corpus_dir doc limit es docs = (True, docs1) \<Longrightarrow>
     limit > 0 \<and> int (length docs1) = limit"
proof (induction es arbitrary: docs)
  case (Cons e es)
  obtain d raw where e: "e = (d, raw)" by force
  show ?case
  proof (cases "\<not> d \<and> limit > 0 \<and> int (length docs) \<ge> limit")
    case True
    with Cons.prems e show ?thesis by auto
  next
    case False
    define docs2 where "docs2 = (if d \<or> raw = None \<or> doc (the raw) = None then docs else docs @ [the (doc (the raw))])"
    have "corpus_dir doc limit es docs2 = (True, docs1)"
      using Cons.prems(2) False e by (auto simp: docs2_def split: if_splits option.splits)
    moreover have "limit > 0 \<longrightarrow> int (length docs2) \<le> limit"
      using Cons.prems(1) False by (auto simp: docs2_def)
    ultimately have "limit > 0 \<longrightarrow> int (length docs2) \<le> limit" "corpus_dir doc limit es docs2 = (True, docs1)" by blast+
    then show ?thesis by (rule Cons.IH)
  qed
qed simp

fun corpus_files :: "(bool \<times> string option) list option \<Rightarrow> string list" where
  "corpus_files None = []"
| "corpus_files (Some es) = List.map_filter (\<lambda>x. x) (dir_files (Entries es))"

text \<open>
  Training reads an mbox file into the documents of its messages in order, the messages being the same ones that
  processing the file finds, and stops at the limit.
\<close>

theorem corpus_mbox_exact:
  "load_mbox_corpus doc limit (Some (content, False)) =
     Some (up_to limit (List.map_filter doc (mbox_messages [] (split_after_lf content)))) \<and>
   process_mbox (\<lambda>_ m. m) 0 (Some (content, False)) = Some (mbox_messages [] (split_after_lf content))"
proof -
  have ident: "numbered (\<lambda>_ m. m) n xs = xs" for n and xs :: "string list"
    by (induction xs arbitrary: n) auto
  show ?thesis
    using corpus_loop_exact [of "split_after_lf content" limit "[]" doc "[]"]
    by (simp add: load_mbox_corpus_def process_mbox_eq within_limit_def ident)
qed

lemma load_maildir_corpus_full:
  "limit > 0 \<Longrightarrow> int (length docs) = limit \<Longrightarrow> load_maildir_corpus doc limit ds docs = docs"
proof (induction doc limit ds docs rule: load_maildir_corpus.induct)
  case (3 doc limit es ds docs)
  have "snd (corpus_dir doc limit es docs) = docs"
    using corpus_dir_exact [of limit docs doc es] 3 by (simp add: up_to_def)
  with 3 show ?case by (auto split: prod.splits)
qed simp_all

lemma load_maildir_corpus_exact:
  assumes "limit > 0 \<longrightarrow> int (length docs) \<le> limit"
  shows "load_maildir_corpus doc limit ds docs = up_to limit (docs @ List.map_filter doc (concat (map corpus_files ds)))"
  using assms
proof (induction ds arbitrary: docs)
  case (Cons d ds)
  show ?case
  proof (cases d)
    case None
    with Cons show ?thesis by simp
  next
    case (Some es)
    obtain stop docs1 where c: "corpus_dir doc limit es docs = (stop, docs1)" by force
    define new where "new = docs @ List.map_filter doc (corpus_files (Some es))"
    have d: "docs1 = up_to limit new" "stop \<longrightarrow> limit > 0 \<and> int (length docs1) = limit"
      using corpus_dir_exact [OF Cons.prems, of doc es] corpus_dir_stops [OF Cons.prems, of doc es docs1] c by (auto simp: new_def)
    have len: "limit > 0 \<longrightarrow> int (length docs1) \<le> limit" by (auto simp: d(1) up_to_def)
    have cut: "up_to limit (docs1 @ xs) = up_to limit (new @ xs)" for xs
      by (auto simp: d(1) up_to_def min_def)
    have "load_maildir_corpus doc limit (d # ds) docs = load_maildir_corpus doc limit ds docs1"
      using Some c d load_maildir_corpus_full [of limit docs1 doc ds] by auto
    with Cons.IH [OF len] Some cut show ?thesis by (simp add: new_def map_filter_append del: corpus_files.simps)
  qed
qed (auto simp: up_to_def List.map_filter_def)

section \<open>The training set\<close>

lemma add_corpus_labels:
  "map fst (add_corpus label path cs) = (if label \<in> fst ` set cs then map fst cs else map fst cs @ [label])"
  by (induction label path cs rule: add_corpus.induct) auto

lemma distinct_add_corpus: "distinct (map fst cs) \<Longrightarrow> distinct (map fst (add_corpus label path cs))"
  by (auto simp: add_corpus_labels)

lemma distinct_fold_corpus: "distinct (map fst cs) \<Longrightarrow> distinct (map fst (fold (add_corpus label) paths cs))"
  by (induction paths arbitrary: cs) (simp_all add: distinct_add_corpus)

lemma distinct_add_labels: "distinct (map fst cs) \<Longrightarrow> add_labels specs cs = Inr cs' \<Longrightarrow> distinct (map fst cs')"
  by (induction specs cs rule: add_labels.induct) (auto simp: distinct_add_corpus split: option.splits nat.splits)

lemma load_paths_labelled:
  assumes "\<forall>p ds. load label p = Some ds \<longrightarrow> (\<forall>d \<in> set ds. fst d = label)"
  shows "load_paths load label paths = Inr docs \<Longrightarrow> \<forall>d \<in> set docs. fst d = label"
proof (induction paths arbitrary: docs)
  case (Cons p ps)
  then show ?case using assms by (fastforce split: option.splits sum.splits)
qed simp

lemma load_labels_labelled:
  assumes labelled: "\<And>l p ds. load l p = Some ds \<Longrightarrow> \<forall>d \<in> set ds. fst d = l"
  shows "load_labels load cs labels = Inr docs \<Longrightarrow> sorted labels \<Longrightarrow>
    fst ` set docs = set labels \<and> sorted (map fst docs)"
proof (induction labels arbitrary: docs)
  case (Cons l ls)
  then obtain d1 d2 where d: "load_paths load l (case map_of cs l of None \<Rightarrow> [] | Some ps \<Rightarrow> ps) = Inr d1" "d1 \<noteq> []"
      "load_labels load cs ls = Inr d2" "docs = d1 @ d2"
    by (auto split: sum.splits if_splits)
  have one: "\<forall>d \<in> set d1. fst d = l" by (rule load_paths_labelled [OF _ d(1)]) (use labelled in blast)
  then have "map fst d1 = replicate (length d1) l" by (intro replicate_eqI) auto
  moreover have "fst ` set d1 = {l}" using one d(2) by (cases d1) auto
  ultimately show ?case using Cons.IH [OF d(3)] Cons.prems d(4) by (auto simp: sorted_append)
qed simp

text \<open>
  If a training set is accepted, it has documents of at least two labels, none of the labels asked for is empty, and the documents are
  ordered by label.
\<close>

theorem training_covers:
  assumes "training_docs load spam ham labels = Inr docs"
    and "\<And>l p ds. load l p = Some ds \<Longrightarrow> \<forall>d \<in> set ds. fst d = l"
  shows "card (fst ` set docs) \<ge> 2 \<and> sorted (map fst docs) \<and>
    (spam \<noteq> [] \<longrightarrow> ''spam'' \<in> fst ` set docs) \<and> (ham \<noteq> [] \<longrightarrow> ''ham'' \<in> fst ` set docs)"
proof -
  let ?cs0 = "fold (add_corpus ''ham'') ham (fold (add_corpus ''spam'') spam [])"
  obtain cs where cs: "add_labels labels ?cs0 = Inr cs" "length cs \<ge> 2" "load_labels load cs (sort (map fst cs)) = Inr docs"
    using assms(1) by (auto simp: training_docs_def split: sum.splits if_splits)
  have dist: "distinct (map fst cs)"
    using cs(1) by (rule distinct_add_labels [rotated]) (intro distinct_fold_corpus, simp)
  have keep: "l \<in> fst ` set c \<Longrightarrow> l \<in> fst ` set (fold (add_corpus k) ps c)" for l k ps c
    by (induction ps arbitrary: c)
      (simp_all, metis add_corpus_labels list.set_map Un_iff set_append)
  have new: "ps \<noteq> [] \<Longrightarrow> k \<in> fst ` set (fold (add_corpus k) ps c)" for k ps c
  proof (cases ps)
    case (Cons p ps')
    have "k \<in> set (map fst (add_corpus k p c))" unfolding add_corpus_labels by auto
    then show ?thesis unfolding Cons by (simp add: keep)
  qed simp
  have keep2: "l \<in> fst ` set c \<Longrightarrow> add_labels specs c = Inr c' \<Longrightarrow> l \<in> fst ` set c'" for l specs c c'
  proof (induction specs c rule: add_labels.induct)
    case (2 spec specs c)
    then obtain i where i: "index_byte CHR '':'' spec = Some (Suc i)"
        "add_labels specs (add_corpus (take (Suc i) spec) (drop (i + 2) spec) c) = Inr c'"
      by (auto split: option.splits nat.splits)
    have "l \<in> set (map fst (add_corpus (take (Suc i) spec) (drop (i + 2) spec) c))"
      unfolding add_corpus_labels using 2(2) by auto
    then show ?case using 2(1) [OF i(1) refl _ i(2)] by simp
  qed simp
  from load_labels_labelled [OF assms(2) cs(3)]
  have docs: "fst ` set docs = fst ` set cs" "sorted (map fst docs)" by auto
  have "card (fst ` set docs) = length cs"
    using dist docs(1) distinct_card [of "map fst cs"] by simp
  with cs(2) docs keep2 [OF _ cs(1)] new keep show ?thesis by metis
qed

definition demo_load :: "string \<Rightarrow> string \<Rightarrow> doc list option" where
  "demo_load label path = (if path = [] then None else Some [(label, path)])"

theorem training_covers_witness:
  "\<exists>docs. training_docs demo_load [''a''] [''b'', ''c''] [''news:d''] = Inr docs \<and> ''ham'' \<in> fst ` set docs \<and> sorted (map fst docs)"
proof -
  define r where "r = training_docs demo_load [''a''] [''b'', ''c''] [''news:d'']"
  have "case r of Inl e \<Rightarrow> False | Inr docs \<Rightarrow> True" unfolding r_def by code_simp
  then obtain docs where docs: "training_docs demo_load [''a''] [''b'', ''c''] [''news:d''] = Inr docs"
    by (auto simp: r_def split: sum.splits)
  have "\<forall>d \<in> set ds. fst d = l" if "demo_load l p = Some ds" for l p ds
    using that by (auto simp: demo_load_def split: if_splits)
  from training_covers [OF docs this] docs show ?thesis by simp
qed

text \<open>
  The documents models are trained on have the text that is classified, up to white space at its ends.
\<close>

lemma message_doc_text:
  "message_doc parse label raw = Some (l, text) \<Longrightarrow>
     l = label \<and> (\<exists>m v body. parse raw = Some (m, v, body) \<and> text = trim_space (classifier_text m v body) \<and> text \<noteq> [])"
  by (auto simp: message_doc_def classifier_text_def Let_def split: option.splits if_splits)

end
