(* ===== verification/WordPiece.thy ===== *)
theory WordPiece
  imports NamedLists Pattern
begin

text \<open>
  The tokenizer for BERT vocabularies, \<^verbatim>\<open>pkg/ml/bert.go\<close>: splitting a text into words and segmenting them greedily into the pieces
  of a fixed vocabulary, the identifiers of the pieces and back. A rune is the list of its bytes. The tables of \<^verbatim>\<open>unicode\<close>
  for marks and punctuation beyond ASCII are a parameter.
\<close>

section \<open>Runes\<close>

definition rune_error :: string where
  "rune_error = [CHR 0xEF, CHR 0xBF, CHR 0xBD]"

definition runes_of :: "string \<Rightarrow> string list" where
  "runes_of s = map (\<lambda>r. case r of None \<Rightarrow> rune_error | Some b \<Rightarrow> b) (utf8_runes s)"

text \<open>The code point of a rune.\<close>

definition rune_code :: "string \<Rightarrow> nat" where
  "rune_code r =
     (case map char_code r of
        [a] \<Rightarrow> a
      | [a, b] \<Rightarrow> (a - 0xC0) * 64 + (b - 128)
      | [a, b, c] \<Rightarrow> (a - 0xE0) * 4096 + (b - 128) * 64 + (c - 128)
      | [a, b, c, d] \<Rightarrow> (a - 0xF0) * 262144 + (b - 128) * 4096 + (c - 128) * 64 + (d - 128)
      | _ \<Rightarrow> 0)"

record unicode_tables =
  un_mark :: "nat \<Rightarrow> bool"
  un_punct :: "nat \<Rightarrow> bool"

definition is_control_rune :: "string \<Rightarrow> bool" where
  "is_control_rune r \<longleftrightarrow>
     (let n = rune_code r in \<not> (n = 9 \<or> n = 10 \<or> n = 13) \<and> (n < 32 \<or> 127 \<le> n \<and> n < 160 \<or> r = rune_error))"

definition is_punctuation_rune :: "unicode_tables \<Rightarrow> string \<Rightarrow> bool" where
  "is_punctuation_rune un r \<longleftrightarrow>
     (let n = rune_code r; c = char_of n in
      if n \<le> 127 then \<not> is_upper c \<and> \<not> is_lower c \<and> \<not> is_digit c \<and> \<not> is_space c else un_punct un n)"

definition is_cjk_rune :: "string \<Rightarrow> bool" where
  "is_cjk_rune r \<longleftrightarrow>
     (let n = rune_code r in
      list_ex (\<lambda>(lo, hi). lo \<le> n \<and> n \<le> hi)
        [(0x4E00, 0x9FFF), (0x3400, 0x4DBF), (0x20000, 0x2A6DF), (0x2A700, 0x2B73F), (0x2B740, 0x2B81F),
         (0x2B820, 0x2CEAF), (0xF900, 0xFAFF), (0x2F800, 0x2FA1F)])"

definition strip_accents :: "unicode_tables \<Rightarrow> string \<Rightarrow> string" where
  "strip_accents un s = concat (filter (\<lambda>r. \<not> un_mark un (rune_code r)) (runes_of s))"

section \<open>Words\<close>

record bert_tokenizer =
  bt_ids :: "string list"
  bt_lowercase :: bool
  bt_max_chars :: nat

text \<open>The vocabulary maps a token to its first index.\<close>

definition vocab_id :: "bert_tokenizer \<Rightarrow> string \<Rightarrow> nat option" where
  "vocab_id t token = (if token \<in> set (bt_ids t) then Some (length (takeWhile (\<lambda>v. v \<noteq> token) (bt_ids t))) else None)"

definition new_bert_tokenizer :: "string list \<Rightarrow> bool \<Rightarrow> bert_tokenizer" where
  "new_bert_tokenizer vocab lowercase = \<lparr>bt_ids = vocab, bt_lowercase = lowercase, bt_max_chars = 100\<rparr>"

definition load_bert_vocab :: "string option \<Rightarrow> bool \<Rightarrow> string + bert_tokenizer" where
  "load_bert_vocab content lowercase =
     (case content of
        None \<Rightarrow> Inl ''ml: open BERT vocabulary''
      | Some text \<Rightarrow>
          if list_ex (\<lambda>l. length l \<ge> 1024 * 1024) (split_on LF text) then Inl ''ml: read BERT vocabulary''
          else let vocab = map (\<lambda>l. trim_right_set l [CR, LF]) (scan_lines text) in
               if vocab = [] then Inl ''ml: BERT vocabulary is empty'' else Inr (new_bert_tokenizer vocab lowercase))"

fun split_runes :: "unicode_tables \<Rightarrow> string list \<Rightarrow> string \<Rightarrow> string list" where
  "split_runes un [] cur = (if cur = [] then [] else [cur])"
| "split_runes un (r # rs) cur =
     (if is_control_rune r then split_runes un rs cur
      else if is_punctuation_rune un r \<or> is_cjk_rune r
      then (if cur = [] then [] else [cur]) @ [r] @ split_runes un rs []
      else split_runes un rs (cur @ r))"

definition basic_tokenize :: "unicode_tables \<Rightarrow> bert_tokenizer \<Rightarrow> string \<Rightarrow> string list" where
  "basic_tokenize un t text =
     concat (map (\<lambda>chunk. split_runes un (runes_of (if bt_lowercase t then to_lower (strip_accents un chunk) else chunk)) [])
       (str_fields text))"

section \<open>Pieces\<close>

definition piece_text :: "bool \<Rightarrow> string list \<Rightarrow> string" where
  "piece_text first rs = (if first then concat rs else ''##'' @ concat rs)"

text \<open>The longest of the prefixes of at most \<open>n\<close> runes that is in the vocabulary.\<close>

fun longest_piece :: "bert_tokenizer \<Rightarrow> bool \<Rightarrow> string list \<Rightarrow> nat \<Rightarrow> nat option" where
  "longest_piece t first rs 0 = None"
| "longest_piece t first rs (Suc n) =
     (if vocab_id t (piece_text first (take (Suc n) rs)) \<noteq> None then Some (Suc n) else longest_piece t first rs n)"

lemma longest_piece_bounds: "longest_piece t first rs n = Some k \<Longrightarrow> 0 < k \<and> k \<le> n"
  by (induction n) (auto split: if_splits)

function word_pieces :: "bert_tokenizer \<Rightarrow> bool \<Rightarrow> string list \<Rightarrow> string list option" where
  "word_pieces t first rs =
     (if rs = [] then Some []
      else (case longest_piece t first rs (length rs) of
          None \<Rightarrow> None
        | Some n \<Rightarrow> map_option (\<lambda>ps. piece_text first (take n rs) # ps) (word_pieces t False (drop n rs))))"
  by pat_completeness auto
termination by (relation "measure (\<lambda>(t, first, rs). length rs)") (auto dest: longest_piece_bounds)

declare word_pieces.simps [simp del]

definition wordpiece :: "bert_tokenizer \<Rightarrow> string \<Rightarrow> string list" where
  "wordpiece t word =
     (let rs = runes_of word in
      if rs = [] then []
      else if bt_max_chars t > 0 \<and> length rs > bt_max_chars t then [''[UNK]'']
      else (case word_pieces t True rs of None \<Rightarrow> [''[UNK]''] | Some ps \<Rightarrow> ps))"

definition bert_tokenize :: "unicode_tables \<Rightarrow> bert_tokenizer \<Rightarrow> string \<Rightarrow> string list" where
  "bert_tokenize un t text =
     (if bt_ids t = [] then [] else concat (map (wordpiece t) (basic_tokenize un t text)))"

section \<open>Identifiers\<close>

definition token_id :: "bert_tokenizer \<Rightarrow> string \<Rightarrow> nat" where
  "token_id t token = (case vocab_id t token of Some i \<Rightarrow> i | None \<Rightarrow> 0)"

definition encode_token :: "bert_tokenizer \<Rightarrow> string \<Rightarrow> nat" where
  "encode_token t token = (case vocab_id t token of Some i \<Rightarrow> i | None \<Rightarrow> token_id t ''[UNK]'')"

definition limit_tokens :: "bool \<Rightarrow> int \<Rightarrow> string list \<Rightarrow> string list" where
  "limit_tokens add_special max_len tokens =
     (if add_special
      then let limit = max_len - 2;
               kept = (if max_len > 0 \<and> int (length tokens) > limit \<and> limit \<ge> 0 then take (nat limit) tokens else tokens)
           in ''[CLS]'' # kept @ [''[SEP]'']
      else if max_len > 0 \<and> int (length tokens) > max_len then take (nat max_len) tokens
      else tokens)"

definition bert_encode :: "unicode_tables \<Rightarrow> bert_tokenizer \<Rightarrow> string \<Rightarrow> bool \<Rightarrow> int \<Rightarrow> nat list" where
  "bert_encode un t text add_special max_len =
     (let tokens = limit_tokens add_special max_len (bert_tokenize un t text); ids = map (encode_token t) tokens
      in ids @ replicate (nat max_len - length ids) (token_id t ''[PAD]''))"

definition attention_mask :: "bert_tokenizer \<Rightarrow> nat list \<Rightarrow> nat list" where
  "attention_mask t ids = map (\<lambda>i. if i \<noteq> token_id t ''[PAD]'' then 1 else 0) ids"

fun decode_ids :: "bert_tokenizer \<Rightarrow> int list \<Rightarrow> string \<Rightarrow> string" where
  "decode_ids t [] sb = sb"
| "decode_ids t (i # is) sb =
     (if i < 0 \<or> i \<ge> int (length (bt_ids t)) then decode_ids t is sb
      else let token = bt_ids t ! nat i in
           if token = ''[PAD]'' \<or> token = ''[CLS]'' \<or> token = ''[SEP]'' then decode_ids t is sb
           else if has_prefix token ''##'' then decode_ids t is (sb @ drop 2 token)
           else decode_ids t is (sb @ (if sb \<noteq> [] then '' '' else []) @ token))"

definition bert_decode :: "bert_tokenizer \<Rightarrow> int list \<Rightarrow> string" where
  "bert_decode t ids = decode_ids t ids []"

section \<open>Runes and their text\<close>

definition valid_rune :: "string \<Rightarrow> bool" where
  "valid_rune r \<longleftrightarrow> r \<noteq> [] \<and> utf8_width r = Some (length r)"

lemma utf8_width_cases:
  assumes "utf8_width s = Some w"
  obtains (one) a r where "s = a # r" "w = 1" "char_code a < 0x80"
    | (two) a b r where "s = a # b # r" "w = 2" "0xC2 \<le> char_code a" "char_code a \<le> 0xDF"
    | (three) a b c r where "s = a # b # c # r" "w = 3" "0xE0 \<le> char_code a" "char_code a \<le> 0xEF"
    | (four) a b c d r where "s = a # b # c # d # r" "w = 4"
proof -
  obtain a r where s: "s = a # r" using assms by (cases s) (auto simp: utf8_width_def)
  consider "char_code a < 0x80" | "0xC2 \<le> char_code a" "char_code a \<le> 0xDF" | "0xE0 \<le> char_code a" "char_code a \<le> 0xEF"
    | "0xF0 \<le> char_code a" "char_code a \<le> 0xF4"
    using assms s by (fastforce simp: utf8_width_def Let_def split: if_splits)
  then show ?thesis
  proof cases
    case 1
    with assms s one show ?thesis by (simp add: utf8_width_def Let_def)
  next
    case 2
    with assms s two show ?thesis by (cases r) (simp_all add: utf8_width_def Let_def split: if_splits)
  next
    case 3
    then have "(case r of b # c # _ \<Rightarrow> w = 3 | _ \<Rightarrow> False)"
      using assms s by (simp add: utf8_width_def Let_def split: list.splits if_splits)
    with 3 s three show ?thesis by (auto split: list.splits)
  next
    case 4
    then have "(case r of b # c # d # _ \<Rightarrow> w = 4 | _ \<Rightarrow> False)"
      using assms s by (simp add: utf8_width_def Let_def split: list.splits if_splits)
    with s four show ?thesis by (auto split: list.splits)
  qed
qed

lemma utf8_width_take: "utf8_width s = Some w \<Longrightarrow> 0 < w \<and> w \<le> length s"
  by (erule utf8_width_cases) simp_all

lemma utf8_width_prefix:
  assumes "utf8_width s = Some w"
  shows "utf8_width (take w s @ t) = Some w"
  using assms
proof (cases rule: utf8_width_cases)
  case (one a r)
  then show ?thesis by (simp add: utf8_width_def Let_def)
next
  case (two a b r)
  with assms show ?thesis by (simp add: utf8_width_def Let_def numeral_2_eq_2)
next
  case (three a b c r)
  with assms show ?thesis by (simp add: utf8_width_def Let_def numeral_3_eq_3)
next
  case (four a b c d r)
  have "utf8_width (a # b # c # d # t) = utf8_width s"
    unfolding four by (simp only: utf8_width_def list.case)
  moreover have "take w s @ t = a # b # c # d # t" using four by (simp add: eval_nat_numeral)
  ultimately show ?thesis using assms by simp
qed

lemma valid_rune_append: "valid_rune r \<Longrightarrow> utf8_width (r @ t) = Some (length r)"
  using utf8_width_prefix [of r "length r" t] by (simp add: valid_rune_def)

lemma runes_valid: "r \<in> set (runes_of s) \<Longrightarrow> valid_rune r"
proof (induction s rule: utf8_runes.induct)
  case (1 s)
  have err: "valid_rune rune_error" by code_simp
  have ne: "s \<noteq> []" using 1(3) by (auto simp: runes_of_def utf8_runes.simps)
  show ?case
  proof (cases "utf8_width s")
    case None
    with 1 err ne show ?thesis by (auto simp: runes_of_def utf8_runes.simps [of s])
  next
    case (Some w)
    then have w: "0 < w" "w \<le> length s" using utf8_width_take by auto
    have "valid_rune (take w s)"
      using utf8_width_prefix [OF Some, of "[]"] w by (auto simp: valid_rune_def)
    with 1 Some w ne show ?thesis by (auto simp: runes_of_def utf8_runes.simps [of s])
  qed
qed

lemma runes_of_concat: "list_all valid_rune rs \<Longrightarrow> runes_of (concat rs) = rs"
proof (induction rs)
  case Nil
  then show ?case by (simp add: runes_of_def utf8_runes.simps)
next
  case (Cons r rs)
  then have "utf8_width (r @ concat rs) = Some (length r)" "r \<noteq> []"
    by (auto simp: valid_rune_append valid_rune_def)
  with Cons show ?case by (simp add: runes_of_def utf8_runes.simps [of "r @ concat rs"])
qed

section \<open>What the words are\<close>

text \<open>A word is a single rune or has no punctuation.\<close>

definition word_runes :: "unicode_tables \<Rightarrow> string list \<Rightarrow> bool" where
  "word_runes un rs \<longleftrightarrow> rs \<noteq> [] \<and> list_all valid_rune rs \<and> (length rs = 1 \<or> list_all (\<lambda>r. \<not> is_punctuation_rune un r) rs)"

lemma split_runes_words:
  "list_all valid_rune rs \<Longrightarrow> list_all valid_rune cs \<Longrightarrow> list_all (\<lambda>r. \<not> is_punctuation_rune un r) cs \<Longrightarrow>
     w \<in> set (split_runes un rs (concat cs)) \<Longrightarrow> \<exists>ws. w = concat ws \<and> word_runes un ws"
proof (induction rs arbitrary: cs)
  case Nil
  then have "w = concat cs \<and> cs \<noteq> []" by (auto split: if_splits)
  with Nil show ?case by (auto simp: word_runes_def)
next
  case (Cons r rs)
  have cur: "concat cs \<noteq> [] \<Longrightarrow> \<exists>ws. concat cs = concat ws \<and> word_runes un ws"
    using Cons.prems by (intro exI [of _ cs]) (auto simp: word_runes_def)
  have one: "word_runes un [r]" using Cons.prems by (simp add: word_runes_def)
  show ?case
  proof (cases "is_control_rune r")
    case True
    with Cons show ?thesis by simp
  next
    case False
    show ?thesis
    proof (cases "is_punctuation_rune un r \<or> is_cjk_rune r")
      case True
      then consider "w = concat cs" "concat cs \<noteq> []" | "w = r" | "w \<in> set (split_runes un rs (concat []))"
        using Cons.prems(4) False by (auto split: if_splits)
      then show ?thesis
      proof cases
        case 1
        with cur show ?thesis by simp
      next
        case 2
        with one show ?thesis by (intro exI [of _ "[r]"]) simp
      next
        case 3
        then show ?thesis using Cons.IH [of "[]"] Cons.prems by simp
      qed
    next
      case rest: False
      with Cons.IH [of "cs @ [r]"] Cons.prems False show ?thesis by simp
    qed
  qed
qed

lemma basic_words: "w \<in> set (basic_tokenize un t text) \<Longrightarrow> \<exists>ws. w = concat ws \<and> word_runes un ws"
  using split_runes_words [of _ "[]"] runes_valid by (fastforce simp: basic_tokenize_def list_all_iff)

lemma valid_rune_ascii: "valid_rune (c # r) \<Longrightarrow> char_code c < 128 \<Longrightarrow> r = []"
  by (auto simp: valid_rune_def utf8_width_def Let_def split: list.splits if_splits)

text \<open>Hence no word is mistaken for a continued piece or a special token.\<close>

lemma word_plain:
  assumes "word_runes un ws" and "c \<in> {CHR ''#'', CHR ''[''}" and "concat ws = c # rest"
  shows "rest = []"
proof -
  obtain r rs where ws: "ws = r # rs" using assms(1) by (cases ws) (auto simp: word_runes_def)
  then have "valid_rune r" using assms(1) by (simp add: word_runes_def)
  then obtain r' where r: "r = c # r'" using assms(3) ws by (cases r) (auto simp: valid_rune_def)
  have "char_code c < 128" using assms(2) by (auto simp: char_code_def)
  with valid_rune_ascii \<open>valid_rune r\<close> r have "r = [c]" by auto
  moreover have "is_punctuation_rune un [c]"
    using assms(2) by (elim insertE emptyE; hypsubst; code_simp)
  ultimately show ?thesis using assms(1,3) ws by (auto simp: word_runes_def)
qed

section \<open>What the pieces are\<close>

text \<open>A word was segmented rather than replaced by the token for unknown words.\<close>

definition segmented :: "bert_tokenizer \<Rightarrow> string \<Rightarrow> bool" where
  "segmented t w \<longleftrightarrow> \<not> (bt_max_chars t > 0 \<and> length (runes_of w) > bt_max_chars t) \<and> word_pieces t True (runes_of w) \<noteq> None"

lemma longest_piece_known:
  "longest_piece t first rs n = Some k \<Longrightarrow> piece_text first (take k rs) \<in> set (bt_ids t)"
  by (induction n) (auto simp: vocab_id_def split: if_splits)

lemma longest_piece_longest:
  "longest_piece t first rs n = Some k \<Longrightarrow> k < m \<Longrightarrow> m \<le> n \<Longrightarrow> piece_text first (take m rs) \<notin> set (bt_ids t)"
  by (induction n) (auto simp: vocab_id_def le_Suc_eq split: if_splits)

lemma longest_piece_None:
  "longest_piece t first rs n = None \<Longrightarrow> 0 < m \<Longrightarrow> m \<le> n \<Longrightarrow> piece_text first (take m rs) \<notin> set (bt_ids t)"
  by (induction n) (auto simp: vocab_id_def le_Suc_eq split: if_splits)

lemma word_pieces_later:
  "word_pieces t False rs = Some ps \<Longrightarrow>
     set ps \<subseteq> set (bt_ids t) \<and> (\<exists>qs. ps = map (\<lambda>q. ''##'' @ q) qs \<and> concat qs = concat rs)"
proof (induction "length rs" arbitrary: rs ps rule: less_induct)
  case less
  show ?case
  proof (cases "rs = []")
    case True
    with less(2) show ?thesis by (simp add: word_pieces.simps)
  next
    case False
    then obtain k ps' where k: "longest_piece t False rs (length rs) = Some k" "word_pieces t False (drop k rs) = Some ps'"
        "ps = piece_text False (take k rs) # ps'"
      using less(2) by (subst (asm) word_pieces.simps) (auto split: option.splits)
    from less(1) [OF _ k(2)] longest_piece_bounds [OF k(1)] False
    obtain qs where "set ps' \<subseteq> set (bt_ids t)" "ps' = map (\<lambda>q. ''##'' @ q) qs" "concat qs = concat (drop k rs)" by auto
    with k longest_piece_known [OF k(1)] show ?thesis
      by (intro conjI exI [of _ "concat (take k rs) # qs"])
        (auto simp: piece_text_def simp flip: concat_append)
  qed
qed

lemma word_pieces_first:
  assumes "word_pieces t True rs = Some ps" and "rs \<noteq> []" and "\<forall>r \<in> set rs. r \<noteq> []"
  obtains p qs where "ps = p # map (\<lambda>q. ''##'' @ q) qs" "p @ concat qs = concat rs" "p \<noteq> []" "set ps \<subseteq> set (bt_ids t)"
proof -
  obtain k ps' where k: "longest_piece t True rs (length rs) = Some k" "word_pieces t False (drop k rs) = Some ps'"
      "ps = piece_text True (take k rs) # ps'"
    using assms(1,2) by (subst (asm) word_pieces.simps) (auto split: option.splits)
  from word_pieces_later [OF k(2)] obtain qs where
    "set ps' \<subseteq> set (bt_ids t)" "ps' = map (\<lambda>q. ''##'' @ q) qs" "concat qs = concat (drop k rs)" by blast
  moreover have "concat (take k rs) \<noteq> []"
    using assms(2,3) longest_piece_bounds [OF k(1)] by (cases rs; cases k) auto
  ultimately show ?thesis using k longest_piece_known [OF k(1)]
    by (intro that [of "concat (take k rs)" qs]) (auto simp: piece_text_def simp flip: concat_append)
qed

section \<open>Identifiers and back\<close>

lemma takeWhile_before:
  "x \<in> set xs \<Longrightarrow> length (takeWhile (\<lambda>v. v \<noteq> x) xs) < length xs \<and> xs ! length (takeWhile (\<lambda>v. v \<noteq> x) xs) = x"
  by (induction xs) auto

lemma vocab_id_nth: "vocab_id t token = Some i \<Longrightarrow> i < length (bt_ids t) \<and> bt_ids t ! i = token"
  using takeWhile_before [of token "bt_ids t"] by (auto simp: vocab_id_def split: if_splits)

lemma encode_known:
  assumes "token \<in> set (bt_ids t)"
  shows "encode_token t token < length (bt_ids t) \<and> bt_ids t ! encode_token t token = token"
proof -
  from assms have "vocab_id t token = Some (encode_token t token)" by (simp add: vocab_id_def encode_token_def)
  then show ?thesis by (rule vocab_id_nth)
qed

lemma token_id_known: "token \<in> set (bt_ids t) \<Longrightarrow> token_id t token = encode_token t token"
  by (auto simp: token_id_def encode_token_def vocab_id_def)

lemma encode_token_less: "bt_ids t \<noteq> [] \<Longrightarrow> encode_token t token < length (bt_ids t)"
  using vocab_id_nth by (fastforce simp: encode_token_def token_id_def split: option.splits)

lemma token_id_less: "bt_ids t \<noteq> [] \<Longrightarrow> token_id t token < length (bt_ids t)"
  using vocab_id_nth by (fastforce simp: token_id_def split: option.splits)

lemma decode_special:
  assumes "token \<in> {''[PAD]'', ''[CLS]'', ''[SEP]''}" and "token \<in> set (bt_ids t)"
  shows "decode_ids t (int (encode_token t token) # is) sb = decode_ids t is sb"
  using assms encode_known [OF assms(2)] by auto

lemma decode_later:
  "set (map (\<lambda>q. ''##'' @ q) qs) \<subseteq> set (bt_ids t) \<Longrightarrow>
     decode_ids t (map (\<lambda>p. int (encode_token t p)) (map (\<lambda>q. ''##'' @ q) qs) @ is) sb = decode_ids t is (sb @ concat qs)"
proof (induction qs arbitrary: sb)
  case (Cons q qs)
  then have "encode_token t (''##'' @ q) < length (bt_ids t)" "bt_ids t ! encode_token t (''##'' @ q) = ''##'' @ q"
    using encode_known [of "''##'' @ q" t] by auto
  with Cons show ?case by (simp add: has_prefix_def)
qed simp

lemma decode_first:
  assumes "p \<in> set (bt_ids t)" and "p \<noteq> []" and "\<not> has_prefix p ''##''" and "p \<notin> {''[PAD]'', ''[CLS]'', ''[SEP]''}"
  shows "decode_ids t (int (encode_token t p) # is) sb = decode_ids t is (sb @ (if sb \<noteq> [] then '' '' else []) @ p)"
  using encode_known [OF assms(1)] assms(3,4) by simp

lemma decode_word:
  assumes "segmented t (concat ws)" and "word_runes un ws"
  shows "decode_ids t (map (\<lambda>p. int (encode_token t p)) (wordpiece t (concat ws)) @ is) sb =
      decode_ids t is (sb @ (if sb \<noteq> [] then '' '' else []) @ concat ws) \<and>
    set (wordpiece t (concat ws)) \<subseteq> set (bt_ids t) \<and> concat ws \<noteq> []"
proof -
  have ws: "runes_of (concat ws) = ws" "ws \<noteq> []" "\<forall>r \<in> set ws. r \<noteq> []"
    using assms(2) runes_of_concat [of ws] by (auto simp: word_runes_def list_all_iff valid_rune_def)
  then obtain ps where ps: "word_pieces t True ws = Some ps" "wordpiece t (concat ws) = ps"
    using assms(1) by (auto simp: segmented_def wordpiece_def Let_def)
  from word_pieces_first [OF ps(1) ws(2,3)]
  obtain p qs where p: "ps = p # map (\<lambda>q. ''##'' @ q) qs" "p @ concat qs = concat ws" "p \<noteq> []" "set ps \<subseteq> set (bt_ids t)" .
  have "\<not> has_prefix p ''##''"
  proof
    assume "has_prefix p ''##''"
    then obtain s where "p = CHR ''#'' # CHR ''#'' # s" by (auto simp: has_prefix_iff)
    with p(2) have "concat ws = CHR ''#'' # (CHR ''#'' # s @ concat qs)" by simp
    from word_plain [OF assms(2) _ this] show False by simp
  qed
  moreover have "p \<notin> {''[PAD]'', ''[CLS]'', ''[SEP]''}"
  proof
    assume "p \<in> {''[PAD]'', ''[CLS]'', ''[SEP]''}"
    then obtain c s where "p = CHR ''['' # c # s" by auto
    with p(2) have "concat ws = CHR ''['' # (c # s @ concat qs)" by simp
    from word_plain [OF assms(2) _ this] show False by simp
  qed
  moreover have "p \<in> set (bt_ids t)" "set (map (\<lambda>q. ''##'' @ q) qs) \<subseteq> set (bt_ids t)" using p(1,4) by auto
  ultimately show ?thesis
    using decode_first [of p t] decode_later [of qs t] p ps ws by (auto simp: append_assoc)
qed

definition words_text :: "string \<Rightarrow> string list \<Rightarrow> string" where
  "words_text sb ws = (if sb = [] then join '' '' ws else sb @ concat (map (\<lambda>w. '' '' @ w) ws))"

lemma join_Cons: "join sep (w # ws) = w @ concat (map (\<lambda>v. sep @ v) ws)"
proof (induction ws arbitrary: w)
  case (Cons v ws)
  then show ?case by simp
qed simp

lemma append_one: "(@) [SP] = (#) SP"
  by (rule ext) simp

lemma decode_words:
  assumes "\<And>w. w \<in> set ws \<Longrightarrow> segmented t w \<and> (\<exists>rs. w = concat rs \<and> word_runes un rs)"
  shows "decode_ids t (map (\<lambda>p. int (encode_token t p)) (concat (map (wordpiece t) ws)) @ is) sb = decode_ids t is (words_text sb ws)"
  using assms
proof (induction ws arbitrary: sb)
  case Nil
  then show ?case by (simp add: words_text_def)
next
  case (Cons w ws)
  then obtain rs where rs: "w = concat rs" "word_runes un rs" "segmented t w" by auto
  let ?sb = "sb @ (if sb \<noteq> [] then '' '' else []) @ w"
  have dw: "\<And>is. decode_ids t (map (\<lambda>p. int (encode_token t p)) (wordpiece t w) @ is) sb = decode_ids t is ?sb" "w \<noteq> []"
    using decode_word [OF rs(3) [unfolded rs(1)] rs(2)] by (simp_all add: rs(1))
  have "decode_ids t (map (\<lambda>p. int (encode_token t p)) (concat (map (wordpiece t) ws)) @ is) ?sb = decode_ids t is (words_text ?sb ws)"
    using Cons by auto
  moreover have "words_text ?sb ws = words_text sb (w # ws)"
    using dw(2) append_one by (simp add: words_text_def join_Cons)
  ultimately show ?case using dw(1) by simp
qed

lemma decode_padding:
  assumes "''[PAD]'' \<in> set (bt_ids t)"
  shows "decode_ids t (replicate n (int (encode_token t ''[PAD]''))) sb = sb"
  using decode_special [of "''[PAD]''" t] assms by (induction n) simp_all

text \<open>
  If the vocabulary can spell every word of a text, decoding the identifiers the text is encoded to gives back its words, whatever
  the special tokens and the padding, unless tokens were cut off.
\<close>

theorem bert_roundtrip:
  assumes "\<And>w. w \<in> set (basic_tokenize un t text) \<Longrightarrow> segmented t w"
    and "{''[PAD]'', ''[CLS]'', ''[SEP]''} \<subseteq> set (bt_ids t)"
    and "max_len > 0 \<longrightarrow> int (length (bert_tokenize un t text)) + (if add_special then 2 else 0) \<le> max_len"
  shows "bert_decode t (map int (bert_encode un t text add_special max_len)) = join '' '' (basic_tokenize un t text)"
proof -
  let ?tokens = "concat (map (wordpiece t) (basic_tokenize un t text))"
  let ?f = "\<lambda>p. int (encode_token t p)"
  have tok: "bert_tokenize un t text = ?tokens" using assms(2) by (auto simp: bert_tokenize_def)
  have words: "w \<in> set (basic_tokenize un t text) \<Longrightarrow> segmented t w \<and> (\<exists>rs. w = concat rs \<and> word_runes un rs)" for w
    using assms(1) basic_words by blast
  have limit: "limit_tokens add_special max_len ?tokens = (if add_special then ''[CLS]'' # ?tokens @ [''[SEP]''] else ?tokens)"
    using assms(3) by (auto simp: limit_tokens_def tok)
  define n where "n = nat max_len - length (limit_tokens add_special max_len ?tokens)"
  have ids: "map int (bert_encode un t text add_special max_len) =
      map ?f (limit_tokens add_special max_len ?tokens) @ replicate n (?f ''[PAD]'')"
    using assms(2) by (simp add: bert_encode_def Let_def tok n_def token_id_known map_replicate_const)
  show ?thesis
  proof (cases add_special)
    case True
    have "decode_ids t (?f ''[CLS]'' # map ?f ?tokens @ ?f ''[SEP]'' # replicate n (?f ''[PAD]'')) [] =
        words_text [] (basic_tokenize un t text)"
      using assms(2) decode_special [of _ t] decode_padding [of t n]
        decode_words [of "basic_tokenize un t text" t un "?f ''[SEP]'' # replicate n (?f ''[PAD]'')" "[]"] words by simp
    then show ?thesis unfolding bert_decode_def ids limit using True by (simp add: words_text_def)
  next
    case False
    have "decode_ids t (map ?f ?tokens @ replicate n (?f ''[PAD]'')) [] = words_text [] (basic_tokenize un t text)"
      using assms(2) decode_padding [of t n]
        decode_words [of "basic_tokenize un t text" t un "replicate n (?f ''[PAD]'')" "[]"] words by simp
    then show ?thesis unfolding bert_decode_def ids limit using False by (simp add: words_text_def)
  qed
qed

definition ascii_tables :: unicode_tables where
  "ascii_tables = \<lparr>un_mark = (\<lambda>_. False), un_punct = (\<lambda>_. False)\<rparr>"

definition demo_bert :: bert_tokenizer where
  "demo_bert = new_bert_tokenizer [''[PAD]'', ''[UNK]'', ''[CLS]'', ''[SEP]'', ''free'', ''##dom'', ''!'', ''mail''] True"

theorem bert_roundtrip_witness:
  "bert_decode demo_bert (map int (bert_encode ascii_tables demo_bert ''Freedom! mail'' True 8)) = ''freedom ! mail'' \<and>
   bert_encode ascii_tables demo_bert ''Freedom! mail'' True 8 = [2, 4, 5, 6, 7, 3, 0, 0]"
proof -
  have words: "basic_tokenize ascii_tables demo_bert ''Freedom! mail'' = [''freedom'', ''!'', ''mail'']" by code_simp
  have seg: "segmented demo_bert ''freedom''" "segmented demo_bert ''!''" "segmented demo_bert ''mail''" by code_simp+
  have tokens: "length (bert_tokenize ascii_tables demo_bert ''Freedom! mail'') = 4" by code_simp
  have "bert_decode demo_bert (map int (bert_encode ascii_tables demo_bert ''Freedom! mail'' True 8)) =
      join '' '' (basic_tokenize ascii_tables demo_bert ''Freedom! mail'')"
    by (rule bert_roundtrip) (use words seg tokens in \<open>auto simp: demo_bert_def new_bert_tokenizer_def\<close>)
  moreover have "bert_encode ascii_tables demo_bert ''Freedom! mail'' True 8 = [2, 4, 5, 6, 7, 3, 0, 0]" by code_simp
  ultimately show ?thesis by (simp add: words)
qed

text \<open>
  An encoding for a given length has exactly this length and holds identifiers of the vocabulary only. Defect: for the length
  1 with the special tokens nothing is cut off, so the encoding is longer than asked for.
\<close>

theorem bert_encode_length:
  assumes "max_len > 0" and "bt_ids t \<noteq> []"
  shows "int (length (bert_encode un t text add_special max_len)) =
      (if add_special \<and> max_len = 1 then int (length (bert_tokenize un t text)) + 2 else max_len) \<and>
    list_all (\<lambda>i. i < length (bt_ids t)) (bert_encode un t text add_special max_len)"
  using assms encode_token_less [OF assms(2)] token_id_less [OF assms(2)]
  by (auto simp: bert_encode_def limit_tokens_def Let_def list_all_iff)

theorem bert_encode_length_witness:
  "length (bert_encode ascii_tables demo_bert ''mail mail mail'' True 4) = 4 \<and>
   length (bert_encode ascii_tables demo_bert ''mail mail mail'' True 1) = 5"
proof -
  have ne: "bt_ids demo_bert \<noteq> []" by (simp add: demo_bert_def new_bert_tokenizer_def)
  have "length (bert_tokenize ascii_tables demo_bert ''mail mail mail'') = 3" by code_simp
  with bert_encode_length [of 4 demo_bert ascii_tables "''mail mail mail''" True]
    bert_encode_length [of 1 demo_bert ascii_tables "''mail mail mail''" True] ne show ?thesis by simp
qed

text \<open>Without \<^verbatim>\<open>[PAD]\<close> in the vocabulary its first token counts as padding and is masked.\<close>

lemma mask_hides_token:
  "attention_mask (new_bert_tokenizer [''mail'', ''!''] True) (bert_encode ascii_tables (new_bert_tokenizer [''mail'', ''!''] True) ''mail!'' False 0)
     = [0, 1]"
  by code_simp

end
