(* ===== verification/FieldSearch.thy ===== *)
theory FieldSearch
  imports WordPiece Content Message
begin

text \<open>
  The fields a policy script searches, \<^verbatim>\<open>pkg/rules/fields.go\<close>: resolving a selector to values, searching and counting in them, and
  the languages a message is written in. The decoders of \<^verbatim>\<open>charset\<close> and \<^verbatim>\<open>html\<close>, the letters of \<^verbatim>\<open>unicode\<close>, compiled
  regular expressions and the language detector are parameters.
\<close>

section \<open>Selectors\<close>

record searched =
  se_message :: message
  se_view :: mime_view
  se_body :: string
  se_from :: string
  se_to :: "string list"

definition bad_field_char :: "char \<Rightarrow> bool" where
  "bad_field_char c \<longleftrightarrow> char_code c < 33 \<or> char_code c > 126 \<or> c = CHR '':''"

definition header_values :: "searched \<Rightarrow> string \<Rightarrow> string + string list" where
  "header_values s field =
     (if field = [] then Inl ''field must name a header or message field''
      else if list_ex bad_field_char field then Inl (''invalid header field '' @ go_quote field)
      else Inr (msg_get_all (se_message s) field))"

definition selector_values :: "searched \<Rightarrow> string \<Rightarrow> string + string list" where
  "selector_values s field =
     (let key = to_lower field in
      if has_prefix key ''header:'' then header_values s (drop 7 field)
      else if key = ''body'' then Inr [search_text (se_view s) (se_body s)]
      else if key = ''text_body'' then Inr [mv_text (se_view s)]
      else if key = ''html_body'' then Inr [mv_html (se_view s)]
      else if key = ''raw_body'' then Inr [se_body s]
      else if key = ''envelope_from'' then Inr [se_from s]
      else if key = ''envelope_to'' then Inr (se_to s)
      else header_values s field)"

section \<open>Searching\<close>

definition field_contains :: "searched \<Rightarrow> string \<Rightarrow> string \<Rightarrow> string + bool" where
  "field_contains s field sub =
     (case selector_values s field of Inl e \<Rightarrow> Inl e | Inr vs \<Rightarrow> Inr (list_ex (\<lambda>v. contains v sub) vs))"

text \<open>The pattern is compiled first; \<^const>\<open>None\<close> is a pattern that is refused.\<close>

definition matches_regex :: "(string \<Rightarrow> (string \<Rightarrow> bool) option) \<Rightarrow> searched \<Rightarrow> string \<Rightarrow> string \<Rightarrow> string + bool" where
  "matches_regex compile s field pattern =
     (case compile pattern of
        None \<Rightarrow> Inl ''matches_regex: invalid pattern''
      | Some re \<Rightarrow> (case selector_values s field of Inl e \<Rightarrow> Inl e | Inr vs \<Rightarrow> Inr (list_ex re vs)))"

text \<open>\<^verbatim>\<open>strings.Count\<close> for a non-empty substring: occurrences that do not overlap, from the left.\<close>

function str_count :: "string \<Rightarrow> string \<Rightarrow> nat" where
  "str_count s sub =
     (if sub = [] then length s + 1
      else (case index_str sub s of None \<Rightarrow> 0 | Some i \<Rightarrow> Suc (str_count (drop (i + length sub) s) sub)))"
  by pat_completeness auto
termination
proof (relation "measure (\<lambda>(s, sub). length s)", simp)
  fix s sub :: string and i
  assume "sub \<noteq> []" and "index_str sub s = Some i"
  moreover have "index_str sub s = Some i \<Longrightarrow> sub \<noteq> [] \<Longrightarrow> s \<noteq> []" by (cases s) auto
  ultimately show "((drop (i + length sub) s, sub), (s, sub)) \<in> measure (\<lambda>(s, sub). length s)" by (cases sub) auto
qed

declare str_count.simps [simp del]

definition count_occurrences :: "searched \<Rightarrow> string \<Rightarrow> string \<Rightarrow> string + nat" where
  "count_occurrences s field sub =
     (if sub = [] then Inl ''count_occurrences: substring must not be empty''
      else (case selector_values s field of Inl e \<Rightarrow> Inl e | Inr vs \<Rightarrow> Inr (sum_list (map (\<lambda>v. str_count v sub) vs))))"

section \<open>Languages\<close>

record 'l language_env =
  le_decode :: "string \<Rightarrow> string \<Rightarrow> string option"
  le_unescape :: "string \<Rightarrow> string"
  le_letter :: "nat \<Rightarrow> bool"
  le_detect :: "string \<Rightarrow> 'l option"

definition sample_bytes :: nat where "sample_bytes = 64 * 1024"

definition sampled_part :: "mime_part \<Rightarrow> bool" where
  "sampled_part p \<longleftrightarrow> mp_disposition p \<noteq> ''attachment'' \<and> mp_content p \<noteq> [] \<and>
     (mp_type p = ''text/plain'' \<or> mp_type p = ''text/html'')"

text \<open>The parts that are looked at, each with the text that is taken from it.\<close>

fun take_samples :: "mime_part list \<Rightarrow> nat \<Rightarrow> nat \<Rightarrow> (mime_part \<times> string) list" where
  "take_samples [] remaining sampled = []"
| "take_samples (p # ps) remaining sampled =
     (if remaining = 0 \<or> sampled \<ge> 64 then []
      else if \<not> sampled_part p then take_samples ps remaining sampled
      else let text = take remaining (mp_content p) in
           (p, text) # take_samples ps (remaining - length text) (Suc sampled))"

text \<open>\<^verbatim>\<open>strings.ToValidUTF8\<close>: a run of invalid bytes becomes one space.\<close>

fun valid_text :: "bool \<Rightarrow> string option list \<Rightarrow> string" where
  "valid_text invalid [] = []"
| "valid_text invalid (None # rs) = (if invalid then [] else '' '') @ valid_text True rs"
| "valid_text invalid (Some r # rs) = r @ valid_text False rs"

definition sample_language :: "'l language_env \<Rightarrow> mime_part \<times> string \<Rightarrow> 'l option" where
  "sample_language env = (\<lambda>(p, text).
     case (if mp_charset p = [] then Some text else map_option (take (256 * 1024)) (le_decode env (mp_charset p) text)) of
       None \<Rightarrow> None
     | Some decoded \<Rightarrow>
         let valid = valid_text False (utf8_runes decoded);
             plain = (if mp_type p = ''text/html'' then le_unescape env (rx_replace tag_pattern '' '' valid) else valid);
             letters = length (filter (\<lambda>r. le_letter env (rune_code r) \<and> r \<noteq> rune_error) (runes_of plain))
         in if letters < 20 then None else le_detect env plain)"

definition language_parts :: "mime_view \<Rightarrow> mime_part list" where
  "language_parts v =
     (if mv_parts v = []
      then map (\<lambda>(ty, text). \<lparr>mp_type = ty, mp_charset = [], mp_disposition = [], mp_filename = [], mp_size = 0, mp_depth = 0,
              mp_content = text\<rparr>) [(''text/plain'', mv_text v), (''text/html'', mv_html v)]
      else mv_parts v)"

definition detect_languages :: "'l language_env \<Rightarrow> mime_view \<Rightarrow> 'l list" where
  "detect_languages env v = List.map_filter (sample_language env) (take_samples (language_parts v) sample_bytes 0)"

text \<open>\<open>supported\<close> are the languages of the detector in their order with their two codes.\<close>

definition has_language :: "('l \<times> string \<times> string) list \<Rightarrow> 'l language_env \<Rightarrow> mime_view \<Rightarrow> string \<Rightarrow> string + bool" where
  "has_language supported env v code =
     (let c = to_lower code in
      case find (\<lambda>(l, two, three). c \<noteq> [] \<and> (two = c \<or> three = c)) supported of
        None \<Rightarrow> Inl (''has_language: unsupported ISO 639 language code '' @ go_quote c)
      | Some (l, _) \<Rightarrow> Inr (l \<in> set (detect_languages env v)))"

section \<open>Counting\<close>

lemma index_str_Some:
  "index_str p s = Some i \<Longrightarrow> s = take i s @ p @ drop (i + length p) s"
proof (induction s arbitrary: i)
  case Nil
  then show ?case by (simp split: if_splits)
next
  case (Cons x s)
  show ?case
  proof (cases "has_prefix (x # s) p")
    case True
    with Cons.prems show ?thesis by (simp add: has_prefix_def) (metis append_take_drop_id)
  next
    case False
    with Cons.prems obtain j where "index_str p s = Some j" "i = Suc j" by auto
    with Cons.IH show ?thesis by simp
  qed
qed

lemma index_str_least: "\<exists>i. index_str p (g @ p @ t) = Some i \<and> i \<le> length g"
proof (induction g)
  case Nil
  have "has_prefix (p @ t) p" by simp
  then show ?case by (cases "p @ t") auto
next
  case (Cons x g)
  then show ?case by auto
qed

text \<open>
  Counting a substring gives the greatest number of occurrences of it that do not overlap.
\<close>

theorem str_count_greatest:
  assumes "sub \<noteq> []"
  shows "(\<exists>gaps. length gaps = Suc (str_count s sub) \<and> join sub gaps = s) \<and>
    (\<forall>gaps. gaps \<noteq> [] \<and> join sub gaps = s \<longrightarrow> length gaps \<le> Suc (str_count s sub))"
  using assms
proof (induction "length s" arbitrary: s rule: less_induct)
  case less
  show ?case
  proof (cases "index_str sub s")
    case None
    have count: "str_count s sub = 0" using None less(2) by (simp add: str_count.simps)
    have "length gaps \<le> 1" if "gaps \<noteq> []" "join sub gaps = s" for gaps
    proof (cases gaps rule: join.cases [of "(sub, gaps)" for gaps])
      case (3 sep g g' gs)
      then have "s = g @ sub @ join sub (g' # gs)" using that by simp
      with index_str_least [of sub g "join sub (g' # gs)"] None show ?thesis by simp
    qed (use that in auto)
    moreover have "join sub [s] = s" by simp
    ultimately show ?thesis using count by (metis One_nat_def length_Cons list.size(3))
  next
    case (Some i)
    define rest where "rest = drop (i + length sub) s"
    have s: "s = take i s @ sub @ rest" using index_str_Some [OF Some] by (simp add: rest_def)
    have shorter: "length rest < length s" using arg_cong [OF s, of length] less(2) by (cases sub) auto
    have count: "str_count s sub = Suc (str_count rest sub)"
      using Some less(2) by (simp add: str_count.simps [of s] rest_def)
    note IH = less(1) [OF shorter less(2)]
    from IH obtain gaps where "length gaps = Suc (str_count rest sub)" "join sub gaps = rest" by blast
    then have "join sub (take i s # gaps) = s" "length (take i s # gaps) = Suc (str_count s sub)"
      using s count by (cases gaps; simp)+
    moreover have "length gaps \<le> Suc (str_count s sub)" if g: "gaps \<noteq> []" "join sub gaps = s" for gaps
    proof (cases gaps rule: join.cases [of "(sub, gaps)" for gaps])
      case (3 sep g g' gs)
      then have eq: "s = g @ sub @ join sub (g' # gs)" using that by simp
      with index_str_least [of sub g "join sub (g' # gs)"] Some have "i \<le> length g" by auto
      then have "rest = drop (i + length sub) (g @ sub) @ join sub (g' # gs)"
        by (simp add: rest_def eq)
      then have "join sub ((drop (i + length sub) (g @ sub) @ g') # gs) = rest" by (cases gs) simp_all
      with IH have "length ((drop (i + length sub) (g @ sub) @ g') # gs) \<le> Suc (str_count rest sub)" by blast
      with 3 count show ?thesis by simp
    qed (use g in auto)
    ultimately show ?thesis by blast
  qed
qed

theorem str_count_greatest_witness:
  "str_count ''aaaa'' ''aa'' = 2 \<and> (\<exists>gaps. length gaps = 3 \<and> join ''aa'' gaps = ''aaaa'')"
proof -
  have "str_count ''aaaa'' ''aa'' = 2" by code_simp
  with str_count_greatest [of "''aa''" "''aaaa''"] show ?thesis by auto
qed

section \<open>Bounded detection\<close>

text \<open>
  However many and large the parts of a message are, its language is detected from at most 64 parts and 64 KiB of text, and only from
  plain and HTML text that is not an attachment.
\<close>

theorem language_samples_bounded:
  "length (take_samples parts remaining sampled) + sampled \<le> max 64 sampled \<and>
     sum_list (map (length \<circ> snd) (take_samples parts remaining sampled)) \<le> remaining \<and>
     list_all (\<lambda>(p, text). p \<in> set parts \<and> sampled_part p \<and> (\<exists>rest. mp_content p = text @ rest))
       (take_samples parts remaining sampled)"
proof (induction parts remaining sampled rule: take_samples.induct)
  case (2 p ps remaining sampled)
  show ?case
  proof (cases "remaining = 0 \<or> sampled \<ge> 64 \<or> \<not> sampled_part p")
    case True
    with 2(1) show ?thesis by (auto simp: list_all_iff split: prod.splits)
  next
    case False
    let ?t = "take remaining (mp_content p)" and ?more = "take_samples ps (remaining - length (take remaining (mp_content p))) (Suc sampled)"
    from False have c: "\<not> (remaining = 0 \<or> sampled \<ge> 64)" "\<not> \<not> sampled_part p" by auto
    then have eq: "take_samples (p # ps) remaining sampled = (p, ?t) # ?more" by (simp add: Let_def)
    note IH = 2(2) [OF c refl]
    have "\<exists>rest. mp_content p = ?t @ rest" by (metis append_take_drop_id)
    moreover have "length ?t + sum_list (map (length \<circ> snd) ?more) \<le> remaining"
    proof -
      have "sum_list (map (length \<circ> snd) ?more) \<le> remaining - length ?t" using IH by blast
      moreover have "length ?t \<le> remaining" by simp
      ultimately show ?thesis by linarith
    qed
    moreover have "list_all (\<lambda>(p', text). p' \<in> set (p # ps) \<and> sampled_part p' \<and> (\<exists>rest. mp_content p' = text @ rest)) ?more"
      using IH by (auto simp: list_all_iff)
    moreover have "length ?more + Suc sampled \<le> 64" using IH c by simp
    ultimately show ?thesis unfolding eq using c by (simp add: comp_def)
  qed
qed simp

end
