(* ===== verification/ScriptQueries.thy ===== *)
theory ScriptQueries
  imports DnsCacheProps Human Runtime ValidateProps HostAdapter ScriptActions
begin

text \<open>
  The builtins of \<^verbatim>\<open>pkg/rules/builtins_analysis.go\<close> by which a policy script asks about a message: the findings of the validation,
  identities and look-alikes, content and attachments, and the network. A query of the network goes through
  the resolver and its cache (\<open>DnsCache\<close>), some queries also record an action; \<^const>\<open>None\<close> is a panic.
\<close>

section \<open>Findings\<close>

definition findings_from :: "validate_env \<Rightarrow> string \<Rightarrow> mail_context \<Rightarrow> finding list" where
  "findings_from env min_severity ctx =
     filter (\<lambda>f. \<not> severity_rank (fi_severity f) < severity_rank min_severity) (validate_headers env ctx)"

definition validation_codes :: "validate_env \<Rightarrow> mail_context \<Rightarrow> string list" where
  "validation_codes env ctx = map fi_code (validate_headers env ctx)"

definition has_finding :: "validate_env \<Rightarrow> mail_context \<Rightarrow> analyzer_result list \<Rightarrow> string \<Rightarrow> bool" where
  "has_finding env ctx results code \<longleftrightarrow>
     list_ex (\<lambda>f. fi_code f = code) (validate_headers env ctx) \<or> has_analysis_finding code results"

definition finding_count :: "validate_env \<Rightarrow> string \<Rightarrow> mail_context \<Rightarrow> nat" where
  "finding_count env min_severity ctx =
     length (filter (\<lambda>f. severity_rank (fi_severity f) \<ge> severity_rank min_severity) (validate_headers env ctx))"

definition max_severity :: "validate_env \<Rightarrow> mail_context \<Rightarrow> string" where
  "max_severity env ctx = (case validate_headers env ctx of [] \<Rightarrow> [] | f # _ \<Rightarrow> fi_severity f)"

definition is_valid_message_id :: "string \<Rightarrow> bool" where
  "is_valid_message_id v0 =
     (let v = trim_space v0 in
      if \<not> has_prefix v ''<'' \<or> \<not> has_suffix v ''>'' \<or> length v < 4 then False
      else let inner = take (length v - 2) (drop 1 v) in
           case last_index CHR ''@'' inner of None \<Rightarrow> False | Some i \<Rightarrow> i > 0 \<and> i < length inner - 1)"

section \<open>Identities\<close>

definition get_sender_domain :: "mail_lib \<Rightarrow> string \<Rightarrow> message \<Rightarrow> string" where
  "get_sender_domain lib sender_domain m = (if sender_domain \<noteq> [] then sender_domain else domain_of lib (msg_get m ''From''))"

definition envelope_to :: "string list \<Rightarrow> message \<Rightarrow> string list" where
  "envelope_to recipients m =
     (if recipients \<noteq> [] then recipients
      else if msg_get m ''X-Envelope-To'' \<noteq> [] then map trim_space (split_on CHR '','' (msg_get m ''X-Envelope-To''))
      else [])"

definition looks_like_any :: "(nat \<Rightarrow> nat) \<Rightarrow> (nat \<Rightarrow> bool) \<Rightarrow> runes \<Rightarrow> runes list \<Rightarrow> runes" where
  "looks_like_any lower space candidate targets =
     (case find (looks_like lower space candidate) targets of None \<Rightarrow> [] | Some target \<Rightarrow> target)"

definition display_name_spoofed :: "mail_lib \<Rightarrow> message \<Rightarrow> bool" where
  "display_name_spoofed lib m \<longleftrightarrow>
     (let from = parse_address lib (msg_get m ''From''); claimed = extract_address_from_text (ad_name from) in
      claimed \<noteq> [] \<and> \<not> equal_fold claimed (ad_address from))"

section \<open>Content\<close>

definition has_content_type :: "mime_view \<Rightarrow> string \<Rightarrow> bool" where
  "has_content_type v want \<longleftrightarrow> list_ex (\<lambda>p. equal_fold (mp_type p) (to_lower want)) (mv_parts v)"

definition url_domains_off_brand :: "content_env \<Rightarrow> (string \<Rightarrow> string option) \<Rightarrow> message \<Rightarrow> mime_view \<Rightarrow> string \<Rightarrow> string list" where
  "url_domains_off_brand env org m v body =
     (let from = domain_of (re_mail env) (msg_get m ''From'') in
      if from = [] then [] else filter (\<lambda>host. \<not> same_org_domain org host from) (url_domains env v body))"

definition total_attachment_size :: "mime_view \<Rightarrow> nat" where
  "total_attachment_size v = sum_list (map at_size (mv_attachments v))"

definition has_attachment_ext :: "string list \<Rightarrow> mime_view \<Rightarrow> bool" where
  "has_attachment_ext extensions v \<longleftrightarrow>
     list_ex (\<lambda>a. file_extension (at_filename a) \<in> set (map (\<lambda>e. to_lower (trim_prefix e ''.'')) extensions)) (mv_attachments v)"

definition has_human_signal :: "content_env \<Rightarrow> human_input \<Rightarrow> string \<Rightarrow> bool" where
  "has_human_signal env i name \<longleftrightarrow> list_ex (\<lambda>s. hs_name s = name) (ha_signals (assess_human env i))"

section \<open>The network\<close>

text \<open>What the queries read of the message context, and the actions they may add.\<close>

record net_context =
  nc_resolver :: "resolver option"
  nc_dns_resolved :: bool
  nc_rbl_listed :: bool
  nc_mx :: "string list"
  nc_sender_ip :: string
  nc_actions :: "string list"

type_synonym 'a query = "resolver option \<Rightarrow> ('a \<times> resolver option) option"

definition then_ask :: "('a \<times> resolver option) option \<Rightarrow> ('a \<Rightarrow> 'b query) \<Rightarrow> ('b \<times> resolver option) option" where
  "then_ask m f = (case m of None \<Rightarrow> None | Some (x, r) \<Rightarrow> f x r)"

fun ask_any :: "('a \<Rightarrow> bool query) \<Rightarrow> 'a list \<Rightarrow> bool query" where
  "ask_any f [] r = Some (False, r)"
| "ask_any f (x # xs) r = then_ask (f x r) (\<lambda>found r1. if found then Some (True, r1) else ask_any f xs r1)"

text \<open>A query of the context: an answer without a resolver, and one with it.\<close>

definition with_resolver :: "'a \<Rightarrow> 'a query \<Rightarrow> net_context \<Rightarrow> ('a \<times> net_context) option" where
  "with_resolver offline q ctx =
     (if nc_resolver ctx = None then Some (offline, ctx)
      else (case q (nc_resolver ctx) of None \<Rightarrow> None | Some (x, r) \<Rightarrow> Some (x, ctx\<lparr>nc_resolver := r\<rparr>)))"

definition host_or_mx :: "dns_backend \<Rightarrow> clock \<Rightarrow> string \<Rightarrow> bool query" where
  "host_or_mx b t domain r = then_ask (lookup_host b t domain r) (\<lambda>addrs r1. if addrs \<noteq> [] then Some (True, r1) else has_mx b t domain r1)"

definition dns_check :: "dns_backend \<Rightarrow> clock \<Rightarrow> string \<Rightarrow> net_context \<Rightarrow> (bool \<times> net_context) option" where
  "dns_check b t domain ctx = with_resolver (nc_dns_resolved ctx) (host_or_mx b t domain) ctx"

definition dns_resolution :: "dns_backend \<Rightarrow> clock \<Rightarrow> string \<Rightarrow> net_context \<Rightarrow> (string \<times> net_context) option" where
  "dns_resolution b t domain ctx =
     with_resolver (nc_sender_ip ctx)
       (\<lambda>r. map_option (map_prod (\<lambda>addrs. case addrs of [] \<Rightarrow> [] | a # _ \<Rightarrow> a) (\<lambda>x. x)) (lookup_host b t domain r)) ctx"

definition get_mx_records :: "dns_backend \<Rightarrow> clock \<Rightarrow> string \<Rightarrow> net_context \<Rightarrow> (string list \<times> net_context) option" where
  "get_mx_records b t domain ctx = with_resolver (nc_mx ctx) (lookup_mx b t domain) ctx"

definition valid_mx :: "dns_backend \<Rightarrow> clock \<Rightarrow> string \<Rightarrow> net_context \<Rightarrow> (bool \<times> net_context) option" where
  "valid_mx b t domain ctx = with_resolver (nc_mx ctx \<noteq> []) (has_mx b t domain) ctx"

definition mx_has_family :: "dns_backend \<Rightarrow> clock \<Rightarrow> string \<Rightarrow> bool \<Rightarrow> net_context \<Rightarrow> (bool \<times> net_context) option" where
  "mx_has_family b t domain want_v6 ctx =
     with_resolver (\<not> want_v6 \<and> nc_mx ctx \<noteq> [])
       (\<lambda>r. then_ask (lookup_mx b t domain r) (ask_any (\<lambda>host r1.
          map_option (map_prod (list_ex (\<lambda>a. contains a '':'' = want_v6)) (\<lambda>x. x)) (lookup_host b t host r1)))) ctx"

definition rbl_listed :: "dns_backend \<Rightarrow> clock \<Rightarrow> string \<Rightarrow> string \<Rightarrow> bool query" where
  "rbl_listed b t zone ip r =
     (if zone \<noteq> [] then map_option (map_prod rb_listed (\<lambda>x. x)) (check_rbl b t ip zone r)
      else map_option (map_prod fst (\<lambda>x. x)) (check_rbls b t ip r))"

definition record_action :: "string \<Rightarrow> net_context \<Rightarrow> net_context" where
  "record_action a ctx = ctx\<lparr>nc_actions := nc_actions ctx @ [a]\<rparr>"

definition rbl_check :: "dns_backend \<Rightarrow> clock \<Rightarrow> string \<Rightarrow> string \<Rightarrow> net_context \<Rightarrow> (bool \<times> net_context) option" where
  "rbl_check b t ip zone ctx =
     with_resolver (nc_rbl_listed ctx) (rbl_listed b t zone ip) (record_action (''rbl_check:'' @ ip @ '':'' @ zone) ctx)"

definition rbl_lookup :: "dns_backend \<Rightarrow> clock \<Rightarrow> string \<Rightarrow> string \<Rightarrow> net_context \<Rightarrow> (rbl_result list \<times> net_context) option" where
  "rbl_lookup b t ip zone ctx =
     with_resolver []
       (\<lambda>r. if zone \<noteq> [] then map_option (map_prod (\<lambda>x. [x]) (\<lambda>x. x)) (check_rbl b t ip zone r)
            else map_option (map_prod snd (\<lambda>x. x)) (check_rbls b t ip r)) ctx"

definition mx_in_rbl :: "dns_backend \<Rightarrow> clock \<Rightarrow> string \<Rightarrow> string \<Rightarrow> net_context \<Rightarrow> (bool \<times> net_context) option" where
  "mx_in_rbl b t domain zone ctx =
     with_resolver False
       (\<lambda>r. then_ask (lookup_mx b t domain r) (ask_any (\<lambda>host r1.
          then_ask (lookup_host b t host r1) (ask_any (rbl_listed b t zone)))))
       (record_action (''mx_rbl_check:'' @ domain @ '':'' @ zone) ctx)"

definition fcrdns_valid :: "dns_backend \<Rightarrow> clock \<Rightarrow> string \<Rightarrow> net_context \<Rightarrow> (bool \<times> net_context) option" where
  "fcrdns_valid b t ip ctx =
     (if ip = [] then Some (False, ctx)
      else with_resolver False
        (\<lambda>r. then_ask (lookup_ptr b t ip r) (ask_any (\<lambda>name r1.
           map_option (map_prod (\<lambda>addrs. ip \<in> set addrs) (\<lambda>x. x)) (lookup_host b t name r1)))) ctx)"

definition domain_resolution :: "mail_lib \<Rightarrow> dns_backend \<Rightarrow> clock \<Rightarrow> string \<Rightarrow> bool \<Rightarrow> net_context \<Rightarrow> (bool \<times> net_context) option" where
  "domain_resolution lib b t sender verify ctx =
     (let ctx1 = record_action (''domain_resolve:'' @ sender @ '':'' @ (if verify then ''true'' else ''false'')) ctx;
          domain = (if contains sender ''@'' then domain_of lib sender else sender)
      in with_resolver (nc_dns_resolved ctx1) (if verify then has_mx b t domain else host_or_mx b t domain) ctx1)"

section \<open>Queries of a running script\<close>

text \<open>
  A running script sees a network query as its answer and the action it records (\<^const>\<open>call_builtin\<close>); the answer is that of the
  resolver (\<^const>\<open>rbl_check\<close>, \<^const>\<open>mx_in_rbl\<close>, \<^const>\<open>domain_resolution\<close>). Both record the same actions.
\<close>

lemma with_resolver_actions: "with_resolver x q ctx = Some (a, ctx') \<Longrightarrow> nc_actions ctx' = nc_actions ctx"
  by (auto simp: with_resolver_def split: if_splits option.splits)

lemma network_queries_recorded:
  assumes "nc_actions ctx = sc_actions st"
  shows "rbl_check b t ip zone ctx = Some (answer, ctx') \<Longrightarrow>
      \<exists>st'. call_builtin (RblCheck ip zone answer) st = Inr (VBool answer, st') \<and> sc_actions st' = nc_actions ctx'"
    and "mx_in_rbl b t domain zone ctx = Some (answer, ctx') \<Longrightarrow>
      \<exists>st'. call_builtin (MxInRbl domain zone answer) st = Inr (VBool answer, st') \<and> sc_actions st' = nc_actions ctx'"
    and "domain_resolution lib b t sender verify ctx = Some (answer, ctx') \<Longrightarrow>
      \<exists>st'. call_builtin (DomainResolution sender verify answer) st = Inr (VBool answer, st') \<and> sc_actions st' = nc_actions ctx'"
  using assms with_resolver_actions
  by (fastforce simp: rbl_check_def mx_in_rbl_def domain_resolution_def Let_def record_action_def perform_def)+

section \<open>Queries return\<close>

definition good_query :: "'a query \<Rightarrow> bool" where
  "good_query q \<longleftrightarrow> (\<forall>r. state_ok r \<longrightarrow> (\<exists>x r'. q r = Some (x, r') \<and> state_ok r'))"

named_theorems good_queries

lemma good_queryD: "good_query q \<Longrightarrow> state_ok r \<Longrightarrow> \<exists>x r'. q r = Some (x, r') \<and> state_ok r'"
  by (simp add: good_query_def)

lemma good_lookups [good_queries]:
  "good_query (lookup_host b t n)" "good_query (lookup_mx b t n)" "good_query (lookup_ptr b t n)"
  by (simp_all add: good_query_def lookup_host_def lookup_mx_def lookup_ptr_def good_lift good_steps)

lemma good_rbl_query [good_queries]: "good_query (check_rbl b t ip zone)"
  unfolding good_query_def using good_check_rbl by blast

lemma good_rbls_query [good_queries]: "good_query (check_rbls b t ip)"
proof -
  have "\<exists>x r'. check_rbls b t ip r = Some (x, r') \<and> state_ok r'" if "state_ok r" for r
  proof (cases r)
    case (Some r1)
    from good_check_zones [OF that, of b t ip "rs_rbls r1"] obtain x r'
      where "check_zones b t ip (rs_rbls r1) r = Some (x, r')" "state_ok r'" by blast
    with Some show ?thesis by (simp add: check_rbls_def)
  qed (auto simp: check_rbls_def state_ok_def)
  then show ?thesis by (simp add: good_query_def)
qed

lemma good_map [good_queries]: "good_query q \<Longrightarrow> good_query (\<lambda>r. map_option (map_prod f (\<lambda>x. x)) (q r))"
  by (fastforce simp: good_query_def)

lemma good_then [good_queries]: "good_query q \<Longrightarrow> (\<And>x. good_query (f x)) \<Longrightarrow> good_query (\<lambda>r. then_ask (q r) f)"
  by (fastforce simp: good_query_def then_ask_def)

lemma good_answer [good_queries]: "good_query (\<lambda>r. Some (x, r))"
  by (simp add: good_query_def)

lemma good_if [good_queries]: "good_query q1 \<Longrightarrow> good_query q2 \<Longrightarrow> good_query (\<lambda>r. if c then q1 r else q2 r)"
  by (cases c) simp_all

lemma good_any [good_queries]: "(\<And>x. good_query (f x)) \<Longrightarrow> good_query (ask_any f xs)"
proof (induction xs)
  case Nil
  then show ?case by (auto simp: good_query_def)
next
  case (Cons x xs)
  then have "good_query (\<lambda>r. then_ask (f x r) (\<lambda>found r1. if found then Some (True, r1) else ask_any f xs r1))"
    by (intro good_queries) auto
  then show ?case by simp
qed

lemma good_has_mx [good_queries]: "good_query (has_mx b t domain)"
  using good_lookups(2) [of b t domain] by (fastforce simp: good_query_def has_mx_def)

lemma good_host_or_mx [good_queries]: "good_query (host_or_mx b t domain)"
  unfolding host_or_mx_def [abs_def] by (intro good_queries)

lemma good_rbl_listed [good_queries]: "good_query (rbl_listed b t zone ip)"
  unfolding rbl_listed_def [abs_def] by (intro good_queries)

definition net_ok :: "net_context \<Rightarrow> bool" where
  "net_ok ctx \<longleftrightarrow> state_ok (nc_resolver ctx)"

lemma with_resolver_returns:
  assumes "good_query q" and "net_ok ctx"
  shows "\<exists>x ctx'. with_resolver offline q ctx = Some (x, ctx') \<and> net_ok ctx' \<and> nc_actions ctx' = nc_actions ctx \<and>
    (nc_resolver ctx = None \<longrightarrow> x = offline \<and> ctx' = ctx)"
proof (cases "nc_resolver ctx")
  case (Some r)
  with assms good_queryD [OF assms(1), of "nc_resolver ctx"] show ?thesis
    by (auto simp: with_resolver_def net_ok_def)
qed (use assms in \<open>simp add: with_resolver_def\<close>)

text \<open>A query that returns, keeps the cache well-formed and adds just the given actions.\<close>

definition answers :: "('a \<times> net_context) option \<Rightarrow> net_context \<Rightarrow> string list \<Rightarrow> bool" where
  "answers m ctx actions \<longleftrightarrow> (\<exists>x ctx'. m = Some (x, ctx') \<and> net_ok ctx' \<and> nc_actions ctx' = nc_actions ctx @ actions)"

lemma answers_with: "good_query q \<Longrightarrow> net_ok ctx \<Longrightarrow> answers (with_resolver offline q ctx) ctx []"
  using with_resolver_returns [of q ctx offline] by (auto simp: answers_def)

lemma net_ok_record [simp]: "net_ok (record_action a ctx) = net_ok ctx"
  by (simp add: net_ok_def record_action_def)

lemma answers_recorded: "good_query q \<Longrightarrow> net_ok ctx \<Longrightarrow> answers (with_resolver offline q (record_action a ctx)) ctx [a]"
  using with_resolver_returns [of q "record_action a ctx" offline] net_ok_record [of a ctx]
  by (auto simp: answers_def record_action_def simp del: net_ok_record)

text \<open>
  Whatever the network answers, every query a script makes returns and leaves the cache well-formed; only the block-list checks
  and the resolution of a domain add an action, and each adds exactly one.
\<close>

theorem queries_return:
  assumes "net_ok ctx"
  shows "answers (dns_check b t domain ctx) ctx [] \<and> answers (dns_resolution b t domain ctx) ctx [] \<and>
    answers (get_mx_records b t domain ctx) ctx [] \<and> answers (valid_mx b t domain ctx) ctx [] \<and>
    answers (mx_has_family b t domain v6 ctx) ctx [] \<and> answers (rbl_lookup b t ip zone ctx) ctx [] \<and>
    answers (fcrdns_valid b t ip ctx) ctx [] \<and>
    answers (rbl_check b t ip zone ctx) ctx [''rbl_check:'' @ ip @ '':'' @ zone] \<and>
    answers (mx_in_rbl b t domain zone ctx) ctx [''mx_rbl_check:'' @ domain @ '':'' @ zone] \<and>
    answers (domain_resolution lib b t sender verify ctx) ctx
      [''domain_resolve:'' @ sender @ '':'' @ (if verify then ''true'' else ''false'')]"
proof (intro conjI)
  show "answers (dns_check b t domain ctx) ctx []"
    unfolding dns_check_def by (intro answers_with good_queries assms)
  show "answers (dns_resolution b t domain ctx) ctx []"
    unfolding dns_resolution_def by (intro answers_with good_queries assms)
  show "answers (get_mx_records b t domain ctx) ctx []"
    unfolding get_mx_records_def by (intro answers_with good_queries assms)
  show "answers (valid_mx b t domain ctx) ctx []"
    unfolding valid_mx_def by (intro answers_with good_queries assms)
  show "answers (mx_has_family b t domain v6 ctx) ctx []"
    unfolding mx_has_family_def by (intro answers_with good_queries assms)
  show "answers (rbl_lookup b t ip zone ctx) ctx []"
    unfolding rbl_lookup_def by (intro answers_with good_queries assms)
  have "answers (Some (False, ctx)) ctx []" using assms by (auto simp: answers_def)
  moreover have "answers (with_resolver False (\<lambda>r. then_ask (lookup_ptr b t ip r) (ask_any (\<lambda>name r1.
      map_option (map_prod (\<lambda>addrs. ip \<in> set addrs) (\<lambda>x. x)) (lookup_host b t name r1)))) ctx) ctx []"
    by (intro answers_with good_queries assms)
  ultimately show "answers (fcrdns_valid b t ip ctx) ctx []" by (simp add: fcrdns_valid_def)
  show "answers (rbl_check b t ip zone ctx) ctx [''rbl_check:'' @ ip @ '':'' @ zone]"
    unfolding rbl_check_def by (intro answers_recorded good_queries assms)
  show "answers (mx_in_rbl b t domain zone ctx) ctx [''mx_rbl_check:'' @ domain @ '':'' @ zone]"
    unfolding mx_in_rbl_def by (intro answers_recorded good_queries assms)
  show "answers (domain_resolution lib b t sender verify ctx) ctx
      [''domain_resolve:'' @ sender @ '':'' @ (if verify then ''true'' else ''false'')]"
    unfolding domain_resolution_def Let_def
    by (rule answers_recorded [OF _ assms]) (cases verify, simp_all add: good_has_mx good_host_or_mx)
qed

definition offline_context :: net_context where
  "offline_context = \<lparr>nc_resolver = None, nc_dns_resolved = True, nc_rbl_listed = False, nc_mx = [], nc_sender_ip = [], nc_actions = []\<rparr>"

theorem queries_return_witness:
  "\<forall>b t. answers (rbl_check b t ''192.0.2.1'' [] offline_context) offline_context [''rbl_check:192.0.2.1:'']"
proof (intro allI)
  fix b t
  have "net_ok offline_context" by (simp add: net_ok_def offline_context_def state_ok_def)
  from queries_return [OF this, of b t] show "answers (rbl_check b t ''192.0.2.1'' [] offline_context) offline_context [''rbl_check:192.0.2.1:'']"
    by (metis append.right_neutral append_Cons append_Nil)
qed

section \<open>Queries and delivery\<close>

lemma action_name_colon: "CHR '':'' \<notin> set name \<Longrightarrow> action_name (name @ CHR '':'' # rest) = name"
  by (simp add: action_name_def split2_def index_byte_append)

text \<open>
  C40: Defect: a policy that only asks whether an address is on a block list can no longer deliver mail through the host adapter. The
  query adds an action of its own, which the adapter refuses unless the host happens to offer an action of that name.
\<close>

theorem query_blocks_adapter:
  assumes "net_ok ctx" and "''rbl_check'' \<notin> set supported"
  shows "\<exists>listed ctx'. rbl_check b t ip zone ctx = Some (listed, ctx') \<and>
    (\<forall>later. \<exists>e. adapter_deliver env supported from to message (nc_actions ctx' @ later) addr helo = (Some e, None))"
proof -
  have "answers (rbl_check b t ip zone ctx) ctx [''rbl_check:'' @ ip @ '':'' @ zone]"
    unfolding rbl_check_def by (intro answers_recorded good_queries assms)
  then obtain listed ctx' where ctx': "rbl_check b t ip zone ctx = Some (listed, ctx')"
      "nc_actions ctx' = nc_actions ctx @ [''rbl_check:'' @ ip @ '':'' @ zone]"
    by (auto simp: answers_def)
  have "action_name (''rbl_check:'' @ ip @ '':'' @ zone) = ''rbl_check''"
    using action_name_colon [of "''rbl_check''" "ip @ '':'' @ zone"] by simp
  then have "\<not> adapter_supports supported (''rbl_check:'' @ ip @ '':'' @ zone)"
    using assms(2) by (simp add: adapter_supports_def adapter_ignores_def)
  then have "filter (\<lambda>a. \<not> adapter_supports supported a) (nc_actions ctx' @ later) \<noteq> []" for later
    using ctx'(2) by (simp add: filter_empty_conv)
  then have "\<exists>e. adapter_deliver env supported from to message (nc_actions ctx' @ later) addr helo = (Some e, None)" for later
    unfolding adapter_deliver_def by (auto split: list.split)
  with ctx'(1) show ?thesis by blast
qed

theorem query_blocks_adapter_witness:
  "\<forall>b t env from to message addr helo. \<exists>listed ctx' e. rbl_check b t ''192.0.2.1'' [] offline_context = Some (listed, ctx') \<and>
     adapter_deliver env [''accept'', ''quarantine''] from to message (nc_actions ctx' @ [''accept'']) addr helo = (Some e, None)"
proof -
  have "net_ok offline_context" by (simp add: net_ok_def offline_context_def state_ok_def)
  from query_blocks_adapter [OF this, of "[''accept'', ''quarantine'']" _ _ "''192.0.2.1''" "[]"] show ?thesis by force
qed

section \<open>Severities\<close>

lemma validate_sorted: "sorted_wrt (\<lambda>f g. severity_rank (fi_severity f) \<ge> severity_rank (fi_severity g)) (validate_headers env ctx)"
  unfolding validate_headers_def sort_findings_stable
  by (rule sorted_wrt_mono_rel [OF _ sorted_sort_key [unfolded sorted_map]])
    (use severity_rank_le in \<open>auto simp: le_diff_iff' \<close>)

lemma filter_sorted:
  fixes k :: "'a \<Rightarrow> nat"
  shows "sorted_wrt (\<lambda>x y. k x \<ge> k y) xs \<Longrightarrow> filter (\<lambda>x. \<not> k x < n) xs = takeWhile (\<lambda>x. \<not> k x < n) xs"
proof (induction xs)
  case (Cons x xs)
  then show ?case by (cases xs) (auto simp: filter_empty_conv)
qed simp

text \<open>
  Asking for findings from a severity on gives the front part of all findings, those of the severity and above; the highest
  severity reported is the highest there is.
\<close>

theorem severity_queries:
  "findings_from env s ctx = takeWhile (\<lambda>f. \<not> severity_rank (fi_severity f) < severity_rank s) (validate_headers env ctx) \<and>
   finding_count env s ctx = length (findings_from env s ctx) \<and>
   list_all (\<lambda>f. severity_rank (fi_severity f) \<le> severity_rank (max_severity env ctx)) (validate_headers env ctx)"
proof (intro conjI)
  show "findings_from env s ctx = takeWhile (\<lambda>f. \<not> severity_rank (fi_severity f) < severity_rank s) (validate_headers env ctx)"
    unfolding findings_from_def by (rule filter_sorted [OF validate_sorted])
  show "finding_count env s ctx = length (findings_from env s ctx)"
    by (simp add: finding_count_def findings_from_def not_less)
  show "list_all (\<lambda>f. severity_rank (fi_severity f) \<le> severity_rank (max_severity env ctx)) (validate_headers env ctx)"
    using validate_sorted [of env ctx] by (cases "validate_headers env ctx") (auto simp: max_severity_def list_all_iff)
qed

end
