(* ===== verification/Tokens.thy ===== *)
theory Tokens
  imports WordPiece Content "HOL-Library.Multiset"
begin

text \<open>
  The tokens models are trained on, \<^verbatim>\<open>pkg/ml/tokenize.go\<close>: markers for links, addresses, amounts, emphasis and shouting, the words
  of a text, n-grams and sparse bigrams; and the counts of tokens by class, \<^verbatim>\<open>TokenStore\<close> of \<^verbatim>\<open>robinson.go\<close>. What is computed from
  the counts is floating-point arithmetic and outside. The tables of \<^verbatim>\<open>unicode\<close> (letters, digits, cases) are a parameter;
  the patterns ignore the case of ASCII letters only.
\<close>

section \<open>Patterns\<close>

definition scheme :: rx where
  "scheme = rx_any [Cat (rx_word ''http'') (rx_opt (rx_word ''s'')), rx_word ''ftp'']"

definition token_url :: rx where
  "token_url = rx_seq [WordEdge, scheme, rx_lit ''://'', rx_plus (rx_not [TAB, LF, CHR 0x0C, CR, SP, CHR ''<'', CHR ''>'', DQ, SQ])]"

definition token_host :: rx where
  "token_host = rx_seq [AtStart, scheme, rx_lit ''://'', rx_opt (Cat (Star (rx_not ''@/'')) (rx_lit ''@'')),
     Grp (rx_plus (rx_not ''/:?#''))]"

definition ascii_alnum :: "char \<Rightarrow> bool" where
  "ascii_alnum c \<longleftrightarrow> is_lower c \<or> is_upper c \<or> is_digit c"

definition token_email :: rx where
  "token_email = rx_seq [WordEdge, rx_plus (Cls (\<lambda>c. ascii_alnum c \<or> c \<in> set ''._%+-'')), rx_lit ''@'',
     rx_plus (Cls (\<lambda>c. ascii_alnum c \<or> c \<in> set ''.-'')), rx_lit ''.'',
     Rep 2 2 (Cls (\<lambda>c. is_lower c \<or> is_upper c)), Star (Cls (\<lambda>c. is_lower c \<or> is_upper c)), WordEdge]"

text \<open>The signs for dollar, euro, pound, yen and rupee.\<close>

definition token_money :: rx where
  "token_money = rx_seq [rx_any (map rx_lit [[CHR 0x24], [CHR 0xE2, CHR 0x82, CHR 0xAC], [CHR 0xC2, CHR 0xA3], [CHR 0xC2, CHR 0xA5],
       [CHR 0xE2, CHR 0x82, CHR 0xB9]]),
     rx_opt (Cls rx_blank), rx_plus (Cls (\<lambda>c. is_digit c \<or> c = CHR '','')),
     rx_opt (Cat (rx_lit ''.'') (Rep 2 2 (Cls is_digit)))]"

definition token_emphasis :: rx where
  "token_emphasis = rx_any (map (\<lambda>c. Cat (Rep 2 2 (Cls (\<lambda>x. x = c))) (Star (Cls (\<lambda>x. x = c)))) ''!?$*#'')"

definition is_number :: "string \<Rightarrow> bool" where
  "is_number s \<longleftrightarrow> s \<noteq> [] \<and> list_all (\<lambda>c. is_digit c \<or> c = CHR ''.'' \<or> c = CHR '','') s"

text \<open>\<^verbatim>\<open>ReplaceAllStringFunc\<close>.\<close>

definition rx_replace_fun :: "rx \<Rightarrow> (string \<Rightarrow> string) \<Rightarrow> string \<Rightarrow> string" where
  "rx_replace_fun r f s = (case rx_scan r [] (None, s) of (ms, rest) \<Rightarrow> concat (map (\<lambda>(b, caps, m). b @ f m) ms) @ rest)"

section \<open>Words\<close>

record letter_tables =
  lt_letter :: "nat \<Rightarrow> bool"
  lt_digit :: "nat \<Rightarrow> bool"
  lt_lower :: "string \<Rightarrow> string"
  lt_upper :: "string \<Rightarrow> string"

record analyzer =
  az_lowercase :: bool
  az_strip_html :: bool
  az_min_len :: int
  az_max_len :: int
  az_ngram_min :: int
  az_ngram_max :: int
  az_stopwords :: "string list"
  az_max_tokens :: int
  az_keep_numbers :: bool
  az_osb_window :: int

definition english_stopwords :: "string list" where
  "english_stopwords = [''a'', ''an'', ''and'', ''are'', ''as'', ''at'', ''be'', ''by'', ''for'', ''from'',
     ''has'', ''he'', ''in'', ''is'', ''it'', ''its'', ''of'', ''on'', ''that'', ''the'',
     ''to'', ''was'', ''were'', ''will'', ''with'', ''or'', ''but'', ''if'', ''then'',
     ''this'', ''these'', ''those'', ''there'', ''their'', ''them'', ''they'']"

definition default_analyzer :: analyzer where
  "default_analyzer = \<lparr>az_lowercase = True, az_strip_html = True, az_min_len = 2, az_max_len = 32, az_ngram_min = 1,
     az_ngram_max = 2, az_stopwords = english_stopwords, az_max_tokens = 20000, az_keep_numbers = False, az_osb_window = 0\<rparr>"

definition word_rune :: "letter_tables \<Rightarrow> string \<Rightarrow> bool" where
  "word_rune lt r \<longleftrightarrow> lt_letter lt (rune_code r) \<or> lt_digit lt (rune_code r) \<or> r = ''_'' \<or> r = [CHR 0x27] \<or> r = ''-''"

fun rune_fields :: "(string \<Rightarrow> bool) \<Rightarrow> string list \<Rightarrow> string \<Rightarrow> string list" where
  "rune_fields p [] cur = (if cur = [] then [] else [cur])"
| "rune_fields p (r # rs) cur = (if p r then rune_fields p rs (cur @ r) else (if cur = [] then [] else [cur]) @ rune_fields p rs [])"

definition split_words :: "letter_tables \<Rightarrow> string \<Rightarrow> string list" where
  "split_words lt text = rune_fields (word_rune lt) (runes_of text) []"

definition has_letter :: "letter_tables \<Rightarrow> string \<Rightarrow> bool" where
  "has_letter lt s \<longleftrightarrow> list_ex (\<lambda>r. lt_letter lt (rune_code r)) (runes_of s)"

definition shouted :: "letter_tables \<Rightarrow> analyzer \<Rightarrow> string \<Rightarrow> bool" where
  "shouted lt a raw \<longleftrightarrow> az_lowercase a \<and> rune_count raw \<ge> 4 \<and> raw = lt_upper lt raw \<and> has_letter lt raw"

definition word_token :: "letter_tables \<Rightarrow> analyzer \<Rightarrow> string \<Rightarrow> string" where
  "word_token lt a raw =
     (let token = trim_set (if az_lowercase a then lt_lower lt raw else raw) [CHR 0x27, DQ, CHR 0x60, CHR ''.'', CHR '','', CHR '';'', CHR '':'']
      in if token \<noteq> [] \<and> \<not> az_keep_numbers a \<and> is_number token then ''__num__'' else token)"

definition token_left_out :: "analyzer \<Rightarrow> string \<Rightarrow> bool" where
  "token_left_out a token \<longleftrightarrow>
     token = [] \<or>
     \<not> has_prefix token ''__'' \<and>
       (az_min_len a > 0 \<and> int (rune_count token) < az_min_len a \<or> az_max_len a > 0 \<and> int (rune_count token) > az_max_len a \<or>
        token \<in> set (az_stopwords a))"

fun word_loop :: "letter_tables \<Rightarrow> analyzer \<Rightarrow> string list \<Rightarrow> string list \<Rightarrow> string list" where
  "word_loop lt a [] out = out"
| "word_loop lt a (raw # ws) out =
     (let out1 = (if shouted lt a raw then out @ [''__caps__''] else out); token = word_token lt a raw in
      if token_left_out a token then word_loop lt a ws out1
      else let out2 = out1 @ [token] in
           if az_max_tokens a > 0 \<and> int (length out2) \<ge> az_max_tokens a then out2 else word_loop lt a ws out2)"

section \<open>Features\<close>

definition expand_ngrams :: "analyzer \<Rightarrow> string list \<Rightarrow> string list" where
  "expand_ngrams a us =
     (let n_min = nat (max 1 (az_ngram_min a)); n_max = max n_min (nat (az_ngram_max a)) in
      if n_min = 1 \<and> n_max = 1 then us
      else concat (map (\<lambda>n. if n = 1 then us
          else map (\<lambda>i. join ''_'' (take n (drop i us))) [0..<length us + 1 - n]) [n_min..<Suc n_max]))"

definition sparse_bigrams :: "nat \<Rightarrow> string list \<Rightarrow> string list" where
  "sparse_bigrams window us =
     concat (map (\<lambda>i. map (\<lambda>j. us ! i @ ''~'' @ [digit_char (min (j - i) 9)] @ ''~'' @ us ! j)
       [i + 1..<min (i + window) (length us - 1) + 1]) [0..<length us])"

definition host_feature :: "letter_tables \<Rightarrow> string \<Rightarrow> string list" where
  "host_feature lt u = (case rx_match token_host (None, u) of (host # _, _) # _ \<Rightarrow> [''url:'' @ lt_lower lt host] | _ \<Rightarrow> [])"

definition address_feature :: "letter_tables \<Rightarrow> string \<Rightarrow> string list" where
  "address_feature lt e = (case last_index CHR ''@'' e of Some i \<Rightarrow> [''emaildom:'' @ lt_lower lt (drop (Suc i) e)] | None \<Rightarrow> [])"

definition emphasis_marker :: "string \<Rightarrow> string" where
  "emphasis_marker run =
     '' __rep'' @ (case hd run of CHR ''!'' \<Rightarrow> ''bang'' | CHR ''?'' \<Rightarrow> ''query'' | CHR ''$'' \<Rightarrow> ''cash'' | CHR ''*'' \<Rightarrow> ''star''
       | CHR ''#'' \<Rightarrow> ''hash'' | _ \<Rightarrow> []) @ ''__ ''"

definition token_unigrams :: "letter_tables \<Rightarrow> analyzer \<Rightarrow> string \<Rightarrow> string list" where
  "token_unigrams lt a text0 =
     (let text1 = (if az_strip_html a then rx_replace tag_pattern '' '' text0 else text0);
          hosts = concat (map (host_feature lt) (rx_matches token_url text1));
          text2 = rx_replace token_url '' __url__ '' text1;
          domains = concat (map (address_feature lt) (rx_matches token_email text2));
          text3 = rx_replace token_email '' __email__ '' text2;
          money = map (\<lambda>_. ''__money__'') (rx_matches token_money text3);
          text4 = rx_replace_fun token_emphasis emphasis_marker text3
      in word_loop lt a (split_words lt text4) (hosts @ domains @ money))"

definition analyze_text :: "letter_tables \<Rightarrow> analyzer \<Rightarrow> string \<Rightarrow> string list" where
  "analyze_text lt a text =
     (if text = [] then []
      else let us = token_unigrams lt a text in
           expand_ngrams a us @ (if az_osb_window a > 1 then sparse_bigrams (nat (az_osb_window a)) us else []))"

definition token_counts :: "string list \<Rightarrow> string \<Rightarrow> nat" where
  "token_counts tokens = count_list tokens"

section \<open>Counts by class\<close>

record token_store =
  ts_counts :: "string \<Rightarrow> nat \<times> nat"
  ts_class_docs :: "nat \<times> nat"
  ts_classes :: "string \<times> string"

definition new_token_store :: "string list \<Rightarrow> string + token_store" where
  "new_token_store classes =
     (case classes of
        [a, b] \<Rightarrow> Inr \<lparr>ts_counts = (\<lambda>_. (0, 0)), ts_class_docs = (0, 0), ts_classes = (a, b)\<rparr>
      | _ \<Rightarrow> Inl ''ml: Robinson/Fisher scorers require exactly two classes'')"

text \<open>The index of a label is a map built from both classes, so the second wins if they are equal.\<close>

definition class_index :: "token_store \<Rightarrow> string \<Rightarrow> bool option" where
  "class_index s label =
     (if label = snd (ts_classes s) then Some True else if label = fst (ts_classes s) then Some False else None)"

definition add_class :: "bool \<Rightarrow> nat \<Rightarrow> nat \<times> nat \<Rightarrow> nat \<times> nat" where
  "add_class second n c = (if second then (fst c, snd c + n) else (fst c + n, snd c))"

fun fit_store :: "(string \<Rightarrow> string list) \<Rightarrow> (string \<times> string) list \<Rightarrow> token_store \<Rightarrow> string + token_store" where
  "fit_store tokens [] s = Inr s"
| "fit_store tokens ((label, text) # docs) s =
     (case class_index s label of
        None \<Rightarrow> Inl (''ml: unknown token-store class '' @ go_quote label)
      | Some second \<Rightarrow>
          fit_store tokens docs (s\<lparr>ts_class_docs := add_class second 1 (ts_class_docs s),
            ts_counts := (\<lambda>t. add_class second (token_counts (tokens text) t) (ts_counts s t))\<rparr>))"

section \<open>What the features are\<close>

lemma window_in: "i + n \<le> length us \<Longrightarrow> us = take i us @ take n (drop i us) @ drop (i + n) us"
  by (metis append_assoc append_take_drop_id add.commute drop_drop)

text \<open>
  The features are exactly the runs of neighbouring tokens with a length in the configured range, joined by underscores.
\<close>

theorem ngrams_exact:
  assumes "1 \<le> az_ngram_min a" and "az_ngram_min a \<le> az_ngram_max a"
  shows "x \<in> set (expand_ngrams a us) \<longleftrightarrow>
    (\<exists>pre run post. us = pre @ run @ post \<and> az_ngram_min a \<le> int (length run) \<and> int (length run) \<le> az_ngram_max a \<and>
       x = join ''_'' run)"
proof -
  define lo where "lo = nat (max 1 (az_ngram_min a))"
  define hi where "hi = max lo (nat (az_ngram_max a))"
  have lohi: "int lo = az_ngram_min a" "int hi = az_ngram_max a" using assms by (simp_all add: lo_def hi_def)
  have run: "x \<in> set (if n = 1 then us else map (\<lambda>i. join ''_'' (take n (drop i us))) [0..<length us + 1 - n]) \<longleftrightarrow>
      (\<exists>pre run post. us = pre @ run @ post \<and> length run = n \<and> x = join ''_'' run)" (is "?l \<longleftrightarrow> ?r") if "n \<ge> 1" for n
  proof (cases "n = 1")
    case True
    show ?thesis
    proof
      assume ?l
      with True obtain pre post where "us = pre @ x # post" by (auto dest: split_list)
      with True show ?r by (intro exI [of _ pre] exI [of _ "[x]"] exI [of _ post]) simp
    next
      assume ?r
      with True show ?l by (auto simp: length_Suc_conv)
    qed
  next
    case False
    show ?thesis
    proof
      assume ?l
      with False obtain i where "i \<in> set [0..<length us + 1 - n]" and x: "x = join ''_'' (take n (drop i us))" by auto
      then have i: "i + n \<le> length us" "x = join ''_'' (take n (drop i us))" by auto
      then have "length (take n (drop i us)) = n" by simp
      with window_in [OF i(1)] i(2) show ?r by blast
    next
      assume ?r
      then obtain pre r post where r: "us = pre @ r @ post" "length r = n" "x = join ''_'' r" by blast
      then have "take n (drop (length pre) us) = r" "length pre \<in> set [0..<length us + 1 - n]" by auto
      then have "x \<in> (\<lambda>i. join ''_'' (take n (drop i us))) ` set [0..<length us + 1 - n]"
        using r(3) by (intro image_eqI [of _ _ "length pre"]) simp_all
      with False show ?l by simp
    qed
  qed
  define f where "f = (\<lambda>n. if n = 1 then us else map (\<lambda>i. join ''_'' (take n (drop i us))) [0..<length us + 1 - n])"
  have eq: "expand_ngrams a us = (if lo = 1 \<and> hi = 1 then us else concat (map f [lo..<Suc hi]))"
    unfolding expand_ngrams_def Let_def f_def lo_def hi_def ..
  have "x \<in> set (expand_ngrams a us) \<longleftrightarrow> (\<exists>n \<in> {lo..hi}. x \<in> set (f n))"
  proof (cases "lo = 1 \<and> hi = 1")
    case True
    then show ?thesis by (simp add: eq f_def)
  next
    case False
    then have "expand_ngrams a us = concat (map f [lo..<Suc hi])" unfolding eq by (rule if_not_P)
    then have "set (expand_ngrams a us) = (\<Union>n \<in> set [lo..<Suc hi]. set (f n))" by (simp del: upt_Suc)
    then show ?thesis by auto
  qed
  also have "\<dots> \<longleftrightarrow> (\<exists>n \<in> {lo..hi}. \<exists>pre run post. us = pre @ run @ post \<and> length run = n \<and> x = join ''_'' run)"
  proof (rule bex_cong [OF refl])
    fix n assume "n \<in> {lo..hi}"
    then have "n \<ge> 1" using assms(1) lohi(1) by auto
    then show "x \<in> set (f n) \<longleftrightarrow> (\<exists>pre run post. us = pre @ run @ post \<and> length run = n \<and> x = join ''_'' run)"
      unfolding f_def by (rule run)
  qed
  finally show ?thesis unfolding lohi [symmetric] by force
qed

theorem ngrams_exact_witness:
  "''a_b'' \<in> set (expand_ngrams default_analyzer [''a'', ''b'', ''c'']) \<and> ''a_c'' \<notin> set (expand_ngrams default_analyzer [''a'', ''b'', ''c''])"
proof -
  have "''a_b'' \<in> set (expand_ngrams default_analyzer [''a'', ''b'', ''c''])"
  proof (rule ngrams_exact [THEN iffD2])
    show "\<exists>pre run post. [''a'', ''b'', ''c''] = pre @ run @ post \<and> az_ngram_min default_analyzer \<le> int (length run) \<and>
        int (length run) \<le> az_ngram_max default_analyzer \<and> ''a_b'' = join ''_'' run"
      by (rule exI [of _ "[]"], rule exI [of _ "[''a'', ''b'']"]) (simp add: default_analyzer_def)
  qed (simp_all add: default_analyzer_def)
  moreover have "''a_c'' \<notin> set (expand_ngrams default_analyzer [''a'', ''b'', ''c''])" by code_simp
  ultimately show ?thesis by blast
qed

text \<open>
  Defect: the limit on the tokens of a text does not count shouting. Each capitalized stop word adds a marker and no token, so a text of
  such words has as many tokens as words, however small the limit is.
\<close>

definition ascii_letters :: letter_tables where
  "ascii_letters = \<lparr>lt_letter = (\<lambda>n. 65 \<le> n \<and> n \<le> 90 \<or> 97 \<le> n \<and> n \<le> 122), lt_digit = (\<lambda>n. 48 \<le> n \<and> n \<le> 57),
     lt_lower = to_lower, lt_upper = to_upper\<rparr>"

lemma shouting_unlimited:
  "word_loop ascii_letters (default_analyzer\<lparr>az_max_tokens := limit\<rparr>) (replicate n ''WITH'') out = out @ replicate n ''__caps__''"
proof (induction n arbitrary: out)
  case (Suc n)
  have "shouted ascii_letters (default_analyzer\<lparr>az_max_tokens := limit\<rparr>) ''WITH''"
    unfolding shouted_def default_analyzer_def by (simp, code_simp)
  moreover have "word_token ascii_letters (default_analyzer\<lparr>az_max_tokens := limit\<rparr>) ''WITH'' = ''with''"
    unfolding word_token_def default_analyzer_def by (simp, code_simp)
  moreover have "token_left_out (default_analyzer\<lparr>az_max_tokens := limit\<rparr>) ''with''"
    unfolding token_left_out_def default_analyzer_def by (simp add: has_prefix_def english_stopwords_def)
  ultimately show ?case using Suc.IH [of "out @ [''__caps__'']"] by (simp add: Let_def)
qed simp

section \<open>What the counts are\<close>

lemma add_class_commute: "add_class b m (add_class c n x) = add_class c n (add_class b m x)"
  by (simp add: add_class_def)

definition known_class :: "token_store \<Rightarrow> string \<Rightarrow> bool" where
  "known_class s label \<longleftrightarrow> class_index s label \<noteq> None"

definition second_class :: "token_store \<Rightarrow> string \<Rightarrow> bool" where
  "second_class s label \<longleftrightarrow> label = snd (ts_classes s)"

definition side :: "bool \<Rightarrow> nat \<times> nat \<Rightarrow> nat" where
  "side second c = (if second then snd c else fst c)"

lemma side_add: "side b (add_class c n x) = side b x + (if b = c then n else 0)"
  by (simp add: side_def add_class_def)

lemma side_eqI: "side False x = side False y \<Longrightarrow> side True x = side True y \<Longrightarrow> x = y"
  by (simp add: side_def prod_eq_iff)

text \<open>The documents of a class.\<close>

definition docs_of :: "token_store \<Rightarrow> bool \<Rightarrow> (string \<times> string) list \<Rightarrow> string list" where
  "docs_of s b docs = map snd (filter (\<lambda>d. second_class s (fst d) = b) docs)"

lemma fit_store_exact:
  assumes "fit_store tokens docs s = Inr s'"
  shows "ts_classes s' = ts_classes s \<and>
    side b (ts_class_docs s') = side b (ts_class_docs s) + length (docs_of s b docs) \<and>
    side b (ts_counts s' t) = side b (ts_counts s t) + sum_list (map (\<lambda>d. count_list (tokens d) t) (docs_of s b docs))"
  using assms
proof (induction tokens docs s rule: fit_store.induct)
  case (2 tokens label body docs s)
  then obtain second where c: "class_index s label = Some second" by (auto split: option.splits)
  then have second: "second = second_class s label" by (auto simp: class_index_def second_class_def split: if_splits)
  from 2(1) [OF c] 2(2) c show ?case
    by (auto simp: side_add docs_of_def second second_class_def token_counts_def)
qed (simp add: docs_of_def)

text \<open>
  The counts a model keeps are those of the documents of each class: how many there are, and how often each token occurs in them
  altogether, so the order of the training documents does not matter.
\<close>

theorem token_store_exact:
  assumes "new_token_store [c0, c1] = Inr s0" and "fit_store tokens docs s0 = Inr s"
  shows "(\<forall>b. side b (ts_class_docs s) = length (docs_of s0 b docs)) \<and>
    (\<forall>b t. side b (ts_counts s t) = sum_list (map (\<lambda>d. count_list (tokens d) t) (docs_of s0 b docs))) \<and>
    (\<forall>docs' s'. mset docs' = mset docs \<and> fit_store tokens docs' s0 = Inr s' \<longrightarrow> s' = s)"
proof -
  have zero: "side b (ts_class_docs s0) = 0" "side b (ts_counts s0 t) = 0" for b t
    using assms(1) by (auto simp: new_token_store_def side_def)
  have exact: "side b (ts_class_docs s') = length (docs_of s0 b ds)"
      "side b (ts_counts s' t) = sum_list (map (\<lambda>d. count_list (tokens d) t) (docs_of s0 b ds))"
      "ts_classes s' = ts_classes s0"
    if "fit_store tokens ds s0 = Inr s'" for b t ds s'
    using fit_store_exact [OF that, of b t] zero by simp_all
  have "s' = s" if p: "mset ds = mset docs" "fit_store tokens ds s0 = Inr s'" for ds s'
  proof -
    have m: "mset (docs_of s0 b ds) = mset (docs_of s0 b docs)" for b
      using p(1) by (simp add: docs_of_def)
    then have "length (docs_of s0 b ds) = length (docs_of s0 b docs)"
        "sum_list (map f (docs_of s0 b ds)) = sum_list (map f (docs_of s0 b docs))" for b and f :: "string \<Rightarrow> nat"
      by (metis size_mset, metis mset_map sum_mset_sum_list m)
    with exact [OF p(2)] exact [OF assms(2)]
    have "ts_class_docs s' = ts_class_docs s" "ts_counts s' = ts_counts s" "ts_classes s' = ts_classes s"
      by (auto intro!: side_eqI ext)
    then show ?thesis by simp
  qed
  with exact [OF assms(2)] show ?thesis by blast
qed

theorem token_store_exact_witness:
  "\<exists>s0 s. new_token_store [''ham'', ''spam''] = Inr s0 \<and>
     fit_store (\<lambda>d. if d = [] then [] else [d, d]) [(''spam'', ''win''), (''ham'', ''hi''), (''spam'', ''win'')] s0 = Inr s \<and>
     side True (ts_counts s ''win'') = 4 \<and> side False (ts_class_docs s) = 1"
proof -
  define f where "f = (\<lambda>d :: string. if d = [] then [] else [d, d])"
  define docs where "docs = [(''spam'', ''win''), (''ham'', ''hi''), (''spam'', ''win'')]"
  obtain s0 where s0: "new_token_store [''ham'', ''spam''] = Inr s0" by (simp add: new_token_store_def)
  then have classes: "ts_classes s0 = (''ham'', ''spam'')" by (auto simp: new_token_store_def)
  obtain s where s: "fit_store f docs s0 = Inr s"
    by (simp add: docs_def class_index_def classes)
  have "docs_of s0 True docs = [''win'', ''win'']" "docs_of s0 False docs = [''hi'']"
    by (simp_all add: docs_of_def docs_def second_class_def classes)
  with token_store_exact [OF s0 s] have "side True (ts_counts s ''win'') = 4" "side False (ts_class_docs s) = 1"
    by (simp_all add: f_def)
  with s0 s show ?thesis unfolding f_def docs_def by blast
qed

end
