(* ===== verification/Models.thy ===== *)
theory Models
  imports Tokens PolicyLoad "HOL-Library.Word" "HOL-Library.AList"
begin

unbundle bit_operations_syntax

text \<open>
  Training and keeping models, \<^verbatim>\<open>pkg/ml/model.go\<close> and \<^verbatim>\<open>resolveModel\<close> of \<^verbatim>\<open>pkg/rules/builtins_ml.go\<close>: what is checked before training, the
  reproducible split of a corpus into training and evaluation, the counts of an evaluation, and the registry scripts find
  models in. The generator of the split is kept at 64 bits. The models themselves are floating-point and a parameter.
\<close>

section \<open>What is trained\<close>

record train_options =
  to_scorer :: string
  to_selection :: string

definition default_text :: "string \<Rightarrow> string \<Rightarrow> string" where
  "default_text s d = (if s = [] then d else s)"

text \<open>The scorer, the feature selection and the classes, or the reason for a refusal.\<close>

definition check_training :: "train_options \<Rightarrow> (string \<times> string) list \<Rightarrow> string + string \<times> string \<times> string list" where
  "check_training opts docs =
     (let scorer = default_text (to_scorer opts) ''fisher''; selection = default_text (to_selection opts) ''chi2'';
          classes = sort (remdups (map fst docs)) in
      if length docs < 2 then Inl ''ml: need at least two training documents''
      else if scorer \<notin> {''bayes'', ''robinson'', ''fisher''} then Inl (''ml: unknown scorer '' @ go_quote scorer @ '' (want bayes, robinson, or fisher)'')
      else if selection \<notin> {''chi2'', ''frequency''} then Inl (''ml: unknown feature selection '' @ go_quote selection @ '' (want chi2 or frequency)'')
      else if list_ex (\<lambda>d. trim_space (fst d) = []) docs then Inl ''ml: training document has an empty label''
      else if length classes < 2 then 
        Inl (''ml: corpus has only '' @ show_nat (length classes) @ '' class; at least two are required'')
      else if length classes \<noteq> 2 \<and> scorer \<noteq> ''bayes'' then
        Inl (''ml: '' @ scorer @ '' scorer is binary; use scorer=bayes for '' @ show_nat (length classes) @ '' classes'')
      else Inr (scorer, selection, classes))"

section \<open>The split\<close>

definition next_state :: "64 word \<Rightarrow> 64 word" where
  "next_state state = state * 6364136223846793005 + 1442695040888963407"

definition swap_index :: "64 word \<Rightarrow> nat \<Rightarrow> nat" where
  "swap_index state i = unat (drop_bit 33 state mod of_nat (i + 1))"

definition swap :: "nat \<Rightarrow> nat \<Rightarrow> 'a list \<Rightarrow> 'a list" where
  "swap i j xs = xs[i := xs ! j, j := xs ! i]"

text \<open>The loop for \<open>i\<close> from the last index down to 1.\<close>

fun shuffle :: "nat \<Rightarrow> 64 word \<Rightarrow> 'a list \<Rightarrow> 'a list" where
  "shuffle 0 state order = order"
| "shuffle (Suc i) state order =
     (let state1 = next_state state in shuffle i state1 (swap (Suc i) (swap_index state1 (Suc i)) order))"

text \<open>\<open>wanted\<close> is the number of training documents asked for, rounded down, with the ratio in the open interval from 0 to 1.\<close>

definition split_corpus :: "'d list \<Rightarrow> nat option \<Rightarrow> int \<Rightarrow> 'd list \<times> 'd list" where
  "split_corpus docs wanted seed =
     (case wanted of
        None \<Rightarrow> (docs, [])
      | Some w \<Rightarrow>
          if length docs < 5 then (docs, [])
          else let state = (if (of_int seed :: 64 word) = 0 then 1 else of_int seed);
                   order = shuffle (length docs - 1) state [0..<length docs];
                   cut = (let c = max w 1 in if c \<ge> length docs then length docs - 1 else c)
               in (map (\<lambda>i. docs ! i) (take cut order), map (\<lambda>i. docs ! i) (drop cut order)))"

section \<open>Evaluation\<close>

record eval_counts =
  ec_correct :: nat
  ec_true_pos :: "string \<Rightarrow> nat"
  ec_false_pos :: "string \<Rightarrow> nat"
  ec_false_neg :: "string \<Rightarrow> nat"
  ec_support :: "string \<Rightarrow> nat"
  ec_confusion :: "string \<Rightarrow> string \<Rightarrow> nat"

definition no_counts :: eval_counts where
  "no_counts = \<lparr>ec_correct = 0, ec_true_pos = (\<lambda>_. 0), ec_false_pos = (\<lambda>_. 0), ec_false_neg = (\<lambda>_. 0), ec_support = (\<lambda>_. 0),
     ec_confusion = (\<lambda>_ _. 0)\<rparr>"

definition bump :: "string \<Rightarrow> (string \<Rightarrow> nat) \<Rightarrow> string \<Rightarrow> nat" where
  "bump k f = f(k := f k + 1)"

definition count_prediction :: "string list \<Rightarrow> string \<Rightarrow> string \<Rightarrow> eval_counts \<Rightarrow> eval_counts" where
  "count_prediction classes label pred c =
     (let c1 = c\<lparr>ec_support := bump label (ec_support c),
            ec_confusion := (if label \<in> set classes then (ec_confusion c)(label := bump pred (ec_confusion c label)) else ec_confusion c)\<rparr>
      in if pred = label then c1\<lparr>ec_correct := ec_correct c1 + 1, ec_true_pos := bump label (ec_true_pos c1)\<rparr>
         else c1\<lparr>ec_false_pos := bump pred (ec_false_pos c1), ec_false_neg := bump label (ec_false_neg c1)\<rparr>)"

text \<open>A document the model fails to classify is left out.\<close>

fun evaluate_docs :: "(string \<Rightarrow> string option) \<Rightarrow> string list \<Rightarrow> (string \<times> string) list \<Rightarrow> eval_counts \<Rightarrow> eval_counts" where
  "evaluate_docs predict classes [] c = c"
| "evaluate_docs predict classes ((label, text) # docs) c =
     evaluate_docs predict classes docs (case predict text of None \<Rightarrow> c | Some pred \<Rightarrow> count_prediction classes label pred c)"

section \<open>The registry\<close>

type_synonym 'm registry = "(string \<times> 'm) list"

definition load_file :: "(string \<Rightarrow> (string \<times> 'm) option) \<Rightarrow> string \<Rightarrow> string \<Rightarrow> 'm registry \<Rightarrow> 'm registry option" where
  "load_file load name path r =
     (case load path of
        None \<Rightarrow> None
      | Some (own, m) \<Rightarrow>
          let key = (if name \<noteq> [] then name else if own \<noteq> [] then own else trim_suffix (path_base path) (path_ext path))
          in Some (AList.update key m r))"

definition default_model :: "'m registry \<Rightarrow> 'm option" where
  "default_model r =
     (case map_of r ''default'' of
        Some m \<Rightarrow> Some m
      | None \<Rightarrow> (case r of [(_, m)] \<Rightarrow> Some m | _ \<Rightarrow> None))"

definition registry_names :: "'m registry \<Rightarrow> string list" where
  "registry_names r = sort (map fst r)"

definition resolve_model :: "'m registry option \<Rightarrow> string \<Rightarrow> string + 'm" where
  "resolve_model registry name =
     (case registry of
        None \<Rightarrow> Inl ''no classification models are loaded; start with --model to load one''
      | Some r \<Rightarrow>
          if name = []
          then (case default_model r of
              None \<Rightarrow> Inl (''no default model; name one of: '' @ join '', '' (registry_names r)) | Some m \<Rightarrow> Inr m)
          else (case map_of r name of
              None \<Rightarrow> Inl (''unknown model '' @ go_quote name @ ''; loaded models: '' @ join '', '' (registry_names r))
            | Some m \<Rightarrow> Inr m))"

section \<open>The split is a partition\<close>

lemma length_swap [simp]: "length (swap i j xs) = length xs"
  by (simp add: swap_def)

lemma mset_swap_at: "i < length xs \<Longrightarrow> j < length xs \<Longrightarrow> mset (swap i j xs) = mset xs"
  unfolding swap_def by (rule mset_swap)

lemma swap_index_le: "i < 2 ^ 31 \<Longrightarrow> swap_index state i \<le> i"
proof -
  assume i: "i < 2 ^ 31"
  then have "Suc i < 2 ^ 64" by simp
  then have u: "unat (of_nat (Suc i) :: 64 word) = Suc i"
    using take_bit_nat_eq_self [of "Suc i" 64] by (simp only: unsigned_of_nat) simp
  have "swap_index state i = unat (drop_bit 33 state) mod Suc i"
    by (simp only: swap_index_def unat_mod_distrib u Suc_eq_plus1 [symmetric])
  then show ?thesis by (simp add: less_Suc_eq_le [symmetric])
qed

lemma shuffle_mset: "i < length xs \<Longrightarrow> length xs < 2 ^ 31 \<Longrightarrow> mset (shuffle i state xs) = mset xs"
proof (induction i state xs rule: shuffle.induct)
  case (2 i state order)
  have "swap_index (next_state state) (Suc i) \<le> Suc i" using 2(2,3) by (intro swap_index_le) simp
  with 2 show ?case by (simp add: Let_def mset_swap_at)
qed simp

text \<open>
  However a corpus is split, every document is either used for training or held out, and none is used twice; and if documents are held
  out, both parts have some.
\<close>

theorem split_partitions:
  assumes "length docs < 2 ^ 31"
  shows "case split_corpus docs wanted seed of (train, holdout) \<Rightarrow>
    mset train + mset holdout = mset docs \<and>
    (wanted \<noteq> None \<and> length docs \<ge> 5 \<longrightarrow> train \<noteq> [] \<and> holdout \<noteq> [])"
proof (cases "wanted = None \<or> length docs < 5")
  case True
  then show ?thesis by (auto simp: split_corpus_def split: option.split)
next
  case False
  then obtain w where w: "wanted = Some w" "length docs \<ge> 5" by auto
  define order where "order = shuffle (length docs - 1) (if (of_int seed :: 64 word) = 0 then 1 else of_int seed) [0..<length docs]"
  define cut where "cut = (let c = max w 1 in if c \<ge> length docs then length docs - 1 else c)"
  have m: "mset order = mset [0..<length docs]"
    unfolding order_def using w assms by (intro shuffle_mset) auto
  then have len: "length order = length docs" by (metis length_upt minus_nat.diff_0 size_mset)
  have cut: "0 < cut" "cut < length docs" using w(2) by (auto simp: cut_def Let_def)
  have "mset (map (\<lambda>i. docs ! i) (take cut order)) + mset (map (\<lambda>i. docs ! i) (drop cut order)) = mset (map (\<lambda>i. docs ! i) order)"
    by (metis append_take_drop_id map_append mset_append)
  also have "\<dots> = mset (map (\<lambda>i. docs ! i) [0..<length docs])" using m by (metis mset_map)
  finally have "mset (map (\<lambda>i. docs ! i) (take cut order)) + mset (map (\<lambda>i. docs ! i) (drop cut order)) = mset docs"
    by (simp only: map_nth)
  moreover have "split_corpus docs wanted seed = (map (\<lambda>i. docs ! i) (take cut order), map (\<lambda>i. docs ! i) (drop cut order))"
    unfolding split_corpus_def order_def cut_def using w by (simp add: Let_def)
  ultimately show ?thesis using cut len by auto
qed

theorem split_partitions_witness:
  "case split_corpus ''abcdef'' (Some 4) 42 of (train, holdout) \<Rightarrow> mset train + mset holdout = mset ''abcdef'' \<and> holdout \<noteq> []"
  using split_partitions [of "''abcdef''" "Some 4" 42] by (auto split: prod.splits)

section \<open>The counts agree\<close>

text \<open>The documents that were classified, with their labels and predictions.\<close>

definition predictions :: "(string \<Rightarrow> string option) \<Rightarrow> (string \<times> string) list \<Rightarrow> (string \<times> string) list" where
  "predictions predict docs = List.map_filter (\<lambda>(label, text). map_option (Pair label) (predict text)) docs"

lemma evaluate_docs_counts:
  fixes predict :: "string \<Rightarrow> string option" and classes :: "string list" and docs :: "(string \<times> string) list" and c :: eval_counts
  defines "ps \<equiv> predictions predict docs" and "c' \<equiv> evaluate_docs predict classes docs c"
  shows "ec_support c' k = ec_support c k + length (filter (\<lambda>p. fst p = k) ps) \<and>
    ec_true_pos c' k = ec_true_pos c k + length (filter (\<lambda>p. fst p = k \<and> snd p = k) ps) \<and>
    ec_false_neg c' k = ec_false_neg c k + length (filter (\<lambda>p. fst p = k \<and> snd p \<noteq> k) ps) \<and>
    ec_false_pos c' k = ec_false_pos c k + length (filter (\<lambda>p. fst p \<noteq> k \<and> snd p = k) ps) \<and>
    ec_correct c' = ec_correct c + length (filter (\<lambda>p. fst p = snd p) ps)"
  unfolding ps_def c'_def
proof (induction docs arbitrary: c)
  case Nil
  then show ?case by (simp add: predictions_def List.map_filter_def)
next
  case (Cons d docs)
  obtain label body where d: "d = (label, body)" by force
  show ?case
  proof (cases "predict body")
    case None
    with Cons.IH [of c] d show ?thesis by (simp add: predictions_def List.map_filter_def)
  next
    case (Some p)
    then have "predictions predict (d # docs) = (label, p) # predictions predict docs"
      by (simp add: d predictions_def List.map_filter_def)
    with Cons.IH [of "count_prediction classes label p c"] Some d show ?thesis
      by (auto simp: count_prediction_def bump_def Let_def)
  qed
qed

lemma filter_partition_length: "length (filter (\<lambda>p. P p \<and> Q p) xs) + length (filter (\<lambda>p. P p \<and> \<not> Q p) xs) = length (filter P xs)"
  by (induction xs) auto

text \<open>
  In an evaluation the found and the missed documents of a class are together its documents, the predictions of a class are the right and the
  wrong ones, and what is correct are the documents whose prediction is their label.
\<close>

theorem evaluation_consistent:
  fixes predict :: "string \<Rightarrow> string option" and classes :: "string list" and docs :: "(string \<times> string) list"
  defines "c \<equiv> evaluate_docs predict classes docs no_counts" and "ps \<equiv> predictions predict docs"
  shows "ec_true_pos c k + ec_false_neg c k = ec_support c k \<and>
    ec_true_pos c k + ec_false_pos c k = length (filter (\<lambda>p. snd p = k) ps) \<and>
    ec_support c k = length (filter (\<lambda>p. fst p = k) ps) \<and>
    ec_correct c = length (filter (\<lambda>p. fst p = snd p) ps)"
proof -
  note counts = evaluate_docs_counts [of predict classes docs no_counts k, folded c_def ps_def]
  have "length (filter (\<lambda>p. fst p = k \<and> snd p = k) ps) + length (filter (\<lambda>p. fst p \<noteq> k \<and> snd p = k) ps) =
      length (filter (\<lambda>p. snd p = k) ps)"
    using filter_partition_length [of "\<lambda>p. snd p = k" "\<lambda>p. fst p = k" ps] by (simp add: conj_commute)
  with counts filter_partition_length [of "\<lambda>p. fst p = k" "\<lambda>p. snd p = k" ps] show ?thesis
    by (simp add: no_counts_def)
qed

section \<open>Finding a model\<close>

text \<open>
  A script that names no model gets the one registered as default or else the only one, and an error if there are several
  without a default; a named model is found exactly if it was loaded.
\<close>

theorem resolve_model_exact:
  assumes "distinct (map fst r)"
  shows "(\<exists>m. resolve_model (Some r) [] = Inr m) \<longleftrightarrow> ''default'' \<in> fst ` set r \<or> length r = 1"
    and "name \<noteq> [] \<Longrightarrow> resolve_model (Some r) name = Inr m \<longleftrightarrow> (name, m) \<in> set r"
proof -
  show "(\<exists>m. resolve_model (Some r) [] = Inr m) \<longleftrightarrow> ''default'' \<in> fst ` set r \<or> length r = 1"
  proof (cases "map_of r ''default''")
    case None
    then have "''default'' \<notin> fst ` set r" by (simp add: map_of_eq_None_iff)
    with None show ?thesis
      by (auto simp: resolve_model_def default_model_def length_Suc_conv split: list.splits prod.splits)
  next
    case (Some m)
    then have "''default'' \<in> fst ` set r" by (metis map_of_SomeD fst_conv image_eqI)
    with Some show ?thesis by (simp add: resolve_model_def default_model_def)
  qed
  show "resolve_model (Some r) name = Inr m \<longleftrightarrow> (name, m) \<in> set r" if "name \<noteq> []"
    using that map_of_eq_Some_iff [OF assms, of name m] by (cases "map_of r name") (auto simp: resolve_model_def)
qed

lemma load_file_distinct: "distinct (map fst r) \<Longrightarrow> load_file load name path r = Some r' \<Longrightarrow> distinct (map fst r')"
  by (auto simp: load_file_def Let_def distinct_update split: option.splits)

end
