(* ===== verification/Advice.thy ===== *)
theory Advice
  imports ScriptActions DomainNames Complex_Main
begin

text \<open>
  Judgements of names, messages and policies that policies and their authors rely on: the writing systems of a name
  (\<^verbatim>\<open>pkg/rules/domain.go\<close>), the signs that a message was composed by a program (\<^verbatim>\<open>ai.go\<close>), and the
  check of a policy before it is used (\<^verbatim>\<open>cmd/mailscript/lint.go\<close>). The tables of \<^verbatim>\<open>unicode\<close> and the reading of decimal
  numbers are parameters; confidences are rational numbers.
\<close>

section \<open>Writing systems\<close>

text \<open>\<open>ut_neutral\<close> holds of digits, spaces, punctuation and symbols; \<open>ut_in\<close> is the table of a script.\<close>

record writing_tables =
  ut_letter :: "nat \<Rightarrow> bool"
  ut_neutral :: "nat \<Rightarrow> bool"
  ut_in :: "string \<Rightarrow> nat \<Rightarrow> bool"

definition script_table :: "string list" where
  "script_table = [''Latin'', ''Cyrillic'', ''Greek'', ''Han'', ''Hiragana'', ''Katakana'', ''Hangul'', ''Arabic'', ''Hebrew'',
     ''Cherokee'', ''Armenian'', ''Devanagari'', ''Thai'']"

definition script_of :: "writing_tables \<Rightarrow> nat \<Rightarrow> string option" where
  "script_of ut r =
     (if r < 127 \<and> \<not> ut_letter ut r then None
      else if ut_neutral ut r then None
      else find (\<lambda>name. ut_in ut name r) script_table)"

fun scripts_loop :: "writing_tables \<Rightarrow> runes \<Rightarrow> string list \<Rightarrow> string list" where
  "scripts_loop ut [] out = out"
| "scripts_loop ut (r # rs) out =
     scripts_loop ut rs (case script_of ut r of None \<Rightarrow> out | Some name \<Rightarrow> if name \<in> set out then out else out @ [name])"

definition scripts_in :: "writing_tables \<Rightarrow> runes \<Rightarrow> string list" where
  "scripts_in ut s = scripts_loop ut s []"

definition is_mixed_script :: "writing_tables \<Rightarrow> runes \<Rightarrow> bool" where
  "is_mixed_script ut s =
     (let found = scripts_in ut s in
      if length found < 2 then False
      else let found1 = (if ''Han'' \<in> set found \<or> ''Hiragana'' \<in> set found \<or> ''Katakana'' \<in> set found
                         then let kept = removeAll ''Katakana'' (removeAll ''Hiragana'' found)
                              in if ''Hangul'' \<in> set kept then removeAll ''Han'' kept else kept
                         else found);
               found2 = (if ''Hangul'' \<in> set found1 then removeAll ''Han'' found1 else found1)
           in length found2 > 1)"

lemma scripts_loop_props:
  "distinct out \<Longrightarrow> distinct (scripts_loop ut s out) \<and>
     set (scripts_loop ut s out) = set out \<union> {n. \<exists>r \<in> set s. script_of ut r = Some n}"
  by (induction ut s out rule: scripts_loop.induct) (auto split: option.splits)

lemma scripts_in_exact: "distinct (scripts_in ut s)" "set (scripts_in ut s) = {n. \<exists>r \<in> set s. script_of ut r = Some n}"
  using scripts_loop_props [of "[]" ut s] by (simp_all add: scripts_in_def)

text \<open>The scripts that count: neither of the two Japanese syllabaries, and no Chinese characters next to Korean ones.\<close>

definition counted_scripts :: "writing_tables \<Rightarrow> runes \<Rightarrow> string set" where
  "counted_scripts ut s =
     (let found = set (scripts_in ut s) in
      found - {''Hiragana'', ''Katakana''} - (if ''Hangul'' \<in> found then {''Han''} else {}))"

lemma length_distinct_two: "distinct xs \<Longrightarrow> length xs > 1 \<longleftrightarrow> (\<exists>a \<in> set xs. \<exists>b \<in> set xs. a \<noteq> b)"
proof -
  assume d: "distinct xs"
  show ?thesis
  proof (cases xs)
    case (Cons x ys)
    with d show ?thesis by (cases ys) auto
  qed simp
qed

text \<open>A name is reported as mixed exactly if characters of two different counted scripts occur in it.\<close>

theorem mixed_script_exact:
  "is_mixed_script ut s \<longleftrightarrow>
     (\<exists>r \<in> set s. \<exists>q \<in> set s. \<exists>m n. script_of ut r = Some m \<and> script_of ut q = Some n \<and> m \<noteq> n \<and>
        m \<in> counted_scripts ut s \<and> n \<in> counted_scripts ut s)"
proof -
  define found where "found = scripts_in ut s"
  define kept where "kept = filter (\<lambda>n. n \<in> counted_scripts ut s) found"
  have d: "distinct found" and fs: "set found = {n. \<exists>r \<in> set s. script_of ut r = Some n}"
    unfolding found_def by (fact scripts_in_exact)+
  have "(let found1 = (if ''Han'' \<in> set found \<or> ''Hiragana'' \<in> set found \<or> ''Katakana'' \<in> set found
                         then let kept = removeAll ''Katakana'' (removeAll ''Hiragana'' found)
                              in if ''Hangul'' \<in> set kept then removeAll ''Han'' kept else kept
                         else found);
               found2 = (if ''Hangul'' \<in> set found1 then removeAll ''Han'' found1 else found1) in found2) = kept"
    unfolding kept_def counted_scripts_def found_def [symmetric]
    by (auto simp: Let_def removeAll_filter_not_eq intro!: filter_cong filter_True [symmetric])
  then have "is_mixed_script ut s \<longleftrightarrow> length found \<ge> 2 \<and> length kept > 1"
    unfolding is_mixed_script_def found_def [symmetric] by (simp add: Let_def not_less)
  also have "\<dots> \<longleftrightarrow> length kept > 1" using length_filter_le [of "\<lambda>n. n \<in> counted_scripts ut s" found] unfolding kept_def by linarith
  also have "\<dots> \<longleftrightarrow> (\<exists>a \<in> set kept. \<exists>b \<in> set kept. a \<noteq> b)" using d by (intro length_distinct_two) (simp add: kept_def)
  finally show ?thesis unfolding kept_def using fs by auto
qed

text \<open>
  Defect: characters of the two syllabaries never make a name mixed, also next to letters of another script, so a Latin name with a
  Katakana character that looks like a stroke is not reported.
\<close>

theorem kana_never_mixed:
  assumes "\<And>r. r \<in> set s \<Longrightarrow> script_of ut r \<in> {None, Some ''Latin'', Some ''Hiragana'', Some ''Katakana''}"
  shows "\<not> is_mixed_script ut s"
proof -
  have "n = ''Latin''" if "r \<in> set s" "script_of ut r = Some n" "n \<in> counted_scripts ut s" for r n
    using assms [OF that(1)] that(2,3) by (auto simp: counted_scripts_def Let_def)
  then show ?thesis unfolding mixed_script_exact by metis
qed

text \<open>A part of the tables: ASCII letters, Cyrillic, and the Katakana letter that looks like a solidus.\<close>

definition some_tables :: writing_tables where
  "some_tables = \<lparr>ut_letter = (\<lambda>r. 65 \<le> r \<and> r \<le> 90 \<or> 97 \<le> r \<and> r \<le> 122), ut_neutral = (\<lambda>r. r = 45 \<or> r = 46),
     ut_in = (\<lambda>name r. if name = ''Latin'' then r < 128 else if name = ''Cyrillic'' then 0x400 \<le> r \<and> r < 0x530
       else name = ''Katakana'' \<and> 0x30A1 \<le> r \<and> r \<le> 0x30FA)\<rparr>"

theorem kana_never_mixed_witness:
  "\<not> is_mixed_script some_tables [0x61, 0x2E, 0x62, 0x30CE, 0x63] \<and> is_mixed_script some_tables [0x61, 0x430]"
proof
  show "\<not> is_mixed_script some_tables [0x61, 0x2E, 0x62, 0x30CE, 0x63]"
    by (rule kana_never_mixed) (auto simp: script_of_def some_tables_def script_table_def)
  show "is_mixed_script some_tables [0x61, 0x430]" by code_simp
qed

section \<open>Composed by a program\<close>

record ai_assessment =
  as_score :: rat
  as_class :: string
  as_reasons :: "string list"

definition note_sign :: "rat \<Rightarrow> string \<Rightarrow> ai_assessment \<Rightarrow> ai_assessment" where
  "note_sign score reason a =
     a\<lparr>as_score := (if score > as_score a then score else as_score a), as_reasons := as_reasons a @ [reason]\<rparr>"

definition declares_generation :: "message \<Rightarrow> string \<Rightarrow> bool" where
  "declares_generation m name \<longleftrightarrow>
     (let v = trim_space (msg_get m name); low = to_lower v in
      v \<noteq> [] \<and> (low = ''yes'' \<or> low = ''true'' \<or> low = ''1'' \<or> low = ''generated'' \<or> name = ''X-AI-Agent''))"

definition declaration_fields :: "string list" where
  "declaration_fields = [''AI-Generated'', ''X-AI-Generated'', ''X-AI-Authored'', ''X-AI-Agent'']"

definition ai_markers :: "string list" where
  "ai_markers = [''openai'', ''chatgpt'', ''anthropic'', ''claude'', ''gemini'', ''copilot'', ''langchain'', ''autogen'', ''crewai'',
     ''mail-ai'', ''ai-agent'']"

definition producer_text :: "message \<Rightarrow> string" where
  "producer_text m = to_lower (join '' '' (map (msg_get m) [''X-Generated-By'', ''X-Mailer'', ''User-Agent'', ''X-Agent'']))"

definition upstream_probability :: "(string \<Rightarrow> rat option) \<Rightarrow> message \<Rightarrow> rat option" where
  "upstream_probability parse_float m =
     (let raw = trim_space (msg_get m ''X-AI-Probability'') in
      if raw = [] then None
      else (case parse_float raw of None \<Rightarrow> None | Some p \<Rightarrow> if 0 \<le> p \<and> p \<le> 1 then Some p else None))"

definition ai_class :: "rat \<Rightarrow> string" where
  "ai_class score =
     (if score \<ge> 95 then ''declared'' else if score \<ge> 70 then ''likely'' else if score > 0 then ''possible'' else ''unknown'')"

definition assess_ai :: "(string \<Rightarrow> rat option) \<Rightarrow> message \<Rightarrow> ai_assessment" where
  "assess_ai parse_float m =
     (let out0 = \<lparr>as_score = 0, as_class = ''unknown'', as_reasons = []\<rparr>;
          out1 = fold (\<lambda>name out. if declares_generation m name then note_sign 100 (name @ '' explicitly declares AI generation'') out else out)
                   declaration_fields out0;
          out2 = (case find (contains (producer_text m)) ai_markers of
                    None \<Rightarrow> out1
                  | Some marker \<Rightarrow> note_sign 85 (''sending software identifies AI system '' @ go_quote marker) out1);
          out3 = (case upstream_probability parse_float m of
                    None \<Rightarrow> out2
                  | Some p \<Rightarrow> note_sign (p * 100) (''upstream X-AI-Probability='' @ trim_space (msg_get m ''X-AI-Probability'')) out2)
      in out3\<lparr>as_class := ai_class (as_score out3)\<rparr>)"

definition is_ai_generated :: "(string \<Rightarrow> rat option) \<Rightarrow> message \<Rightarrow> bool" where
  "is_ai_generated parse_float m \<longleftrightarrow> as_score (assess_ai parse_float m) \<ge> 70"

lemma fold_signs:
  "as_score (fold (\<lambda>name out. if P name then note_sign s (f name) out else out) names out) =
     (if list_ex P names then max s (as_score out) else as_score out)"
  by (induction names arbitrary: out) (auto simp: note_sign_def max_def)

text \<open>
  A message counts as composed by a program exactly if a field declares it, its software is one of the known systems, or a detector gave at
  least seventy per cent; the score stays between 0 and 100, and only a declaration or a detector above 95 per cent is reported as declared.
\<close>

theorem ai_generated_exact:
  fixes parse_float :: "string \<Rightarrow> rat option" and m :: message
  defines "declared \<equiv> (\<lambda>m. \<exists>name \<in> set declaration_fields. declares_generation m name)"
    and "detected \<equiv> (\<lambda>m limit. \<exists>p. upstream_probability parse_float m = Some p \<and> p * 100 \<ge> limit)"
  shows "(is_ai_generated parse_float m \<longleftrightarrow>
      declared m \<or> (\<exists>marker \<in> set ai_markers. contains (producer_text m) marker) \<or> detected m 70) \<and>
    (as_class (assess_ai parse_float m) = ''declared'' \<longleftrightarrow> declared m \<or> detected m 95) \<and>
    0 \<le> as_score (assess_ai parse_float m) \<and> as_score (assess_ai parse_float m) \<le> 100"
proof -
  define score where "score = as_score (assess_ai parse_float m)"
  define d where "d = (if declared m then 100 else 0 :: rat)"
  define s where "s = (if \<exists>marker \<in> set ai_markers. contains (producer_text m) marker then max 85 d else d)"
  have range: "0 \<le> p \<and> p \<le> 1" if "upstream_probability parse_float m = Some p" for p
    using that by (auto simp: upstream_probability_def Let_def split: if_splits option.splits)
  have score: "score = (case upstream_probability parse_float m of None \<Rightarrow> s | Some p \<Rightarrow> max (p * 100) s)"
    unfolding score_def s_def d_def declared_def assess_ai_def Let_def
    by (auto simp: note_sign_def fold_signs list_ex_iff find_None_iff find_Some_iff max_def split: option.splits)
  have "as_class (assess_ai parse_float m) = ai_class score"
    unfolding score_def by (simp add: assess_ai_def Let_def)
  moreover have "is_ai_generated parse_float m \<longleftrightarrow> score \<ge> 70" by (simp add: is_ai_generated_def score_def)
  ultimately show ?thesis
    using range unfolding score_def [symmetric] score s_def d_def detected_def
    by (auto simp: ai_class_def max_def split: option.splits)
qed

section \<open>Checking a policy\<close>

definition action_word :: "string \<Rightarrow> string" where
  "action_word action = (case index_byte CHR '':'' action of Some (Suc i) \<Rightarrow> take (Suc i) action | _ \<Rightarrow> action)"

definition reaches_delivery_action :: "string list \<Rightarrow> bool" where
  "reaches_delivery_action actions \<longleftrightarrow>
     list_ex (\<lambda>action. let name = action_word action in
       name \<in> {''accept'', ''discard'', ''drop'', ''bounce'', ''quarantine'', ''reject'', ''defer''} \<or>
       name = ''fileinto'' \<or> name = ''redirect'' \<or> name = ''divert_to'') actions"

definition lint_sample :: string where
  "lint_sample = concat (map (\<lambda>l. l @ [CR, LF])
     [''From: Alice <alice@example.com>'', ''To: Bob <bob@example.net>'', ''Subject: Lint probe'',
      ''Date: Mon, 27 Jul 2026 10:00:00 +0000'', ''Message-ID: <lint@example.com>'', [], ''Probe body.''])"

definition no_action_warning :: string where
  "no_action_warning =
     ''the script produced no delivery action for a benign message; delivery will fall through to the default''"

definition no_entry_warning :: string where
  "no_entry_warning = ''no evaluate() function defined; the script body runs at module level''"

record lint_report =
  lr_errors :: "string list"
  lr_warnings :: "string list"

definition lint_script :: "string \<Rightarrow> script_run \<Rightarrow> lint_report" where
  "lint_script source run =
     (let result = execute_engine run (fresh_script lint_sample) in
      \<lparr>lr_errors = (case result of Inl e \<Rightarrow> [e] | Inr _ \<Rightarrow> []),
       lr_warnings =
         (case result of Inl _ \<Rightarrow> [] | Inr st \<Rightarrow> if reaches_delivery_action (sc_actions st) then [] else [no_action_warning]) @
         (if contains source ''def evaluate'' then [] else [no_entry_warning])\<rparr>)"

lemma action_word_plain: "CHR '':'' \<notin> set a \<Longrightarrow> action_word a = a"
  by (simp add: action_word_def index_byte_None [THEN iffD2])

lemma action_word_colon: "CHR '':'' \<notin> set w \<Longrightarrow> w \<noteq> [] \<Longrightarrow> action_word (w @ '':'' @ t) = w"
  by (cases "length w") (simp_all add: action_word_def index_byte_append)

text \<open>
  Defect: the check takes an action that decides about a message for a delivery action unless it is an SMTP error, so a policy that refuses
  every message with \<^verbatim>\<open>reply_with_smtp_error\<close> is reported to leave the delivery to the default.
\<close>

theorem lint_misses_smtp_errors:
  assumes "decides fq action = Some d"
  shows "reaches_delivery_action [action] \<longleftrightarrow> \<not> has_prefix action ''smtp_error:''"
proof (cases "has_prefix action ''smtp_error:''")
  case True
  then obtain t where "action = ''smtp_error'' @ '':'' @ t" by (auto simp: has_prefix_iff)
  then have "action_word action = ''smtp_error''" by (simp only:) (rule action_word_colon, simp_all)
  with True show ?thesis by (simp add: reaches_delivery_action_def)
next
  case False
  with assms have "action \<in> {''reject'', ''bounce'', ''drop'', ''discard'', ''defer'', ''quarantine'', ''fileinto:Spam''}"
    by (auto simp: decides_def rejects_def quarantines_def split: if_splits)
  moreover have "action_word ''fileinto:Spam'' = ''fileinto''" by (simp add: action_word_def)
  ultimately show ?thesis using False by (auto simp: reaches_delivery_action_def action_word_plain)
qed

theorem lint_misses_smtp_errors_witness:
  "lr_warnings (lint_script ''def evaluate'' \<lparr>sr_module_calls = [ReplyWithSmtpError 550 ''no''], sr_module_fails = False, sr_entry = Entry [] False\<rparr>)
     = [no_action_warning] \<and>
   decides False ''smtp_error:550:no'' = Some \<lparr>dd_code = 550, dd_reason = ''no'', dd_quarantine = False\<rparr>"
proof
  show d: "decides False ''smtp_error:550:no'' = Some \<lparr>dd_code = 550, dd_reason = ''no'', dd_quarantine = False\<rparr>" by code_simp
  have "\<not> reaches_delivery_action [''smtp_error:550:no'']"
    using lint_misses_smtp_errors [OF d] by (simp add: has_prefix_def)
  moreover have "show_int 550 = ''550''" "contains ''def evaluate'' ''def evaluate''" by code_simp+
  ultimately show "lr_warnings (lint_script ''def evaluate'' \<lparr>sr_module_calls = [ReplyWithSmtpError 550 ''no''], sr_module_fails = False,
      sr_entry = Entry [] False\<rparr>) = [no_action_warning]"
    by (simp add: lint_script_def execute_engine_def run_phase_def reply_with_smtp_error_def perform_def fresh_script_def)
qed

end
