(* ===== verification/EngineQueries.thy ===== *)
theory EngineQueries
  imports ScriptActions Runtime Content "HOL-Library.AList"
begin

text \<open>
  The patterns of policy scripts, \<^verbatim>\<open>matchBuiltins\<close> of \<^verbatim>\<open>pkg/rules/engine.go\<close> and the cache of compiled patterns of
  \<^verbatim>\<open>content.go\<close>, which all running scripts share; and what scripts ask about the answers of the analysis services. The compiler of
  \<^verbatim>\<open>regexp\<close> is a parameter.
\<close>

section \<open>The cache\<close>

record 'r regex_cache =
  rc_entries :: "(string \<times> 'r) list"
  rc_size :: nat

definition empty_cache :: "'r regex_cache" where
  "empty_cache = \<lparr>rc_entries = [], rc_size = 0\<rparr>"

definition max_cached_patterns :: nat where "max_cached_patterns = 4096"

definition cache_store :: "string \<Rightarrow> 'r \<Rightarrow> 'r regex_cache \<Rightarrow> 'r regex_cache" where
  "cache_store p r c =
     (if rc_size c < max_cached_patterns
      then c\<lparr>rc_entries := AList.update p r (rc_entries c), rc_size := rc_size c + 1\<rparr> else c)"

text \<open>A call that runs alone.\<close>

definition compile_regex :: "(string \<Rightarrow> 'r) \<Rightarrow> string \<Rightarrow> 'r regex_cache \<Rightarrow> 'r \<times> 'r regex_cache" where
  "compile_regex compile p c =
     (case map_of (rc_entries c) p of
        Some r \<Rightarrow> (r, c)
      | None \<Rightarrow> let r = compile p in (r, cache_store p r c))"

text \<open>
  Scripts run at the same time: the lookup and the critical section are single steps, and between the two of one call others may happen. The
  calls that have missed are a list of their patterns. An event says what a call returns.
\<close>

datatype 'r cache_event = Missed string | Returned string 'r

inductive cache_step :: "(string \<Rightarrow> 'r) \<Rightarrow> 'r regex_cache \<times> string list \<Rightarrow> 'r cache_event \<Rightarrow> 'r regex_cache \<times> string list \<Rightarrow> bool"
  for compile where
  hit: "map_of (rc_entries c) p = Some r \<Longrightarrow> cache_step compile (c, calls) (Returned p r) (c, calls)"
| miss: "map_of (rc_entries c) p = None \<Longrightarrow> cache_step compile (c, calls) (Missed p) (c, p # calls)"
| compiled: "p \<in> set calls \<Longrightarrow>
    cache_step compile (c, calls) (Returned p (compile p)) (cache_store p (compile p) c, remove1 p calls)"

inductive cache_run :: "(string \<Rightarrow> 'r) \<Rightarrow> 'r cache_event list \<Rightarrow> 'r regex_cache \<times> string list \<Rightarrow> bool" for compile where
  start: "cache_run compile [] (empty_cache, [])"
| step: "cache_run compile evs st \<Longrightarrow> cache_step compile st ev st' \<Longrightarrow> cache_run compile (evs @ [ev]) st'"

inductive_cases cache_stepE: "cache_step compile st ev st'"

definition patterns_ok :: "(string \<Rightarrow> 'r) \<Rightarrow> 'r regex_cache \<Rightarrow> bool" where
  "patterns_ok compile c \<longleftrightarrow>
     (\<forall>(p, r) \<in> set (rc_entries c). r = compile p) \<and> distinct (map fst (rc_entries c)) \<and>
     length (rc_entries c) \<le> rc_size c \<and> rc_size c \<le> max_cached_patterns"

lemma length_update: "length (AList.update k v al) \<le> Suc (length al)"
  by (induction al) auto

lemma set_update: "x \<in> set (AList.update k v al) \<Longrightarrow> x = (k, v) \<or> x \<in> set al"
  by (induction al) (auto split: if_splits)

lemma patterns_ok_empty: "patterns_ok compile empty_cache"
  by (simp add: patterns_ok_def empty_cache_def)

lemma patterns_ok_store: "patterns_ok compile c \<Longrightarrow> patterns_ok compile (cache_store p (compile p) c)"
  using length_update [of p "compile p" "rc_entries c"]
  by (auto simp: patterns_ok_def cache_store_def distinct_update dest!: set_update)

lemma patterns_ok_lookup: "patterns_ok compile c \<Longrightarrow> map_of (rc_entries c) p = Some r \<Longrightarrow> r = compile p"
  by (auto simp: patterns_ok_def dest: map_of_SomeD)

lemma cache_step_ok:
  "cache_step compile st ev st' \<Longrightarrow> patterns_ok compile (fst st) \<Longrightarrow>
     patterns_ok compile (fst st') \<and> (\<forall>p r. ev = Returned p r \<longrightarrow> r = compile p)"
  by (erule cache_stepE) (auto intro: patterns_ok_store dest: patterns_ok_lookup)

text \<open>
  However the scripts that share the cache interleave, every call gets what the compiler says of its pattern, and the cache holds at most 4096
  patterns, none of them twice.
\<close>

theorem regex_cache_transparent:
  assumes "cache_run compile evs (c, calls)"
  shows "(\<forall>p r. Returned p r \<in> set evs \<longrightarrow> r = compile p) \<and>
    distinct (map fst (rc_entries c)) \<and> length (rc_entries c) \<le> max_cached_patterns"
proof -
  have "(\<forall>p r. Returned p r \<in> set evs \<longrightarrow> r = compile p) \<and> patterns_ok compile (fst st)" if "cache_run compile evs st" for st
    using that
  proof induction
    case start
    then show ?case by (simp add: patterns_ok_empty)
  next
    case (step evs st ev st')
    with cache_step_ok [OF step.hyps(2)] show ?case by auto
  qed
  from this [OF assms] show ?thesis by (auto simp: patterns_ok_def)
qed

text \<open>The counter is not the number of entries: two scripts that miss the same pattern at the same time count it twice.\<close>

lemma counted_twice:
  "cache_run compile [Missed p, Missed p, Returned p (compile p), Returned p (compile p)]
     (\<lparr>rc_entries = [(p, compile p)], rc_size = 2\<rparr>, [])"
proof -
  let ?c0 = "empty_cache :: 'a regex_cache" and ?r = "compile p"
  let ?c1 = "cache_store p ?r ?c0"
  have "cache_run compile ([] @ [Missed p]) (?c0, [p])"
    by (rule cache_run.step [OF cache_run.start], rule cache_step.miss) (simp add: empty_cache_def)
  then have "cache_run compile (([] @ [Missed p]) @ [Missed p]) (?c0, [p, p])"
    by (rule cache_run.step, intro cache_step.miss) (simp add: empty_cache_def)
  then have "cache_run compile ((([] @ [Missed p]) @ [Missed p]) @ [Returned p ?r]) (?c1, remove1 p [p, p])"
    by (rule cache_run.step, intro cache_step.compiled) simp
  then have "cache_run compile (((([] @ [Missed p]) @ [Missed p]) @ [Returned p ?r]) @ [Returned p ?r])
      (cache_store p ?r ?c1, remove1 p (remove1 p [p, p]))"
    by (rule cache_run.step, intro cache_step.compiled) simp
  then show ?thesis by (simp add: cache_store_def empty_cache_def max_cached_patterns_def numeral_2_eq_2)
qed

theorem regex_cache_transparent_witness:
  "\<exists>c. cache_run length [Missed ''ab'', Missed ''ab'', Returned ''ab'' 2, Returned ''ab'' 2] (c, []) \<and>
     length (rc_entries c) \<le> max_cached_patterns"
  using counted_twice [of length "''ab''"] regex_cache_transparent [OF counted_twice [of length "''ab''"]]
  by (intro exI [of _ "\<lparr>rc_entries = [(''ab'', length ''ab'')], rc_size = 2\<rparr>"]) (simp add: numeral_2_eq_2)

lemma compile_regex_alone: "patterns_ok compile c \<Longrightarrow> fst (compile_regex compile p c) = compile p \<and> patterns_ok compile (snd (compile_regex compile p c))"
  by (auto simp: compile_regex_def Let_def intro: patterns_ok_store dest: patterns_ok_lookup split: option.split)

section \<open>Matching\<close>

text \<open>By the theorem above the cache can be left out of the builtins.\<close>

record compiled_regex =
  re_match :: "string \<Rightarrow> bool"
  re_find :: "string \<Rightarrow> string"
  re_all :: "string \<Rightarrow> string list"

type_synonym regex_compiler = "string \<Rightarrow> string + compiled_regex"

definition match_regex :: "regex_compiler \<Rightarrow> string \<Rightarrow> string \<Rightarrow> string + bool" where
  "match_regex compile pattern text = (case compile pattern of Inl e \<Rightarrow> Inl e | Inr re \<Rightarrow> Inr (re_match re text))"

definition with_name :: "string \<Rightarrow> string + 'a \<Rightarrow> string + 'a" where
  "with_name name r = (case r of Inl e \<Rightarrow> Inl (name @ '': '' @ e) | Inr v \<Rightarrow> Inr v)"

definition regex_match :: "regex_compiler \<Rightarrow> string \<Rightarrow> string \<Rightarrow> string + bool" where
  "regex_match compile pattern text = with_name ''regex_match'' (match_regex compile pattern text)"

definition regex_find :: "regex_compiler \<Rightarrow> string \<Rightarrow> string \<Rightarrow> string + string" where
  "regex_find compile pattern text =
     with_name ''regex_find'' (case compile pattern of Inl e \<Rightarrow> Inl e | Inr re \<Rightarrow> Inr (re_find re text))"

definition regex_find_all :: "regex_compiler \<Rightarrow> string \<Rightarrow> string \<Rightarrow> int \<Rightarrow> string + string list" where
  "regex_find_all compile pattern text limit =
     with_name ''regex_find_all''
       (case compile pattern of
          Inl e \<Rightarrow> Inl e
        | Inr re \<Rightarrow> Inr (if limit < 0 then re_all re text else take (nat limit) (re_all re text)))"

definition count_matches :: "regex_compiler \<Rightarrow> string \<Rightarrow> string \<Rightarrow> string + nat" where
  "count_matches compile pattern text =
     with_name ''count_matches'' (case compile pattern of Inl e \<Rightarrow> Inl e | Inr re \<Rightarrow> Inr (length (re_all re text)))"

definition header_matches :: "regex_compiler \<Rightarrow> message \<Rightarrow> string \<Rightarrow> string \<Rightarrow> string + bool" where
  "header_matches compile m name pattern =
     with_name ''header_matches''
       (case compile pattern of Inl e \<Rightarrow> Inl e | Inr re \<Rightarrow> Inr (list_ex (re_match re) (msg_get_all m name)))"

definition body_matches :: "regex_compiler \<Rightarrow> mime_view \<Rightarrow> string \<Rightarrow> string \<Rightarrow> bool" where
  "body_matches compile v body pattern =
     (case match_regex compile pattern (search_text v body) of Inl e \<Rightarrow> False | Inr matched \<Rightarrow> matched)"

definition search_body :: "mime_view \<Rightarrow> string \<Rightarrow> string \<Rightarrow> bool" where
  "search_body v body needle \<longleftrightarrow> contains (search_text v body) needle \<or> contains body needle"

definition search_body_ci :: "mime_view \<Rightarrow> string \<Rightarrow> string \<Rightarrow> bool" where
  "search_body_ci v body needle \<longleftrightarrow> contains (to_lower (search_text v body)) (to_lower needle)"

fun match_any :: "regex_compiler \<Rightarrow> string list \<Rightarrow> string \<Rightarrow> string + bool" where
  "match_any compile [] text = Inr False"
| "match_any compile (p # ps) text =
     (case match_regex compile p text of
        Inl e \<Rightarrow> Inl e
      | Inr matched \<Rightarrow> if matched then Inr True else match_any compile ps text)"

definition any_match :: "regex_compiler \<Rightarrow> script_value \<Rightarrow> string \<Rightarrow> string + bool" where
  "any_match compile patterns text =
     with_name ''any_match''
       (case strings_from_value patterns of
          None \<Rightarrow> Inl ''expected a string or a list of strings''
        | Some ps \<Rightarrow> match_any compile ps text)"

text \<open>The first pattern that is not simply absent decides.\<close>

lemma match_any_first:
  "match_any compile ps text =
     (case dropWhile (\<lambda>p. match_regex compile p text = Inr False) ps of [] \<Rightarrow> Inr False | p # _ \<Rightarrow> match_regex compile p text)"
  by (induction ps) (auto split: sum.split)

lemma match_any_append: "match_any compile ps text = Inr True \<Longrightarrow> match_any compile (ps @ qs) text = Inr True"
  by (induction ps) (auto split: sum.splits if_splits)

text \<open>
  An invalid pattern is an error of every builtin that takes one, except in the body, where it matches nothing; and of a list of patterns only
  those up to the first match count.
\<close>

theorem invalid_pattern:
  assumes "compile pattern = Inl e"
  shows "regex_match compile pattern text = Inl (''regex_match: '' @ e) \<and> regex_find compile pattern text = Inl (''regex_find: '' @ e) \<and>
    regex_find_all compile pattern text limit = Inl (''regex_find_all: '' @ e) \<and>
    count_matches compile pattern text = Inl (''count_matches: '' @ e) \<and>
    header_matches compile m name pattern = Inl (''header_matches: '' @ e) \<and>
    \<not> body_matches compile v body pattern \<and>
    (match_any compile ps text = Inr True \<longrightarrow> match_any compile (ps @ [pattern]) text = Inr True)"
  using assms
  by (auto simp: regex_match_def regex_find_def regex_find_all_def count_matches_def header_matches_def body_matches_def
      match_regex_def with_name_def match_any_append)

section \<open>Answers of the services\<close>

definition yara_matched :: "string list \<Rightarrow> string \<Rightarrow> bool" where
  "yara_matched names rule \<longleftrightarrow> list_ex (\<lambda>n. n = rule) names"

definition analyzers_available :: "analyzer_result list \<Rightarrow> string list" where
  "analyzers_available rs = map an_analyzer rs"

definition threat_reasons :: "analyzer_result list \<Rightarrow> string list" where
  "threat_reasons rs = filter (\<lambda>s. s \<noteq> []) (map af_summary (concat (map an_findings rs)))"

lemma fold_new:
  "distinct out \<Longrightarrow> distinct (fold (\<lambda>c out. if c \<in> set out then out else c # out) cs out) \<and>
     set (fold (\<lambda>c out. if c \<in> set out then out else c # out) cs out) = set out \<union> set cs"
  by (induction cs arbitrary: out) auto

lemma threat_categories_exact:
  "distinct (threat_categories rs) \<and> set (threat_categories rs) = (\<Union>r \<in> set rs. set (an_categories r))"
  using fold_new [of "[]" "concat (map an_categories rs)"] by (simp add: threat_categories_def)

end
