(* ===== verification/Spec2Isabelle.thy ===== *)
theory Spec2Isabelle
  imports SessionProps SpfProps AuthProps Transport DnsCacheProps DkimProps GrpcProps Clamd AuthReported
    ScriptProps PolicyProps ValidateProps LifecycleProps ContentProps Runtime NamedLists Startup Corpus
    WordPiece FieldSearch ScriptQueries Models Advice EngineQueries
begin

text \<open>
  A verification of mailscript, a mail filter written in Go: an SMTP proxy that hands every message to a
  policy script and delivers, rewrites or refuses it, with its own implementation of SPF,
  DKIM, DMARC, ARC, DANE and MTA-STS. The theories are shallow embeddings: a function of the code is a
  function of the theory of the same name in Isabelle's style (\<^verbatim>\<open>parseSMTPPath\<close> is \<open>parse_smtp_path\<close>), a
  struct is a record, an enumeration a datatype, an error a value of a sum or option type, a loop a
  recursion. Bytes are characters and a Go string is a list of them; \<^verbatim>\<open>int\<close> is \<open>int\<close> or \<open>nat\<close> where the
  values are bounded by lengths, and where 64 or 128 bits matter (times, expiry, addresses) the wrap-around
  is written out.

  The parts and how they interact.

  \<^item> A client connects (\<open>Lifecycle\<close>: \<^verbatim>\<open>serveSMTP\<close> of \<^verbatim>\<open>cmd/mailscript/proxy.go\<close>, \<^verbatim>\<open>drain\<close> of \<^verbatim>\<open>lifecycle.go\<close>). The
    accepting goroutines, the sessions and the draining goroutine interleave; an event is one critical
    section, and the theorems are about every sequence of events.

  \<^item> A session reads lines (\<open>Wire\<close>: the buffered reader over any chunking of the stream, the DATA
    loop and dot stuffing) and interprets them (\<open>SmtpSession\<close>: the struct \<^verbatim>\<open>SMTPSession\<close> and every handler of
    \<^verbatim>\<open>proxy.go\<close>). The loop around the handlers is \<open>run_loop\<close> of \<open>Loops\<close>, with fuel. \<open>SessionInv\<close> has the state
    invariant \<open>session_ok\<close> and the budget (bytes and commands left) with which every session is shown to
    return; the fuel of \<open>handle_smtp_connection\<close> is that budget plus one. \<open>SessionLog\<close> follows the dialogue
    with every backend connection, \<open>SessionDelivery\<close> traces what is committed back to one DATA command in a reachable
    state (\<open>session_reaches\<close>, an inductive relation of the rounds), \<open>SessionClosed\<close> shows that every command commutes
    with the closing of the client connection, and \<open>SessionProps\<close> states the theorems.

  \<^item> Messages are rewritten (\<open>HeaderEdit\<close>), judged by the recorded actions (\<open>Delivery\<close>:
    \<^verbatim>\<open>delivery.go\<close>) and delivered to a backend (\<open>Upstream\<close>: \<^verbatim>\<open>upstream.go\<close>) or to the host
    (\<open>HostAdapter\<close>: \<^verbatim>\<open>host_adapter.go\<close>). The gRPC service takes the same way (\<open>GrpcServer\<close>, \<open>GrpcProps\<close>), the
    virus scanner is asked by \<open>Clamd\<close>.

  \<^item> What a policy sees of a message is in \<open>Message\<close>, \<open>MessageProps\<close>, \<open>Address\<close>, \<open>DomainNames\<close> (\<^verbatim>\<open>pkg/rules/message.go\<close>,
    \<^verbatim>\<open>domain.go\<close>), what the fields claim about authentication in \<open>AuthReported\<close> (\<^verbatim>\<open>auth.go\<close>), the trace in
    \<open>Received\<close>, the verification it asks for in \<open>MessageAuth\<close> (\<^verbatim>\<open>verify.go\<close>), the header validation
    in \<open>Validate\<close> and \<open>ValidateProps\<close> (\<^verbatim>\<open>validate.go\<close>).

  \<^item> A policy is loaded with its modules (\<open>PolicyLoad\<close>, \<open>PolicyProps\<close>: \<^verbatim>\<open>policy.go\<close>, the loader of
    \<^verbatim>\<open>engine.go\<close>) and acts on a message through builtins (\<open>ScriptActions\<close>, \<open>ScriptProps\<close>: \<^verbatim>\<open>engine.go\<close>). A script
    is the list of builtin calls it makes, for every input, so what is proved holds for every script.

  \<^item> \<^verbatim>\<open>pkg/authverify\<close>: \<open>Spf\<close>, \<open>SpfProps\<close>, \<open>TagList\<close>, \<open>Dkim\<close>, \<open>DkimProps\<close>, \<open>Dmarc\<close>, \<open>Arc\<close>, \<open>ArcProps\<close>, \<open>Dane\<close>, \<open>Transport\<close>, and
    \<open>AuthVerify\<close> with \<open>AuthProps\<close> for the verdict that joins them. \<^verbatim>\<open>pkg/dnsx\<close>: \<open>DnsCache\<close>, \<open>DnsCacheProps\<close>.

  \<^item> The body of a message: its MIME structure with transfer encodings (\<open>Mime\<close>: \<^verbatim>\<open>message.go\<close>), links and attachments
    (\<open>Content\<close>, \<open>ContentProps\<close>: \<^verbatim>\<open>content.go\<close>), the signs of a human or a machine (\<open>Human\<close>: \<^verbatim>\<open>human.go\<close>), the searches in
    its parts (\<open>FieldSearch\<close>: \<^verbatim>\<open>fields.go\<close>) and the questions scripts ask of it (\<open>ScriptQueries\<close>:
    \<^verbatim>\<open>builtins_analysis.go\<close>). Patterns of scripts and the cache of compiled patterns that all scripts share are in
    \<open>EngineQueries\<close>, the writing systems of a name and the signs of machine composition in \<open>Advice\<close> (\<^verbatim>\<open>domain.go\<close>, \<^verbatim>\<open>ai.go\<close>).
    The verdicts of virus scanner, YARA and analyzers are joined in \<open>Runtime\<close> (\<^verbatim>\<open>common.go\<close>,
    \<^verbatim>\<open>analyzers.go\<close>, \<^verbatim>\<open>analyzer.go\<close>, \<^verbatim>\<open>yara.go\<close>), the lists a policy names are in \<open>NamedLists\<close>.

  \<^item> The programs: what a proxy checks before it listens (\<open>Startup\<close>: \<^verbatim>\<open>daemon.go\<close>, \<^verbatim>\<open>proxy.go\<close>), stored mail (\<open>Mailbox\<close>:
    \<^verbatim>\<open>process.go\<close>), the corpora of a training (\<open>Corpus\<close>: \<^verbatim>\<open>train.go\<close>), the check of a policy (\<open>Advice\<close>: \<^verbatim>\<open>lint.go\<close>).

  \<^item> \<^verbatim>\<open>pkg/ml\<close> without its floating-point arithmetic: the WordPiece tokenizer (\<open>WordPiece\<close>: \<^verbatim>\<open>bert.go\<close>), the tokens of a text
    and their counts by class (\<open>Tokens\<close>: \<^verbatim>\<open>tokenize.go\<close>, \<^verbatim>\<open>robinson.go\<close>), the split of a corpus, the counts of an
    evaluation and the registry of models (\<open>Models\<close>: \<^verbatim>\<open>model.go\<close>).

  \<^item> \<open>GoStrings\<close>, \<open>Base64\<close>, \<open>GoTime\<close>, \<open>NetIp\<close>, \<open>Pattern\<close> model what the code uses of the standard library
    (\<^verbatim>\<open>strings\<close>, \<^verbatim>\<open>strconv\<close>, \<^verbatim>\<open>encoding/base64\<close>, \<^verbatim>\<open>time\<close>, \<^verbatim>\<open>net\<close>, \<^verbatim>\<open>regexp\<close>) and the lemmas all other theories share.

  What the groups of lemmas show.

  \<^item> Sessions: an invariant of every command, termination, and a ledger: messages counted as accepted are
    exactly the committed backend transactions and acknowledged requests; no client text becomes a
    backend command; what a backend commits has the envelope the client sent and the message the policy accepted. The defect
    that a refused DATA does not end the session is an equation between its later rounds and those of an open connection. The locale \<open>bounded_loop\<close> is the contract between a handler and its loop; it is
    interpreted once for the state invariant and once for the ledger.

  \<^item> SPF: a locale for the nested check, interpreted for \<open>check_spf\<close> with the fuel \<open>spf_fuel\<close>: every
    nested check spends a lookup and the eleventh is refused, so twelve levels are enough.

  \<^item> DKIM, ARC, DMARC, DANE: a pass is followed back to published keys, signatures, digests and records; the bytes
    a signature covers are characterised; canonical forms are idempotent.

  \<^item> DNS cache: a refinement of the backend it asks, for every backend with the laws of \<open>stable_backend\<close>.

  \<^item> Policies: a loaded policy is a closed acyclic snapshot; a run executes exactly the modules it needs, each once and after its own
    loads (\<open>executed\<close>), with the same result on every file system; scripts
    cannot break the framing of a message (locale \<open>call_invariant\<close>: what every builtin keeps, every
    script keeps).

  \<^item> Messages: the parts, texts and attachments of a message agree for every nesting; the depth of the parts is bounded,
    and by that bound the walk over them terminates. The services that judge a message: exactly when it counts as
    clean. The cache of patterns: under every interleaving it answers like the compiler and stays bounded.

  \<^item> Stored mail and corpora: a mailbox is cut into exactly its messages, none twice; a split is a partition; counts of
    tokens and of an evaluation are those of the documents, in any order; identifiers of pieces decode to the pieces.

  \<^item> Lifecycle: counters and the registry in every reachable state, no admission once draining has begun, and
    liveness: in a fair run draining ends.

  Parameters, for what is not in the repository or is the outside world: the network, the TLS handshake, the clock
  and random numbers (fields of a world or environment record), SHA-2, RSA and Ed25519, X.509, the public suffix
  list, the Unicode tables, HTTP and JSON, the file system, the Starlark interpreter and its parser, and
  the parsers of \<^verbatim>\<open>net/mail\<close> and \<^verbatim>\<open>mime\<close>. Nothing is assumed of them except where a theorem says so.

  Not modelled: the floating-point arithmetic of the classifiers of \<^verbatim>\<open>pkg/ml\<close>, the programs of \<^verbatim>\<open>cmd/mailscript\<close> that
  only read flags and print (\<^verbatim>\<open>main\<close>, \<^verbatim>\<open>repl\<close>, \<^verbatim>\<open>inspect\<close>, \<^verbatim>\<open>verify\<close>), the generated protocol buffers, the HTTP and JSON
  of the clients of remote services, the texts of log lines and of the findings, and the locks, which appear
  only as the granularity of the events in \<open>Lifecycle\<close>.
\<close>

end
